(* ===== verification/Prelude.thy ===== *)
theory Prelude
  imports Main "HOL-Library.Word"
begin

text \<open>
  The prelude of the development: the Go types the sources use (bytes, fixed-width
  integers, byte slices), the outcome of a Go call, the state-and-outcome monad in which
  stateful functions are written, the slice primitives with their run-time panics, and the
  part of \<^verbatim>\<open>encoding/binary\<close> the sources call. Every lemma that more than one component
  needs is here, in one of the collections below or in the simpset.
\<close>

section \<open>Collections of facts\<close>

named_theorems go_simps
  \<open>symbolic execution of the outcome monad\<close>

named_theorems codec_simps
  \<open>evaluation of slice reads and writes on concatenated buffers\<close>

named_theorems db_simps
  \<open>effect of a database operation on the view of the store\<close>

section \<open>Go types\<close>

type_synonym byte = "8 word"
type_synonym bytes = "byte list"
type_synonym u32 = "32 word"
type_synonym u64 = "64 word"

text \<open>A Go string is an immutable byte sequence; a literal is its character codes.\<close>

type_synonym gostring = bytes

definition go_string :: "string \<Rightarrow> gostring" where
  "go_string s = map (\<lambda>c. word_of_nat (of_char c)) s"

lemma length_go_string [simp]: "length (go_string s) = length s"
  by (simp add: go_string_def)

lemma of_char_byte_inject:
  "(word_of_nat (of_char c) :: byte) = word_of_nat (of_char d) \<longleftrightarrow> c = d"
proof
  assume "(word_of_nat (of_char c) :: byte) = word_of_nat (of_char d)"
  then have "unat (word_of_nat (of_char c) :: byte) = unat (word_of_nat (of_char d) :: byte)"
    by simp
  moreover have "unat (word_of_nat (of_char x) :: byte) = of_char x" for x :: char
    by (simp add: unsigned_of_nat take_bit_nat_eq_self)
  ultimately show "c = d" by simp
qed simp

lemma go_string_inject [simp]: "go_string s = go_string t \<longleftrightarrow> s = t"
proof
  assume "go_string s = go_string t"
  then show "s = t"
    unfolding go_string_def
    by (induction s arbitrary: t) (auto simp: of_char_byte_inject Cons_eq_map_conv map_eq_Cons_conv)
qed simp

lemma go_string_Nil [simp]: "go_string [] = []" "go_string s = [] \<longleftrightarrow> s = []"
  by (auto simp: go_string_def)

section \<open>Outcomes of a call\<close>

text \<open>
  A call returns a value, returns an \<^verbatim>\<open>error\<close>, panics (a nil dereference or a slice out of
  range), or does not return at all (an endless loop, or an operation on a channel that is
  never served).
\<close>

datatype ('e, 'a) res = Ok 'a | Err 'e | Panic | Hang

fun is_Ok :: "('e, 'a) res \<Rightarrow> bool" where
  "is_Ok (Ok a) = True"
| "is_Ok _ = False"

primrec rbind :: "('e, 'a) res \<Rightarrow> ('a \<Rightarrow> ('e, 'b) res) \<Rightarrow> ('e, 'b) res" where
  "rbind (Ok a) f = f a"
| "rbind (Err e) f = Err e"
| "rbind Panic f = Panic"
| "rbind Hang f = Hang"

primrec map_err :: "('e \<Rightarrow> 'f) \<Rightarrow> ('e, 'a) res \<Rightarrow> ('f, 'a) res" where
  "map_err h (Ok a) = Ok a"
| "map_err h (Err e) = Err (h e)"
| "map_err h Panic = Panic"
| "map_err h Hang = Hang"

lemma rbind_eq_Ok: "rbind m f = Ok b \<longleftrightarrow> (\<exists>a. m = Ok a \<and> f a = Ok b)"
  by (cases m) auto

lemma rbind_assoc: "rbind (rbind m f) g = rbind m (\<lambda>a. rbind (f a) g)"
  by (cases m) auto

lemma rbind_cong [fundef_cong]:
  "m = m' \<Longrightarrow> (\<And>a. m' = Ok a \<Longrightarrow> f a = f' a) \<Longrightarrow> rbind m f = rbind m' f'"
  by (cases m') auto

lemma is_Ok_iff: "is_Ok r \<longleftrightarrow> (\<exists>a. r = Ok a)"
  by (cases r) auto

lemma map_err_eq_Ok [simp]: "map_err h m = Ok a \<longleftrightarrow> m = Ok a"
  by (cases m) auto

section \<open>State and outcome\<close>

text \<open>
  A stateful function takes the state and returns its outcome with the state it leaves,
  also when it fails: an error does not undo the writes made before it.
\<close>

type_synonym ('s, 'e, 'a) prog = "'s \<Rightarrow> ('e, 'a) res \<times> 's"

definition ret :: "'a \<Rightarrow> ('s, 'e, 'a) prog" where
  "ret a = (\<lambda>s. (Ok a, s))"

definition raise :: "'e \<Rightarrow> ('s, 'e, 'a) prog" where
  "raise e = (\<lambda>s. (Err e, s))"

definition panic :: "('s, 'e, 'a) prog" where
  "panic = (\<lambda>s. (Panic, s))"

definition hang :: "('s, 'e, 'a) prog" where
  "hang = (\<lambda>s. (Hang, s))"

definition lift :: "('e, 'a) res \<Rightarrow> ('s, 'e, 'a) prog" where
  "lift r = (\<lambda>s. (r, s))"

definition bnd :: "('s, 'e, 'a) prog \<Rightarrow> ('a \<Rightarrow> ('s, 'e, 'b) prog) \<Rightarrow> ('s, 'e, 'b) prog" where
  "bnd m f = (\<lambda>s. case m s of
      (Ok a, s') \<Rightarrow> f a s'
    | (Err e, s') \<Rightarrow> (Err e, s')
    | (Panic, s') \<Rightarrow> (Panic, s')
    | (Hang, s') \<Rightarrow> (Hang, s'))"

text \<open>\<open>wrap_err\<close> is \<^verbatim>\<open>if err != nil { return h(err) }\<close>; \<open>catch_err\<close> recovers from an error.\<close>

definition wrap_err :: "('e \<Rightarrow> 'e) \<Rightarrow> ('s, 'e, 'a) prog \<Rightarrow> ('s, 'e, 'a) prog" where
  "wrap_err h m = (\<lambda>s. case m s of (r, s') \<Rightarrow> (map_err h r, s'))"

definition catch_err :: "('s, 'e, 'a) prog \<Rightarrow> ('e \<Rightarrow> ('s, 'e, 'a) prog) \<Rightarrow> ('s, 'e, 'a) prog" where
  "catch_err m h = (\<lambda>s. case m s of
      (Ok a, s') \<Rightarrow> (Ok a, s')
    | (Err e, s') \<Rightarrow> h e s'
    | (Panic, s') \<Rightarrow> (Panic, s')
    | (Hang, s') \<Rightarrow> (Hang, s'))"

text \<open>\<^verbatim>\<open>x, err := f()\<close> where the caller looks at \<^verbatim>\<open>err\<close> itself.\<close>

definition attempt :: "('s, 'e, 'a) prog \<Rightarrow> ('s, 'e, 'e + 'a) prog" where
  "attempt m = (\<lambda>s. case m s of
      (Ok a, s') \<Rightarrow> (Ok (Inr a), s')
    | (Err e, s') \<Rightarrow> (Ok (Inl e), s')
    | (Panic, s') \<Rightarrow> (Panic, s')
    | (Hang, s') \<Rightarrow> (Hang, s'))"

definition reads :: "('s \<Rightarrow> 'a) \<Rightarrow> ('s, 'e, 'a) prog" where
  "reads f = (\<lambda>s. (Ok (f s), s))"

definition modify :: "('s \<Rightarrow> 's) \<Rightarrow> ('s, 'e, unit) prog" where
  "modify f = (\<lambda>s. (Ok (), f s))"

text \<open>A method call on a nil interface or pointer panics.\<close>

definition deref :: "'a option \<Rightarrow> ('s, 'e, 'a) prog" where
  "deref x = (case x of None \<Rightarrow> panic | Some a \<Rightarrow> ret a)"

text \<open>A \<^verbatim>\<open>for\<close> loop over a list, stopped by the first call that does not succeed.\<close>

primrec for_each :: "('a \<Rightarrow> ('s, 'e, unit) prog) \<Rightarrow> 'a list \<Rightarrow> ('s, 'e, unit) prog" where
  "for_each f [] = ret ()"
| "for_each f (x # xs) = bnd (f x) (\<lambda>_. for_each f xs)"

text \<open>Running a program on a part of a larger state.\<close>

definition zoom ::
  "('w \<Rightarrow> 's) \<Rightarrow> ('s \<Rightarrow> 'w \<Rightarrow> 'w) \<Rightarrow> ('s, 'e, 'a) prog \<Rightarrow> ('w, 'e, 'a) prog" where
  "zoom get put m = (\<lambda>w. case m (get w) of (r, s') \<Rightarrow> (r, put s' w))"

lemma fst_bnd [go_simps]:
  "fst (bnd m f s) = (case fst (m s) of Ok a \<Rightarrow> fst (f a (snd (m s))) | Err e \<Rightarrow> Err e
     | Panic \<Rightarrow> Panic | Hang \<Rightarrow> Hang)"
  by (simp add: bnd_def split: prod.split res.split)

lemma snd_bnd [go_simps]:
  "snd (bnd m f s) = (case fst (m s) of Ok a \<Rightarrow> snd (f a (snd (m s))) | Err e \<Rightarrow> snd (m s)
     | Panic \<Rightarrow> snd (m s) | Hang \<Rightarrow> snd (m s))"
  by (simp add: bnd_def split: prod.split res.split)

lemma bnd_Ok: "m s = (Ok a, s') \<Longrightarrow> bnd m f s = f a s'"
  by (simp add: bnd_def)

lemma bnd_Err: "m s = (Err e, s') \<Longrightarrow> bnd m f s = (Err e, s')"
  by (simp add: bnd_def)

lemma bnd_Panic: "m s = (Panic, s') \<Longrightarrow> bnd m f s = (Panic, s')"
  by (simp add: bnd_def)

lemma bnd_eq_Ok:
  "bnd m f s = (Ok b, t) \<longleftrightarrow> (\<exists>a s'. m s = (Ok a, s') \<and> f a s' = (Ok b, t))"
  by (auto simp: bnd_def split: prod.splits res.splits)

lemma bnd_assoc: "bnd (bnd m f) g = bnd m (\<lambda>a. bnd (f a) g)"
  by (rule ext) (simp add: bnd_def split: prod.splits res.splits)

lemma ret_simps [go_simps]: "ret a s = (Ok a, s)"
  by (simp add: ret_def)

lemma raise_simps [go_simps]: "raise e s = (Err e, s)"
  by (simp add: raise_def)

lemma panic_simps [go_simps]: "panic s = (Panic, s)"
  by (simp add: panic_def)

lemma hang_simps [go_simps]: "hang s = (Hang, s)"
  by (simp add: hang_def)

lemma lift_simps [go_simps]: "lift r s = (r, s)"
  by (simp add: lift_def)

lemma reads_simps [go_simps]: "reads f s = (Ok (f s), s)"
  by (simp add: reads_def)

lemma modify_simps [go_simps]: "modify f s = (Ok (), f s)"
  by (simp add: modify_def)

lemma deref_simps [go_simps]: "deref (Some a) = ret a" "deref None = panic"
  by (simp_all add: deref_def)

lemma wrap_err_simps [go_simps]:
  "fst (wrap_err h m s) = map_err h (fst (m s))" "snd (wrap_err h m s) = snd (m s)"
  by (simp_all add: wrap_err_def split: prod.split)

lemma catch_err_simps [go_simps]:
  "fst (catch_err m h s) = (case fst (m s) of Ok a \<Rightarrow> Ok a | Err e \<Rightarrow> fst (h e (snd (m s)))
     | Panic \<Rightarrow> Panic | Hang \<Rightarrow> Hang)"
  "snd (catch_err m h s) = (case fst (m s) of Err e \<Rightarrow> snd (h e (snd (m s))) | _ \<Rightarrow> snd (m s))"
  by (simp_all add: catch_err_def split: prod.split res.split)

lemma attempt_simps [go_simps]:
  "fst (attempt m s) = (case fst (m s) of Ok a \<Rightarrow> Ok (Inr a) | Err e \<Rightarrow> Ok (Inl e)
     | Panic \<Rightarrow> Panic | Hang \<Rightarrow> Hang)"
  "snd (attempt m s) = snd (m s)"
  by (simp_all add: attempt_def split: prod.split res.split)

lemma zoom_simps [go_simps]:
  "fst (zoom get put m w) = fst (m (get w))" "snd (zoom get put m w) = put (snd (m (get w))) w"
  by (simp_all add: zoom_def split: prod.split)

lemma prog_eqI: "fst (m s) = r \<Longrightarrow> snd (m s) = t \<Longrightarrow> m s = (r, t)"
  by (cases "m s") simp

text \<open>Every call of a loop succeeds when each call keeps an invariant under which it succeeds.\<close>

lemma for_each_inv:
  assumes "I s" and "\<And>x t. x \<in> set xs \<Longrightarrow> I t \<Longrightarrow> fst (f x t) = Ok () \<and> I (snd (f x t))"
  shows "fst (for_each f xs s) = Ok () \<and> I (snd (for_each f xs s))"
  using assms
proof (induction xs arbitrary: s)
  case Nil
  then show ?case by (simp add: go_simps)
next
  case (Cons x xs)
  then have step: "fst (f x s) = Ok ()" "I (snd (f x s))" by auto
  have "fst (for_each f xs (snd (f x s))) = Ok () \<and> I (snd (for_each f xs (snd (f x s))))"
    by (rule Cons.IH) (use step Cons.prems in auto)
  with step show ?case by (simp add: go_simps)
qed

section \<open>Slices\<close>

text \<open>
  \<open>slice b lo hi\<close> is \<^verbatim>\<open>b[lo:hi]\<close>, which panics unless \<^verbatim>\<open>lo <= hi <= cap(b)\<close>; the buffers of
  the sources have their capacity equal to their length. \<open>copy_into b lo hi src\<close> is
  \<^verbatim>\<open>copy(b[lo:hi], src)\<close>: it copies the shorter of the two lengths.
\<close>

definition slice :: "'a list \<Rightarrow> nat \<Rightarrow> nat \<Rightarrow> ('e, 'a list) res" where
  "slice b lo hi = (if lo \<le> hi \<and> hi \<le> length b then Ok (take (hi - lo) (drop lo b)) else Panic)"

definition copy_into :: "'a list \<Rightarrow> nat \<Rightarrow> nat \<Rightarrow> 'a list \<Rightarrow> ('e, 'a list) res" where
  "copy_into b lo hi src =
     (if lo \<le> hi \<and> hi \<le> length b
      then (let n = min (hi - lo) (length src) in Ok (take lo b @ take n src @ drop (lo + n) b))
      else Panic)"

text \<open>\<^verbatim>\<open>b[i]\<close> and \<^verbatim>\<open>b[i] = v\<close>, and \<^verbatim>\<open>copy(dst, src)\<close> of whole slices.\<close>

definition index :: "'a list \<Rightarrow> nat \<Rightarrow> ('e, 'a) res" where
  "index b i = (if i < length b then Ok (b ! i) else Panic)"

definition set_index :: "'a list \<Rightarrow> nat \<Rightarrow> 'a \<Rightarrow> ('e, 'a list) res" where
  "set_index b i v = (if i < length b then Ok (b[i := v]) else Panic)"

definition copy_bytes :: "'a list \<Rightarrow> 'a list \<Rightarrow> 'a list" where
  "copy_bytes dst src =
     take (min (length dst) (length src)) src @ drop (min (length dst) (length src)) dst"

definition make_bytes :: "nat \<Rightarrow> bytes" where
  "make_bytes n = replicate n 0"

lemma slice_append [codec_simps]:
  assumes "lo = length pre" and "hi = lo + length mid"
  shows "slice (pre @ mid @ post) lo hi = Ok mid"
  using assms by (simp add: slice_def)

lemma slice_eq_Ok:
  "slice b lo hi = Ok x \<longleftrightarrow> lo \<le> hi \<and> hi \<le> length b \<and> x = take (hi - lo) (drop lo b)"
  by (auto simp: slice_def)

lemma length_slice: "slice b lo hi = Ok x \<Longrightarrow> length x = hi - lo"
  by (auto simp: slice_eq_Ok)

lemma copy_into_zeros [codec_simps]:
  assumes "lo = length pre" and "hi = lo + length src" and "length src \<le> n"
  shows "copy_into (pre @ replicate n 0) lo hi src = Ok (pre @ src @ replicate (n - length src) 0)"
  using assms by (simp add: copy_into_def Let_def)

lemma copy_bytes_same_length [simp]: "length dst = length src \<Longrightarrow> copy_bytes dst src = src"
  by (simp add: copy_bytes_def)

lemma length_copy_bytes [simp]: "length (copy_bytes dst src) = length dst"
  by (simp add: copy_bytes_def)

lemma length_make_bytes [simp]: "length (make_bytes n) = n"
  by (simp add: make_bytes_def)

section \<open>Little-endian and big-endian integers\<close>

text \<open>\<^verbatim>\<open>binary.LittleEndian.PutUint32\<close>, \<^verbatim>\<open>PutUint64\<close>, \<^verbatim>\<open>Uint32\<close>, \<^verbatim>\<open>Uint64\<close> and
  \<^verbatim>\<open>binary.BigEndian.Uint64\<close>. The readers take the first bytes and panic on a shorter slice.\<close>

primrec le_bytes :: "nat \<Rightarrow> 'l::len word \<Rightarrow> bytes" where
  "le_bytes 0 w = []"
| "le_bytes (Suc n) w = ucast w # le_bytes n (drop_bit 8 w)"

definition le32 :: "u32 \<Rightarrow> bytes" where
  "le32 w = le_bytes 4 w"

definition le64 :: "u64 \<Rightarrow> bytes" where
  "le64 w = le_bytes 8 w"

fun le_word :: "bytes \<Rightarrow> 'l::len word" where
  "le_word [] = 0"
| "le_word (b # bs) = or (ucast b) (push_bit 8 (le_word bs))"

definition uint32_le :: "bytes \<Rightarrow> ('e, u32) res" where
  "uint32_le b = (if length b < 4 then Panic else Ok (le_word (take 4 b)))"

definition uint64_le :: "bytes \<Rightarrow> ('e, u64) res" where
  "uint64_le b = (if length b < 8 then Panic else Ok (le_word (take 8 b)))"

definition uint64_be :: "bytes \<Rightarrow> ('e, u64) res" where
  "uint64_be b = (if length b < 8 then Panic else Ok (le_word (rev (take 8 b))))"

lemma length_le_bytes [simp]: "length (le_bytes n w) = n"
  by (induction n arbitrary: w) simp_all

lemma length_le32 [simp]: "length (le32 w) = 4"
  by (simp add: le32_def)

lemma length_le64 [simp]: "length (le64 w) = 8"
  by (simp add: le64_def)

lemma le_word_le_bytes: "le_word (le_bytes n w) = take_bit (8 * n) (w :: 'l::len word)"
proof (induction n arbitrary: w)
  case 0
  then show ?case by simp
next
  case (Suc n)
  show ?case
  proof (rule bit_word_eqI)
    fix i
    assume "i < LENGTH('l)"
    then show "bit (le_word (le_bytes (Suc n) w) :: 'l word) i \<longleftrightarrow> bit (take_bit (8 * Suc n) w) i"
      by (cases "i < 8") (auto simp: Suc bit_simps)
  qed
qed

lemma le_word_le32 [simp]: "le_word (le32 w) = w"
  by (simp add: le32_def le_word_le_bytes take_bit_word_eq_self)

lemma le_word_le64 [simp]: "le_word (le64 w) = w"
  by (simp add: le64_def le_word_le_bytes take_bit_word_eq_self)

lemma uint32_le_le32 [simp]: "uint32_le (le32 w) = Ok w"
  by (simp add: uint32_le_def)

lemma uint64_le_le64 [simp]: "uint64_le (le64 w) = Ok w"
  by (simp add: uint64_le_def)

lemma le32_inject [simp]: "le32 v = le32 w \<longleftrightarrow> v = w"
  by (metis le_word_le32)

lemma le64_inject [simp]: "le64 v = le64 w \<longleftrightarrow> v = w"
  by (metis le_word_le64)

lemma take_bit_le_word: "take_bit (8 * length b) (le_word b) = le_word b"
proof (induction b)
  case (Cons x b)
  show ?case
  proof (rule bit_word_eqI)
    fix i
    have "bit (le_word b :: 'a word) j \<Longrightarrow> j < 8 * length b" for j
      using Cons.IH by (metis bit_take_bit_iff)
    moreover have "bit x j \<Longrightarrow> j < 8" for j
      using bit_imp_le_length [of x j] by simp
    ultimately show "bit (take_bit (8 * length (x # b)) (le_word (x # b)) :: 'a word) i
        \<longleftrightarrow> bit (le_word (x # b) :: 'a word) i"
      by (fastforce simp: bit_simps)
  qed
qed simp

lemma le_bytes_le_word:
  "8 * length b \<le> LENGTH('l) \<Longrightarrow> le_bytes (length b) (le_word b :: 'l::len word) = b"
proof (induction b)
  case (Cons x b)
  have low: "ucast (le_word (x # b) :: 'l word) = x"
    using Cons.prems by (intro bit_word_eqI) (auto simp: bit_simps)
  have "bit (le_word b :: 'l word) j \<Longrightarrow> j < 8 * length b" for j
    using take_bit_le_word [of b, where 'a = 'l] by (metis bit_take_bit_iff)
  then have "drop_bit 8 (le_word (x # b) :: 'l word) = le_word b"
    using Cons.prems bit_imp_le_length [of x] by (intro bit_word_eqI) (fastforce simp: bit_simps)
  with low Cons show ?case by simp
qed simp

lemma le32_le_word: "length b = 4 \<Longrightarrow> le32 (le_word b) = b"
  using le_bytes_le_word [of b, where 'l = 32] by (simp add: le32_def)

text \<open>\<^verbatim>\<open>uint32(len(b))\<close>: the length modulo \<open>2 ^ 32\<close>.\<close>

definition len32 :: "'a list \<Rightarrow> u32" where
  "len32 b = word_of_nat (length b)"

lemma unat_len32 [simp]: "length b < 2 ^ 32 \<Longrightarrow> unat (len32 b) = length b"
  by (simp add: len32_def unsigned_of_nat take_bit_nat_eq_self)

end
