(* ===== verification/Errors.thy ===== *)
theory Errors
  imports Prelude
begin

text \<open>
  The error values of the program: the address manager's error codes
  (\<^verbatim>\<open>waddrmgr/error.go\<close>), the sentinel errors of \<^verbatim>\<open>walletdb/errors.go\<close>, \<^verbatim>\<open>snacl\<close>,
  \<^verbatim>\<open>waddrmgr/address.go\<close> and \<^verbatim>\<open>wallet/loader.go\<close>, the errors of the libraries the sources
  compare against, and the two conversions between them
  (\<^verbatim>\<open>waddrmgr.maybeConvertDbError\<close>, \<^verbatim>\<open>bdb.convertErr\<close>). Human-readable descriptions are
  dropped: no branch of the program depends on them.
\<close>

section \<open>Error codes of the address manager\<close>

datatype ErrorCode =
    ErrDatabase | ErrUpgrade | ErrKeyChain | ErrCrypto | ErrInvalidKeyType | ErrNoExist
  | ErrAlreadyExists | ErrCoinTypeTooHigh | ErrAccountNumTooHigh | ErrLocked | ErrWatchingOnly
  | ErrInvalidAccount | ErrAddressNotFound | ErrAccountNotFound | ErrDuplicateAddress
  | ErrDuplicateAccount | ErrTooManyAddresses | ErrWrongPassphrase | ErrWrongNet
  | ErrCallBackBreak | ErrEmptyPassphrase | ErrScopeNotFound | ErrBirthdayBlockNotSet
  | ErrBlockNotFound | ErrAccountNotCached

text \<open>The constants are numbered by \<^verbatim>\<open>iota\<close>, in the order of their declaration.\<close>

definition all_error_codes :: "ErrorCode list" where
  "all_error_codes =
     [ErrDatabase, ErrUpgrade, ErrKeyChain, ErrCrypto, ErrInvalidKeyType, ErrNoExist,
      ErrAlreadyExists, ErrCoinTypeTooHigh, ErrAccountNumTooHigh, ErrLocked, ErrWatchingOnly,
      ErrInvalidAccount, ErrAddressNotFound, ErrAccountNotFound, ErrDuplicateAddress,
      ErrDuplicateAccount, ErrTooManyAddresses, ErrWrongPassphrase, ErrWrongNet,
      ErrCallBackBreak, ErrEmptyPassphrase, ErrScopeNotFound, ErrBirthdayBlockNotSet,
      ErrBlockNotFound, ErrAccountNotCached]"

fun code_number :: "ErrorCode \<Rightarrow> ErrorCode list \<Rightarrow> nat" where
  "code_number c [] = 0"
| "code_number c (d # ds) = (if c = d then 0 else Suc (code_number c ds))"

text \<open>The map \<^verbatim>\<open>errorCodeStrings\<close>: two of the codes have no entry.\<close>

fun errorCodeStrings :: "ErrorCode \<Rightarrow> string option" where
  "errorCodeStrings ErrDatabase = Some ''ErrDatabase''"
| "errorCodeStrings ErrUpgrade = Some ''ErrUpgrade''"
| "errorCodeStrings ErrKeyChain = Some ''ErrKeyChain''"
| "errorCodeStrings ErrCrypto = Some ''ErrCrypto''"
| "errorCodeStrings ErrInvalidKeyType = Some ''ErrInvalidKeyType''"
| "errorCodeStrings ErrNoExist = Some ''ErrNoExist''"
| "errorCodeStrings ErrAlreadyExists = Some ''ErrAlreadyExists''"
| "errorCodeStrings ErrCoinTypeTooHigh = Some ''ErrCoinTypeTooHigh''"
| "errorCodeStrings ErrAccountNumTooHigh = Some ''ErrAccountNumTooHigh''"
| "errorCodeStrings ErrLocked = Some ''ErrLocked''"
| "errorCodeStrings ErrWatchingOnly = Some ''ErrWatchingOnly''"
| "errorCodeStrings ErrInvalidAccount = Some ''ErrInvalidAccount''"
| "errorCodeStrings ErrAddressNotFound = Some ''ErrAddressNotFound''"
| "errorCodeStrings ErrAccountNotFound = Some ''ErrAccountNotFound''"
| "errorCodeStrings ErrDuplicateAddress = Some ''ErrDuplicateAddress''"
| "errorCodeStrings ErrDuplicateAccount = Some ''ErrDuplicateAccount''"
| "errorCodeStrings ErrTooManyAddresses = Some ''ErrTooManyAddresses''"
| "errorCodeStrings ErrWrongPassphrase = Some ''ErrWrongPassphrase''"
| "errorCodeStrings ErrWrongNet = Some ''ErrWrongNet''"
| "errorCodeStrings ErrCallBackBreak = Some ''ErrCallBackBreak''"
| "errorCodeStrings ErrEmptyPassphrase = Some ''ErrEmptyPassphrase''"
| "errorCodeStrings ErrScopeNotFound = Some ''ErrScopeNotFound''"
| "errorCodeStrings ErrBirthdayBlockNotSet = None"
| "errorCodeStrings ErrBlockNotFound = None"
| "errorCodeStrings ErrAccountNotCached = Some ''ErrAccountNotCached''"

text \<open>Decimal printing, as \<^verbatim>\<open>%d\<close> does for a non-negative number.\<close>

fun show_nat :: "nat \<Rightarrow> string" where
  "show_nat n =
     (if n < 10 then [char_of (48 + n)] else show_nat (n div 10) @ [char_of (48 + n mod 10)])"

declare show_nat.simps [simp del]

definition ErrorCode_String :: "ErrorCode \<Rightarrow> string" where
  "ErrorCode_String e = (case errorCodeStrings e of
      Some s \<Rightarrow> s
    | None \<Rightarrow> ''Unknown ErrorCode ('' @ show_nat (code_number e all_error_codes) @ '')'')"

section \<open>Errors of the other packages\<close>

datatype snacl_error = ErrInvalidPassword | ErrMalformed | ErrDecryptFailed

text \<open>\<^verbatim>\<open>walletdb/errors.go\<close>.\<close>

datatype walletdb_error =
    ErrDbTypeRegistered | ErrDbUnknownType | ErrDbDoesNotExist | ErrDbExists | ErrDbNotOpen
  | ErrDbAlreadyOpen | ErrInvalid | ErrDryRunRollBack | ErrTxClosed | ErrTxNotWritable
  | ErrBucketNotFound | ErrBucketExists | ErrBucketNameRequired | ErrKeyRequired
  | ErrKeyTooLarge | ErrValueTooLarge | ErrIncompatibleValue

text \<open>The errors of \<^verbatim>\<open>go.etcd.io/bbolt\<close> that \<^verbatim>\<open>convertErr\<close> names, and any other.\<close>

datatype bolt_error =
    BoltDatabaseNotOpen | BoltInvalid | BoltTxNotWritable | BoltTxClosed | BoltBucketNotFound
  | BoltBucketExists | BoltBucketNameRequired | BoltKeyRequired | BoltKeyTooLarge
  | BoltValueTooLarge | BoltIncompatibleValue | BoltOther nat

text \<open>The errors of \<^verbatim>\<open>btcutil/hdkeychain\<close> the sources name, and any other.\<close>

datatype hd_error = ErrInvalidChild | ErrUnusableSeed | ErrInvalidSeedLen | HdOther nat

datatype addr_error = ErrPubKeyMismatch | ErrAddrMismatch | ErrInvalidSignature

datatype loader_error = ErrLoaded | ErrNotLoaded | ErrExists

datatype io_error = EOF | ErrUnexpectedEOF | OsNotExist | OsOther nat

text \<open>
  A Go \<^verbatim>\<open>error\<close> value. \<open>ManagerError\<close> keeps the code and the underlying error,
  \<open>Wrapped\<close> is \<^verbatim>\<open>fmt.Errorf\<close> with \<^verbatim>\<open>%w\<close>, \<open>Errorf\<close> an error with only a text. \<open>Fatal\<close> is not a value of
  the code: it is a process that a library ends on the spot with status 1 (\<^verbatim>\<open>log.Fatalf\<close>).
\<close>

datatype go_error =
    ManagerError ErrorCode "go_error option"
  | SnaclError snacl_error
  | WalletdbError walletdb_error
  | BoltError bolt_error
  | HdError hd_error
  | AddrError addr_error
  | LoaderError loader_error
  | IoError io_error
  | LibError nat
  | Wrapped string go_error
  | Errorf string
  | Fatal string

type_synonym 'a result = "(go_error, 'a) res"
type_synonym ('s, 'a) go = "('s, go_error, 'a) prog"

definition managerError :: "ErrorCode \<Rightarrow> go_error option \<Rightarrow> go_error" where
  "managerError c err = ManagerError c err"

text \<open>The caller's view: \<^verbatim>\<open>err.(ManagerError)\<close> and its code.\<close>

fun error_code :: "go_error \<Rightarrow> ErrorCode option" where
  "error_code (ManagerError c err) = Some c"
| "error_code _ = None"

definition maybeConvertDbError :: "go_error \<Rightarrow> go_error" where
  "maybeConvertDbError err = (case err of
      ManagerError c e \<Rightarrow> err
    | _ \<Rightarrow> managerError ErrDatabase (Some err))"

text \<open>\<^verbatim>\<open>walletdb/bdb/db.go\<close>, \<^verbatim>\<open>convertErr\<close>: other errors are returned as they are.\<close>

fun convertErr :: "go_error \<Rightarrow> go_error" where
  "convertErr (BoltError BoltDatabaseNotOpen) = WalletdbError ErrDbNotOpen"
| "convertErr (BoltError BoltInvalid) = WalletdbError ErrInvalid"
| "convertErr (BoltError BoltTxNotWritable) = WalletdbError ErrTxNotWritable"
| "convertErr (BoltError BoltTxClosed) = WalletdbError ErrTxClosed"
| "convertErr (BoltError BoltBucketNotFound) = WalletdbError ErrBucketNotFound"
| "convertErr (BoltError BoltBucketExists) = WalletdbError ErrBucketExists"
| "convertErr (BoltError BoltBucketNameRequired) = WalletdbError ErrBucketNameRequired"
| "convertErr (BoltError BoltKeyRequired) = WalletdbError ErrKeyRequired"
| "convertErr (BoltError BoltKeyTooLarge) = WalletdbError ErrKeyTooLarge"
| "convertErr (BoltError BoltValueTooLarge) = WalletdbError ErrValueTooLarge"
| "convertErr (BoltError BoltIncompatibleValue) = WalletdbError ErrIncompatibleValue"
| "convertErr err = err"

lemma maybeConvertDbError_code:
  "error_code (maybeConvertDbError e) =
     Some (case error_code e of Some c \<Rightarrow> c | None \<Rightarrow> ErrDatabase)"
  by (cases e) (simp_all add: maybeConvertDbError_def managerError_def)

lemma maybeConvertDbError_idem [simp]:
  "maybeConvertDbError (maybeConvertDbError e) = maybeConvertDbError e"
  by (cases e) (simp_all add: maybeConvertDbError_def managerError_def)

lemma error_code_managerError [simp]: "error_code (managerError c e) = Some c"
  by (simp add: managerError_def)

lemma convertErr_bolt_inject [simp]:
  "convertErr (BoltError x) = convertErr (BoltError y) \<longleftrightarrow> x = y"
  by (cases x; cases y) simp_all

lemma convertErr_bolt_not_manager [simp]: "error_code (convertErr (BoltError x)) = None"
  by (cases x) simp_all

lemma convertErr_code [simp]: "error_code (convertErr e) = error_code e"
  by (cases e rule: convertErr.cases) simp_all

lemma convertErr_idem [simp]: "convertErr (convertErr e) = convertErr e"
  by (cases e rule: convertErr.cases) simp_all

section \<open>Names of the error codes\<close>

lemma all_error_codes_complete [simp]: "c \<in> set all_error_codes"
  by (cases c) (simp_all add: all_error_codes_def)

lemma distinct_all_error_codes: "distinct all_error_codes"
  by (simp add: all_error_codes_def)

lemma code_number_inject:
  "c \<in> set ds \<Longrightarrow> d \<in> set ds \<Longrightarrow> code_number c ds = code_number d ds \<longleftrightarrow> c = d"
  by (induction ds) auto

lemma ErrorCode_String_missing:
  "ErrorCode_String ErrBirthdayBlockNotSet = ''Unknown ErrorCode (22)''"
  "ErrorCode_String ErrBlockNotFound = ''Unknown ErrorCode (23)''"
  by code_simp+

lemma distinct_ErrorCode_String: "distinct (map ErrorCode_String all_error_codes)"
  by code_simp

lemma errorCodeStrings_None:
  "errorCodeStrings c = None \<longleftrightarrow> c = ErrBirthdayBlockNotSet \<or> c = ErrBlockNotFound"
  by (cases c) simp_all

lemma ErrorCode_String_inject: "ErrorCode_String c = ErrorCode_String d \<longleftrightarrow> c = d"
  using distinct_ErrorCode_String by (auto simp: distinct_map dest: inj_onD)

end
