(* ===== verification/Codec.thy ===== *)
theory Codec
  imports Errors
begin

text \<open>
  The byte formats of the address manager's database: the serialisers and deserialisers of
  \<^verbatim>\<open>waddrmgr/db.go\<close> and \<^verbatim>\<open>waddrmgr/account_info.go\<close> with the row types they convert. Buffers
  are written the way the code writes them, at 32-bit offsets that wrap around, and every
  slice expression may panic. The round trips that hold are interpretations of the locale
  \<open>row_codec\<close>; three of the formats do not round-trip, which is proved as well.
\<close>

section \<open>Scopes, schemas and small integers\<close>

record KeyScope =
  Purpose :: u32
  Coin :: u32

text \<open>\<^verbatim>\<open>type AddressType uint8\<close> with its constants (\<^verbatim>\<open>waddrmgr/address.go\<close>).\<close>

type_synonym AddressType = byte

definition PubKeyHash :: AddressType where "PubKeyHash = 0"
definition Script :: AddressType where "Script = 1"
definition RawPubKey :: AddressType where "RawPubKey = 2"
definition NestedWitnessPubKey :: AddressType where "NestedWitnessPubKey = 3"
definition WitnessPubKey :: AddressType where "WitnessPubKey = 4"
definition WitnessScript :: AddressType where "WitnessScript = 5"
definition TaprootPubKey :: AddressType where "TaprootPubKey = 6"
definition TaprootScript :: AddressType where "TaprootScript = 7"

lemmas AddressType_defs = PubKeyHash_def Script_def RawPubKey_def NestedWitnessPubKey_def
  WitnessPubKey_def WitnessScript_def TaprootPubKey_def TaprootScript_def

record ScopeAddrSchema =
  ExternalAddrType :: AddressType
  InternalAddrType :: AddressType

type_synonym accountType = byte
definition accountDefault :: accountType where "accountDefault = 0"
definition accountWatchOnly :: accountType where "accountWatchOnly = 1"

type_synonym syncStatus = byte
definition ssNone :: syncStatus where "ssNone = 0"
definition ssPartial :: syncStatus where "ssPartial = 1"
definition ssFull :: syncStatus where "ssFull = 2"

type_synonym addressType = byte
definition adtChain :: addressType where "adtChain = 0"
definition adtImport :: addressType where "adtImport = 1"
definition adtScript :: addressType where "adtScript = 2"
definition adtWitnessScript :: addressType where "adtWitnessScript = 3"
definition adtTaprootScript :: addressType where "adtTaprootScript = 4"

lemmas row_type_defs = accountDefault_def accountWatchOnly_def ssNone_def ssPartial_def ssFull_def
  adtChain_def adtImport_def adtScript_def adtWitnessScript_def adtTaprootScript_def

definition scopeToBytes :: "KeyScope \<Rightarrow> bytes" where
  "scopeToBytes scope = le32 (Purpose scope) @ le32 (Coin scope)"

text \<open>The decoding in \<^verbatim>\<open>forEachKeyScope\<close>.\<close>

definition scopeFromBytes :: "bytes \<Rightarrow> KeyScope result" where
  "scopeFromBytes k =
     rbind (uint32_le k) (\<lambda>purpose.
     rbind (rbind (slice k 4 (length k)) uint32_le) (\<lambda>coin.
     Ok \<lparr>Purpose = purpose, Coin = coin\<rparr>))"

definition scopeSchemaToBytes :: "ScopeAddrSchema \<Rightarrow> bytes" where
  "scopeSchemaToBytes schema = [InternalAddrType schema, ExternalAddrType schema]"

definition scopeSchemaFromBytes :: "bytes \<Rightarrow> ScopeAddrSchema result" where
  "scopeSchemaFromBytes b =
     rbind (index b 0) (\<lambda>i. rbind (index b 1) (\<lambda>e.
     Ok \<lparr>ExternalAddrType = e, InternalAddrType = i\<rparr>))"

definition uint32ToBytes :: "u32 \<Rightarrow> bytes" where
  "uint32ToBytes number = le32 number"

definition stringToBytes :: "gostring \<Rightarrow> bytes" where
  "stringToBytes s = uint32ToBytes (len32 s) @ s"

section \<open>Writing and reading at 32-bit offsets\<close>

text \<open>
  \<^verbatim>\<open>binary.LittleEndian.PutUint32(buf[off:off+4], v)\<close>, \<^verbatim>\<open>copy(buf[off:off+n], src)\<close>,
  \<^verbatim>\<open>binary.LittleEndian.Uint32(raw[off:off+4])\<close> and the pair
  \<^verbatim>\<open>x = make([]byte, n); copy(x, raw[off:off+n])\<close>, with \<^verbatim>\<open>uint32\<close> offsets.
\<close>

definition put_u32 :: "bytes \<Rightarrow> u32 \<Rightarrow> u32 \<Rightarrow> bytes result" where
  "put_u32 buf off v = copy_into buf (unat off) (unat (off + 4)) (le32 v)"

definition put_field :: "bytes \<Rightarrow> u32 \<Rightarrow> u32 \<Rightarrow> bytes \<Rightarrow> bytes result" where
  "put_field buf off n src = copy_into buf (unat off) (unat (off + n)) src"

definition get_u32 :: "bytes \<Rightarrow> u32 \<Rightarrow> u32 result" where
  "get_u32 raw off = rbind (slice raw (unat off) (unat (off + 4))) uint32_le"

definition get_field :: "bytes \<Rightarrow> u32 \<Rightarrow> u32 \<Rightarrow> bytes result" where
  "get_field raw off n =
     rbind (slice raw (unat off) (unat (off + n))) (\<lambda>x. Ok (copy_bytes (make_bytes (unat n)) x))"

section \<open>Account rows\<close>

record dbAccountRow =
  acctType :: accountType
  rawData :: bytes

record dbDefaultAccountRow =
  dar_row :: dbAccountRow
  dar_pubKeyEncrypted :: bytes
  dar_privKeyEncrypted :: bytes
  dar_nextExternalIndex :: u32
  dar_nextInternalIndex :: u32
  dar_name :: gostring

record dbWatchOnlyAccountRow =
  wor_row :: dbAccountRow
  wor_pubKeyEncrypted :: bytes
  wor_masterKeyFingerprint :: u32
  wor_nextExternalIndex :: u32
  wor_nextInternalIndex :: u32
  wor_name :: gostring
  wor_addrSchema :: "ScopeAddrSchema option"

definition serializeAccountRow :: "dbAccountRow \<Rightarrow> bytes result" where
  "serializeAccountRow row =
     (let rdlen = length (rawData row); buf = make_bytes (rdlen + 5) in
      rbind (set_index buf 0 (acctType row)) (\<lambda>buf.
      rbind (copy_into buf 1 5 (le32 (len32 (rawData row)))) (\<lambda>buf.
      copy_into buf 5 (5 + rdlen) (rawData row))))"

definition deserializeAccountRow :: "bytes \<Rightarrow> bytes \<Rightarrow> dbAccountRow result" where
  "deserializeAccountRow accountID serializedAccount =
     (if length serializedAccount < 5 then Err (managerError ErrDatabase None)
      else
        rbind (index serializedAccount 0) (\<lambda>t.
        rbind (rbind (slice serializedAccount 1 5) uint32_le) (\<lambda>rdlen.
        rbind (get_field serializedAccount 5 rdlen) (\<lambda>raw.
        Ok \<lparr>acctType = t, rawData = raw\<rparr>))))"

definition serializeDefaultAccountRow ::
  "bytes \<Rightarrow> bytes \<Rightarrow> u32 \<Rightarrow> u32 \<Rightarrow> gostring \<Rightarrow> bytes result" where
  "serializeDefaultAccountRow encryptedPubKey encryptedPrivKey nextExternalIndex nextInternalIndex name =
     (let pubLen = len32 encryptedPubKey;
          privLen = len32 encryptedPrivKey;
          nameLen = len32 name;
          buf = make_bytes (unat (20 + pubLen + privLen + nameLen));
          offset = 4 + pubLen;
          offset2 = offset + 4;
          offset3 = offset2 + privLen;
          offset4 = offset3 + 4;
          offset5 = offset4 + 4;
          offset6 = offset5 + 4
      in
      rbind (put_u32 buf 0 pubLen) (\<lambda>buf.
      rbind (put_field buf 4 pubLen encryptedPubKey) (\<lambda>buf.
      rbind (put_u32 buf offset privLen) (\<lambda>buf.
      rbind (put_field buf offset2 privLen encryptedPrivKey) (\<lambda>buf.
      rbind (put_u32 buf offset3 nextExternalIndex) (\<lambda>buf.
      rbind (put_u32 buf offset4 nextInternalIndex) (\<lambda>buf.
      rbind (put_u32 buf offset5 nameLen) (\<lambda>buf.
      put_field buf offset6 nameLen name))))))))"

definition deserializeDefaultAccountRow ::
  "bytes \<Rightarrow> dbAccountRow \<Rightarrow> dbDefaultAccountRow result" where
  "deserializeDefaultAccountRow accountID row =
     (let raw = rawData row in
      if length raw < 20 then Err (managerError ErrDatabase None)
      else
        rbind (get_u32 raw 0) (\<lambda>pubLen.
        rbind (get_field raw 4 pubLen) (\<lambda>pubKey.
        let offset = 4 + pubLen in
        rbind (get_u32 raw offset) (\<lambda>privLen.
        let offset = offset + 4 in
        rbind (get_field raw offset privLen) (\<lambda>privKey.
        let offset = offset + privLen in
        rbind (get_u32 raw offset) (\<lambda>ext.
        let offset = offset + 4 in
        rbind (get_u32 raw offset) (\<lambda>int.
        let offset = offset + 4 in
        rbind (get_u32 raw offset) (\<lambda>nameLen.
        let offset = offset + 4 in
        rbind (slice raw (unat offset) (unat (offset + nameLen))) (\<lambda>name.
        Ok \<lparr>dar_row = row, dar_pubKeyEncrypted = pubKey, dar_privKeyEncrypted = privKey,
            dar_nextExternalIndex = ext, dar_nextInternalIndex = int, dar_name = name\<rparr>)))))))))"

text \<open>
  The watch-only row is written with \<^verbatim>\<open>binary.Write\<close> into a growing \<^verbatim>\<open>bytes.Buffer\<close>, which
  never fails on these types.
\<close>

definition serializeWatchOnlyAccountRow ::
  "bytes \<Rightarrow> u32 \<Rightarrow> u32 \<Rightarrow> u32 \<Rightarrow> gostring \<Rightarrow> ScopeAddrSchema option \<Rightarrow> bytes result" where
  "serializeWatchOnlyAccountRow encryptedPubKey masterKeyFingerprint nextExternalIndex
      nextInternalIndex name addrSchema =
     (let pubLen = len32 encryptedPubKey;
          nameLen = len32 name;
          addrSchemaExists = (addrSchema \<noteq> None);
          addrSchemaBytes = (case addrSchema of None \<Rightarrow> [] | Some sch \<Rightarrow> scopeSchemaToBytes sch)
      in Ok (le32 pubLen @ encryptedPubKey @ le32 masterKeyFingerprint @ le32 nextExternalIndex
         @ le32 nextInternalIndex @ le32 nameLen @ name
         @ [if addrSchemaExists then 1 else 0] @ addrSchemaBytes))"

text \<open>\<^verbatim>\<open>binary.Read\<close> from a \<^verbatim>\<open>bytes.Reader\<close>: the next bytes and the rest, or the error of \<^verbatim>\<open>io.ReadFull\<close>.\<close>

definition binary_Read :: "nat \<Rightarrow> bytes \<Rightarrow> (bytes \<times> bytes) result" where
  "binary_Read n r =
     (if n \<le> length r then Ok (take n r, drop n r)
      else if r = [] then Err (IoError EOF) else Err (IoError ErrUnexpectedEOF))"

definition read_u32 :: "bytes \<Rightarrow> (u32 \<times> bytes) result" where
  "read_u32 r = rbind (binary_Read 4 r) (\<lambda>(b, r). Ok (le_word b, r))"

text \<open>The reader skips the fingerprint that the writer stores after the public key.\<close>

definition deserializeWatchOnlyAccountRow ::
  "bytes \<Rightarrow> dbAccountRow \<Rightarrow> dbWatchOnlyAccountRow result" where
  "deserializeWatchOnlyAccountRow accountID row =
     (if length (rawData row) < 21 then Err (managerError ErrDatabase None)
      else
        rbind (read_u32 (rawData row)) (\<lambda>(pubLen, r).
        rbind (binary_Read (unat pubLen) r) (\<lambda>(pubKey, r).
        rbind (read_u32 r) (\<lambda>(ext, r).
        rbind (read_u32 r) (\<lambda>(int, r).
        rbind (read_u32 r) (\<lambda>(nameLen, r).
        rbind (binary_Read (unat nameLen) r) (\<lambda>(name, r).
        rbind (binary_Read 1 r) (\<lambda>(existsByte, r).
        rbind (if existsByte \<noteq> [0]
               then rbind (binary_Read 2 r) (\<lambda>(sb, r). rbind (scopeSchemaFromBytes sb) (\<lambda>sch. Ok (Some sch)))
               else Ok None) (\<lambda>schema.
        Ok \<lparr>wor_row = row, wor_pubKeyEncrypted = pubKey, wor_masterKeyFingerprint = 0,
            wor_nextExternalIndex = ext, wor_nextInternalIndex = int, wor_name = name,
            wor_addrSchema = schema\<rparr>)))))))))"

section \<open>Address rows\<close>

record dbAddressRow =
  addrType :: addressType
  account :: u32
  addTime :: u64
  syncStatus :: syncStatus
  addrRawData :: bytes

record dbChainAddressRow =
  car_row :: dbAddressRow
  branch :: u32
  addrIndex :: u32

record dbImportedAddressRow =
  iar_row :: dbAddressRow
  iar_encryptedPubKey :: bytes
  iar_encryptedPrivKey :: bytes

record dbScriptAddressRow =
  sar_row :: dbAddressRow
  sar_encryptedHash :: bytes
  sar_encryptedScript :: bytes

record dbWitnessScriptAddressRow =
  war_row :: dbAddressRow
  war_witnessVersion :: byte
  war_isSecretScript :: bool
  war_encryptedHash :: bytes
  war_encryptedScript :: bytes

text \<open>The buffer of \<^verbatim>\<open>serializeChainedAddress\<close> is made with length 0.\<close>

definition serializeChainedAddress :: "u32 \<Rightarrow> u32 \<Rightarrow> bytes result" where
  "serializeChainedAddress br idx =
     (let buf = make_bytes 0 in
      rbind (copy_into buf 0 4 (le32 br)) (\<lambda>buf.
      copy_into buf 4 8 (le32 idx)))"

definition deserializeChainedAddress :: "dbAddressRow \<Rightarrow> dbChainAddressRow result" where
  "deserializeChainedAddress row =
     (if length (addrRawData row) \<noteq> 8 then Err (managerError ErrDatabase None)
      else
        rbind (get_u32 (addrRawData row) 0) (\<lambda>br.
        rbind (get_u32 (addrRawData row) 4) (\<lambda>idx.
        Ok \<lparr>car_row = row, branch = br, addrIndex = idx\<rparr>)))"

definition serializeImportedAddress :: "bytes \<Rightarrow> bytes \<Rightarrow> bytes result" where
  "serializeImportedAddress encryptedPubKey encryptedPrivKey =
     (let pubLen = len32 encryptedPubKey;
          privLen = len32 encryptedPrivKey;
          buf = make_bytes (unat (8 + pubLen + privLen));
          offset = 4 + pubLen;
          offset2 = offset + 4
      in
      rbind (put_u32 buf 0 pubLen) (\<lambda>buf.
      rbind (put_field buf 4 pubLen encryptedPubKey) (\<lambda>buf.
      rbind (put_u32 buf offset privLen) (\<lambda>buf.
      put_field buf offset2 privLen encryptedPrivKey))))"

definition deserializeImportedAddress :: "dbAddressRow \<Rightarrow> dbImportedAddressRow result" where
  "deserializeImportedAddress row =
     (let raw = addrRawData row in
      if length raw < 8 then Err (managerError ErrDatabase None)
      else
        rbind (get_u32 raw 0) (\<lambda>pubLen.
        rbind (get_field raw 4 pubLen) (\<lambda>pubKey.
        let offset = 4 + pubLen in
        rbind (get_u32 raw offset) (\<lambda>privLen.
        let offset = offset + 4 in
        rbind (get_field raw offset privLen) (\<lambda>privKey.
        Ok \<lparr>iar_row = row, iar_encryptedPubKey = pubKey, iar_encryptedPrivKey = privKey\<rparr>)))))"

definition serializeScriptAddress :: "bytes \<Rightarrow> bytes \<Rightarrow> bytes result" where
  "serializeScriptAddress encryptedHash encryptedScript =
     (let hashLen = len32 encryptedHash;
          scriptLen = len32 encryptedScript;
          buf = make_bytes (unat (8 + hashLen + scriptLen));
          offset = 4 + hashLen;
          offset2 = offset + 4
      in
      rbind (put_u32 buf 0 hashLen) (\<lambda>buf.
      rbind (put_field buf 4 hashLen encryptedHash) (\<lambda>buf.
      rbind (put_u32 buf offset scriptLen) (\<lambda>buf.
      put_field buf offset2 scriptLen encryptedScript))))"

definition deserializeScriptAddress :: "dbAddressRow \<Rightarrow> dbScriptAddressRow result" where
  "deserializeScriptAddress row =
     (let raw = addrRawData row in
      if length raw < 8 then Err (managerError ErrDatabase None)
      else
        rbind (get_u32 raw 0) (\<lambda>hashLen.
        rbind (get_field raw 4 hashLen) (\<lambda>hash.
        let offset = 4 + hashLen in
        rbind (get_u32 raw offset) (\<lambda>scriptLen.
        let offset = offset + 4 in
        rbind (get_field raw offset scriptLen) (\<lambda>script.
        Ok \<lparr>sar_row = row, sar_encryptedHash = hash, sar_encryptedScript = script\<rparr>)))))"

definition serializeWitnessScriptAddress ::
  "byte \<Rightarrow> bool \<Rightarrow> bytes \<Rightarrow> bytes \<Rightarrow> bytes result" where
  "serializeWitnessScriptAddress witnessVersion isSecretScript encryptedHash encryptedScript =
     (let hashLen = len32 encryptedHash;
          scriptLen = len32 encryptedScript;
          buf = make_bytes (unat (10 + hashLen + scriptLen));
          offset = 6 + hashLen;
          offset2 = offset + 4
      in
      rbind (set_index buf 0 witnessVersion) (\<lambda>buf.
      rbind (if isSecretScript then set_index buf 1 1 else Ok buf) (\<lambda>buf.
      rbind (put_u32 buf 2 hashLen) (\<lambda>buf.
      rbind (put_field buf 6 hashLen encryptedHash) (\<lambda>buf.
      rbind (put_u32 buf offset scriptLen) (\<lambda>buf.
      put_field buf offset2 scriptLen encryptedScript))))))"

definition deserializeWitnessScriptAddress :: "dbAddressRow \<Rightarrow> dbWitnessScriptAddressRow result" where
  "deserializeWitnessScriptAddress row =
     (let raw = addrRawData row in
      if length raw < 10 then Err (managerError ErrDatabase None)
      else
        rbind (index raw 0) (\<lambda>version.
        rbind (index raw 1) (\<lambda>secret.
        rbind (get_u32 raw 2) (\<lambda>hashLen.
        rbind (get_field raw 6 hashLen) (\<lambda>hash.
        let offset = 6 + hashLen in
        rbind (get_u32 raw offset) (\<lambda>scriptLen.
        let offset = offset + 4 in
        rbind (get_field raw offset scriptLen) (\<lambda>script.
        Ok \<lparr>war_row = row, war_witnessVersion = version, war_isSecretScript = (secret = 1),
            war_encryptedHash = hash, war_encryptedScript = script\<rparr>)))))))"

definition serializeAddressRow :: "dbAddressRow \<Rightarrow> bytes result" where
  "serializeAddressRow row =
     (let rdlen = length (addrRawData row); buf = make_bytes (18 + rdlen) in
      rbind (set_index buf 0 (addrType row)) (\<lambda>buf.
      rbind (copy_into buf 1 5 (le32 (account row))) (\<lambda>buf.
      rbind (copy_into buf 5 13 (le64 (addTime row))) (\<lambda>buf.
      rbind (set_index buf 13 (syncStatus row)) (\<lambda>buf.
      rbind (copy_into buf 14 18 (le32 (len32 (addrRawData row)))) (\<lambda>buf.
      copy_into buf 18 (18 + rdlen) (addrRawData row)))))))"

definition deserializeAddressRow :: "bytes \<Rightarrow> dbAddressRow result" where
  "deserializeAddressRow b =
     (if length b \<noteq> 18 then Err (managerError ErrDatabase None)
      else
        rbind (index b 0) (\<lambda>t.
        rbind (rbind (slice b 1 5) uint32_le) (\<lambda>acct.
        rbind (rbind (slice b 5 13) uint64_le) (\<lambda>time.
        rbind (index b 13) (\<lambda>status.
        rbind (rbind (slice b 14 18) uint32_le) (\<lambda>rdlen.
        rbind (get_field b 18 rdlen) (\<lambda>raw.
        Ok \<lparr>addrType = t, account = acct, addTime = time, syncStatus = status,
            addrRawData = raw\<rparr>)))))))"

text \<open>The dynamic types that \<^verbatim>\<open>fetchAccountInfo\<close> and \<^verbatim>\<open>fetchAddressByHash\<close> return as \<^verbatim>\<open>interface{}\<close>.\<close>

datatype accountRow = DefaultRow dbDefaultAccountRow | WatchOnlyRow dbWatchOnlyAccountRow

datatype addressRow =
    ChainRow dbChainAddressRow
  | ImportedRow dbImportedAddressRow
  | ScriptRow dbScriptAddressRow
  | WitnessScriptRow dbWitnessScriptAddressRow

section \<open>What the writers produce\<close>

text \<open>A length-prefixed field.\<close>

definition field :: "bytes \<Rightarrow> bytes" where
  "field x = le32 (len32 x) @ x"

lemma length_field [simp]: "length (field x) = 4 + length x"
  by (simp add: field_def)

lemma unat_plus32: "unat x + unat y < 2 ^ 32 \<Longrightarrow> unat (x + y :: u32) = unat x + unat y"
  by (simp add: unat_plus_if')

lemma set_index_zeros:
  assumes "i = length pre" and "0 < n"
  shows "set_index (pre @ replicate n 0) i v = Ok ((pre @ [v]) @ replicate (n - 1) 0)"
  using assms by (cases n) (simp_all add: set_index_def)

lemma copy_into_zeros_left:
  assumes "lo = length pre" and "hi = lo + length src" and "length src \<le> n"
  shows "copy_into (pre @ replicate n 0) lo hi src = Ok ((pre @ src) @ replicate (n - length src) 0)"
  using copy_into_zeros [OF assms] by simp

lemma make_bytes_zeros: "make_bytes n = [] @ replicate n 0"
  by (simp add: make_bytes_def)

lemma put_u32_zeros:
  assumes "unat off = length pre" and "4 \<le> n" and "length pre + n < 2 ^ 32"
  shows "put_u32 (pre @ replicate n 0) off v = Ok ((pre @ le32 v) @ replicate (n - 4) 0)"
  using assms by (simp add: put_u32_def unat_plus32 copy_into_zeros)

lemma put_field_zeros:
  assumes "unat off = length pre" and "unat m = length src" and "length src \<le> n"
    and "length pre + n < 2 ^ 32"
  shows "put_field (pre @ replicate n 0) off m src = Ok ((pre @ src) @ replicate (n - length src) 0)"
  using assms by (simp add: put_field_def unat_plus32 copy_into_zeros)

lemmas write_simps = Let_def make_bytes_zeros put_u32_zeros put_field_zeros set_index_zeros
  copy_into_zeros_left unat_plus32 field_def

lemma serializeAccountRow_bytes:
  "serializeAccountRow row = Ok (acctType row # field (rawData row))"
  unfolding serializeAccountRow_def by (simp add: write_simps del: append_assoc append_Nil)

lemma serializeDefaultAccountRow_bytes:
  assumes "length pub + length priv + length name + 20 < 2 ^ 32"
  shows "serializeDefaultAccountRow pub priv ext itn name =
    Ok (field pub @ field priv @ le32 ext @ le32 itn @ field name)"
  unfolding serializeDefaultAccountRow_def using assms
  by (simp add: write_simps del: append_assoc append_Nil)

lemma serializeWatchOnlyAccountRow_bytes:
  "serializeWatchOnlyAccountRow pub fp ext itn name schema =
    Ok (field pub @ le32 fp @ le32 ext @ le32 itn @ field name
      @ (case schema of None \<Rightarrow> [0] | Some sch \<Rightarrow> 1 # scopeSchemaToBytes sch))"
  by (simp add: serializeWatchOnlyAccountRow_def field_def split: option.split)

lemma serializeImportedAddress_bytes:
  assumes "length pub + length priv + 8 < 2 ^ 32"
  shows "serializeImportedAddress pub priv = Ok (field pub @ field priv)"
  unfolding serializeImportedAddress_def using assms
  by (simp add: write_simps del: append_assoc append_Nil)

lemma serializeScriptAddress_bytes:
  assumes "length hash + length script + 8 < 2 ^ 32"
  shows "serializeScriptAddress hash script = Ok (field hash @ field script)"
  unfolding serializeScriptAddress_def using assms
  by (simp add: write_simps del: append_assoc append_Nil)

lemma set_zero_byte:
  assumes "i = length pre" and "0 < n"
  shows "(if c then set_index (pre @ replicate n 0) i v else Ok (pre @ replicate n 0)) =
    Ok ((pre @ [if c then v else 0]) @ replicate (n - 1) 0)"
  using assms by (cases n) (simp_all add: set_index_def)

lemma serializeWitnessScriptAddress_bytes:
  assumes "length hash + length script + 10 < 2 ^ 32"
  shows "serializeWitnessScriptAddress ver secret hash script =
    Ok ([ver, if secret then 1 else 0] @ field hash @ field script)"
  unfolding serializeWitnessScriptAddress_def using assms
  by (simp add: write_simps set_zero_byte del: append_assoc append_Nil append_Cons split del: if_split)

lemma serializeAddressRow_bytes:
  "serializeAddressRow row =
     Ok (addrType row # le32 (account row) @ le64 (addTime row) @ syncStatus row
       # field (addrRawData row))"
  unfolding serializeAddressRow_def by (simp add: write_simps del: append_assoc append_Nil)

section \<open>What the readers return on it\<close>

lemma get_u32_drop:
  assumes "unat off + 4 \<le> length raw" and "length raw < 2 ^ 32"
  shows "get_u32 raw off = Ok (le_word (take 4 (drop (unat off) raw)))"
  using assms by (simp add: get_u32_def unat_plus32 slice_def uint32_le_def)

lemma get_field_drop:
  assumes "unat off + unat m \<le> length raw" and "length raw < 2 ^ 32"
  shows "get_field raw off m = Ok (take (unat m) (drop (unat off) raw))"
  using assms by (simp add: get_field_def unat_plus32 slice_def)

lemma get_field_short:
  assumes "length raw < unat off + unat m" and "unat off + unat m < 2 ^ 32"
  shows "get_field raw off m = Panic"
  using assms by (simp add: get_field_def unat_plus32 slice_def)

lemmas read_simps = Let_def get_u32_drop get_field_drop unat_plus32 slice_def index_def field_def
  drop_Cons' uint32_le_def uint64_le_def

lemma deserializeAccountRow_bytes:
  assumes "length raw + 5 < 2 ^ 32"
  shows "deserializeAccountRow accountID (t # field raw) = Ok \<lparr>acctType = t, rawData = raw\<rparr>"
  using assms unfolding deserializeAccountRow_def by (simp add: read_simps)

lemma deserializeDefaultAccountRow_bytes:
  assumes "length pub + length priv + length name + 20 < 2 ^ 32"
    and "row = \<lparr>acctType = t, rawData = field pub @ field priv @ le32 ext @ le32 itn @ field name\<rparr>"
  shows "deserializeDefaultAccountRow accountID row =
    Ok \<lparr>dar_row = row, dar_pubKeyEncrypted = pub, dar_privKeyEncrypted = priv,
        dar_nextExternalIndex = ext, dar_nextInternalIndex = itn, dar_name = name\<rparr>"
  using assms unfolding deserializeDefaultAccountRow_def by (simp add: read_simps)

lemma deserializeImportedAddress_bytes:
  assumes "length pub + length priv + 8 < 2 ^ 32" and "addrRawData row = field pub @ field priv"
  shows "deserializeImportedAddress row =
    Ok \<lparr>iar_row = row, iar_encryptedPubKey = pub, iar_encryptedPrivKey = priv\<rparr>"
  using assms unfolding deserializeImportedAddress_def by (simp add: read_simps)

lemma deserializeScriptAddress_bytes:
  assumes "length hash + length script + 8 < 2 ^ 32" and "addrRawData row = field hash @ field script"
  shows "deserializeScriptAddress row =
    Ok \<lparr>sar_row = row, sar_encryptedHash = hash, sar_encryptedScript = script\<rparr>"
  using assms unfolding deserializeScriptAddress_def by (simp add: read_simps)

lemma deserializeWitnessScriptAddress_bytes:
  assumes "length hash + length script + 10 < 2 ^ 32"
    and "addrRawData row = [ver, if secret then 1 else 0] @ field hash @ field script"
  shows "deserializeWitnessScriptAddress row =
    Ok \<lparr>war_row = row, war_witnessVersion = ver, war_isSecretScript = secret,
        war_encryptedHash = hash, war_encryptedScript = script\<rparr>"
  using assms unfolding deserializeWitnessScriptAddress_def by (simp add: read_simps)

lemma scopeFromBytes_scopeToBytes [simp]: "scopeFromBytes (scopeToBytes scope) = Ok scope"
  by (simp add: scopeFromBytes_def scopeToBytes_def uint32_le_def slice_def)

lemma scopeToBytes_inject [simp]: "scopeToBytes a = scopeToBytes b \<longleftrightarrow> a = b"
  by (metis scopeFromBytes_scopeToBytes res.inject(1))

lemma length_scopeToBytes [simp]: "length (scopeToBytes scope) = 8"
  by (simp add: scopeToBytes_def)

lemma scopeSchema_roundtrip [simp]: "scopeSchemaFromBytes (scopeSchemaToBytes sch) = Ok sch"
  by (simp add: scopeSchemaFromBytes_def scopeSchemaToBytes_def index_def)

lemma length_uint32ToBytes [simp]: "length (uint32ToBytes n) = 4"
  by (simp add: uint32ToBytes_def)

lemma uint32ToBytes_inject [simp]: "uint32ToBytes m = uint32ToBytes n \<longleftrightarrow> m = n"
  by (simp add: uint32ToBytes_def)

lemma uint32_le_uint32ToBytes [simp]: "uint32_le (uint32ToBytes n) = Ok n"
  by (simp add: uint32ToBytes_def)

lemma length_stringToBytes [simp]: "length (stringToBytes s) = 4 + length s"
  by (simp add: stringToBytes_def)

lemma stringToBytes_inject [simp]: "stringToBytes s = stringToBytes t \<longleftrightarrow> s = t"
  by (auto simp: stringToBytes_def append_eq_append_conv)

lemma bytes_not_Nil [simp]:
  "scopeToBytes scope \<noteq> []" "uint32ToBytes n \<noteq> []" "stringToBytes s \<noteq> []" "field x \<noteq> []"
  by (metis length_scopeToBytes length_uint32ToBytes length_stringToBytes length_field
      list.size(3) zero_neq_numeral add_is_0)+

section \<open>Codecs\<close>

text \<open>
  A pair of a writer and a reader on the rows that fit the format: the writer succeeds and
  the reader gives the row back. Then the bytes determine the row.
\<close>

locale row_codec =
  fixes enc :: "'r \<Rightarrow> bytes result" and dec :: "bytes \<Rightarrow> 'r result" and fits :: "'r \<Rightarrow> bool"
  assumes roundtrip: "fits r \<Longrightarrow> \<exists>b. enc r = Ok b \<and> dec b = Ok r"
begin

lemma dec_enc: "fits r \<Longrightarrow> rbind (enc r) dec = Ok r"
  using roundtrip by fastforce

lemma enc_total: "fits r \<Longrightarrow> is_Ok (enc r)"
  using roundtrip by fastforce

lemma enc_inject: "fits r \<Longrightarrow> fits r' \<Longrightarrow> enc r = enc r' \<longleftrightarrow> r = r'"
  using dec_enc by (metis res.inject(1))

end

text \<open>
  The default account row as it is stored: the payload inside the typed row, the way
  \<^verbatim>\<open>putDefaultAccountInfo\<close> and \<^verbatim>\<open>fetchAccountInfo\<close> compose the functions.
\<close>

type_synonym default_fields = "bytes \<times> bytes \<times> u32 \<times> u32 \<times> gostring"

fun encode_default_account :: "default_fields \<Rightarrow> bytes result" where
  "encode_default_account (pub, priv, ext, itn, name) =
     rbind (serializeDefaultAccountRow pub priv ext itn name) (\<lambda>raw.
     serializeAccountRow \<lparr>acctType = accountDefault, rawData = raw\<rparr>)"

definition decode_default_account :: "bytes \<Rightarrow> bytes \<Rightarrow> default_fields result" where
  "decode_default_account accountID b =
     rbind (deserializeAccountRow accountID b) (\<lambda>row.
     rbind (deserializeDefaultAccountRow accountID row) (\<lambda>r.
     Ok (dar_pubKeyEncrypted r, dar_privKeyEncrypted r, dar_nextExternalIndex r,
         dar_nextInternalIndex r, dar_name r)))"

fun default_fits :: "default_fields \<Rightarrow> bool" where
  "default_fits (pub, priv, ext, itn, name) \<longleftrightarrow> length pub + length priv + length name + 25 < 2 ^ 32"

interpretation account_row: row_codec serializeAccountRow "deserializeAccountRow accountID"
    "\<lambda>row. length (rawData row) + 5 < 2 ^ 32"
  by unfold_locales (simp add: serializeAccountRow_bytes deserializeAccountRow_bytes)

interpretation default_account: row_codec encode_default_account "decode_default_account accountID"
    default_fits
proof unfold_locales
  fix r
  assume "default_fits r"
  then show "\<exists>b. encode_default_account r = Ok b \<and> decode_default_account accountID b = Ok r"
    by (cases r) (simp add: serializeDefaultAccountRow_bytes serializeAccountRow_bytes
        decode_default_account_def deserializeAccountRow_bytes deserializeDefaultAccountRow_bytes [OF _ refl])
qed

interpretation imported_address: row_codec "\<lambda>(pub, priv). serializeImportedAddress pub priv"
    "\<lambda>b. rbind (deserializeImportedAddress (row\<lparr>addrRawData := b\<rparr>)) (\<lambda>r.
       Ok (iar_encryptedPubKey r, iar_encryptedPrivKey r))"
    "\<lambda>(pub, priv). length pub + length priv + 8 < 2 ^ 32"
  by unfold_locales (auto simp: serializeImportedAddress_bytes deserializeImportedAddress_bytes)

interpretation script_address: row_codec "\<lambda>(hash, script). serializeScriptAddress hash script"
    "\<lambda>b. rbind (deserializeScriptAddress (row\<lparr>addrRawData := b\<rparr>)) (\<lambda>r.
       Ok (sar_encryptedHash r, sar_encryptedScript r))"
    "\<lambda>(hash, script). length hash + length script + 8 < 2 ^ 32"
  by unfold_locales (auto simp: serializeScriptAddress_bytes deserializeScriptAddress_bytes)

interpretation witness_address: row_codec
    "\<lambda>(ver, secret, hash, script). serializeWitnessScriptAddress ver secret hash script"
    "\<lambda>b. rbind (deserializeWitnessScriptAddress (row\<lparr>addrRawData := b\<rparr>)) (\<lambda>r.
       Ok (war_witnessVersion r, war_isSecretScript r, war_encryptedHash r, war_encryptedScript r))"
    "\<lambda>(ver, secret, hash, script). length hash + length script + 10 < 2 ^ 32"
  by unfold_locales
    (auto simp del: append_Cons
      simp: serializeWitnessScriptAddress_bytes deserializeWitnessScriptAddress_bytes)

section \<open>Properties\<close>

text \<open>C29: what is stored for a default account is read back as it was, and two accounts with the
  same stored bytes have the same fields.\<close>

theorem codec_default_account_roundtrip:
  assumes "default_fits r"
  shows "rbind (encode_default_account r) (decode_default_account accountID) = Ok r
    \<and> (default_fits r' \<longrightarrow> encode_default_account r = encode_default_account r' \<longrightarrow> r = r')"
  using assms default_account.dec_enc default_account.enc_inject by blast

definition example_account :: default_fields where
  "example_account = ([1, 2, 3], [4, 5], 7, 9, go_string ''default'')"

theorem codec_default_account_roundtrip_witness:
  "rbind (encode_default_account example_account) (decode_default_account [0, 0, 0, 0])
     = Ok example_account"
proof -
  have "default_fits example_account" by (simp add: example_account_def)
  then show ?thesis using codec_default_account_roundtrip by blast
qed

text \<open>The payloads of imported, script and witness script addresses are read back as they
  were written.\<close>

lemma codec_address_payload_roundtrip:
  assumes "length a + length b + 10 < 2 ^ 32"
  shows "(\<exists>raw. serializeImportedAddress a b = Ok raw
      \<and> deserializeImportedAddress (row\<lparr>addrRawData := raw\<rparr>)
        = Ok \<lparr>iar_row = row\<lparr>addrRawData := raw\<rparr>, iar_encryptedPubKey = a, iar_encryptedPrivKey = b\<rparr>)
    \<and> (\<exists>raw. serializeScriptAddress a b = Ok raw
      \<and> deserializeScriptAddress (row\<lparr>addrRawData := raw\<rparr>)
        = Ok \<lparr>sar_row = row\<lparr>addrRawData := raw\<rparr>, sar_encryptedHash = a, sar_encryptedScript = b\<rparr>)
    \<and> (\<exists>raw. serializeWitnessScriptAddress ver secret a b = Ok raw
      \<and> deserializeWitnessScriptAddress (row\<lparr>addrRawData := raw\<rparr>)
        = Ok \<lparr>war_row = row\<lparr>addrRawData := raw\<rparr>, war_witnessVersion = ver,
            war_isSecretScript = secret, war_encryptedHash = a, war_encryptedScript = b\<rparr>)"
  using assms
  by (simp del: append_Cons add: serializeImportedAddress_bytes deserializeImportedAddress_bytes
      serializeScriptAddress_bytes deserializeScriptAddress_bytes
      serializeWitnessScriptAddress_bytes deserializeWitnessScriptAddress_bytes)

definition example_address_row :: dbAddressRow where
  "example_address_row =
     \<lparr>addrType = adtScript, account = 1, addTime = 2, syncStatus = ssFull, addrRawData = []\<rparr>"

lemma codec_address_payload_roundtrip_example:
  "\<exists>raw. serializeScriptAddress [1] [2, 3] = Ok raw
      \<and> deserializeScriptAddress (example_address_row\<lparr>addrRawData := raw\<rparr>)
        = Ok \<lparr>sar_row = example_address_row\<lparr>addrRawData := raw\<rparr>, sar_encryptedHash = [1],
             sar_encryptedScript = [2, 3]\<rparr>"
proof -
  have "length [1 :: byte] + length [2 :: byte, 3] + 10 < 2 ^ 32" by simp
  from codec_address_payload_roundtrip [OF this] show ?thesis by blast
qed

text \<open>Database keys identify what they stand for. Scope keys are 8 bytes and determine
  the scope, account keys 4 bytes and determine the number, name keys determine the name.\<close>

lemma codec_keys_injective:
  "(scopeToBytes s = scopeToBytes s' \<longleftrightarrow> s = s') \<and> scopeFromBytes (scopeToBytes s) = Ok s
   \<and> length (scopeToBytes s) = 8
   \<and> (uint32ToBytes n = uint32ToBytes n' \<longleftrightarrow> n = n') \<and> uint32_le (uint32ToBytes n) = (Ok n :: u32 result)
   \<and> (stringToBytes name = stringToBytes name' \<longleftrightarrow> name = name')
   \<and> scopeSchemaFromBytes (scopeSchemaToBytes sch) = Ok sch"
  by simp

text \<open>An address row that carries a payload can be written but not read: the reader
  accepts 18 bytes only, the length of a row without payload. A chained address cannot be
  written at all, its serialiser slices an empty buffer.\<close>

lemma codec_address_row_unreadable:
  "(addrRawData row \<noteq> [] \<longrightarrow>
      rbind (serializeAddressRow row) deserializeAddressRow = Err (managerError ErrDatabase None))
   \<and> (addrRawData row = [] \<longrightarrow> rbind (serializeAddressRow row) deserializeAddressRow = Ok row)
   \<and> serializeChainedAddress br idx = Panic"
proof (intro conjI impI)
  show "serializeChainedAddress br idx = Panic"
    by (simp add: serializeChainedAddress_def copy_into_def make_bytes_def)
  show "rbind (serializeAddressRow row) deserializeAddressRow = Err (managerError ErrDatabase None)"
    if "addrRawData row \<noteq> []"
    using that by (simp add: serializeAddressRow_bytes deserializeAddressRow_def)
  show "rbind (serializeAddressRow row) deserializeAddressRow = Ok row" if "addrRawData row = []"
    using that by (simp add: serializeAddressRow_bytes deserializeAddressRow_def read_simps len32_def nth_append)
qed

lemma codec_address_row_unreadable_example:
  "rbind (serializeAddressRow (example_address_row\<lparr>addrRawData := [7]\<rparr>)) deserializeAddressRow
     = Err (managerError ErrDatabase None)"
proof -
  have "addrRawData (example_address_row\<lparr>addrRawData := [7]\<rparr>) \<noteq> []" by simp
  then show ?thesis using codec_address_row_unreadable by blast
qed

lemma binary_Read_append [simp]: "binary_Read (length x) (x @ r) = Ok (x, r)"
  by (simp add: binary_Read_def)

lemma read_u32_le32 [simp]: "read_u32 (le32 w @ r) = Ok (w, r)"
  using binary_Read_append [of "le32 w" r] by (simp add: read_u32_def)

lemma deserializeWatchOnly_fields:
  assumes "length pub < 2 ^ 32"
    and "deserializeWatchOnlyAccountRow accountID
      \<lparr>acctType = t, rawData = field pub @ le32 fp @ le32 ext @ rest\<rparr> = Ok r"
  shows "wor_pubKeyEncrypted r = pub \<and> wor_masterKeyFingerprint r = 0
    \<and> wor_nextExternalIndex r = fp \<and> wor_nextInternalIndex r = ext"
  using assms
  by (auto simp: deserializeWatchOnlyAccountRow_def field_def rbind_eq_Ok split: if_splits)

lemma deserializeWatchOnly_fresh:
  assumes "length pub < 2 ^ 32" and "0 < length name" and "length name < 256"
  shows "deserializeWatchOnlyAccountRow accountID
      \<lparr>acctType = t, rawData = field pub @ le32 fp @ le32 ext @ le32 0 @ field name @ rest\<rparr> =
    Ok \<lparr>wor_row = \<lparr>acctType = t,
             rawData = field pub @ le32 fp @ le32 ext @ le32 0 @ field name @ rest\<rparr>,
        wor_pubKeyEncrypted = pub, wor_masterKeyFingerprint = 0, wor_nextExternalIndex = fp,
        wor_nextInternalIndex = ext, wor_name = [],
        wor_addrSchema = Some \<lparr>ExternalAddrType = 0, InternalAddrType = 0\<rparr>\<rparr>"
proof -
  have len: "le32 (len32 name) = [word_of_nat (length name), 0, 0, 0]"
  proof -
    have *: "drop_bit 8 (len32 name) = 0"
      using assms by (simp add: word_unat_eq_iff unat_drop_bit_eq)
        (simp add: drop_bit_eq_div)
    have low: "(ucast (len32 name) :: byte) = word_of_nat (length name)"
      using assms by (simp add: len32_def unsigned_of_nat take_bit_nat_eq_self)
    have "le32 (len32 name) = ucast (len32 name) # le_bytes 3 0"
      using * by (simp add: le32_def numeral_eq_Suc)
    then show ?thesis by (simp add: low numeral_eq_Suc)
  qed
  have nz: "(word_of_nat (length name) :: byte) \<noteq> 0"
    using assms by (auto simp: word_of_nat_eq_0_iff dest: nat_dvd_not_less)
  show ?thesis
    using assms(1,2) nz
    by (simp add: deserializeWatchOnlyAccountRow_def field_def len binary_Read_def numeral_2_eq_2
        scopeSchemaFromBytes_def index_def)
qed

text \<open>A watch-only account row is misread whenever it is read at all: the reader skips the
  fingerprint, so every later field is taken from the one before it. A fresh account (next
  internal index 0) with a name of 1 to 255 bytes is always read, with the fingerprint as its
  next external index, an empty name and an address schema it does not have.\<close>

lemma codec_watch_only_misread:
  assumes "length pub < 2 ^ 32"
    and "serializeWatchOnlyAccountRow pub fp ext itn name schema = Ok raw"
  shows "(deserializeWatchOnlyAccountRow accountID \<lparr>acctType = accountWatchOnly, rawData = raw\<rparr> = Ok r
      \<longrightarrow> wor_pubKeyEncrypted r = pub \<and> wor_masterKeyFingerprint r = 0
        \<and> wor_nextExternalIndex r = fp \<and> wor_nextInternalIndex r = ext)
    \<and> (itn = 0 \<and> 0 < length name \<and> length name < 256 \<longrightarrow>
        (\<exists>r. deserializeWatchOnlyAccountRow accountID \<lparr>acctType = accountWatchOnly, rawData = raw\<rparr> = Ok r
          \<and> wor_nextExternalIndex r = fp \<and> wor_name r = []
          \<and> wor_addrSchema r = Some \<lparr>ExternalAddrType = PubKeyHash, InternalAddrType = PubKeyHash\<rparr>))"
proof -
  let ?tail = "case schema of None \<Rightarrow> [0] | Some sch \<Rightarrow> 1 # scopeSchemaToBytes sch"
  have raw: "raw = field pub @ le32 fp @ le32 ext @ le32 itn @ field name @ ?tail"
    using assms(2) by (simp add: serializeWatchOnlyAccountRow_bytes)
  show ?thesis unfolding raw
    using deserializeWatchOnly_fields [OF assms(1)] deserializeWatchOnly_fresh [OF assms(1)]
    by (auto simp: PubKeyHash_def)
qed

lemma codec_watch_only_misread_example:
  "\<exists>raw r. serializeWatchOnlyAccountRow [1] 77 0 0 (go_string ''cold'') None = Ok raw
     \<and> deserializeWatchOnlyAccountRow [] \<lparr>acctType = accountWatchOnly, rawData = raw\<rparr> = Ok r
     \<and> wor_nextExternalIndex r = 77"
proof -
  obtain raw where raw: "serializeWatchOnlyAccountRow [1] 77 0 0 (go_string ''cold'') None = Ok raw"
    by (simp add: serializeWatchOnlyAccountRow_bytes)
  have "length [1 :: byte] < 2 ^ 32" by simp
  from codec_watch_only_misread [OF this raw] raw show ?thesis by fastforce
qed

text \<open>A stored account row that lost its end is not reported as malformed: below 5 bytes the
  reader returns \<^verbatim>\<open>ErrDatabase\<close>, from 5 bytes on it panics.\<close>

lemma codec_truncated_account_row:
  assumes "length (rawData row) + 5 < 2 ^ 32" and "serializeAccountRow row = Ok b" and "n < length b"
  shows "deserializeAccountRow accountID (take n b) =
    (if n < 5 then Err (managerError ErrDatabase None) else Panic)"
proof (cases "n < 5")
  case False
  have b: "b = (acctType row # le32 (len32 (rawData row))) @ rawData row"
    using assms(2) by (simp add: serializeAccountRow_bytes field_def)
  let ?h = "acctType row # le32 (len32 (rawData row))"
  have take: "take n b = ?h @ take (n - 5) (rawData row)"
    using False unfolding b by (simp add: take_Cons')
  have n: "n - 5 < length (rawData row)" using assms(3) False b by simp
  have "get_field (?h @ take (n - 5) (rawData row)) 5 (len32 (rawData row)) = Panic"
    using assms(1) n by (intro get_field_short) auto
  then show ?thesis
    using False unfolding take
    by (simp add: deserializeAccountRow_def index_def slice_def uint32_le_def)
qed (simp add: deserializeAccountRow_def min_def)

lemma codec_truncated_account_row_example:
  "deserializeAccountRow [] (take 6 [0, 2, 0, 0, 0, 8, 9]) = Panic"
proof -
  let ?row = "\<lparr>acctType = accountDefault, rawData = [8, 9]\<rparr>"
  have "serializeAccountRow ?row = Ok [0, 2, 0, 0, 0, 8, 9]" by code_simp
  with codec_truncated_account_row [of ?row "[0, 2, 0, 0, 0, 8, 9]" 6 "[]"] show ?thesis by simp
qed

end
