(* ===== verification/Snacl.thy ===== *)
theory Snacl
  imports Errors
begin

text \<open>
  The package \<^verbatim>\<open>snacl\<close> (\<^verbatim>\<open>snacl/snacl.go\<close>) with \<^verbatim>\<open>internal/zero\<close> and the wrapper
  \<^verbatim>\<open>waddrmgr/crypto_key.go\<close>: symmetric keys, keys derived from a password, their stored
  parameters. The primitives of \<^verbatim>\<open>golang.org/x/crypto\<close> (secretbox, scrypt) and the SHA-2
  functions are fields of the record \<open>crypto\<close>, an argument of every definition that calls
  them; what the code relies on is the locale \<open>crypto_contract\<close>.
\<close>

unbundle bit_operations_syntax

section \<open>The primitives\<close>

type_synonym goint = "64 word"

record crypto =
  secretbox_Seal :: "bytes \<Rightarrow> bytes \<Rightarrow> bytes \<Rightarrow> bytes"
  secretbox_Open :: "bytes \<Rightarrow> bytes \<Rightarrow> bytes \<Rightarrow> bytes option"
  scrypt_Key :: "bytes \<Rightarrow> bytes \<Rightarrow> goint \<Rightarrow> goint \<Rightarrow> goint \<Rightarrow> nat \<Rightarrow> bytes result"
  sha256_Sum256 :: "bytes \<Rightarrow> bytes"
  sha512_Sum512 :: "bytes \<Rightarrow> bytes"

text \<open>
  The documented behaviour: a box opens under the key and nonce it was sealed with,
  \<^verbatim>\<open>scrypt.Key\<close> returns a key of the length asked for, the hashes have their fixed size.
\<close>

locale crypto_contract =
  fixes C :: crypto
  assumes open_seal:
    "length nonce = 24 \<Longrightarrow> length key = 32 \<Longrightarrow>
       secretbox_Open C (secretbox_Seal C m nonce key) nonce key = Some m"
    and seal_overhead:
    "length nonce = 24 \<Longrightarrow> length key = 32 \<Longrightarrow>
       length (secretbox_Seal C m nonce key) = length m + 16"
    and scrypt_length: "scrypt_Key C pw salt n r p len = Ok k \<Longrightarrow> length k = len"
    and sha256_length: "length (sha256_Sum256 C b) = 32"
    and sha512_length: "length (sha512_Sum512 C b) = 64"

section \<open>Definitions\<close>

definition KeySize :: nat where "KeySize = 32"
definition NonceSize :: nat where "NonceSize = 24"
definition sha256_Size :: nat where "sha256_Size = 32"
definition secretbox_Overhead :: nat where "secretbox_Overhead = 16"

definition DefaultN :: goint where "DefaultN = 16384"
definition DefaultR :: goint where "DefaultR = 8"
definition DefaultP :: goint where "DefaultP = 1"

lemmas size_defs = KeySize_def NonceSize_def sha256_Size_def

subsection \<open>Zeroing\<close>

text \<open>\<^verbatim>\<open>zero.Bytes\<close> and \<^verbatim>\<open>snacl.zeroBytes\<close> run the same loop.\<close>

fun zero_Bytes :: "bytes \<Rightarrow> bytes" where
  "zero_Bytes [] = []"
| "zero_Bytes (b # bs) = 0 # zero_Bytes bs"

definition zero_Bytea32 :: "bytes \<Rightarrow> bytes" where
  "zero_Bytea32 b = make_bytes 32"

definition zero_Bytea64 :: "bytes \<Rightarrow> bytes" where
  "zero_Bytea64 b = make_bytes 64"

subsection \<open>The random source\<close>

text \<open>
  \<^verbatim>\<open>io.ReadFull(prng, buf)\<close>: the state is the bytes the source still delivers. A source that
  runs dry gives the errors of \<^verbatim>\<open>io.ReadFull\<close>.
\<close>

definition read_random :: "nat \<Rightarrow> (bytes, bytes) go" where
  "read_random n = (\<lambda>r.
     if n \<le> length r then (Ok (take n r), drop n r)
     else if r = [] then (Err (IoError EOF), [])
     else (Err (IoError ErrUnexpectedEOF), []))"

subsection \<open>Symmetric keys\<close>

definition CryptoKey_Encrypt :: "crypto \<Rightarrow> bytes \<Rightarrow> bytes \<Rightarrow> (bytes, bytes) go" where
  "CryptoKey_Encrypt C ck inp =
     bnd (read_random NonceSize) (\<lambda>nonce.
     ret (nonce @ secretbox_Seal C inp nonce ck))"

definition CryptoKey_Decrypt :: "crypto \<Rightarrow> bytes \<Rightarrow> bytes \<Rightarrow> bytes result" where
  "CryptoKey_Decrypt C ck inp =
     (if length inp < NonceSize then Err (SnaclError ErrMalformed)
      else let nonce = copy_bytes (make_bytes NonceSize) (take NonceSize inp);
               blob = drop NonceSize inp
           in case secretbox_Open C blob nonce ck of
                None \<Rightarrow> Err (SnaclError ErrDecryptFailed)
              | Some opened \<Rightarrow> Ok opened)"

definition CryptoKey_Zero :: "bytes \<Rightarrow> bytes" where
  "CryptoKey_Zero ck = zero_Bytea32 ck"

definition GenerateCryptoKey :: "(bytes, bytes) go" where
  "GenerateCryptoKey = read_random KeySize"

text \<open>\<^verbatim>\<open>waddrmgr/crypto_key.go\<close>: \<^verbatim>\<open>CopyBytes\<close> copies into the 32-byte array.\<close>

definition cryptoKey_Bytes :: "bytes \<Rightarrow> bytes" where
  "cryptoKey_Bytes ck = ck"

definition cryptoKey_CopyBytes :: "bytes \<Rightarrow> bytes \<Rightarrow> bytes" where
  "cryptoKey_CopyBytes ck src = copy_bytes ck src"

definition defaultNewCryptoKey :: "(bytes, bytes) go" where
  "defaultNewCryptoKey = GenerateCryptoKey"

subsection \<open>Keys derived from a password\<close>

record Parameters =
  Salt :: bytes
  Digest :: bytes
  N :: goint
  R :: goint
  P :: goint

record SecretKey =
  Key :: "bytes option"
  Params :: Parameters

text \<open>
  A nil \<^verbatim>\<open>Key\<close> is dereferenced where the methods of \<^verbatim>\<open>CryptoKey\<close> use it: by \<^verbatim>\<open>secretbox.Seal\<close>, after the
  nonce was read, and by \<^verbatim>\<open>secretbox.Open\<close>, which first refuses a box shorter than its overhead.
\<close>

definition SecretKey_Encrypt :: "crypto \<Rightarrow> SecretKey \<Rightarrow> bytes \<Rightarrow> (bytes, bytes) go" where
  "SecretKey_Encrypt C sk inp = (case Key sk of
      None \<Rightarrow> bnd (read_random NonceSize) (\<lambda>_. panic)
    | Some ck \<Rightarrow> CryptoKey_Encrypt C ck inp)"

definition SecretKey_Decrypt :: "crypto \<Rightarrow> SecretKey \<Rightarrow> bytes \<Rightarrow> bytes result" where
  "SecretKey_Decrypt C sk inp = (case Key sk of
      None \<Rightarrow> if length inp < NonceSize then Err (SnaclError ErrMalformed)
              else if length inp < NonceSize + secretbox_Overhead then Err (SnaclError ErrDecryptFailed)
              else Panic
    | Some ck \<Rightarrow> CryptoKey_Decrypt C ck inp)"

text \<open>\<^verbatim>\<open>Marshal\<close> writes the five parameters one after the other into a fixed-size buffer.\<close>

definition SecretKey_Marshal :: "SecretKey \<Rightarrow> bytes" where
  "SecretKey_Marshal sk = (let params = Params sk in
      copy_bytes (make_bytes KeySize) (Salt params)
    @ copy_bytes (make_bytes sha256_Size) (Digest params)
    @ le64 (N params) @ le64 (R params) @ le64 (P params))"

definition SecretKey_Unmarshal :: "bytes \<Rightarrow> (SecretKey, unit) go" where
  "SecretKey_Unmarshal marshalled =
     bnd (modify (\<lambda>sk. case Key sk of None \<Rightarrow> sk\<lparr>Key := Some (make_bytes KeySize)\<rparr> | Some _ \<Rightarrow> sk))
     (\<lambda>_. if length marshalled \<noteq> KeySize + sha256_Size + 24
      then raise (SnaclError ErrMalformed)
      else
        bnd (lift (slice marshalled 0 32)) (\<lambda>salt.
        bnd (lift (slice marshalled 32 64)) (\<lambda>digest.
        bnd (lift (rbind (slice marshalled 64 72) uint64_le)) (\<lambda>n.
        bnd (lift (rbind (slice marshalled 72 80) uint64_le)) (\<lambda>r.
        bnd (lift (rbind (slice marshalled 80 88) uint64_le)) (\<lambda>p.
        modify (\<lambda>sk. sk\<lparr>Params := \<lparr>Salt = salt, Digest = digest, N = n, R = r, P = p\<rparr>\<rparr>)))))))"

definition SecretKey_Zero :: "(SecretKey, unit) go" where
  "SecretKey_Zero =
     bnd (reads Key) (\<lambda>k. bnd (deref k) (\<lambda>ck. modify (\<lambda>sk. sk\<lparr>Key := Some (CryptoKey_Zero ck)\<rparr>)))"

text \<open>
  The unexported \<^verbatim>\<open>deriveKey\<close> overwrites the key in place; \<^verbatim>\<open>len(sk.Key)\<close> is the constant
  length of the array type, also for a nil pointer.
\<close>

definition SecretKey_deriveKey :: "crypto \<Rightarrow> bytes \<Rightarrow> (SecretKey, unit) go" where
  "SecretKey_deriveKey C password =
     bnd (reads id) (\<lambda>sk.
     bnd (lift (scrypt_Key C password (Salt (Params sk)) (N (Params sk)) (R (Params sk))
            (P (Params sk)) KeySize)) (\<lambda>key.
     bnd (deref (Key sk)) (\<lambda>ck.
     modify (\<lambda>sk. sk\<lparr>Key := Some (copy_bytes ck key)\<rparr>))))"

fun constantTimeLoop :: "byte \<Rightarrow> bytes \<Rightarrow> bytes \<Rightarrow> byte" where
  "constantTimeLoop v (x # xs) (y # ys) = constantTimeLoop (v OR (x XOR y)) xs ys"
| "constantTimeLoop v _ _ = v"

definition constantTimeCompare :: "bytes \<Rightarrow> bytes \<Rightarrow> int" where
  "constantTimeCompare x y =
     (if length x \<noteq> length y then 0
      else let v = constantTimeLoop 0 x y
           in uint (drop_bit 31 (ucast (v XOR 0) - 1 :: u32)))"

definition SecretKey_DeriveKey :: "crypto \<Rightarrow> bytes \<Rightarrow> (SecretKey, unit) go" where
  "SecretKey_DeriveKey C password =
     bnd (SecretKey_deriveKey C password) (\<lambda>_.
     bnd (reads id) (\<lambda>sk.
     bnd (deref (Key sk)) (\<lambda>ck.
     let digest = sha256_Sum256 C ck
     in if constantTimeCompare digest (Digest (Params sk)) \<noteq> 1
        then raise (SnaclError ErrInvalidPassword) else ret ())))"

definition NewSecretKey :: "crypto \<Rightarrow> bytes \<Rightarrow> goint \<Rightarrow> goint \<Rightarrow> goint \<Rightarrow> (bytes, SecretKey) go" where
  "NewSecretKey C password n r p =
     bnd (read_random KeySize) (\<lambda>salt.
     let sk = \<lparr>Key = Some (make_bytes KeySize),
               Params = \<lparr>Salt = salt, Digest = make_bytes sha256_Size, N = n, R = r, P = p\<rparr>\<rparr>;
         (outcome, sk') = SecretKey_deriveKey C password sk
     in bnd (lift outcome) (\<lambda>_.
        bnd (deref (Key sk')) (\<lambda>ck.
        ret (sk'\<lparr>Params := (Params sk')\<lparr>Digest := sha256_Sum256 C ck\<rparr>\<rparr>))))"

text \<open>Well-formed keys: the arrays have their declared sizes.\<close>

definition wf_SecretKey :: "SecretKey \<Rightarrow> bool" where
  "wf_SecretKey sk \<longleftrightarrow> length (Salt (Params sk)) = 32 \<and> length (Digest (Params sk)) = 32
     \<and> (\<forall>k. Key sk = Some k \<longrightarrow> length k = 32)"

section \<open>Lemmas\<close>

lemma zero_Bytes_eq: "zero_Bytes b = make_bytes (length b)"
  by (induction b) (simp_all add: make_bytes_def)

lemma read_random_Ok:
  "read_random n r = (Ok x, r') \<longleftrightarrow> n \<le> length r \<and> x = take n r \<and> r' = drop n r"
  by (auto simp: read_random_def)

lemma Encrypt_Ok:
  "CryptoKey_Encrypt C ck inp r = (Ok c, r') \<longleftrightarrow>
     24 \<le> length r \<and> c = take 24 r @ secretbox_Seal C inp (take 24 r) ck \<and> r' = drop 24 r"
  by (auto simp: CryptoKey_Encrypt_def bnd_eq_Ok read_random_Ok ret_def size_defs)

lemma Encrypt_ok: "24 \<le> length r \<Longrightarrow> fst (CryptoKey_Encrypt C ck inp r)
     = Ok (take 24 r @ secretbox_Seal C inp (take 24 r) ck)"
  by (simp add: CryptoKey_Encrypt_def go_simps read_random_def size_defs)

lemma snd_Encrypt: "snd (CryptoKey_Encrypt C ck inp r) = drop 24 r"
  by (simp add: CryptoKey_Encrypt_def go_simps read_random_def size_defs)

lemma Encrypt_never_panics:
  "fst (CryptoKey_Encrypt C ck inp r) \<noteq> Panic" "fst (CryptoKey_Encrypt C ck inp r) \<noteq> Hang"
  by (auto simp: CryptoKey_Encrypt_def go_simps read_random_def)

lemma constantTimeLoop_zero:
  "length x = length y \<Longrightarrow> constantTimeLoop v x y = 0 \<longleftrightarrow> v = 0 \<and> x = y"
proof (induction v x y rule: constantTimeLoop.induct)
  case (1 v x xs y ys)
  have "v OR (x XOR y) = 0 \<longleftrightarrow> v = 0 \<and> x = y"
    by (metis or_eq_0_iff xor_self_eq xor.assoc xor.right_neutral)
  with 1 show ?case by auto
qed auto

text \<open>The bit trick: \<open>v - 1\<close> has its top bit set exactly for \<open>v = 0\<close>, as \<open>v\<close> is a byte.\<close>

lemma top_bit_of_byte_minus_1:
  "uint (drop_bit 31 (ucast v - 1 :: u32)) = (if v = 0 then 1 else 0)" for v :: byte
proof (cases "v = 0")
  case True
  have "drop_bit 31 (- 1 :: u32) = 1"
    by (rule bit_word_eqI) (auto simp: bit_simps)
  with True show ?thesis by simp
next
  case False
  have lt: "unat v < 256"
    using unsigned_less [where 'a = nat, of v] by simp
  then have up: "unat (ucast v :: u32) = unat v"
    by (simp add: unsigned_ucast_eq take_bit_nat_eq_self)
  from False have "unat v \<noteq> 0" by (simp add: unat_eq_0)
  with up have "(ucast v :: u32) \<noteq> 0" by auto
  then have "unat (ucast v - 1 :: u32) = unat v - 1"
    by (simp add: unat_minus_one up)
  with lt have "unat (drop_bit 31 (ucast v - 1 :: u32)) = 0"
    unfolding unat_drop_bit_eq by (simp add: drop_bit_eq_div)
  with False show ?thesis by (simp add: unat_eq_0)
qed

lemma constantTimeCompare_eq: "constantTimeCompare x y = (if x = y then 1 else 0)"
  by (auto simp: constantTimeCompare_def constantTimeLoop_zero top_bit_of_byte_minus_1 Let_def)

lemma Marshal_eq:
  assumes "wf_SecretKey sk"
  shows "SecretKey_Marshal sk = Salt (Params sk) @ Digest (Params sk)
    @ le64 (N (Params sk)) @ le64 (R (Params sk)) @ le64 (P (Params sk))"
  using assms by (simp add: SecretKey_Marshal_def wf_SecretKey_def Let_def size_defs)

lemma length_Marshal: "length (SecretKey_Marshal sk) = 88"
  by (simp add: SecretKey_Marshal_def Let_def size_defs)

text \<open>Cutting the marshalled parameters at the offsets \<^verbatim>\<open>Unmarshal\<close> uses.\<close>

lemma Marshal_slices:
  assumes "wf_SecretKey sk"
  shows "slice (SecretKey_Marshal sk) 0 32 = Ok (Salt (Params sk))"
    and "slice (SecretKey_Marshal sk) 32 64 = Ok (Digest (Params sk))"
    and "slice (SecretKey_Marshal sk) 64 72 = Ok (le64 (N (Params sk)))"
    and "slice (SecretKey_Marshal sk) 72 80 = Ok (le64 (R (Params sk)))"
    and "slice (SecretKey_Marshal sk) 80 88 = Ok (le64 (P (Params sk)))"
  using assms by (simp_all add: Marshal_eq slice_def wf_SecretKey_def)

lemma Unmarshal_Marshal:
  assumes "wf_SecretKey sk"
  shows "SecretKey_Unmarshal (SecretKey_Marshal sk) sk0 =
     (Ok (), \<lparr>Key = (case Key sk0 of None \<Rightarrow> Some (make_bytes 32) | Some k \<Rightarrow> Some k),
              Params = Params sk\<rparr>)"
  by (rule prog_eqI)
    (simp_all add: SecretKey_Unmarshal_def go_simps length_Marshal Marshal_slices [OF assms]
       size_defs split: option.split)

lemma Unmarshal_malformed:
  "length b \<noteq> 88 \<Longrightarrow> fst (SecretKey_Unmarshal b sk) = Err (SnaclError ErrMalformed)"
  by (simp add: SecretKey_Unmarshal_def go_simps size_defs)

context crypto_contract
begin

lemma Decrypt_Encrypt:
  assumes "length ck = 32" and "CryptoKey_Encrypt C ck m r = (Ok c, r')"
  shows "CryptoKey_Decrypt C ck c = Ok m"
  using assms by (auto simp: Encrypt_Ok CryptoKey_Decrypt_def size_defs open_seal)

lemma length_Encrypt:
  assumes "length ck = 32" and "CryptoKey_Encrypt C ck m r = (Ok c, r')"
  shows "length c = length m + 40"
  using assms by (auto simp: Encrypt_Ok seal_overhead)

lemma deriveKey_eq:
  assumes "Key sk = Some ck" and "length ck = 32"
    and "scrypt_Key C pw (Salt (Params sk)) (N (Params sk)) (R (Params sk)) (P (Params sk)) 32 = Ok k"
  shows "SecretKey_deriveKey C pw sk = (Ok (), sk\<lparr>Key := Some k\<rparr>)"
  using assms scrypt_length [OF assms(3)]
  by (intro prog_eqI) (simp_all add: SecretKey_deriveKey_def go_simps size_defs)

lemma DeriveKey_eq:
  assumes "Key sk = Some ck" and "length ck = 32"
    and "scrypt_Key C pw (Salt (Params sk)) (N (Params sk)) (R (Params sk)) (P (Params sk)) 32 = Ok k"
  shows "SecretKey_DeriveKey C pw sk =
     ((if sha256_Sum256 C k = Digest (Params sk) then Ok () else Err (SnaclError ErrInvalidPassword)),
      sk\<lparr>Key := Some k\<rparr>)"
  by (rule prog_eqI)
    (simp_all add: SecretKey_DeriveKey_def go_simps deriveKey_eq [OF assms] Let_def
       constantTimeCompare_eq)

lemma NewSecretKey_Ok:
  assumes "NewSecretKey C pw n r p rnd = (Ok sk, rnd')"
  obtains k where "32 \<le> length rnd" and "scrypt_Key C pw (take 32 rnd) n r p 32 = Ok k"
    and "sk = \<lparr>Key = Some k, Params = \<lparr>Salt = take 32 rnd, Digest = sha256_Sum256 C k,
                 N = n, R = r, P = p\<rparr>\<rparr>"
    and "rnd' = drop 32 rnd"
proof -
  have len: "32 \<le> length rnd"
    using assms by (auto simp: NewSecretKey_def bnd_eq_Ok read_random_Ok size_defs)
  define sk0 where "sk0 = \<lparr>Key = Some (make_bytes 32), Params = \<lparr>Salt = take 32 rnd,
    Digest = make_bytes 32, N = n, R = r, P = p\<rparr>\<rparr>"
  from assms len have run: "fst (SecretKey_deriveKey C pw sk0) = Ok ()"
    by (auto simp: NewSecretKey_def bnd_eq_Ok read_random_Ok size_defs sk0_def Let_def lift_def
        split: prod.splits)
  then obtain k where k: "scrypt_Key C pw (take 32 rnd) n r p 32 = Ok k"
    by (auto simp: SecretKey_deriveKey_def go_simps size_defs sk0_def split: res.splits)
  have "SecretKey_deriveKey C pw sk0 = (Ok (), sk0\<lparr>Key := Some k\<rparr>)"
    by (rule deriveKey_eq [where ck = "make_bytes 32"]) (simp_all add: sk0_def k)
  with assms len k show ?thesis
    by (intro that) (auto simp: NewSecretKey_def bnd_eq_Ok read_random_Ok size_defs sk0_def
        lift_def deref_def ret_def)
qed

lemma NewSecretKey_wf:
  assumes "NewSecretKey C pw n r p rnd = (Ok sk, rnd')"
  shows "wf_SecretKey sk"
proof -
  from assms obtain k where "32 \<le> length rnd" "scrypt_Key C pw (take 32 rnd) n r p 32 = Ok k"
    "sk = \<lparr>Key = Some k, Params = \<lparr>Salt = take 32 rnd, Digest = sha256_Sum256 C k,
       N = n, R = r, P = p\<rparr>\<rparr>" by (rule NewSecretKey_Ok)
  then show ?thesis by (auto simp: wf_SecretKey_def sha256_length scrypt_length)
qed

end

lemma Unmarshal_wf: "wf_SecretKey sk \<Longrightarrow> wf_SecretKey (snd (SecretKey_Unmarshal b sk)) \<and> Key (snd (SecretKey_Unmarshal b sk)) \<noteq> None
    \<and> fst (SecretKey_Unmarshal b sk) \<in> {Ok (), Err (SnaclError ErrMalformed)}"
proof (cases "length b = 88")
  case True
  moreover assume "wf_SecretKey sk"
  ultimately show ?thesis
    by (auto simp: SecretKey_Unmarshal_def go_simps size_defs wf_SecretKey_def uint64_le_def slice_def split: option.split)
next
  case False
  moreover assume "wf_SecretKey sk"
  ultimately show ?thesis
    by (auto simp: SecretKey_Unmarshal_def go_simps size_defs wf_SecretKey_def split: option.split)
qed

lemma Zero_wf:
  "wf_SecretKey sk \<Longrightarrow> wf_SecretKey (snd (SecretKey_Zero sk)) \<and> (Key sk \<noteq> None \<longrightarrow> fst (SecretKey_Zero sk) = Ok () \<and> Key (snd (SecretKey_Zero sk)) \<noteq> None)"
  by (cases "Key sk") (auto simp: SecretKey_Zero_def go_simps wf_SecretKey_def CryptoKey_Zero_def zero_Bytea32_def)

context crypto_contract
begin

lemma DeriveKey_wf:
  assumes "wf_SecretKey sk"
  shows "wf_SecretKey (snd (SecretKey_DeriveKey C pw sk)) \<and> (Key sk \<noteq> None \<longrightarrow> Key (snd (SecretKey_DeriveKey C pw sk)) \<noteq> None)"
proof (cases "scrypt_Key C pw (Salt (Params sk)) (N (Params sk)) (R (Params sk)) (P (Params sk)) 32")
  case (Ok k)
  show ?thesis
  proof (cases "Key sk")
    case (Some ck)
    then have "length ck = 32" using assms by (simp add: wf_SecretKey_def)
    with DeriveKey_eq [OF Some this Ok] scrypt_length [OF Ok] assms show ?thesis
      by (simp add: wf_SecretKey_def)
  qed (use assms Ok in \<open>simp add: SecretKey_DeriveKey_def SecretKey_deriveKey_def go_simps size_defs\<close>)
qed (use assms in \<open>simp_all add: SecretKey_DeriveKey_def SecretKey_deriveKey_def go_simps size_defs\<close>)

end

section \<open>A reference instance of the primitives\<close>

text \<open>
  An executable instance of the contract, on which witnesses are evaluated: the box
  carries its key as a tag, the derivation pads password and salt.
\<close>

definition ref_tag :: "bytes \<Rightarrow> bytes" where
  "ref_tag key = take 16 (key @ make_bytes 16)"

definition ref_crypto :: crypto where
  "ref_crypto =
     \<lparr>secretbox_Seal = (\<lambda>m nonce key. ref_tag key @ m),
      secretbox_Open = (\<lambda>c nonce key.
        if 16 \<le> length c \<and> take 16 c = ref_tag key then Some (drop 16 c) else None),
      scrypt_Key = (\<lambda>pw salt n r p len. Ok (take len (pw @ salt @ make_bytes len))),
      sha256_Sum256 = (\<lambda>b. take 32 (b @ make_bytes 32)),
      sha512_Sum512 = (\<lambda>b. take 64 (b @ make_bytes 64))\<rparr>"

interpretation ref_crypto: crypto_contract ref_crypto
  by unfold_locales (auto simp: ref_crypto_def ref_tag_def)

section \<open>Properties\<close>

text \<open>C17: whatever \<^verbatim>\<open>CryptoKey.Encrypt\<close> produces under a 32-byte key, \<^verbatim>\<open>CryptoKey.Decrypt\<close>
  under the same key turns back into the message, and the ciphertext is 40 bytes longer
  (24 bytes of nonce, 16 of authenticator).\<close>

theorem snacl_decrypt_encrypt:
  assumes "crypto_contract C" and "length ck = 32"
    and "CryptoKey_Encrypt C ck m r = (Ok c, r')"
  shows "CryptoKey_Decrypt C ck c = Ok m \<and> length c = length m + 40"
  using crypto_contract.Decrypt_Encrypt [OF assms] crypto_contract.length_Encrypt [OF assms]
  by simp

theorem snacl_decrypt_encrypt_witness:
  "CryptoKey_Decrypt ref_crypto (make_bytes 32)
     (make_bytes 24 @ secretbox_Seal ref_crypto [1, 2, 3] (make_bytes 24) (make_bytes 32))
     = Ok [1, 2, 3]"
proof -
  have "CryptoKey_Encrypt ref_crypto (make_bytes 32) [1, 2, 3] (make_bytes 24)
     = (Ok (make_bytes 24 @ secretbox_Seal ref_crypto [1, 2, 3] (make_bytes 24) (make_bytes 32)), [])"
    by (simp add: Encrypt_Ok make_bytes_def)
  then show ?thesis
    using snacl_decrypt_encrypt [OF ref_crypto.crypto_contract_axioms, of "make_bytes 32"] by simp
qed

text \<open>\<^verbatim>\<open>SecretKey.Marshal\<close> writes 88 bytes and \<^verbatim>\<open>SecretKey.Unmarshal\<close> reads the salt, the
  digest and the three scrypt parameters back, whatever key the receiver held; every other
  length is refused as malformed.\<close>

lemma snacl_params_roundtrip:
  assumes "wf_SecretKey sk"
  shows "length (SecretKey_Marshal sk) = 88
    \<and> fst (SecretKey_Unmarshal (SecretKey_Marshal sk) sk0) = Ok ()
    \<and> Params (snd (SecretKey_Unmarshal (SecretKey_Marshal sk) sk0)) = Params sk
    \<and> (\<forall>b. length b \<noteq> 88 \<longrightarrow> fst (SecretKey_Unmarshal b sk0) = Err (SnaclError ErrMalformed))"
  by (simp add: length_Marshal Unmarshal_Marshal [OF assms] Unmarshal_malformed)

definition example_SecretKey :: SecretKey where
  "example_SecretKey = \<lparr>Key = Some (make_bytes 32),
     Params = \<lparr>Salt = replicate 32 7, Digest = make_bytes 32, N = 16384, R = 8, P = 1\<rparr>\<rparr>"

lemma snacl_params_roundtrip_example:
  "Params (snd (SecretKey_Unmarshal (SecretKey_Marshal example_SecretKey) example_SecretKey))
     = Params example_SecretKey"
proof -
  have "wf_SecretKey example_SecretKey" by (simp add: wf_SecretKey_def example_SecretKey_def)
  from snacl_params_roundtrip [OF this, of example_SecretKey] show ?thesis by simp
qed

text \<open>C30: the array types. \<^verbatim>\<open>[32]byte\<close> keys, salts and digests are byte lists of that length in every
  key that any operation makes or leaves, on success and on failure: \<^verbatim>\<open>NewSecretKey\<close>, \<^verbatim>\<open>Unmarshal\<close> of any
  bytes, \<^verbatim>\<open>DeriveKey\<close> with any password, \<^verbatim>\<open>Zero\<close>, and a generated crypto key. \<^verbatim>\<open>Unmarshal\<close> never panics and
  always leaves a key in place, and no operation takes it away.\<close>

theorem snacl_array_sizes:
  assumes "crypto_contract C" and "wf_SecretKey sk"
  shows "wf_SecretKey (snd (SecretKey_Unmarshal b sk)) \<and> Key (snd (SecretKey_Unmarshal b sk)) \<noteq> None
    \<and> fst (SecretKey_Unmarshal b sk) \<in> {Ok (), Err (SnaclError ErrMalformed)}
    \<and> wf_SecretKey (snd (SecretKey_DeriveKey C pw sk)) \<and> wf_SecretKey (snd (SecretKey_Zero sk))
    \<and> (Key sk \<noteq> None \<longrightarrow> Key (snd (SecretKey_DeriveKey C pw sk)) \<noteq> None
         \<and> fst (SecretKey_Zero sk) = Ok () \<and> Key (snd (SecretKey_Zero sk)) \<noteq> None)
    \<and> (\<forall>new. fst (NewSecretKey C pw n r p rnd) = Ok new \<longrightarrow> wf_SecretKey new \<and> Key new \<noteq> None)
    \<and> (\<forall>key. fst (GenerateCryptoKey rnd) = Ok key \<longrightarrow> length key = 32)"
proof -
  have "wf_SecretKey new \<and> Key new \<noteq> None" if new: "fst (NewSecretKey C pw n r p rnd) = Ok new" for new
  proof -
    from new obtain rnd' where run: "NewSecretKey C pw n r p rnd = (Ok new, rnd')" by (metis prod.collapse)
    show ?thesis
      using crypto_contract.NewSecretKey_wf [OF assms(1) run] crypto_contract.NewSecretKey_Ok [OF assms(1) run] by fastforce
  qed
  moreover have "length key = 32" if "fst (GenerateCryptoKey rnd) = Ok key" for key
    using that by (auto simp: GenerateCryptoKey_def go_simps read_random_def size_defs split: if_splits)
  ultimately show ?thesis
    using Unmarshal_wf [OF assms(2)] Zero_wf [OF assms(2)] crypto_contract.DeriveKey_wf [OF assms] by simp
qed

theorem snacl_array_sizes_witness:
  "wf_SecretKey (snd (SecretKey_Unmarshal [1, 2, 3] example_SecretKey))"
proof -
  have "wf_SecretKey example_SecretKey" by (simp add: wf_SecretKey_def example_SecretKey_def)
  from snacl_array_sizes [OF ref_crypto.crypto_contract_axioms this] show ?thesis by blast
qed

text \<open>The branch-free \<^verbatim>\<open>constantTimeCompare\<close> is equality of byte slices: 1 when the two are
  equal, 0 when they differ in length or in any byte.\<close>

lemma snacl_constant_time_compare: "constantTimeCompare x y = (if x = y then 1 else 0)"
  by (rule constantTimeCompare_eq)

text \<open>C18: a key made by \<^verbatim>\<open>NewSecretKey\<close>, marshalled, unmarshalled into an empty key and derived
  again from the same password, is the key that was made, and the derivation succeeds.\<close>

theorem snacl_password_recovers_key:
  assumes "crypto_contract C" and "NewSecretKey C pw n r p rnd = (Ok sk, rnd')"
    and "Key sk0 = None"
  shows "SecretKey_DeriveKey C pw (snd (SecretKey_Unmarshal (SecretKey_Marshal sk) sk0)) = (Ok (), sk)"
proof -
  obtain k where scr: "scrypt_Key C pw (take 32 rnd) n r p 32 = Ok k"
    and sk: "sk = \<lparr>Key = Some k, Params = \<lparr>Salt = take 32 rnd, Digest = sha256_Sum256 C k,
       N = n, R = r, P = p\<rparr>\<rparr>"
    using assms(1,2) by (rule crypto_contract.NewSecretKey_Ok)
  have "wf_SecretKey sk" using assms(1,2) by (rule crypto_contract.NewSecretKey_wf)
  then have "snd (SecretKey_Unmarshal (SecretKey_Marshal sk) sk0) = sk\<lparr>Key := Some (make_bytes 32)\<rparr>"
    by (simp add: Unmarshal_Marshal assms(3))
  moreover have "SecretKey_DeriveKey C pw (sk\<lparr>Key := Some (make_bytes 32)\<rparr>) = (Ok (), sk)"
    by (subst crypto_contract.DeriveKey_eq [OF assms(1), where k = k and ck = "make_bytes 32"]) (simp_all add: sk scr)
  ultimately show ?thesis by simp
qed

definition example_new_key :: "SecretKey result \<times> bytes" where
  "example_new_key = NewSecretKey ref_crypto [1, 2] DefaultN DefaultR DefaultP (replicate 32 9)"

definition empty_SecretKey :: SecretKey where
  "empty_SecretKey = \<lparr>Key = None, Params = \<lparr>Salt = make_bytes 32, Digest = make_bytes 32,
     N = 0, R = 0, P = 0\<rparr>\<rparr>"

lemma example_new_key_eval:
  "example_new_key = (Ok \<lparr>Key = Some ([1, 2] @ replicate 30 9),
     Params = \<lparr>Salt = replicate 32 9, Digest = [1, 2] @ replicate 30 9,
       N = 16384, R = 8, P = 1\<rparr>\<rparr>, [])"
  by code_simp

theorem snacl_password_recovers_key_witness:
  "SecretKey_DeriveKey ref_crypto [1, 2]
     (snd (SecretKey_Unmarshal (SecretKey_Marshal
        (case fst example_new_key of Ok sk \<Rightarrow> sk | _ \<Rightarrow> empty_SecretKey)) empty_SecretKey))
   = (Ok (), case fst example_new_key of Ok sk \<Rightarrow> sk | _ \<Rightarrow> empty_SecretKey)"
  using snacl_password_recovers_key [OF ref_crypto.crypto_contract_axioms
      example_new_key_eval [unfolded example_new_key_def], of empty_SecretKey]
  by (simp add: example_new_key_eval empty_SecretKey_def)

text \<open>C31: deriving with a password whose scrypt key has another digest fails with
  \<^verbatim>\<open>ErrInvalidPassword\<close>, but the key held before the call is lost: it has been overwritten
  with the wrong key, and only \<^verbatim>\<open>Zero\<close> removes that one.\<close>

theorem snacl_wrong_password:
  assumes "crypto_contract C" and "wf_SecretKey sk" and "Key sk = Some k"
    and "scrypt_Key C pw (Salt (Params sk)) (N (Params sk)) (R (Params sk)) (P (Params sk)) 32 = Ok k'"
    and "sha256_Sum256 C k' \<noteq> Digest (Params sk)"
  shows "SecretKey_DeriveKey C pw sk = (Err (SnaclError ErrInvalidPassword), sk\<lparr>Key := Some k'\<rparr>)
    \<and> Key (snd (SecretKey_Zero (snd (SecretKey_DeriveKey C pw sk)))) = Some (make_bytes 32)"
proof -
  have "length k = 32" using assms(2,3) by (simp add: wf_SecretKey_def)
  from crypto_contract.DeriveKey_eq [OF assms(1,3) this assms(4)] assms(5)
  have eq: "SecretKey_DeriveKey C pw sk = (Err (SnaclError ErrInvalidPassword), sk\<lparr>Key := Some k'\<rparr>)"
    by simp
  then show ?thesis
    by (simp add: SecretKey_Zero_def go_simps CryptoKey_Zero_def zero_Bytea32_def)
qed

theorem snacl_wrong_password_witness:
  "fst (SecretKey_DeriveKey ref_crypto [5] example_SecretKey) = Err (SnaclError ErrInvalidPassword)"
proof -
  have "wf_SecretKey example_SecretKey" by (simp add: wf_SecretKey_def example_SecretKey_def)
  moreover have "scrypt_Key ref_crypto [5] (Salt (Params example_SecretKey)) 16384 8 1 32
      = Ok (5 # replicate 31 7)"
    by code_simp
  moreover have "sha256_Sum256 ref_crypto (5 # replicate 31 7) \<noteq> Digest (Params example_SecretKey)"
    by code_simp
  ultimately show ?thesis
    using snacl_wrong_password [OF ref_crypto.crypto_contract_axioms, of example_SecretKey
        "make_bytes 32" "[5]" "5 # replicate 31 7"]
    by (simp add: example_SecretKey_def)
qed

end
