(* ===== verification/Walletdb.thy ===== *)
theory Walletdb
  imports Errors "HOL-Library.List_Lexorder" "HOL-Library.Sublist"
begin

text \<open>
  The database layer: the interface \<^verbatim>\<open>walletdb\<close> (\<^verbatim>\<open>walletdb/interface.go\<close>) and its only
  driver \<^verbatim>\<open>walletdb/bdb\<close>, a wrapper of \<^verbatim>\<open>go.etcd.io/bbolt\<close>. bbolt is a parameter of the
  model, the records \<open>bolt\<close> (a transaction's buckets) and \<open>boltdb\<close> (the database file); its
  documented behaviour is the locales \<open>bolt_contract\<close> and \<open>boltdb_contract\<close>, stated over the
  \<open>view\<close> of a transaction: which key of which bucket holds which value or nested bucket. A
  bucket handle is the path of its names from the root of the transaction.
\<close>

section \<open>The parameter: bbolt\<close>

type_synonym bkt = "bytes list"

datatype entry = Val bytes | Sub

type_synonym view = "bkt \<Rightarrow> bytes \<Rightarrow> entry option"

record 's bolt =
  bolt_Writable :: "'s \<Rightarrow> bool"
  bolt_Bucket :: "'s \<Rightarrow> bkt \<Rightarrow> bytes \<Rightarrow> bool"
  bolt_Get :: "'s \<Rightarrow> bkt \<Rightarrow> bytes \<Rightarrow> bytes option"
  bolt_ForEach :: "'s \<Rightarrow> bkt \<Rightarrow> (bytes \<times> bytes option) list"
  bolt_Put :: "bkt \<Rightarrow> bytes \<Rightarrow> bytes \<Rightarrow> 's \<Rightarrow> bolt_error option \<times> 's"
  bolt_Delete :: "bkt \<Rightarrow> bytes \<Rightarrow> 's \<Rightarrow> bolt_error option \<times> 's"
  bolt_CreateBucket :: "bkt \<Rightarrow> bytes \<Rightarrow> 's \<Rightarrow> bolt_error option \<times> 's"
  bolt_CreateBucketIfNotExists :: "bkt \<Rightarrow> bytes \<Rightarrow> 's \<Rightarrow> bolt_error option \<times> 's"
  bolt_DeleteBucket :: "bkt \<Rightarrow> bytes \<Rightarrow> 's \<Rightarrow> bolt_error option \<times> 's"

text \<open>bbolt's limits: \<^verbatim>\<open>MaxKeySize\<close> and \<^verbatim>\<open>MaxValueSize\<close>.\<close>

definition MaxKeySize :: nat where "MaxKeySize = 32768"
definition MaxValueSize :: nat where "MaxValueSize = 2147483646"

definition view :: "'s bolt \<Rightarrow> 's \<Rightarrow> view" where
  "view B s p k =
     (if bolt_Bucket B s p k then Some Sub else map_option Val (bolt_Get B s p k))"

definition live :: "view \<Rightarrow> bkt \<Rightarrow> bool" where
  "live V p \<longleftrightarrow> p = [] \<or> V (butlast p) (last p) = Some Sub"

definition vput :: "view \<Rightarrow> bkt \<Rightarrow> bytes \<Rightarrow> entry \<Rightarrow> view" where
  "vput V p k e = V(p := (V p)(k \<mapsto> e))"

definition vdel :: "view \<Rightarrow> bkt \<Rightarrow> bytes \<Rightarrow> view" where
  "vdel V p k = V(p := (V p)(k := None))"

text \<open>The documented conditions of \<^verbatim>\<open>Put\<close> and \<^verbatim>\<open>CreateBucket\<close>: the first that fails is reported.\<close>

definition put_error :: "view \<Rightarrow> bkt \<Rightarrow> bytes \<Rightarrow> bytes \<Rightarrow> bolt_error option" where
  "put_error V p k v =
     (if k = [] then Some BoltKeyRequired
      else if MaxKeySize < length k then Some BoltKeyTooLarge
      else if MaxValueSize < length v then Some BoltValueTooLarge
      else if V p k = Some Sub then Some BoltIncompatibleValue else None)"

definition create_error :: "view \<Rightarrow> bkt \<Rightarrow> bytes \<Rightarrow> bolt_error option" where
  "create_error V p k =
     (if k = [] then Some BoltBucketNameRequired
      else case V p k of None \<Rightarrow> None | Some Sub \<Rightarrow> Some BoltBucketExists
        | Some (Val v) \<Rightarrow> Some BoltIncompatibleValue)"

locale bolt_contract =
  fixes B :: "'s bolt"
  assumes get_not_bucket: "bolt_Bucket B s p k \<Longrightarrow> bolt_Get B s p k = None"
    and entry_live: "view B s p k = Some x \<Longrightarrow> live (view B s) p"
    and foreach_set:
      "set (bolt_ForEach B s p) =
         {(k, Some v) |k v. view B s p k = Some (Val v)} \<union> {(k, None) |k. view B s p k = Some Sub}"
    and foreach_sorted:
      "sorted (map fst (bolt_ForEach B s p)) \<and> distinct (map fst (bolt_ForEach B s p))"
    and put_writable: "bolt_Writable B (snd (bolt_Put B p k v s)) = bolt_Writable B s"
    and put_readonly: "\<not> bolt_Writable B s \<Longrightarrow> bolt_Put B p k v s = (Some BoltTxNotWritable, s)"
    and put_fails: "bolt_Writable B s \<Longrightarrow> live (view B s) p \<Longrightarrow> put_error (view B s) p k v = Some e \<Longrightarrow>
      bolt_Put B p k v s = (Some e, s)"
    and put_ok: "bolt_Writable B s \<Longrightarrow> live (view B s) p \<Longrightarrow> put_error (view B s) p k v = None \<Longrightarrow>
      fst (bolt_Put B p k v s) = None \<and> view B (snd (bolt_Put B p k v s)) = vput (view B s) p k (Val v)"
    and create_writable: "bolt_Writable B (snd (bolt_CreateBucket B p k s)) = bolt_Writable B s"
    and create_readonly:
      "\<not> bolt_Writable B s \<Longrightarrow> bolt_CreateBucket B p k s = (Some BoltTxNotWritable, s)"
    and create_fails: "bolt_Writable B s \<Longrightarrow> live (view B s) p \<Longrightarrow>
      create_error (view B s) p k = Some e \<Longrightarrow> bolt_CreateBucket B p k s = (Some e, s)"
    and create_ok: "bolt_Writable B s \<Longrightarrow> live (view B s) p \<Longrightarrow> length k \<le> MaxKeySize \<Longrightarrow>
      create_error (view B s) p k = None \<Longrightarrow>
      fst (bolt_CreateBucket B p k s) = None
        \<and> view B (snd (bolt_CreateBucket B p k s)) = vput (view B s) p k Sub"
    and create_ine: "bolt_CreateBucketIfNotExists B p k s =
      (if bolt_Writable B s \<and> k \<noteq> [] \<and> view B s p k = Some Sub then (None, s)
       else bolt_CreateBucket B p k s)"

section \<open>The driver's bucket and transaction\<close>

text \<open>\<^verbatim>\<open>walletdb/bdb/bucket.go\<close>. A nil bucket is \<open>None\<close>.\<close>

definition bolt_result :: "'a \<Rightarrow> ('s \<Rightarrow> bolt_error option \<times> 's) \<Rightarrow> ('s, 'a) go" where
  "bolt_result a m = (\<lambda>s. case m s of
      (None, s') \<Rightarrow> (Ok a, s')
    | (Some e, s') \<Rightarrow> (Err (convertErr (BoltError e)), s'))"

definition bucket_NestedReadWriteBucket :: "'s bolt \<Rightarrow> bkt \<Rightarrow> bytes \<Rightarrow> ('s, bkt option) go" where
  "bucket_NestedReadWriteBucket B b key =
     bnd (reads (\<lambda>s. bolt_Bucket B s b key)) (\<lambda>found.
     if \<not> found then ret None else ret (Some (b @ [key])))"

definition bucket_NestedReadBucket :: "'s bolt \<Rightarrow> bkt \<Rightarrow> bytes \<Rightarrow> ('s, bkt option) go" where
  "bucket_NestedReadBucket B b key = bucket_NestedReadWriteBucket B b key"

definition bucket_Get :: "'s bolt \<Rightarrow> bkt \<Rightarrow> bytes \<Rightarrow> ('s, bytes option) go" where
  "bucket_Get B b key = reads (\<lambda>s. bolt_Get B s b key)"

definition bucket_ForEach ::
  "'s bolt \<Rightarrow> bkt \<Rightarrow> (bytes \<Rightarrow> bytes option \<Rightarrow> ('s, unit) go) \<Rightarrow> ('s, unit) go" where
  "bucket_ForEach B b fn =
     bnd (reads (\<lambda>s. bolt_ForEach B s b)) (\<lambda>kvs.
     wrap_err convertErr (for_each (\<lambda>(k, v). fn k v) kvs))"

definition bucket_CreateBucket :: "'s bolt \<Rightarrow> bkt \<Rightarrow> bytes \<Rightarrow> ('s, bkt) go" where
  "bucket_CreateBucket B b key = bolt_result (b @ [key]) (bolt_CreateBucket B b key)"

definition bucket_CreateBucketIfNotExists :: "'s bolt \<Rightarrow> bkt \<Rightarrow> bytes \<Rightarrow> ('s, bkt) go" where
  "bucket_CreateBucketIfNotExists B b key =
     bolt_result (b @ [key]) (bolt_CreateBucketIfNotExists B b key)"

definition bucket_DeleteNestedBucket :: "'s bolt \<Rightarrow> bkt \<Rightarrow> bytes \<Rightarrow> ('s, unit) go" where
  "bucket_DeleteNestedBucket B b key = bolt_result () (bolt_DeleteBucket B b key)"

definition bucket_Put :: "'s bolt \<Rightarrow> bkt \<Rightarrow> bytes \<Rightarrow> bytes \<Rightarrow> ('s, unit) go" where
  "bucket_Put B b key v = bolt_result () (bolt_Put B b key v)"

definition bucket_Delete :: "'s bolt \<Rightarrow> bkt \<Rightarrow> bytes \<Rightarrow> ('s, unit) go" where
  "bucket_Delete B b key = bolt_result () (bolt_Delete B b key)"

text \<open>\<^verbatim>\<open>walletdb/bdb/tx.go\<close>: the top-level buckets are the children of the root.\<close>

definition tx_CreateTopLevelBucket :: "'s bolt \<Rightarrow> bytes \<Rightarrow> ('s, bkt) go" where
  "tx_CreateTopLevelBucket B key = bolt_result [key] (bolt_CreateBucketIfNotExists B [] key)"

definition tx_DeleteTopLevelBucket :: "'s bolt \<Rightarrow> bytes \<Rightarrow> ('s, unit) go" where
  "tx_DeleteTopLevelBucket B key = bolt_result () (bolt_DeleteBucket B [] key)"

definition tx_ReadWriteBucket :: "'s bolt \<Rightarrow> bytes \<Rightarrow> ('s, bkt option) go" where
  "tx_ReadWriteBucket B key =
     bnd (reads (\<lambda>s. bolt_Bucket B s [] key)) (\<lambda>found.
     if \<not> found then ret None else ret (Some [key]))"

definition tx_ReadBucket :: "'s bolt \<Rightarrow> bytes \<Rightarrow> ('s, bkt option) go" where
  "tx_ReadBucket B key = tx_ReadWriteBucket B key"

definition tx_ForEachBucket :: "'s bolt \<Rightarrow> (bytes \<Rightarrow> ('s, unit) go) \<Rightarrow> ('s, unit) go" where
  "tx_ForEachBucket B fn =
     bnd (reads (\<lambda>s. bolt_ForEach B s [])) (\<lambda>kvs.
     wrap_err convertErr (for_each (\<lambda>(name, _). fn name) kvs))"

section \<open>The bucket interface\<close>

text \<open>
  The operations of \<^verbatim>\<open>walletdb.ReadWriteBucket\<close> (\<^verbatim>\<open>walletdb/interface.go\<close>) that the wallet
  calls, on the handles of one transaction. The address manager is written against this
  interface; \<open>bdb_bucket B\<close> is the driver's implementation of it.
\<close>

record 's ReadWriteBucket =
  NestedReadBucket :: "bkt \<Rightarrow> bytes \<Rightarrow> ('s, bkt option) go"
  NestedReadWriteBucket :: "bkt \<Rightarrow> bytes \<Rightarrow> ('s, bkt option) go"
  Get :: "bkt \<Rightarrow> bytes \<Rightarrow> ('s, bytes option) go"
  ForEach :: "bkt \<Rightarrow> (bytes \<Rightarrow> bytes option \<Rightarrow> ('s, unit) go) \<Rightarrow> ('s, unit) go"
  CreateBucket :: "bkt \<Rightarrow> bytes \<Rightarrow> ('s, bkt) go"
  CreateBucketIfNotExists :: "bkt \<Rightarrow> bytes \<Rightarrow> ('s, bkt) go"
  DeleteNestedBucket :: "bkt \<Rightarrow> bytes \<Rightarrow> ('s, unit) go"
  Put :: "bkt \<Rightarrow> bytes \<Rightarrow> bytes \<Rightarrow> ('s, unit) go"
  Delete :: "bkt \<Rightarrow> bytes \<Rightarrow> ('s, unit) go"

definition bdb_bucket :: "'s bolt \<Rightarrow> 's ReadWriteBucket" where
  "bdb_bucket B =
     \<lparr>NestedReadBucket = bucket_NestedReadBucket B,
      NestedReadWriteBucket = bucket_NestedReadWriteBucket B,
      Get = bucket_Get B,
      ForEach = bucket_ForEach B,
      CreateBucket = bucket_CreateBucket B,
      CreateBucketIfNotExists = bucket_CreateBucketIfNotExists B,
      DeleteNestedBucket = bucket_DeleteNestedBucket B,
      Put = bucket_Put B,
      Delete = bucket_Delete B\<rparr>"

text \<open>
  What a client may rely on: reads answer from the view and change nothing, a write puts
  one entry into the view or is refused with the reported error and changes nothing.
\<close>

locale walletdb_bucket =
  fixes W :: "'s ReadWriteBucket" and vw :: "'s \<Rightarrow> view" and rw :: "'s \<Rightarrow> bool"
    and entries :: "'s \<Rightarrow> bkt \<Rightarrow> (bytes \<times> bytes option) list"
  assumes Get_sem [db_simps]:
      "Get W p k s = (Ok (case vw s p k of Some (Val v) \<Rightarrow> Some v | _ \<Rightarrow> None), s)"
    and NestedRW_sem [db_simps]: "NestedReadWriteBucket W p k s =
       (Ok (if vw s p k = Some Sub then Some (p @ [k]) else None), s)"
    and NestedR_sem [db_simps]: "NestedReadBucket W p k s =
       (Ok (if vw s p k = Some Sub then Some (p @ [k]) else None), s)"
    and ForEach_sem [db_simps]:
      "ForEach W p fn s = wrap_err convertErr (for_each (\<lambda>(k, v). fn k v) (entries s p)) s"
    and entries_set: "set (entries s p) =
       {(k, Some v) |k v. vw s p k = Some (Val v)} \<union> {(k, None) |k. vw s p k = Some Sub}"
    and entries_keys: "sorted (map fst (entries s p)) \<and> distinct (map fst (entries s p))"
    and entry_in_bucket: "vw s p k = Some x \<Longrightarrow> live (vw s) p"
    and fst_Put [db_simps]: "rw s \<Longrightarrow> live (vw s) p \<Longrightarrow>
       fst (Put W p k v s) = (case put_error (vw s) p k v of
          None \<Rightarrow> Ok () | Some e \<Rightarrow> Err (convertErr (BoltError e)))"
    and view_Put [db_simps]: "rw s \<Longrightarrow> live (vw s) p \<Longrightarrow>
       vw (snd (Put W p k v s)) = (case put_error (vw s) p k v of
          None \<Rightarrow> vput (vw s) p k (Val v) | Some e \<Rightarrow> vw s)"
    and rw_Put [db_simps]: "rw (snd (Put W p k v s)) = rw s"
    and fst_Create [db_simps]: "rw s \<Longrightarrow> live (vw s) p \<Longrightarrow> length k \<le> MaxKeySize \<Longrightarrow>
       fst (CreateBucket W p k s) = (case create_error (vw s) p k of
          None \<Rightarrow> Ok (p @ [k]) | Some e \<Rightarrow> Err (convertErr (BoltError e)))"
    and view_Create [db_simps]: "rw s \<Longrightarrow> live (vw s) p \<Longrightarrow> length k \<le> MaxKeySize \<Longrightarrow>
       vw (snd (CreateBucket W p k s)) = (case create_error (vw s) p k of
          None \<Rightarrow> vput (vw s) p k Sub | Some e \<Rightarrow> vw s)"
    and rw_Create [db_simps]: "rw (snd (CreateBucket W p k s)) = rw s"
    and CreateIfNotExists_sem [db_simps]: "CreateBucketIfNotExists W p k s =
       (if rw s \<and> k \<noteq> [] \<and> vw s p k = Some Sub then (Ok (p @ [k]), s) else CreateBucket W p k s)"

section \<open>Managed transactions\<close>

text \<open>\<open>'d\<close> is the database file, \<open>'s\<close> an open transaction.\<close>

record ('d, 's) boltdb =
  bolt_Begin :: "bool \<Rightarrow> 'd \<Rightarrow> bolt_error + 's"
  bolt_Commit :: "'s \<Rightarrow> 'd \<Rightarrow> bolt_error option \<times> 'd"
  bolt_Rollback :: "'s \<Rightarrow> 'd \<Rightarrow> bolt_error option \<times> 'd"
  bolt_Close :: "'d \<Rightarrow> bolt_error option \<times> 'd"

text \<open>\<open>stored d\<close> is what a transaction begun on \<open>d\<close> sees.\<close>

locale boltdb_contract = bolt_contract B for B :: "'s bolt" +
  fixes T :: "('d, 's) boltdb" and stored :: "'d \<Rightarrow> view"
  assumes begin_view: "bolt_Begin T w d = Inr tx \<Longrightarrow> view B tx = stored d \<and> bolt_Writable B tx = w"
    and commit_ok: "bolt_Commit T tx d = (None, d') \<Longrightarrow> stored d' = view B tx"
    and commit_fails: "bolt_Commit T tx d = (Some e, d') \<Longrightarrow> stored d' = stored d"
    and rollback_view: "stored (snd (bolt_Rollback T tx d)) = stored d"

text \<open>
  \<^verbatim>\<open>walletdb/bdb/db.go\<close>, \<^verbatim>\<open>View\<close> and \<^verbatim>\<open>Update\<close> with the deferred rollback, which also runs when the
  closure panics and, harmlessly, after the commit.
\<close>

definition db_rollback :: "('d, 's) boltdb \<Rightarrow> 's \<Rightarrow> 'd \<Rightarrow> 'd" where
  "db_rollback T tx d = snd (bolt_Rollback T tx d)"

definition db_View :: "('d, 's) boltdb \<Rightarrow> ('s, 'a) go \<Rightarrow> ('d, 'a) go" where
  "db_View T f = (\<lambda>d. case bolt_Begin T False d of
      Inl e \<Rightarrow> (Err (convertErr (BoltError e)), d)
    | Inr tx \<Rightarrow> (case f tx of
          (Ok a, tx') \<Rightarrow> (case bolt_Rollback T tx' d of
              (None, d') \<Rightarrow> (Ok a, db_rollback T tx' d')
            | (Some e, d') \<Rightarrow> (Err (convertErr (BoltError e)), db_rollback T tx' d'))
        | (Err e, tx') \<Rightarrow> (Err e, db_rollback T tx' (db_rollback T tx' d))
        | (Panic, tx') \<Rightarrow> (Panic, db_rollback T tx' d)
        | (Hang, tx') \<Rightarrow> (Hang, d)))"

definition db_Update :: "('d, 's) boltdb \<Rightarrow> ('s, 'a) go \<Rightarrow> ('d, 'a) go" where
  "db_Update T f = (\<lambda>d. case bolt_Begin T True d of
      Inl e \<Rightarrow> (Err (convertErr (BoltError e)), d)
    | Inr tx \<Rightarrow> (case f tx of
          (Ok a, tx') \<Rightarrow> (case bolt_Commit T tx' d of
              (None, d') \<Rightarrow> (Ok a, db_rollback T tx' d')
            | (Some e, d') \<Rightarrow> (Err (convertErr (BoltError e)), db_rollback T tx' d'))
        | (Err e, tx') \<Rightarrow> (Err e, db_rollback T tx' (db_rollback T tx' d))
        | (Panic, tx') \<Rightarrow> (Panic, db_rollback T tx' d)
        | (Hang, tx') \<Rightarrow> (Hang, d)))"

definition db_Close :: "('d, 's) boltdb \<Rightarrow> ('d, unit) go" where
  "db_Close T = bolt_result () (bolt_Close T)"

section \<open>Drivers\<close>

text \<open>
  \<^verbatim>\<open>walletdb/interface.go\<close>: the driver registry, a global map from the type name; and
  \<^verbatim>\<open>walletdb/bdb/driver.go\<close>: its arguments come as \<^verbatim>\<open>...interface{}\<close>.
\<close>

type_synonym duration = u64

datatype goarg = ArgString gostring | ArgBool bool | ArgDuration duration | ArgOther nat

record 'db Driver =
  DBType :: gostring
  Driver_Create :: "goarg list \<Rightarrow> 'db result"
  Driver_Open :: "goarg list \<Rightarrow> 'db result"

type_synonym 'db drivers = "gostring \<rightharpoonup> 'db Driver"

definition RegisterDriver :: "'db Driver \<Rightarrow> ('db drivers, unit) go" where
  "RegisterDriver driver =
     bnd (reads (\<lambda>drivers. drivers (DBType driver))) (\<lambda>found. case found of
       Some _ \<Rightarrow> raise (WalletdbError ErrDbTypeRegistered)
     | None \<Rightarrow> modify (\<lambda>drivers. drivers(DBType driver \<mapsto> driver)))"

definition walletdb_Create :: "'db drivers \<Rightarrow> gostring \<Rightarrow> goarg list \<Rightarrow> 'db result" where
  "walletdb_Create drivers dbType args = (case drivers dbType of
      None \<Rightarrow> Err (WalletdbError ErrDbUnknownType)
    | Some drv \<Rightarrow> Driver_Create drv args)"

definition walletdb_Open :: "'db drivers \<Rightarrow> gostring \<Rightarrow> goarg list \<Rightarrow> 'db result" where
  "walletdb_Open drivers dbType args = (case drivers dbType of
      None \<Rightarrow> Err (WalletdbError ErrDbUnknownType)
    | Some drv \<Rightarrow> Driver_Open drv args)"

definition parseArgs :: "goarg list \<Rightarrow> (gostring \<times> bool \<times> duration) result" where
  "parseArgs args =
     (if length args \<noteq> 3 then Err (Errorf ''invalid arguments'')
      else case args ! 0 of ArgString dbPath \<Rightarrow>
             (case args ! 1 of ArgBool noFreelistSync \<Rightarrow>
                (case args ! 2 of ArgDuration timeout \<Rightarrow> Ok (dbPath, noFreelistSync, timeout)
                 | _ \<Rightarrow> Err (Errorf ''third argument is invalid''))
              | _ \<Rightarrow> Err (Errorf ''second argument is invalid''))
           | _ \<Rightarrow> Err (Errorf ''first argument is invalid''))"

text \<open>
  \<^verbatim>\<open>openDB\<close> takes the file system (\<^verbatim>\<open>os.Stat\<close>: the error, if any) and \<^verbatim>\<open>bbolt.Open\<close> as
  arguments. \<^verbatim>\<open>fileExists\<close> takes every error but \<^verbatim>\<open>IsNotExist\<close> for existence.
\<close>

definition bdb_fileExists :: "(gostring \<Rightarrow> io_error option) \<Rightarrow> gostring \<Rightarrow> bool" where
  "bdb_fileExists stat name = (case stat name of
      Some err \<Rightarrow> (if err = OsNotExist then False else True)
    | None \<Rightarrow> True)"

definition openDB ::
  "(gostring \<Rightarrow> io_error option) \<Rightarrow> (gostring \<Rightarrow> bool \<Rightarrow> duration \<Rightarrow> bolt_error + 'db)
   \<Rightarrow> gostring \<Rightarrow> bool \<Rightarrow> bool \<Rightarrow> duration \<Rightarrow> 'db result" where
  "openDB stat boltOpen dbPath noFreelistSync create timeout =
     (if \<not> create \<and> \<not> bdb_fileExists stat dbPath then Err (WalletdbError ErrDbDoesNotExist)
      else case boltOpen dbPath noFreelistSync timeout of
             Inl e \<Rightarrow> Err (convertErr (BoltError e))
           | Inr db \<Rightarrow> Ok db)"

definition openDBDriver ::
  "(gostring \<Rightarrow> io_error option) \<Rightarrow> (gostring \<Rightarrow> bool \<Rightarrow> duration \<Rightarrow> bolt_error + 'db)
   \<Rightarrow> goarg list \<Rightarrow> 'db result" where
  "openDBDriver stat boltOpen args =
     rbind (parseArgs args) (\<lambda>(dbPath, noFreelistSync, timeout).
       openDB stat boltOpen dbPath noFreelistSync False timeout)"

definition createDBDriver ::
  "(gostring \<Rightarrow> io_error option) \<Rightarrow> (gostring \<Rightarrow> bool \<Rightarrow> duration \<Rightarrow> bolt_error + 'db)
   \<Rightarrow> goarg list \<Rightarrow> 'db result" where
  "createDBDriver stat boltOpen args =
     rbind (parseArgs args) (\<lambda>(dbPath, noFreelistSync, timeout).
       openDB stat boltOpen dbPath noFreelistSync True timeout)"

text \<open>The \<^verbatim>\<open>init\<close> of the package, which panics when the registration fails.\<close>

definition bdb_init ::
  "(gostring \<Rightarrow> io_error option) \<Rightarrow> (gostring \<Rightarrow> bool \<Rightarrow> duration \<Rightarrow> bolt_error + 'db)
   \<Rightarrow> ('db drivers, unit) go" where
  "bdb_init stat boltOpen =
     catch_err
       (RegisterDriver \<lparr>DBType = go_string ''bdb'', Driver_Create = createDBDriver stat boltOpen,
          Driver_Open = openDBDriver stat boltOpen\<rparr>)
       (\<lambda>err. panic)"

section \<open>Lemmas\<close>

subsection \<open>Views\<close>

lemma vput_apply [simp]: "vput V p k e q l = (if q = p \<and> l = k then Some e else V q l)"
  by (simp add: vput_def)

lemma vdel_apply [simp]: "vdel V p k q l = (if q = p \<and> l = k then None else V q l)"
  by (simp add: vdel_def)

lemma live_Nil [simp]: "live V []"
  by (simp add: live_def)

lemma live_snoc [simp]: "live V (p @ [k]) \<longleftrightarrow> V p k = Some Sub"
  by (simp add: live_def)

lemma live_snoc2 [simp]: "live V (p @ [a, k]) \<longleftrightarrow> V (p @ [a]) k = Some Sub"
  using live_snoc [of V "p @ [a]" k] by simp

lemma live_snoc3 [simp]: "live V (p @ [a, b, k]) \<longleftrightarrow> V (p @ [a, b]) k = Some Sub"
  using live_snoc [of V "p @ [a, b]" k] by simp

lemma live_snoc4 [simp]: "live V (p @ [a, b, c, k]) \<longleftrightarrow> V (p @ [a, b, c]) k = Some Sub"
  using live_snoc [of V "p @ [a, b, c]" k] by simp

lemma live_vput_Val [simp]: "V p k \<noteq> Some Sub \<Longrightarrow> live (vput V p k (Val v)) q = live V q"
  by (auto simp: live_def)

lemma live_vput_Sub: "live V q \<Longrightarrow> live (vput V p k Sub) q"
  by (auto simp: live_def)

lemma Get_view: "bolt_Get B s p k = (case view B s p k of Some (Val v) \<Rightarrow> Some v | _ \<Rightarrow> None)"
  if "bolt_contract B"
  using bolt_contract.get_not_bucket [OF that, of s p k]
  by (cases "bolt_Get B s p k") (auto simp: view_def)

lemma Bucket_view: "bolt_Bucket B s p k \<longleftrightarrow> view B s p k = Some Sub"
  by (simp add: view_def)

subsection \<open>The driver implements the bucket interface\<close>

lemma bolt_result_simps:
  "m s = (None, s') \<Longrightarrow> bolt_result a m s = (Ok a, s')"
  "m s = (Some e, s') \<Longrightarrow> bolt_result a m s = (Err (convertErr (BoltError e)), s')"
  by (simp_all add: bolt_result_def)

lemma snd_bolt_result: "snd (bolt_result a m s) = snd (m s)"
  by (simp add: bolt_result_def split: prod.split option.split)

lemma bdb_bucket_sel [simp]:
  "NestedReadBucket (bdb_bucket B) = bucket_NestedReadBucket B"
  "NestedReadWriteBucket (bdb_bucket B) = bucket_NestedReadWriteBucket B"
  "Get (bdb_bucket B) = bucket_Get B"
  "ForEach (bdb_bucket B) = bucket_ForEach B"
  "CreateBucket (bdb_bucket B) = bucket_CreateBucket B"
  "CreateBucketIfNotExists (bdb_bucket B) = bucket_CreateBucketIfNotExists B"
  "Put (bdb_bucket B) = bucket_Put B"
  by (simp_all add: bdb_bucket_def)

context bolt_contract
begin

lemma Put_cases:
  assumes "bolt_Writable B s" and "live (view B s) p"
  shows "fst (bucket_Put B p k v s) = (case put_error (view B s) p k v of
      None \<Rightarrow> Ok () | Some e \<Rightarrow> Err (convertErr (BoltError e)))"
    and "view B (snd (bucket_Put B p k v s)) = (case put_error (view B s) p k v of
      None \<Rightarrow> vput (view B s) p k (Val v) | Some e \<Rightarrow> view B s)"
  using put_ok [OF assms, of k v] put_fails [OF assms, of k v]
  by (cases "bolt_Put B p k v s";
      auto simp: bucket_Put_def bolt_result_def split: option.splits)+

lemma Create_cases:
  assumes "bolt_Writable B s" and "live (view B s) p" and "length k \<le> MaxKeySize"
  shows "fst (bucket_CreateBucket B p k s) = (case create_error (view B s) p k of
      None \<Rightarrow> Ok (p @ [k]) | Some e \<Rightarrow> Err (convertErr (BoltError e)))"
    and "view B (snd (bucket_CreateBucket B p k s)) = (case create_error (view B s) p k of
      None \<Rightarrow> vput (view B s) p k Sub | Some e \<Rightarrow> view B s)"
  using create_ok [OF assms] create_fails [OF assms(1,2), of k]
  by (cases "bolt_CreateBucket B p k s";
      auto simp: bucket_CreateBucket_def bolt_result_def split: option.splits)+

end

sublocale bolt_contract \<subseteq> bdb: walletdb_bucket "bdb_bucket B" "view B" "bolt_Writable B" "bolt_ForEach B"
proof unfold_locales
  show "Get (bdb_bucket B) p k s =
      (Ok (case view B s p k of Some (Val v) \<Rightarrow> Some v | _ \<Rightarrow> None), s)" for p k s
    by (simp add: bucket_Get_def go_simps Get_view [OF bolt_contract_axioms])
  show "bolt_Writable B (snd (Put (bdb_bucket B) p k v s)) = bolt_Writable B s" for p k v s
    by (simp add: bucket_Put_def snd_bolt_result put_writable)
  show "bolt_Writable B (snd (CreateBucket (bdb_bucket B) p k s)) = bolt_Writable B s" for p k s
    by (simp add: bucket_CreateBucket_def snd_bolt_result create_writable)
  show "CreateBucketIfNotExists (bdb_bucket B) p k s =
     (if bolt_Writable B s \<and> k \<noteq> [] \<and> view B s p k = Some Sub then (Ok (p @ [k]), s)
      else CreateBucket (bdb_bucket B) p k s)" for p k s
    by (simp add: bucket_CreateBucketIfNotExists_def bucket_CreateBucket_def bolt_result_def create_ine)
  show "ForEach (bdb_bucket B) p fn s
      = wrap_err convertErr (for_each (\<lambda>(k, v). fn k v) (bolt_ForEach B s p)) s" for p fn s
    by (simp add: bucket_ForEach_def bnd_def go_simps)
qed (simp_all add: bucket_NestedReadBucket_def bucket_NestedReadWriteBucket_def bnd_def go_simps
    Bucket_view foreach_set foreach_sorted entry_live Put_cases Create_cases)

subsection \<open>Managed transactions are atomic\<close>

context boltdb_contract
begin

lemma rollback_stored [simp]: "stored (db_rollback T tx d) = stored d"
  by (simp add: db_rollback_def rollback_view)

lemma View_stored: "stored (snd (db_View T f d)) = stored d"
  by (auto simp: db_View_def rollback_view split: sum.split prod.split res.split option.split)
    (metis rollback_view snd_conv)+

lemma Update_not_Ok: "\<not> is_Ok (fst (db_Update T f d)) \<Longrightarrow> stored (snd (db_Update T f d)) = stored d"
  by (auto simp: db_Update_def commit_fails
      split: sum.splits prod.splits res.splits option.splits)

lemma Update_Ok:
  assumes "db_Update T f d = (Ok a, d')"
  shows "\<exists>tx tx'. bolt_Begin T True d = Inr tx \<and> view B tx = stored d \<and> bolt_Writable B tx
     \<and> f tx = (Ok a, tx') \<and> stored d' = view B tx'"
proof -
  from assms obtain tx where tx: "bolt_Begin T True d = Inr tx"
    by (auto simp: db_Update_def split: sum.splits)
  with assms obtain tx' d1 where f: "f tx = (Ok a, tx')" and c: "bolt_Commit T tx' d = (None, d1)"
      and d': "d' = db_rollback T tx' d1"
    by (auto simp: db_Update_def split: prod.splits res.splits option.splits)
  with tx begin_view [OF tx] commit_ok [OF c] show ?thesis by simp
qed

end

section \<open>A reference store\<close>

text \<open>
  An executable store that satisfies the contract: the entries of all buckets in one
  association list, the newest first. An entry is visible when every bucket on its path
  is there; creating a bucket drops what a deleted bucket of that name left behind.
\<close>

type_synonym mem = "bool \<times> ((bkt \<times> bytes) \<times> entry) list"

fun mem_live_from :: "((bkt \<times> bytes) \<times> entry) list \<Rightarrow> bkt \<Rightarrow> bkt \<Rightarrow> bool" where
  "mem_live_from l q [] = True"
| "mem_live_from l q (k # ks) = (map_of l (q, k) = Some Sub \<and> mem_live_from l (q @ [k]) ks)"

definition mem_live :: "((bkt \<times> bytes) \<times> entry) list \<Rightarrow> bkt \<Rightarrow> bool" where
  "mem_live l p \<longleftrightarrow> mem_live_from l [] p"

definition mem_view :: "((bkt \<times> bytes) \<times> entry) list \<Rightarrow> view" where
  "mem_view l p k = (if mem_live l p then map_of l (p, k) else None)"

definition mem_under :: "bkt \<Rightarrow> (bkt \<times> bytes) \<times> entry \<Rightarrow> bool" where
  "mem_under p x \<longleftrightarrow> prefix p (fst (fst x))"

definition mem_create :: "bkt \<Rightarrow> bytes \<Rightarrow> mem \<Rightarrow> bolt_error option \<times> mem" where
  "mem_create p k = (\<lambda>(w, l).
     if \<not> w then (Some BoltTxNotWritable, (w, l))
     else if \<not> mem_live l p then (Some BoltBucketNotFound, (w, l))
     else case create_error (mem_view l) p k of
        Some e \<Rightarrow> (Some e, (w, l))
      | None \<Rightarrow> (None, (w, ((p, k), Sub) # filter (\<lambda>x. \<not> mem_under (p @ [k]) x) l)))"

definition mem_put :: "bkt \<Rightarrow> bytes \<Rightarrow> bytes \<Rightarrow> mem \<Rightarrow> bolt_error option \<times> mem" where
  "mem_put p k v = (\<lambda>(w, l).
     if \<not> w then (Some BoltTxNotWritable, (w, l))
     else if \<not> mem_live l p then (Some BoltBucketNotFound, (w, l))
     else case put_error (mem_view l) p k v of
        Some e \<Rightarrow> (Some e, (w, l))
      | None \<Rightarrow> (None, (w, ((p, k), Val v) # l)))"

definition mem_remove :: "bool \<Rightarrow> bkt \<Rightarrow> bytes \<Rightarrow> mem \<Rightarrow> bolt_error option \<times> mem" where
  "mem_remove is_bucket p k = (\<lambda>(w, l).
     if \<not> w then (Some BoltTxNotWritable, (w, l))
     else case mem_view l p k of
        None \<Rightarrow> (if is_bucket then Some BoltBucketNotFound else None, (w, l))
      | Some e \<Rightarrow> if (e = Sub) \<noteq> is_bucket then (Some BoltIncompatibleValue, (w, l))
          else (None, (w, filter (\<lambda>x. fst x \<noteq> (p, k) \<and> \<not> mem_under (p @ [k]) x) l)))"

definition mem_foreach :: "mem \<Rightarrow> bkt \<Rightarrow> (bytes \<times> bytes option) list" where
  "mem_foreach s p =
     (if mem_live (snd s) p
      then map (\<lambda>k. (k, case map_of (snd s) (p, k) of Some (Val v) \<Rightarrow> Some v | _ \<Rightarrow> None))
        (sort (remdups (map (\<lambda>x. snd (fst x)) (filter (\<lambda>x. fst (fst x) = p) (snd s)))))
      else [])"

definition memB :: "mem bolt" where
  "memB =
     \<lparr>bolt_Writable = fst,
      bolt_Bucket = (\<lambda>s p k. mem_view (snd s) p k = Some Sub),
      bolt_Get = (\<lambda>s p k. case mem_view (snd s) p k of Some (Val v) \<Rightarrow> Some v | _ \<Rightarrow> None),
      bolt_ForEach = mem_foreach,
      bolt_Put = mem_put,
      bolt_Delete = mem_remove False,
      bolt_CreateBucket = mem_create,
      bolt_CreateBucketIfNotExists = (\<lambda>p k s.
        if fst s \<and> k \<noteq> [] \<and> mem_view (snd s) p k = Some Sub then (None, s) else mem_create p k s),
      bolt_DeleteBucket = mem_remove True\<rparr>"

text \<open>The file is its contents; a closed file (\<open>None\<close>) cannot be used.\<close>

definition memT :: "(((bkt \<times> bytes) \<times> entry) list option, mem) boltdb" where
  "memT =
     \<lparr>bolt_Begin = (\<lambda>w d. case d of None \<Rightarrow> Inl BoltDatabaseNotOpen | Some l \<Rightarrow> Inr (w, l)),
      bolt_Commit = (\<lambda>tx d. if fst tx then (None, Some (snd tx)) else (Some BoltTxNotWritable, d)),
      bolt_Rollback = (\<lambda>tx d. (None, d)),
      bolt_Close = (\<lambda>d. (None, None))\<rparr>"

definition mem_stored :: "((bkt \<times> bytes) \<times> entry) list option \<Rightarrow> view" where
  "mem_stored d = (case d of None \<Rightarrow> (\<lambda>_ _. None) | Some l \<Rightarrow> mem_view l)"

lemma mem_live_Nil [simp]: "mem_live l []"
  by (simp add: mem_live_def)

lemma mem_live_from_append:
  "mem_live_from l q (ks @ js) \<longleftrightarrow> mem_live_from l q ks \<and> mem_live_from l (q @ ks) js"
  by (induction ks arbitrary: q) auto

lemma mem_live_snoc: "mem_live l (p @ [k]) \<longleftrightarrow> mem_live l p \<and> map_of l (p, k) = Some Sub"
  by (simp add: mem_live_def mem_live_from_append)

lemma mem_live_append: "mem_live l (p @ q) \<Longrightarrow> mem_live l p"
  by (simp add: mem_live_def mem_live_from_append)

lemma live_mem_view [simp]: "live (mem_view l) p \<longleftrightarrow> mem_live l p"
  by (cases p rule: rev_cases) (auto simp: live_def mem_view_def mem_live_snoc)

lemma memB_sel [simp]:
  "bolt_Writable memB = fst"
  "bolt_Bucket memB s p k \<longleftrightarrow> mem_view (snd s) p k = Some Sub"
  "bolt_Get memB s p k = (case mem_view (snd s) p k of Some (Val v) \<Rightarrow> Some v | _ \<Rightarrow> None)"
  "bolt_ForEach memB = mem_foreach"
  "bolt_Put memB = mem_put"
  "bolt_CreateBucket memB = mem_create"
  "bolt_CreateBucketIfNotExists memB p k s =
     (if fst s \<and> k \<noteq> [] \<and> mem_view (snd s) p k = Some Sub then (None, s) else mem_create p k s)"
  by (simp_all add: memB_def)

lemma view_memB [simp]: "view memB s = mem_view (snd s)"
  by (auto simp: fun_eq_iff view_def split: option.split entry.split)

lemma mem_live_put:
  "map_of l (p, k) \<noteq> Some Sub \<Longrightarrow> mem_live (((p, k), Val v) # l) q = mem_live l q"
  by (induction q rule: rev_induct) (auto simp: mem_live_snoc)

lemma mem_view_put:
  assumes "mem_live l p" and "mem_view l p k \<noteq> Some Sub"
  shows "mem_view (((p, k), Val v) # l) = vput (mem_view l) p k (Val v)"
  using assms by (auto simp: fun_eq_iff mem_view_def mem_live_put)

lemma map_of_not_under:
  "map_of (filter (\<lambda>x. \<not> mem_under r x) l) (q, j) = (if prefix r q then None else map_of l (q, j))"
  by (induction l) (auto simp: mem_under_def)

lemma mem_live_create:
  "\<not> prefix (p @ [k]) q \<Longrightarrow>
   mem_live (((p, k), Sub) # filter (\<lambda>x. \<not> mem_under (p @ [k]) x) l) q = mem_live l q"
proof (induction q rule: rev_induct)
  case (snoc j q)
  then have "\<not> prefix (p @ [k]) q" and "\<not> (q = p \<and> j = k)" by (auto simp: prefix_def)
  with snoc.IH show ?case by (auto simp: mem_live_snoc map_of_not_under)
qed simp

lemma mem_view_create:
  assumes "mem_live l p" and "mem_view l p k = None"
  shows "mem_view (((p, k), Sub) # filter (\<lambda>x. \<not> mem_under (p @ [k]) x) l) = vput (mem_view l) p k Sub"
    (is "mem_view ?l = _")
proof (intro ext)
  fix q j
  show "mem_view ?l q j = vput (mem_view l) p k Sub q j"
  proof (cases "prefix (p @ [k]) q")
    case True
    with assms have "\<not> mem_live l q"
      by (auto simp: prefix_def mem_view_def mem_live_snoc dest: mem_live_append [of l "p @ [k]", simplified])
    moreover have "q \<noteq> p" using True by (auto simp: prefix_def)
    ultimately show ?thesis using True by (simp add: mem_view_def map_of_not_under)
  next
    case False
    with assms show ?thesis by (auto simp: mem_view_def mem_live_create map_of_not_under)
  qed
qed

lemma map_of_keys:
  "k \<in> (\<lambda>x. snd (fst x)) ` {x \<in> set l. fst (fst x) = p} \<longleftrightarrow> map_of l (p, k) \<noteq> None"
  by (force simp: map_of_eq_None_iff)

lemma mem_foreach_set:
  "set (mem_foreach s p) =
     {(k, Some v) |k v. mem_view (snd s) p k = Some (Val v)} \<union> {(k, None) |k. mem_view (snd s) p k = Some Sub}"
proof (cases "mem_live (snd s) p")
  case True
  have "(k, v) \<in> set (mem_foreach s p) \<longleftrightarrow> map_of (snd s) (p, k) \<noteq> None
      \<and> v = (case map_of (snd s) (p, k) of Some (Val v) \<Rightarrow> Some v | _ \<Rightarrow> None)" for k v
    using True map_of_keys [of k "snd s" p] by (auto simp: mem_foreach_def)
  with True show ?thesis
    by (auto simp: mem_view_def split: entry.splits option.splits)
qed (simp add: mem_foreach_def mem_view_def)

lemma mem_foreach_keys: "sorted (map fst (mem_foreach s p)) \<and> distinct (map fst (mem_foreach s p))"
  by (simp add: mem_foreach_def comp_def)

lemma mem_put_ok:
  assumes "fst s" and "mem_live (snd s) p" and "put_error (mem_view (snd s)) p k v = None"
  shows "fst (mem_put p k v s) = None
    \<and> mem_view (snd (snd (mem_put p k v s))) = vput (mem_view (snd s)) p k (Val v)"
proof -
  have "mem_view (snd s) p k \<noteq> Some Sub"
    using assms(3) by (auto simp: put_error_def split: if_splits)
  with assms mem_view_put [of "snd s" p k v] show ?thesis by (cases s) (simp add: mem_put_def)
qed

lemma mem_create_ok:
  assumes "fst s" and "mem_live (snd s) p" and "create_error (mem_view (snd s)) p k = None"
  shows "fst (mem_create p k s) = None
    \<and> mem_view (snd (snd (mem_create p k s))) = vput (mem_view (snd s)) p k Sub"
proof -
  have "mem_view (snd s) p k = None"
    using assms(3) by (auto simp: create_error_def split: if_splits option.splits entry.splits)
  with assms mem_view_create [of "snd s" p k] show ?thesis by (cases s) (simp add: mem_create_def)
qed

lemma mem_fails:
  "\<not> fst s \<Longrightarrow> mem_put p k v s = (Some BoltTxNotWritable, s)"
  "\<not> fst s \<Longrightarrow> mem_create p k s = (Some BoltTxNotWritable, s)"
  "fst s \<Longrightarrow> mem_live (snd s) p \<Longrightarrow> put_error (mem_view (snd s)) p k v = Some e \<Longrightarrow>
     mem_put p k v s = (Some e, s)"
  "fst s \<Longrightarrow> mem_live (snd s) p \<Longrightarrow> create_error (mem_view (snd s)) p k = Some e \<Longrightarrow>
     mem_create p k s = (Some e, s)"
  by (cases s; simp add: mem_put_def mem_create_def)+

lemma mem_writable:
  "fst (snd (mem_put p k v s)) = fst s" "fst (snd (mem_create p k s)) = fst s"
  by (cases s; simp add: mem_put_def mem_create_def split: option.split)+

interpretation mem: bolt_contract memB
  by unfold_locales
    (simp_all add: mem_put_ok mem_create_ok mem_fails mem_writable mem_foreach_set mem_foreach_keys,
     auto simp: mem_view_def split: if_splits)

interpretation memdb: boltdb_contract memB memT mem_stored
  by unfold_locales (auto simp: memT_def mem_stored_def split: option.splits if_splits)

section \<open>Properties\<close>

text \<open>C19: \<^verbatim>\<open>Update\<close> is atomic. If the closure fails or panics, or the commit fails, the stored
  contents are what they were; if it succeeds, the closure ran on exactly the stored
  contents and what it left in the transaction is what is stored now.\<close>

theorem walletdb_update_atomic:
  assumes "boltdb_contract B T stored"
  shows "(\<not> is_Ok (fst (db_Update T f d)) \<longrightarrow> stored (snd (db_Update T f d)) = stored d)
    \<and> (\<forall>a d'. db_Update T f d = (Ok a, d') \<longrightarrow>
         (\<exists>tx tx'. view B tx = stored d \<and> f tx = (Ok a, tx') \<and> stored d' = view B tx'))"
proof (intro conjI impI allI)
  show "stored (snd (db_Update T f d)) = stored d" if "\<not> is_Ok (fst (db_Update T f d))"
    using assms that by (rule boltdb_contract.Update_not_Ok)
  fix a d'
  assume "db_Update T f d = (Ok a, d')"
  from boltdb_contract.Update_Ok [OF assms this]
  show "\<exists>tx tx'. view B tx = stored d \<and> f tx = (Ok a, tx') \<and> stored d' = view B tx'" by auto
qed

definition example_failing_tx :: "(mem, unit) go" where
  "example_failing_tx = bnd (tx_CreateTopLevelBucket memB [1]) (\<lambda>_. raise (Errorf ''fail''))"

theorem walletdb_update_atomic_witness:
  "mem_stored (snd (db_Update memT example_failing_tx (Some []))) = mem_stored (Some [])"
proof -
  have "\<not> is_Ok (fst (db_Update memT example_failing_tx (Some [])))"
    by code_simp
  then show ?thesis
    using walletdb_update_atomic [OF memdb.boltdb_contract_axioms, of example_failing_tx "Some []"]
    by blast
qed

text \<open>A \<^verbatim>\<open>View\<close> never changes the stored contents, whatever its closure does.\<close>

lemma walletdb_view_keeps_contents:
  assumes "boltdb_contract B T stored"
  shows "stored (snd (db_View T f d)) = stored d"
  using assms by (rule boltdb_contract.View_stored)

lemma walletdb_view_keeps_contents_example:
  "mem_stored (snd (db_View memT (tx_CreateTopLevelBucket memB [1]) (Some [])))
     = mem_stored (Some [])"
  by (rule walletdb_view_keeps_contents [OF memdb.boltdb_contract_axioms])

text \<open>Once the package is initialised, type \<^verbatim>\<open>bdb\<close> is served by the driver and every other
  type is unknown; opening refuses a missing file while creating does not look; a second
  initialisation panics.\<close>

lemma bdb_driver_registered:
  assumes "reg = snd (bdb_init stat boltOpen Map.empty)"
  shows "fst (bdb_init stat boltOpen Map.empty) = Ok ()
    \<and> fst (bdb_init stat boltOpen reg) = Panic
    \<and> (t \<noteq> go_string ''bdb'' \<longrightarrow> walletdb_Open reg t args = Err (WalletdbError ErrDbUnknownType))
    \<and> walletdb_Open reg (go_string ''bdb'') [ArgString path, ArgBool nfs, ArgDuration tmo] =
        (if stat path = Some OsNotExist then Err (WalletdbError ErrDbDoesNotExist)
         else case boltOpen path nfs tmo of Inl e \<Rightarrow> Err (convertErr (BoltError e)) | Inr db \<Rightarrow> Ok db)
    \<and> walletdb_Create reg (go_string ''bdb'') [ArgString path, ArgBool nfs, ArgDuration tmo] =
        (case boltOpen path nfs tmo of Inl e \<Rightarrow> Err (convertErr (BoltError e)) | Inr db \<Rightarrow> Ok db)"
proof -
  define drv where "drv = \<lparr>DBType = go_string ''bdb'', Driver_Create = createDBDriver stat boltOpen,
          Driver_Open = openDBDriver stat boltOpen\<rparr>"
  have init: "fst (bdb_init stat boltOpen Map.empty) = Ok ()"
    "snd (bdb_init stat boltOpen Map.empty) = [go_string ''bdb'' \<mapsto> drv]"
    by (simp_all add: bdb_init_def RegisterDriver_def go_simps drv_def)
  have "fst (bdb_init stat boltOpen [go_string ''bdb'' \<mapsto> drv]) = Panic"
    by (simp add: bdb_init_def RegisterDriver_def go_simps)
  with init show ?thesis unfolding assms init(2)
    by (simp add: walletdb_Open_def walletdb_Create_def drv_def openDBDriver_def createDBDriver_def
        parseArgs_def openDB_def bdb_fileExists_def split: option.split)
qed

lemma bdb_driver_registered_example:
  "fst (bdb_init (\<lambda>_. None) (\<lambda>_ _ _. Inr (0 :: nat))
     (snd (bdb_init (\<lambda>_. None) (\<lambda>_ _ _. Inr 0) Map.empty))) = Panic"
  using bdb_driver_registered [OF refl] by blast

end
