(* ===== verification/MgrDb.thy ===== *)
theory MgrDb
  imports Codec Snacl Walletdb
begin

text \<open>
  The address manager's namespace in the database (\<^verbatim>\<open>waddrmgr/db.go\<close>): its buckets, the
  manager-wide records (version, keys, watching-only flag, birthday) and the per-scope
  buckets with the last account number and the coin type keys. Every function is written over
  the bucket interface \<open>ReadWriteBucket\<close>; \<open>ns\<close> is the handle of the namespace. The lemmas are
  proved from the contract \<open>walletdb_bucket\<close> alone, in the style of symbolic execution: what
  an operation returns and which view it leaves, given the view it starts from.
\<close>

section \<open>Names\<close>

definition mainBucketName :: bytes where "mainBucketName = go_string ''main''"
definition syncBucketName :: bytes where "syncBucketName = go_string ''sync''"
definition scopeBucketName :: bytes where "scopeBucketName = go_string ''scope''"
definition scopeSchemaBucketName :: bytes where "scopeSchemaBucketName = go_string ''scope-schema''"
definition usedAddrBucketName :: bytes where "usedAddrBucketName = go_string ''usedaddrs''"
definition acctBucketName :: bytes where "acctBucketName = go_string ''acct''"
definition acctNameIdxBucketName :: bytes where "acctNameIdxBucketName = go_string ''acctnameidx''"
definition acctIDIdxBucketName :: bytes where "acctIDIdxBucketName = go_string ''acctididx''"
definition addrBucketName :: bytes where "addrBucketName = go_string ''addr''"
definition addrAcctIdxBucketName :: bytes where "addrAcctIdxBucketName = go_string ''addracctidx''"
definition metaBucketName :: bytes where "metaBucketName = go_string ''meta''"
definition lastAccountName :: bytes where "lastAccountName = go_string ''lastaccount''"
definition mgrVersionName :: bytes where "mgrVersionName = go_string ''mgrver''"
definition mgrCreateDateName :: bytes where "mgrCreateDateName = go_string ''mgrcreated''"
definition coinTypePrivKeyName :: bytes where "coinTypePrivKeyName = go_string ''ctpriv''"
definition coinTypePubKeyName :: bytes where "coinTypePubKeyName = go_string ''ctpub''"
definition masterHDPrivName :: bytes where "masterHDPrivName = go_string ''mhdpriv''"
definition masterHDPubName :: bytes where "masterHDPubName = go_string ''mhdpub''"
definition masterPrivKeyName :: bytes where "masterPrivKeyName = go_string ''mpriv''"
definition masterPubKeyName :: bytes where "masterPubKeyName = go_string ''mpub''"
definition cryptoPrivKeyName :: bytes where "cryptoPrivKeyName = go_string ''cpriv''"
definition cryptoPubKeyName :: bytes where "cryptoPubKeyName = go_string ''cpub''"
definition cryptoScriptKeyName :: bytes where "cryptoScriptKeyName = go_string ''cscript''"
definition watchingOnlyName :: bytes where "watchingOnlyName = go_string ''watchonly''"
definition birthdayName :: bytes where "birthdayName = go_string ''birthday''"

lemmas bucket_names = mainBucketName_def syncBucketName_def scopeBucketName_def
  scopeSchemaBucketName_def usedAddrBucketName_def acctBucketName_def acctNameIdxBucketName_def
  acctIDIdxBucketName_def addrBucketName_def addrAcctIdxBucketName_def metaBucketName_def

lemmas key_names = lastAccountName_def mgrVersionName_def mgrCreateDateName_def
  coinTypePrivKeyName_def coinTypePubKeyName_def masterHDPrivName_def masterHDPubName_def
  masterPrivKeyName_def masterPubKeyName_def cryptoPrivKeyName_def cryptoPubKeyName_def
  cryptoScriptKeyName_def watchingOnlyName_def birthdayName_def

lemmas names = bucket_names key_names

definition nullVal :: bytes where "nullVal = [0]"

text \<open>\<^verbatim>\<open>waddrmgr/migrations.go\<close>: the versions, whose migrations only print, and the latest one.\<close>

definition noop_migration :: "bkt \<Rightarrow> ('s, unit) go" where
  "noop_migration ns = ret ()"

definition versions :: "(u32 \<times> (bkt \<Rightarrow> ('s, unit) go)) list" where
  "versions = [(2, noop_migration), (5, noop_migration), (6, noop_migration),
     (7, noop_migration), (8, noop_migration)]"

definition getLatestVersion :: u32 where
  "getLatestVersion = fst (last (versions :: (u32 \<times> (bkt \<Rightarrow> (unit, unit) go)) list))"

definition latestMgrVersion :: u32 where
  "latestMgrVersion = getLatestVersion"

definition DefaultAccountNum :: u32 where "DefaultAccountNum = 0"

section \<open>Scope buckets\<close>

text \<open>A nested bucket on which a method is called at once: a missing one is a nil interface.\<close>

definition nested_r :: "'s ReadWriteBucket \<Rightarrow> bkt \<Rightarrow> bytes \<Rightarrow> ('s, bkt) go" where
  "nested_r W b name = bnd (NestedReadBucket W b name) deref"

definition nested_rw :: "'s ReadWriteBucket \<Rightarrow> bkt \<Rightarrow> bytes \<Rightarrow> ('s, bkt) go" where
  "nested_rw W b name = bnd (NestedReadWriteBucket W b name) deref"

text \<open>\<^verbatim>\<open>return managerError(ErrDatabase, str, err)\<close>.\<close>

definition as_db_error :: "('s, 'a) go \<Rightarrow> ('s, 'a) go" where
  "as_db_error m = wrap_err (\<lambda>err. managerError ErrDatabase (Some err)) m"

definition fetchReadScopeBucket :: "'s ReadWriteBucket \<Rightarrow> bkt \<Rightarrow> KeyScope \<Rightarrow> ('s, bkt) go" where
  "fetchReadScopeBucket W ns scope =
     bnd (nested_r W ns scopeBucketName) (\<lambda>rootScopeBucket.
     bnd (NestedReadBucket W rootScopeBucket (scopeToBytes scope)) (\<lambda>scopedBucket.
     case scopedBucket of
       None \<Rightarrow> raise (managerError ErrScopeNotFound None)
     | Some b \<Rightarrow> ret b))"

definition fetchWriteScopeBucket :: "'s ReadWriteBucket \<Rightarrow> bkt \<Rightarrow> KeyScope \<Rightarrow> ('s, bkt) go" where
  "fetchWriteScopeBucket W ns scope =
     bnd (nested_rw W ns scopeBucketName) (\<lambda>rootScopeBucket.
     bnd (NestedReadWriteBucket W rootScopeBucket (scopeToBytes scope)) (\<lambda>scopedBucket.
     case scopedBucket of
       None \<Rightarrow> raise (managerError ErrScopeNotFound None)
     | Some b \<Rightarrow> ret b))"

definition createScopedManagerNS :: "'s ReadWriteBucket \<Rightarrow> bkt \<Rightarrow> KeyScope \<Rightarrow> ('s, unit) go" where
  "createScopedManagerNS W ns scope =
     bnd (as_db_error (CreateBucket W ns (scopeToBytes scope))) (\<lambda>scopeBucket.
     bnd (as_db_error (CreateBucket W scopeBucket acctBucketName)) (\<lambda>_.
     bnd (as_db_error (CreateBucket W scopeBucket addrBucketName)) (\<lambda>_.
     bnd (as_db_error (CreateBucket W scopeBucket usedAddrBucketName)) (\<lambda>_.
     bnd (as_db_error (CreateBucket W scopeBucket addrAcctIdxBucketName)) (\<lambda>_.
     bnd (as_db_error (CreateBucket W scopeBucket acctNameIdxBucketName)) (\<lambda>_.
     bnd (as_db_error (CreateBucket W scopeBucket acctIDIdxBucketName)) (\<lambda>_.
     bnd (as_db_error (CreateBucket W scopeBucket metaBucketName)) (\<lambda>_.
     ret ()))))))))"

section \<open>Last account and coin type keys\<close>

definition fetchLastAccount :: "'s ReadWriteBucket \<Rightarrow> bkt \<Rightarrow> KeyScope \<Rightarrow> ('s, u32) go" where
  "fetchLastAccount W ns scope =
     bnd (fetchReadScopeBucket W ns scope) (\<lambda>scopedBucket.
     bnd (nested_r W scopedBucket metaBucketName) (\<lambda>metaBucket.
     bnd (Get W metaBucket lastAccountName) (\<lambda>val.
     case val of
       None \<Rightarrow> ret (2 ^ 32 - 1)
     | Some val \<Rightarrow>
         if length val \<noteq> 4 then raise (managerError ErrDatabase None)
         else lift (rbind (slice val 0 4) uint32_le))))"

definition putLastAccount :: "'s ReadWriteBucket \<Rightarrow> bkt \<Rightarrow> KeyScope \<Rightarrow> u32 \<Rightarrow> ('s, unit) go" where
  "putLastAccount W ns scope acct =
     bnd (fetchWriteScopeBucket W ns scope) (\<lambda>scopedBucket.
     bnd (nested_rw W scopedBucket metaBucketName) (\<lambda>bucket.
     as_db_error (Put W bucket lastAccountName (uint32ToBytes acct))))"

definition fetchCoinTypeKeys ::
  "'s ReadWriteBucket \<Rightarrow> bkt \<Rightarrow> KeyScope \<Rightarrow> ('s, bytes \<times> bytes) go" where
  "fetchCoinTypeKeys W ns scope =
     bnd (fetchReadScopeBucket W ns scope) (\<lambda>scopedBucket.
     bnd (Get W scopedBucket coinTypePubKeyName) (\<lambda>pubEnc.
     case pubEnc of
       None \<Rightarrow> raise (managerError ErrDatabase None)
     | Some coinTypePubKeyEnc \<Rightarrow>
         bnd (Get W scopedBucket coinTypePrivKeyName) (\<lambda>privEnc.
         case privEnc of
           None \<Rightarrow> raise (managerError ErrDatabase None)
         | Some coinTypePrivKeyEnc \<Rightarrow> ret (coinTypePubKeyEnc, coinTypePrivKeyEnc))))"

text \<open>A nil slice is \<open>None\<close>: it is not stored.\<close>

definition put_if :: "'s ReadWriteBucket \<Rightarrow> bkt \<Rightarrow> bytes \<Rightarrow> bytes option \<Rightarrow> ('s, unit) go" where
  "put_if W b key val = (case val of
      None \<Rightarrow> ret ()
    | Some v \<Rightarrow> as_db_error (Put W b key v))"

definition putCoinTypeKeys ::
  "'s ReadWriteBucket \<Rightarrow> bkt \<Rightarrow> KeyScope \<Rightarrow> bytes option \<Rightarrow> bytes option \<Rightarrow> ('s, unit) go" where
  "putCoinTypeKeys W ns scope coinTypePubKeyEnc coinTypePrivKeyEnc =
     bnd (fetchWriteScopeBucket W ns scope) (\<lambda>scopedBucket.
     bnd (put_if W scopedBucket coinTypePubKeyName coinTypePubKeyEnc) (\<lambda>_.
     put_if W scopedBucket coinTypePrivKeyName coinTypePrivKeyEnc))"

section \<open>Manager-wide records\<close>

definition putManagerVersion :: "'s ReadWriteBucket \<Rightarrow> bkt \<Rightarrow> u32 \<Rightarrow> ('s, unit) go" where
  "putManagerVersion W ns version =
     bnd (nested_rw W ns mainBucketName) (\<lambda>bucket.
     as_db_error (Put W bucket mgrVersionName (uint32ToBytes version)))"

definition fetchManagerVersion :: "'s ReadWriteBucket \<Rightarrow> bkt \<Rightarrow> ('s, u32) go" where
  "fetchManagerVersion W ns =
     bnd (nested_r W ns mainBucketName) (\<lambda>mainBucket.
     bnd (Get W mainBucket mgrVersionName) (\<lambda>verBytes.
     case verBytes of
       None \<Rightarrow> raise (managerError ErrDatabase None)
     | Some verBytes \<Rightarrow> lift (uint32_le verBytes)))"

definition putWatchingOnly :: "'s ReadWriteBucket \<Rightarrow> bkt \<Rightarrow> bool \<Rightarrow> ('s, unit) go" where
  "putWatchingOnly W ns watchingOnly =
     bnd (nested_rw W ns mainBucketName) (\<lambda>bucket.
     as_db_error (Put W bucket watchingOnlyName [if watchingOnly then 1 else 0]))"

text \<open>\<^verbatim>\<open>len\<close> of a nil slice is 0.\<close>

definition go_len :: "bytes option \<Rightarrow> nat" where
  "go_len b = (case b of None \<Rightarrow> 0 | Some b \<Rightarrow> length b)"

definition fetchWatchingOnly :: "'s ReadWriteBucket \<Rightarrow> bkt \<Rightarrow> ('s, bool) go" where
  "fetchWatchingOnly W ns =
     bnd (nested_r W ns mainBucketName) (\<lambda>bucket.
     bnd (Get W bucket watchingOnlyName) (\<lambda>buf.
     if go_len buf \<noteq> 1 then raise (managerError ErrDatabase None)
     else bnd (deref buf) (\<lambda>buf. bnd (lift (index buf 0)) (\<lambda>b. ret (b \<noteq> 0)))))"

text \<open>Times are their Unix seconds. The writer is little-endian, the reader big-endian.\<close>

definition putBirthday :: "'s ReadWriteBucket \<Rightarrow> bkt \<Rightarrow> u64 \<Rightarrow> ('s, unit) go" where
  "putBirthday W ns t =
     bnd (nested_rw W ns syncBucketName) (\<lambda>bucket.
     as_db_error (Put W bucket birthdayName (le64 t)))"

definition fetchBirthday :: "'s ReadWriteBucket \<Rightarrow> bkt \<Rightarrow> ('s, u64) go" where
  "fetchBirthday W ns =
     bnd (nested_r W ns syncBucketName) (\<lambda>bucket.
     bnd (Get W bucket birthdayName) (\<lambda>birthdayTimestamp.
     if go_len birthdayTimestamp \<noteq> 8 then raise (managerError ErrDatabase None)
     else bnd (deref birthdayTimestamp) (\<lambda>b. lift (uint64_be b))))"

definition fetchMasterHDKeys :: "'s ReadWriteBucket \<Rightarrow> bkt \<Rightarrow> ('s, bytes option \<times> bytes option) go" where
  "fetchMasterHDKeys W ns =
     bnd (nested_r W ns mainBucketName) (\<lambda>bucket.
     bnd (Get W bucket masterHDPrivName) (\<lambda>masterHDPrivEnc.
     bnd (Get W bucket masterHDPubName) (\<lambda>masterHDPubEnc.
     ret (masterHDPrivEnc, masterHDPubEnc))))"

text \<open>The writers that store only what is not nil use the bucket only then.\<close>

definition put_main :: "'s ReadWriteBucket \<Rightarrow> bkt option \<Rightarrow> bytes \<Rightarrow> bytes option \<Rightarrow> ('s, unit) go" where
  "put_main W bucket key val = (case val of
      None \<Rightarrow> ret ()
    | Some v \<Rightarrow> bnd (deref bucket) (\<lambda>b. as_db_error (Put W b key v)))"

definition putMasterHDKeys ::
  "'s ReadWriteBucket \<Rightarrow> bkt \<Rightarrow> bytes option \<Rightarrow> bytes option \<Rightarrow> ('s, unit) go" where
  "putMasterHDKeys W ns masterHDPrivEnc masterHDPubEnc =
     bnd (NestedReadWriteBucket W ns mainBucketName) (\<lambda>bucket.
     bnd (put_main W bucket masterHDPrivName masterHDPrivEnc) (\<lambda>_.
     put_main W bucket masterHDPubName masterHDPubEnc))"

definition fetchMasterKeyParams :: "'s ReadWriteBucket \<Rightarrow> bkt \<Rightarrow> ('s, bytes \<times> bytes option) go" where
  "fetchMasterKeyParams W ns =
     bnd (nested_r W ns mainBucketName) (\<lambda>bucket.
     bnd (Get W bucket masterPubKeyName) (\<lambda>val.
     case val of
       None \<Rightarrow> raise (managerError ErrDatabase None)
     | Some pubParams \<Rightarrow>
         bnd (Get W bucket masterPrivKeyName) (\<lambda>privParams.
         ret (pubParams, privParams))))"

definition putMasterKeyParams ::
  "'s ReadWriteBucket \<Rightarrow> bkt \<Rightarrow> bytes option \<Rightarrow> bytes option \<Rightarrow> ('s, unit) go" where
  "putMasterKeyParams W ns pubParams privParams =
     bnd (NestedReadWriteBucket W ns mainBucketName) (\<lambda>bucket.
     bnd (put_main W bucket masterPrivKeyName privParams) (\<lambda>_.
     put_main W bucket masterPubKeyName pubParams))"

definition fetchCryptoKeys ::
  "'s ReadWriteBucket \<Rightarrow> bkt \<Rightarrow> ('s, bytes \<times> bytes option \<times> bytes option) go" where
  "fetchCryptoKeys W ns =
     bnd (nested_r W ns mainBucketName) (\<lambda>bucket.
     bnd (Get W bucket cryptoPubKeyName) (\<lambda>val.
     case val of
       None \<Rightarrow> raise (managerError ErrDatabase None)
     | Some pubKey \<Rightarrow>
         bnd (Get W bucket cryptoPrivKeyName) (\<lambda>privKey.
         bnd (Get W bucket cryptoScriptKeyName) (\<lambda>scriptKey.
         ret (pubKey, privKey, scriptKey)))))"

definition putCryptoKeys ::
  "'s ReadWriteBucket \<Rightarrow> bkt \<Rightarrow> bytes option \<Rightarrow> bytes option \<Rightarrow> bytes option \<Rightarrow> ('s, unit) go" where
  "putCryptoKeys W ns pubKeyEncrypted privKeyEncrypted scriptKeyEncrypted =
     bnd (NestedReadWriteBucket W ns mainBucketName) (\<lambda>bucket.
     bnd (put_main W bucket cryptoPubKeyName pubKeyEncrypted) (\<lambda>_.
     bnd (put_main W bucket cryptoPrivKeyName privKeyEncrypted) (\<lambda>_.
     put_main W bucket cryptoScriptKeyName scriptKeyEncrypted)))"

definition fetchScopeAddrSchema ::
  "'s ReadWriteBucket \<Rightarrow> bkt \<Rightarrow> KeyScope \<Rightarrow> ('s, ScopeAddrSchema) go" where
  "fetchScopeAddrSchema W ns scope =
     bnd (NestedReadBucket W ns scopeSchemaBucketName) (\<lambda>schemaBucket.
     case schemaBucket of
       None \<Rightarrow> raise (managerError ErrScopeNotFound None)
     | Some schemaBucket \<Rightarrow>
         bnd (Get W schemaBucket (scopeToBytes scope)) (\<lambda>schemaBytes.
         case schemaBytes of
           None \<Rightarrow> raise (managerError ErrScopeNotFound None)
         | Some schemaBytes \<Rightarrow> lift (scopeSchemaFromBytes schemaBytes)))"

text \<open>The callback of \<^verbatim>\<open>forEachKeyScope\<close> is run for every key of 8 bytes.\<close>

definition forEachKeyScope ::
  "'s ReadWriteBucket \<Rightarrow> bkt \<Rightarrow> (KeyScope \<Rightarrow> ('s, unit) go) \<Rightarrow> ('s, unit) go" where
  "forEachKeyScope W ns fn =
     bnd (nested_r W ns scopeBucketName) (\<lambda>bucket.
     ForEach W bucket (\<lambda>k v.
       if length k \<noteq> 8 then ret ()
       else bnd (lift (scopeFromBytes k)) fn))"

section \<open>Creating the namespace\<close>

text \<open>
  The loop over \<^verbatim>\<open>defaultScopes\<close> runs in the map's iteration order, the order of the list;
  \<open>now\<close> is \<^verbatim>\<open>time.Now().Unix()\<close>.
\<close>

definition create_default_scope ::
  "'s ReadWriteBucket \<Rightarrow> bkt \<Rightarrow> bkt \<Rightarrow> bkt \<Rightarrow> KeyScope \<times> ScopeAddrSchema \<Rightarrow> ('s, unit) go" where
  "create_default_scope W ns scopeBucket scopeSchemas = (\<lambda>(scope, scopeSchema).
     bnd (Put W scopeSchemas (scopeToBytes scope) (scopeSchemaToBytes scopeSchema)) (\<lambda>_.
     bnd (createScopedManagerNS W scopeBucket scope) (\<lambda>_.
     putLastAccount W ns scope DefaultAccountNum)))"

definition createManagerNS ::
  "'s ReadWriteBucket \<Rightarrow> bkt \<Rightarrow> (KeyScope \<times> ScopeAddrSchema) list \<Rightarrow> u64 \<Rightarrow> ('s, unit) go" where
  "createManagerNS W ns defaultScopes now =
     bnd (as_db_error (CreateBucket W ns mainBucketName)) (\<lambda>mainBucket.
     bnd (as_db_error (CreateBucket W ns syncBucketName)) (\<lambda>_.
     bnd (as_db_error (CreateBucket W ns scopeBucketName)) (\<lambda>scopeBucket.
     bnd (as_db_error (CreateBucket W ns scopeSchemaBucketName)) (\<lambda>scopeSchemas.
     bnd (for_each (create_default_scope W ns scopeBucket scopeSchemas) defaultScopes) (\<lambda>_.
     bnd (putManagerVersion W ns latestMgrVersion) (\<lambda>_.
     as_db_error (Put W mainBucket mgrCreateDateName (le64 now))))))))"

section \<open>Views of the namespace\<close>

text \<open>The seven buckets of a scope, the four of the manager, and the paths of the handles.\<close>

definition scopeSubBuckets :: "bytes list" where
  "scopeSubBuckets = [acctBucketName, addrBucketName, usedAddrBucketName, addrAcctIdxBucketName,
     acctNameIdxBucketName, acctIDIdxBucketName, metaBucketName]"

definition mgrBuckets :: "bytes list" where
  "mgrBuckets = [mainBucketName, syncBucketName, scopeBucketName, scopeSchemaBucketName]"

abbreviation scope_path :: "bkt \<Rightarrow> KeyScope \<Rightarrow> bkt" where
  "scope_path ns scope \<equiv> ns @ [scopeBucketName, scopeToBytes scope]"

abbreviation meta_path :: "bkt \<Rightarrow> KeyScope \<Rightarrow> bkt" where
  "meta_path ns scope \<equiv> ns @ [scopeBucketName, scopeToBytes scope, metaBucketName]"

definition has_buckets :: "view \<Rightarrow> bkt \<Rightarrow> bytes list \<Rightarrow> bool" where
  "has_buckets V p ks \<longleftrightarrow> (\<forall>k \<in> set ks. V p k = Some Sub)"

definition scope_there :: "view \<Rightarrow> bkt \<Rightarrow> KeyScope \<Rightarrow> bool" where
  "scope_there V ns scope \<longleftrightarrow>
     V ns scopeBucketName = Some Sub \<and> V (ns @ [scopeBucketName]) (scopeToBytes scope) = Some Sub"

definition scope_ready :: "view \<Rightarrow> bkt \<Rightarrow> KeyScope \<Rightarrow> bool" where
  "scope_ready V ns scope \<longleftrightarrow>
     scope_there V ns scope \<and> has_buckets V (scope_path ns scope) scopeSubBuckets"

lemma vput_Sub_iff:
  "V p k \<noteq> Some Sub \<Longrightarrow> vput V p k (Val v) q l = Some Sub \<longleftrightarrow> V q l = Some Sub"
  "V q l = Some Sub \<Longrightarrow> vput V p k Sub q l = Some Sub"
  by simp_all

lemma has_buckets_vput [simp]:
  "V p k \<noteq> Some Sub \<Longrightarrow> has_buckets (vput V p k (Val v)) q ks \<longleftrightarrow> has_buckets V q ks"
  using vput_Sub_iff(1) [of V p k] by (simp add: has_buckets_def del: vput_apply)

lemma has_buckets_vput_Sub [simp]: "has_buckets V q ks \<Longrightarrow> has_buckets (vput V p k Sub) q ks"
  unfolding has_buckets_def by (blast intro: vput_Sub_iff(2))

lemma scope_ready_vput [simp]:
  "V p k \<noteq> Some Sub \<Longrightarrow> scope_ready (vput V p k (Val v)) ns scope \<longleftrightarrow> scope_ready V ns scope"
  "scope_ready V ns scope \<Longrightarrow> scope_ready (vput V p k Sub) ns scope"
  by (simp_all add: scope_ready_def scope_there_def vput_Sub_iff del: vput_apply)

lemma scope_ready_sub:
  "scope_ready V ns scope \<Longrightarrow> k \<in> set scopeSubBuckets \<Longrightarrow> V (scope_path ns scope) k = Some Sub"
  by (simp add: scope_ready_def has_buckets_def)

lemma scope_ready_there [simp]: "scope_ready V ns scope \<Longrightarrow> scope_there V ns scope"
  by (simp add: scope_ready_def)

lemma scope_ready_subs:
  assumes "scope_ready V ns scope"
  shows "V (scope_path ns scope) acctBucketName = Some Sub"
    and "V (scope_path ns scope) addrBucketName = Some Sub"
    and "V (scope_path ns scope) usedAddrBucketName = Some Sub"
    and "V (scope_path ns scope) addrAcctIdxBucketName = Some Sub"
    and "V (scope_path ns scope) acctNameIdxBucketName = Some Sub"
    and "V (scope_path ns scope) acctIDIdxBucketName = Some Sub"
    and "V (scope_path ns scope) metaBucketName = Some Sub"
  by (rule scope_ready_sub [OF assms], simp add: scopeSubBuckets_def)+

lemma scope_there_live [simp]: "scope_there V ns scope \<Longrightarrow> live V (scope_path ns scope)"
  by (simp add: scope_there_def)

lemma name_lengths [simp]:
  "length mainBucketName = 4" "length syncBucketName = 4" "length scopeBucketName = 5"
  "length scopeSchemaBucketName = 12" "length usedAddrBucketName = 9"
  "length acctBucketName = 4" "length acctNameIdxBucketName = 11"
  "length acctIDIdxBucketName = 9" "length addrBucketName = 4"
  "length addrAcctIdxBucketName = 11" "length metaBucketName = 4" "length lastAccountName = 11"
  "length mgrVersionName = 6" "length mgrCreateDateName = 10" "length coinTypePrivKeyName = 6"
  "length coinTypePubKeyName = 5" "length masterHDPrivName = 7" "length masterHDPubName = 6"
  "length masterPrivKeyName = 5" "length masterPubKeyName = 4" "length cryptoPrivKeyName = 5"
  "length cryptoPubKeyName = 4" "length cryptoScriptKeyName = 7" "length watchingOnlyName = 9"
  "length birthdayName = 8"
  by (simp_all add: names)

lemma names_not_Nil [simp]:
  "mainBucketName \<noteq> []" "syncBucketName \<noteq> []" "scopeBucketName \<noteq> []"
  "scopeSchemaBucketName \<noteq> []" "usedAddrBucketName \<noteq> []"
  "acctBucketName \<noteq> []" "acctNameIdxBucketName \<noteq> []"
  "acctIDIdxBucketName \<noteq> []" "addrBucketName \<noteq> []"
  "addrAcctIdxBucketName \<noteq> []" "metaBucketName \<noteq> []" "lastAccountName \<noteq> []"
  "mgrVersionName \<noteq> []" "mgrCreateDateName \<noteq> []" "coinTypePrivKeyName \<noteq> []"
  "coinTypePubKeyName \<noteq> []" "masterHDPrivName \<noteq> []" "masterHDPubName \<noteq> []"
  "masterPrivKeyName \<noteq> []" "masterPubKeyName \<noteq> []" "cryptoPrivKeyName \<noteq> []"
  "cryptoPubKeyName \<noteq> []" "cryptoScriptKeyName \<noteq> []"
  "watchingOnlyName \<noteq> []" "birthdayName \<noteq> []"
  by (simp_all add: names)

definition mgrKeys :: "bytes list" where
  "mgrKeys = [mgrVersionName, mgrCreateDateName, masterHDPrivName, masterHDPubName,
     masterPrivKeyName, masterPubKeyName, cryptoPrivKeyName, cryptoPubKeyName,
     cryptoScriptKeyName, watchingOnlyName, birthdayName]"

definition scopeKeys :: "bytes list" where
  "scopeKeys = scopeSubBuckets @ [coinTypePrivKeyName, coinTypePubKeyName]"

lemmas name_lists = mgrBuckets_def mgrKeys_def scopeSubBuckets_def scopeKeys_def

lemma distinct_names: "distinct mgrBuckets" "distinct mgrKeys" "distinct scopeKeys"
  by (simp_all add: name_lists names)

lemma distinct_names_rev: "distinct (rev mgrBuckets)" "distinct (rev mgrKeys)" "distinct (rev scopeKeys)"
  by (simp_all add: distinct_names)

text \<open>Both directions of every inequality, as the simplifier does not turn them around.\<close>

lemmas names_neq [simp] = distinct_names [unfolded name_lists, simplified]
  distinct_names_rev [unfolded name_lists, simplified]

lemma put_error_None [db_simps]:
  "k \<noteq> [] \<Longrightarrow> length k \<le> MaxKeySize \<Longrightarrow> length v \<le> MaxValueSize \<Longrightarrow> V p k \<noteq> Some Sub \<Longrightarrow>
     put_error V p k v = None"
  by (simp add: put_error_def)

lemma create_error_None [db_simps]: "k \<noteq> [] \<Longrightarrow> V p k = None \<Longrightarrow> create_error V p k = None"
  by (simp add: create_error_def)

lemma create_error_Sub [db_simps]:
  "k \<noteq> [] \<Longrightarrow> V p k = Some Sub \<Longrightarrow> create_error V p k = Some BoltBucketExists"
  by (simp add: create_error_def)

lemmas limits = MaxKeySize_def MaxValueSize_def

lemma as_db_error_simps [go_simps]:
  "fst (as_db_error m s) = map_err (\<lambda>err. managerError ErrDatabase (Some err)) (fst (m s))"
  "snd (as_db_error m s) = snd (m s)"
  by (simp_all add: as_db_error_def go_simps)

section \<open>Symbolic execution\<close>

text \<open>What creating a scope adds to a view.\<close>

definition create_scope_view :: "view \<Rightarrow> bkt \<Rightarrow> bytes \<Rightarrow> view" where
  "create_scope_view V p key =
     fold (\<lambda>k V. vput V (p @ [key]) k Sub) scopeSubBuckets (vput V p key Sub)"

lemma fold_vput_apply:
  "fold (\<lambda>k V. vput V p k Sub) ks V q l = (if q = p \<and> l \<in> set ks then Some Sub else V q l)"
  by (induction ks arbitrary: V) auto

lemma create_scope_view_apply:
  "create_scope_view V p key q l =
     (if q = p @ [key] \<and> l \<in> set scopeSubBuckets then Some Sub
      else if q = p \<and> l = key then Some Sub else V q l)"
  by (simp add: create_scope_view_def fold_vput_apply)

text \<open>Storing an optional value.\<close>

definition vput_opt :: "view \<Rightarrow> bkt \<Rightarrow> bytes \<Rightarrow> bytes option \<Rightarrow> view" where
  "vput_opt V p k val = (case val of None \<Rightarrow> V | Some v \<Rightarrow> vput V p k (Val v))"

lemma vput_opt_apply [simp]:
  "vput_opt V p k val q l =
     (if q = p \<and> l = k \<and> val \<noteq> None then Some (Val (the val)) else V q l)"
  by (simp add: vput_opt_def split: option.split)

definition fits_value :: "bytes option \<Rightarrow> bool" where
  "fits_value val \<longleftrightarrow> (\<forall>v. val = Some v \<longrightarrow> length v \<le> MaxValueSize)"

lemma fits_value_simps [simp]: "fits_value None" "fits_value (Some v) \<longleftrightarrow> length v \<le> MaxValueSize"
  by (simp_all add: fits_value_def)

text \<open>The main bucket is there and holds no bucket under a name of a record.\<close>

definition main_ready :: "view \<Rightarrow> bkt \<Rightarrow> bool" where
  "main_ready V ns \<longleftrightarrow> V ns mainBucketName = Some Sub
     \<and> (\<forall>k \<in> set mgrKeys. V (ns @ [mainBucketName]) k \<noteq> Some Sub)"

lemma main_ready_vput [simp]:
  "main_ready V ns \<Longrightarrow> V p k \<noteq> Some Sub \<Longrightarrow> main_ready (vput V p k (Val v)) ns"
  by (auto simp: main_ready_def)

text \<open>What one round of the loop in \<^verbatim>\<open>createManagerNS\<close> adds.\<close>

definition create_default_view :: "bkt \<Rightarrow> KeyScope \<times> ScopeAddrSchema \<Rightarrow> view \<Rightarrow> view" where
  "create_default_view ns = (\<lambda>(scope, sch) V.
     vput (create_scope_view
            (vput V (ns @ [scopeSchemaBucketName]) (scopeToBytes scope) (Val (scopeSchemaToBytes sch)))
            (ns @ [scopeBucketName]) (scopeToBytes scope))
       (ns @ [scopeBucketName, scopeToBytes scope, metaBucketName]) lastAccountName
       (Val (uint32ToBytes DefaultAccountNum)))"

lemma create_default_view_apply:
  "create_default_view ns (scope, sch) V q l =
     (if q = ns @ [scopeBucketName, scopeToBytes scope, metaBucketName] \<and> l = lastAccountName
      then Some (Val (uint32ToBytes DefaultAccountNum))
      else if q = scope_path ns scope \<and> l \<in> set scopeSubBuckets then Some Sub
      else if q = ns @ [scopeBucketName] \<and> l = scopeToBytes scope then Some Sub
      else if q = ns @ [scopeSchemaBucketName] \<and> l = scopeToBytes scope
      then Some (Val (scopeSchemaToBytes sch)) else V q l)"
  by (simp add: create_default_view_def create_scope_view_apply)

text \<open>The whole of \<^verbatim>\<open>createManagerNS\<close> on views.\<close>

definition create_ns_view :: "bkt \<Rightarrow> (KeyScope \<times> ScopeAddrSchema) list \<Rightarrow> u64 \<Rightarrow> view \<Rightarrow> view" where
  "create_ns_view ns xs now V =
     vput (vput (fold (create_default_view ns) xs (fold (\<lambda>k V. vput V ns k Sub) mgrBuckets V))
            (ns @ [mainBucketName]) mgrVersionName (Val (uint32ToBytes latestMgrVersion)))
       (ns @ [mainBucketName]) mgrCreateDateName (Val (le64 now))"

lemma fold_frame:
  "(\<And>x V. x \<in> set xs \<Longrightarrow> f x V q l = V q l) \<Longrightarrow> fold f xs V q l = V q l"
  by (induction xs arbitrary: V) auto

lemma fold_hit:
  assumes "x \<in> set xs" and "\<And>V. f x V q l = e" and "\<And>y V. y \<in> set xs \<Longrightarrow> y \<noteq> x \<Longrightarrow> f y V q l = V q l"
  shows "fold f xs V q l = e"
  using assms
proof (induction xs arbitrary: V)
  case (Cons y ys)
  show ?case
  proof (cases "x \<in> set ys")
    case False
    with Cons.prems(1) have "x = y" by simp
    have "fold f ys (f y V) q l = f y V q l"
      by (rule fold_frame) (use False Cons.prems(3) in auto)
    also have "\<dots> = e" using Cons.prems(2) \<open>x = y\<close> by blast
    finally show ?thesis by simp
  qed (use Cons in auto)
qed simp

lemma fold_default_frame:
  "fold (create_default_view ns) xs V ns k = V ns k"
  "fold (create_default_view ns) xs V (ns @ [mainBucketName]) k = V (ns @ [mainBucketName]) k"
  by (rule fold_frame, auto simp: create_default_view_apply)+

text \<open>The scopes \<^verbatim>\<open>forEachKeyScope\<close> visits: every key of 8 bytes is the key of one scope.\<close>

definition decode_scope :: "bytes \<Rightarrow> KeyScope" where
  "decode_scope k = \<lparr>Purpose = le_word (take 4 k), Coin = le_word (take 4 (drop 4 k))\<rparr>"

definition key_scopes :: "(bytes \<times> bytes option) list \<Rightarrow> KeyScope list" where
  "key_scopes kvs = map (decode_scope \<circ> fst) (filter (\<lambda>kv. length (fst kv) = 8) kvs)"

lemma scopeFromBytes_8: "length k = 8 \<Longrightarrow> scopeFromBytes k = Ok (decode_scope k)"
  by (simp add: scopeFromBytes_def decode_scope_def uint32_le_def slice_def)

lemma scopeToBytes_decode [simp]: "length k = 8 \<Longrightarrow> scopeToBytes (decode_scope k) = k"
  by (simp add: scopeToBytes_def decode_scope_def le32_le_word)

lemma decode_scopeToBytes [simp]: "decode_scope (scopeToBytes scope) = scope"
  by (simp add: scopeToBytes_def decode_scope_def)

context walletdb_bucket
begin

lemmas ready_subs [db_simps] = scope_ready_subs [of "vw s" for s]

lemma missing_bucket: "vw s p k \<noteq> Some Sub \<Longrightarrow> vw s (p @ [k]) l = None"
  using entry_in_bucket [of s "p @ [k]" l] by (cases "vw s (p @ [k]) l") auto

lemma nested_simps [go_simps]:
  "nested_r W p k s = (if vw s p k = Some Sub then (Ok (p @ [k]), s) else (Panic, s))"
  "nested_rw W p k s = (if vw s p k = Some Sub then (Ok (p @ [k]), s) else (Panic, s))"
  by (simp_all add: nested_r_def nested_rw_def bnd_def db_simps go_simps)

lemma fetch_scope_bucket [go_simps]:
  "scope_there (vw s) ns scope \<Longrightarrow> fetchReadScopeBucket W ns scope s = (Ok (scope_path ns scope), s)"
  "scope_there (vw s) ns scope \<Longrightarrow> fetchWriteScopeBucket W ns scope s = (Ok (scope_path ns scope), s)"
  by (simp_all add: fetchReadScopeBucket_def fetchWriteScopeBucket_def bnd_def go_simps db_simps
      scope_there_def)

lemma fetch_scope_missing:
  assumes "vw s ns scopeBucketName = Some Sub"
    and "vw s (ns @ [scopeBucketName]) (scopeToBytes scope) \<noteq> Some Sub"
  shows "fetchReadScopeBucket W ns scope s = (Err (managerError ErrScopeNotFound None), s)"
    and "fetchWriteScopeBucket W ns scope s = (Err (managerError ErrScopeNotFound None), s)"
  using assms
  by (simp_all add: fetchReadScopeBucket_def fetchWriteScopeBucket_def bnd_def go_simps db_simps)

lemma createScopedManagerNS_effect:
  assumes "rw s" and "live (vw s) p" and "vw s p (scopeToBytes scope) = None"
  shows "fst (createScopedManagerNS W p scope s) = Ok ()"
    and "vw (snd (createScopedManagerNS W p scope s)) = create_scope_view (vw s) p (scopeToBytes scope)"
    and "rw (snd (createScopedManagerNS W p scope s))"
  using assms missing_bucket [of s p "scopeToBytes scope"]
  by (simp_all add: createScopedManagerNS_def create_scope_view_def scopeSubBuckets_def go_simps
      db_simps limits)


text \<open>The last account number of a scope.\<close>

lemma putLastAccount_effect:
  assumes "rw s" and "scope_ready (vw s) ns scope" and "vw s (meta_path ns scope) lastAccountName \<noteq> Some Sub"
  shows "fst (putLastAccount W ns scope n s) = Ok ()"
    and "vw (snd (putLastAccount W ns scope n s))
      = vput (vw s) (meta_path ns scope) lastAccountName (Val (uint32ToBytes n))"
    and "rw (snd (putLastAccount W ns scope n s))"
  using assms by (simp_all add: putLastAccount_def go_simps db_simps limits)

lemma fetchLastAccount_effect:
  assumes "scope_ready (vw s) ns scope"
  shows "vw s (meta_path ns scope) lastAccountName = Some (Val (uint32ToBytes n)) \<Longrightarrow>
      fetchLastAccount W ns scope s = (Ok n, s)"
    and "vw s (meta_path ns scope) lastAccountName = None \<Longrightarrow>
      fetchLastAccount W ns scope s = (Ok (2 ^ 32 - 1), s)"
  using assms
  by (auto intro!: prog_eqI simp: fetchLastAccount_def go_simps db_simps slice_def)

text \<open>One round of the loop in \<^verbatim>\<open>createManagerNS\<close> and the whole loop, on views.\<close>

lemma create_default_scope_effect:
  fixes sch :: ScopeAddrSchema
  assumes "rw s" and "vw s ns scopeBucketName = Some Sub" and "vw s ns scopeSchemaBucketName = Some Sub"
    and "vw s (ns @ [scopeBucketName]) (scopeToBytes scope) = None"
    and "vw s (ns @ [scopeSchemaBucketName]) (scopeToBytes scope) \<noteq> Some Sub"
  defines "m \<equiv> create_default_scope W ns (ns @ [scopeBucketName]) (ns @ [scopeSchemaBucketName]) (scope, sch)"
  shows "fst (m s) = Ok ()"
    and "vw (snd (m s)) = create_default_view ns (scope, sch) (vw s)"
    and "rw (snd (m s))"
proof -
  let ?s1 = "snd (Put W (ns @ [scopeSchemaBucketName]) (scopeToBytes scope) (scopeSchemaToBytes sch) s)"
  let ?s2 = "snd (createScopedManagerNS W (ns @ [scopeBucketName]) scope ?s1)"
  have put: "fst (Put W (ns @ [scopeSchemaBucketName]) (scopeToBytes scope) (scopeSchemaToBytes sch) s) = Ok ()"
    "vw ?s1 = vput (vw s) (ns @ [scopeSchemaBucketName]) (scopeToBytes scope) (Val (scopeSchemaToBytes sch))"
    "rw ?s1"
    using assms(1-5) by (simp_all add: db_simps limits scopeSchemaToBytes_def)
  note ns = createScopedManagerNS_effect [of ?s1 "ns @ [scopeBucketName]" scope]
  have "rw ?s1" "live (vw ?s1) (ns @ [scopeBucketName])"
      "vw ?s1 (ns @ [scopeBucketName]) (scopeToBytes scope) = None"
    using assms put by simp_all
  note ns = ns [OF this]
  have ready: "scope_ready (vw ?s2) ns scope"
    using assms by (simp add: ns put scope_ready_def scope_there_def has_buckets_def create_scope_view_apply)
  have "vw ?s1 (ns @ [scopeBucketName, scopeToBytes scope]) l = None" for l
    using missing_bucket [of ?s1 "ns @ [scopeBucketName]" "scopeToBytes scope" l] assms put by simp
  with missing_bucket [of ?s1 "ns @ [scopeBucketName, scopeToBytes scope]" metaBucketName lastAccountName]
  have "vw ?s2 (meta_path ns scope) lastAccountName \<noteq> Some Sub"
    by (simp add: ns create_scope_view_apply)
  note last = putLastAccount_effect [OF ns(3) ready this, of DefaultAccountNum]
  show "fst (m s) = Ok ()" "vw (snd (m s)) = create_default_view ns (scope, sch) (vw s)"
      "rw (snd (m s))"
    by (simp_all add: m_def create_default_scope_def go_simps put(1) ns(1) last)
      (simp add: ns put create_default_view_def)
qed

lemma create_scopes_effect:
  assumes "rw s" and "vw s ns scopeBucketName = Some Sub" and "vw s ns scopeSchemaBucketName = Some Sub"
    and "distinct (map fst xs)"
    and "\<forall>x \<in> set xs. vw s (ns @ [scopeBucketName]) (scopeToBytes (fst x)) = None
      \<and> vw s (ns @ [scopeSchemaBucketName]) (scopeToBytes (fst x)) \<noteq> Some Sub"
  defines "m \<equiv> for_each (create_default_scope W ns (ns @ [scopeBucketName]) (ns @ [scopeSchemaBucketName])) xs"
  shows "fst (m s) = Ok () \<and> vw (snd (m s)) = fold (create_default_view ns) xs (vw s) \<and> rw (snd (m s))"
  using assms(1-5) unfolding m_def
proof (induction xs arbitrary: s)
  case Nil
  then show ?case by (simp add: go_simps)
next
  case (Cons x xs)
  obtain scope sch where x: "x = (scope, sch)" by (cases x)
  let ?m = "create_default_scope W ns (ns @ [scopeBucketName]) (ns @ [scopeSchemaBucketName])"
  have "vw s (ns @ [scopeBucketName]) (scopeToBytes scope) = None"
      "vw s (ns @ [scopeSchemaBucketName]) (scopeToBytes scope) \<noteq> Some Sub"
    using Cons.prems(5) x by auto
  note step = create_default_scope_effect [OF Cons.prems(1-3) this, of sch]
  let ?s' = "snd (?m (scope, sch) s)"
  have "fst (for_each ?m xs ?s') = Ok ()
    \<and> vw (snd (for_each ?m xs ?s')) = fold (create_default_view ns) xs (vw ?s')
    \<and> rw (snd (for_each ?m xs ?s'))"
    by (rule Cons.IH) (use Cons.prems in \<open>auto simp: step x create_default_view_apply\<close>)
  with step show ?case by (simp add: go_simps x)
qed

lemma putManagerVersion_effect:
  assumes "rw s" and "vw s ns mainBucketName = Some Sub" and "vw s (ns @ [mainBucketName]) mgrVersionName \<noteq> Some Sub"
  shows "fst (putManagerVersion W ns v s) = Ok ()"
    and "vw (snd (putManagerVersion W ns v s))
      = vput (vw s) (ns @ [mainBucketName]) mgrVersionName (Val (uint32ToBytes v))"
    and "rw (snd (putManagerVersion W ns v s))"
  using assms by (simp_all add: putManagerVersion_def go_simps db_simps limits)

lemma createManagerNS_effect:
  assumes "rw s" and "live (vw s) ns" and "\<forall>k \<in> set mgrBuckets. vw s ns k = None" and "distinct (map fst xs)"
  shows "fst (createManagerNS W ns xs now s) = Ok ()
    \<and> vw (snd (createManagerNS W ns xs now s)) = create_ns_view ns xs now (vw s)
    \<and> rw (snd (createManagerNS W ns xs now s))"
proof -
  have none: "vw s ns mainBucketName = None" "vw s ns syncBucketName = None"
      "vw s ns scopeBucketName = None" "vw s ns scopeSchemaBucketName = None"
    using assms(3) by (simp_all add: mgrBuckets_def)
  have empty: "vw s (ns @ [k]) l = None" if "k \<in> set mgrBuckets" for k l
    using missing_bucket assms(3) that by simp
  let ?create = "\<lambda>k s. snd (CreateBucket W ns k s)"
  let ?s4 = "?create scopeSchemaBucketName (?create scopeBucketName (?create syncBucketName (?create mainBucketName s)))"
  have vw4: "vw ?s4 = fold (\<lambda>k V. vput V ns k Sub) mgrBuckets (vw s)" and rw4: "rw ?s4"
    using assms(1,2) none by (simp_all add: db_simps limits mgrBuckets_def live_vput_Sub)
  let ?loop = "for_each (create_default_scope W ns (ns @ [scopeBucketName]) (ns @ [scopeSchemaBucketName])) xs"
  have loop: "fst (?loop ?s4) = Ok () \<and> vw (snd (?loop ?s4)) = fold (create_default_view ns) xs (vw ?s4)
      \<and> rw (snd (?loop ?s4))"
    by (rule create_scopes_effect)
      (use assms(4) empty in \<open>auto simp: rw4 vw4 fold_vput_apply mgrBuckets_def\<close>)
  let ?s5 = "snd (?loop ?s4)"
  have main: "vw ?s5 ns mainBucketName = Some Sub" "vw ?s5 (ns @ [mainBucketName]) l = None" for l
    using loop empty [of mainBucketName]
    by (simp_all add: fold_default_frame vw4 fold_vput_apply mgrBuckets_def)
  note version = putManagerVersion_effect [of ?s5 ns latestMgrVersion]
  have "fst (CreateBucket W ns mainBucketName s) = Ok (ns @ [mainBucketName])"
    "fst (CreateBucket W ns syncBucketName (?create mainBucketName s)) = Ok (ns @ [syncBucketName])"
    "fst (CreateBucket W ns scopeBucketName (?create syncBucketName (?create mainBucketName s))) = Ok (ns @ [scopeBucketName])"
    "fst (CreateBucket W ns scopeSchemaBucketName (?create scopeBucketName (?create syncBucketName (?create mainBucketName s)))) = Ok (ns @ [scopeSchemaBucketName])"
    using assms(1,2) none by (simp_all add: db_simps limits live_vput_Sub)
  then show ?thesis
    using loop main
    by (simp add: createManagerNS_def go_simps version db_simps limits create_ns_view_def vw4)
qed

lemma put_main_effect:
  assumes "rw s" and "vw s ns mainBucketName = Some Sub" and "vw s (ns @ [mainBucketName]) key \<noteq> Some Sub"
    and "key \<noteq> []" and "length key \<le> MaxKeySize" and "fits_value val"
  shows "fst (put_main W (Some (ns @ [mainBucketName])) key val s) = Ok ()"
    and "vw (snd (put_main W (Some (ns @ [mainBucketName])) key val s))
      = vput_opt (vw s) (ns @ [mainBucketName]) key val"
    and "rw (snd (put_main W (Some (ns @ [mainBucketName])) key val s))"
  using assms by (cases val; simp add: put_main_def vput_opt_def go_simps db_simps)+

lemma main_ready_keys:
  assumes "main_ready (vw s) ns"
  shows "vw s ns mainBucketName = Some Sub" and "k \<in> set mgrKeys \<Longrightarrow> vw s (ns @ [mainBucketName]) k \<noteq> Some Sub"
  using assms by (simp_all add: main_ready_def)

lemma putMasterHDKeys_effect:
  assumes "rw s" and "main_ready (vw s) ns" and "fits_value a" and "fits_value b"
  shows "fst (putMasterHDKeys W ns a b s) = Ok ()"
    and "vw (snd (putMasterHDKeys W ns a b s)) =
      vput_opt (vput_opt (vw s) (ns @ [mainBucketName]) masterHDPrivName a) (ns @ [mainBucketName]) masterHDPubName b"
    and "rw (snd (putMasterHDKeys W ns a b s))"
  using assms(1,3,4) main_ready_keys [OF assms(2)]
  by (simp_all add: putMasterHDKeys_def go_simps db_simps put_main_effect limits mgrKeys_def)

lemma putMasterKeyParams_effect:
  assumes "rw s" and "main_ready (vw s) ns" and "fits_value a" and "fits_value b"
  shows "fst (putMasterKeyParams W ns a b s) = Ok ()"
    and "vw (snd (putMasterKeyParams W ns a b s)) =
      vput_opt (vput_opt (vw s) (ns @ [mainBucketName]) masterPrivKeyName b) (ns @ [mainBucketName]) masterPubKeyName a"
    and "rw (snd (putMasterKeyParams W ns a b s))"
  using assms(1,3,4) main_ready_keys [OF assms(2)]
  by (simp_all add: putMasterKeyParams_def go_simps db_simps put_main_effect limits mgrKeys_def)

lemma putCryptoKeys_effect:
  assumes "rw s" and "main_ready (vw s) ns" and "fits_value a" and "fits_value b" and "fits_value c"
  shows "fst (putCryptoKeys W ns a b c s) = Ok ()"
    and "vw (snd (putCryptoKeys W ns a b c s)) =
      vput_opt (vput_opt (vput_opt (vw s) (ns @ [mainBucketName]) cryptoPubKeyName a)
        (ns @ [mainBucketName]) cryptoPrivKeyName b) (ns @ [mainBucketName]) cryptoScriptKeyName c"
    and "rw (snd (putCryptoKeys W ns a b c s))"
  using assms(1,3-5) main_ready_keys [OF assms(2)]
  by (simp_all add: putCryptoKeys_def go_simps db_simps put_main_effect limits mgrKeys_def)

lemma putWatchingOnly_effect:
  assumes "rw s" and "main_ready (vw s) ns"
  shows "fst (putWatchingOnly W ns wo s) = Ok ()"
    and "vw (snd (putWatchingOnly W ns wo s)) =
      vput (vw s) (ns @ [mainBucketName]) watchingOnlyName (Val [if wo then 1 else 0])"
    and "rw (snd (putWatchingOnly W ns wo s))"
  using assms(1) main_ready_keys [OF assms(2)]
  by (simp_all add: putWatchingOnly_def go_simps db_simps limits mgrKeys_def)

lemmas main_records_effect = putMasterHDKeys_effect putMasterKeyParams_effect putCryptoKeys_effect
  putWatchingOnly_effect

lemma main_fetch:
  assumes "vw s ns mainBucketName = Some Sub"
  shows "vw s (ns @ [mainBucketName]) masterPubKeyName = Some (Val a) \<Longrightarrow>
      fetchMasterKeyParams W ns s
        = (Ok (a, case vw s (ns @ [mainBucketName]) masterPrivKeyName of Some (Val v) \<Rightarrow> Some v | _ \<Rightarrow> None), s)"
    and "fetchMasterHDKeys W ns s
        = (Ok (case vw s (ns @ [mainBucketName]) masterHDPrivName of Some (Val v) \<Rightarrow> Some v | _ \<Rightarrow> None,
               case vw s (ns @ [mainBucketName]) masterHDPubName of Some (Val v) \<Rightarrow> Some v | _ \<Rightarrow> None), s)"
    and "vw s (ns @ [mainBucketName]) cryptoPubKeyName = Some (Val a) \<Longrightarrow>
      fetchCryptoKeys W ns s
        = (Ok (a, case vw s (ns @ [mainBucketName]) cryptoPrivKeyName of Some (Val v) \<Rightarrow> Some v | _ \<Rightarrow> None,
                  case vw s (ns @ [mainBucketName]) cryptoScriptKeyName of Some (Val v) \<Rightarrow> Some v | _ \<Rightarrow> None), s)"
    and "vw s (ns @ [mainBucketName]) watchingOnlyName = Some (Val [w]) \<Longrightarrow>
      fetchWatchingOnly W ns s = (Ok (w \<noteq> 0), s)"
    and "vw s (ns @ [mainBucketName]) mgrVersionName = Some (Val (uint32ToBytes n)) \<Longrightarrow>
      fetchManagerVersion W ns s = (Ok n, s)"
    and "vw s (ns @ [mainBucketName]) mgrVersionName = None \<Longrightarrow>
      fetchManagerVersion W ns s = (Err (managerError ErrDatabase None), s)"
  using assms
  by (auto intro!: prog_eqI simp: fetchMasterKeyParams_def fetchMasterHDKeys_def fetchCryptoKeys_def
      fetchWatchingOnly_def fetchManagerVersion_def go_simps db_simps go_len_def index_def)

lemma fetchScopeAddrSchema_effect:
  assumes "vw s ns scopeSchemaBucketName = Some Sub"
  shows "vw s (ns @ [scopeSchemaBucketName]) (scopeToBytes scope) = Some (Val (scopeSchemaToBytes sch)) \<Longrightarrow>
      fetchScopeAddrSchema W ns scope s = (Ok sch, s)"
    and "vw s (ns @ [scopeSchemaBucketName]) (scopeToBytes scope) = None \<Longrightarrow>
      fetchScopeAddrSchema W ns scope s = (Err (managerError ErrScopeNotFound None), s)"
  using assms by (auto intro!: prog_eqI simp: fetchScopeAddrSchema_def go_simps db_simps)

lemma birthday_effect:
  assumes "rw s" and "vw s ns syncBucketName = Some Sub" and "vw s (ns @ [syncBucketName]) birthdayName \<noteq> Some Sub"
  shows "fst (putBirthday W ns t s) = Ok ()"
    and "vw (snd (putBirthday W ns t s)) = vput (vw s) (ns @ [syncBucketName]) birthdayName (Val (le64 t))"
    and "fst (fetchBirthday W ns (snd (putBirthday W ns t s))) = Ok (le_word (rev (le64 t)))"
  using assms
  by (simp_all add: putBirthday_def fetchBirthday_def go_simps db_simps limits go_len_def uint64_be_def)

lemma forEachKeyScope_effect:
  assumes "vw s ns scopeBucketName = Some Sub"
  shows "forEachKeyScope W ns fn s = wrap_err convertErr
    (for_each fn (key_scopes (entries s (ns @ [scopeBucketName])))) s"
proof -
  have "for_each (\<lambda>(k, v). if length k \<noteq> 8 then ret () else bnd (lift (scopeFromBytes k)) fn) kvs s
      = for_each fn (key_scopes kvs) s" for kvs :: "(bytes \<times> bytes option) list" and s
    by (induction kvs arbitrary: s)
      (auto simp: key_scopes_def bnd_def go_simps scopeFromBytes_8 split: prod.splits res.splits)
  then show ?thesis
    using assms by (simp add: forEachKeyScope_def bnd_def go_simps db_simps wrap_err_def)
qed

lemma key_scopes_set:
  "set (key_scopes (entries s (ns @ [scopeBucketName]))) =
     {scope. vw s (ns @ [scopeBucketName]) (scopeToBytes scope) \<noteq> None}"
  (is "?A = ?B")
proof (intro set_eqI iffI)
  fix scope
  assume "scope \<in> ?A"
  then obtain k v where kv: "(k, v) \<in> set (entries s (ns @ [scopeBucketName]))" "length k = 8"
      "scope = decode_scope k"
    by (auto simp: key_scopes_def)
  then have "scopeToBytes scope = k" by (simp add: scopeToBytes_decode)
  with kv(1) show "scope \<in> ?B" by (auto simp: entries_set)
next
  fix scope
  assume "scope \<in> ?B"
  then obtain e where e: "vw s (ns @ [scopeBucketName]) (scopeToBytes scope) = Some e" by auto
  have "\<exists>v. (scopeToBytes scope, v) \<in> set (entries s (ns @ [scopeBucketName]))"
    using e by (cases e) (auto simp: entries_set)
  then show "scope \<in> ?A" by (force simp: key_scopes_def)
qed

end

section \<open>The created namespace\<close>

lemma fold_default_scope:
  assumes "distinct (map fst xs)" and "(scope, sch) \<in> set xs"
  shows "fold (create_default_view ns) xs V (ns @ [scopeBucketName]) (scopeToBytes scope) = Some Sub"
    and "k \<in> set scopeSubBuckets \<Longrightarrow> fold (create_default_view ns) xs V (scope_path ns scope) k = Some Sub"
    and "fold (create_default_view ns) xs V (ns @ [scopeSchemaBucketName]) (scopeToBytes scope)
      = Some (Val (scopeSchemaToBytes sch))"
    and "fold (create_default_view ns) xs V (meta_path ns scope) lastAccountName
      = Some (Val (uint32ToBytes DefaultAccountNum))"
proof -
  have other: "fst y \<noteq> scope" if "y \<in> set xs" "y \<noteq> (scope, sch)" for y
    using assms that by (metis eq_key_imp_eq_value prod.collapse)
  note hit = fold_hit [OF assms(2), where f = "create_default_view ns"]
  show "fold (create_default_view ns) xs V (ns @ [scopeBucketName]) (scopeToBytes scope) = Some Sub"
    by (rule hit) (use other in \<open>force simp: create_default_view_apply\<close>)+
  show "fold (create_default_view ns) xs V (scope_path ns scope) k = Some Sub"
    if "k \<in> set scopeSubBuckets"
    by (rule hit) (use other that in \<open>force simp: create_default_view_apply\<close>)+
  show "fold (create_default_view ns) xs V (ns @ [scopeSchemaBucketName]) (scopeToBytes scope)
      = Some (Val (scopeSchemaToBytes sch))"
    by (rule hit) (use other in \<open>force simp: create_default_view_apply\<close>)+
  show "fold (create_default_view ns) xs V (meta_path ns scope) lastAccountName
      = Some (Val (uint32ToBytes DefaultAccountNum))"
    by (rule hit) (use other in \<open>force simp: create_default_view_apply\<close>)+
qed

lemma fold_default_other:
  assumes "scope \<notin> fst ` set xs"
  shows "fold (create_default_view ns) xs V (ns @ [scopeBucketName]) (scopeToBytes scope)
    = V (ns @ [scopeBucketName]) (scopeToBytes scope)"
  by (rule fold_frame) (use assms in \<open>auto simp: create_default_view_apply image_iff\<close>)

context walletdb_bucket
begin

lemma create_namespace:
  fixes now :: u64
  assumes "rw s" and "live (vw s) ns" and "\<forall>k \<in> set mgrBuckets. vw s ns k = None"
    and "distinct (map fst xs)"
  defines "s' \<equiv> snd (createManagerNS W ns xs now s)"
  shows "(scope, sch) \<in> set xs \<Longrightarrow> scope_ready (vw s') ns scope
      \<and> fetchLastAccount W ns scope s' = (Ok DefaultAccountNum, s')
      \<and> fetchScopeAddrSchema W ns scope s' = (Ok sch, s')"
    and "scope \<notin> fst ` set xs \<Longrightarrow>
      fetchLastAccount W ns scope s' = (Err (managerError ErrScopeNotFound None), s')"
    and "fetchManagerVersion W ns s' = (Ok latestMgrVersion, s')"
    and "fst (createManagerNS W ns ys now' s')
      = Err (managerError ErrDatabase (Some (WalletdbError ErrBucketExists)))"
    and "has_buckets (vw s') ns mgrBuckets"
    and "main_ready (vw s') ns"
    and "(scope, sch) \<in> set xs \<Longrightarrow>
      vw s' (meta_path ns scope) lastAccountName = Some (Val (uint32ToBytes DefaultAccountNum))"
    and "rw s'"
proof -
  have vw': "vw s' = create_ns_view ns xs now (vw s)" and rw': "rw s'"
    using createManagerNS_effect [OF assms(1-4)] by (simp_all add: s'_def)
  show "rw s'" by (rule rw')
  show last: "vw s' (meta_path ns scope) lastAccountName = Some (Val (uint32ToBytes DefaultAccountNum))"
    if "(scope, sch) \<in> set xs" for scope sch
    by (simp add: fold_default_scope [OF assms(4) that] vw' create_ns_view_def)
  have ns: "vw s' ns k = Some Sub" if "k \<in> set mgrBuckets" for k
    using that by (simp add: vw' create_ns_view_def fold_default_frame fold_vput_apply)
  have mgr: "vw s' ns mainBucketName = Some Sub" "vw s' ns scopeBucketName = Some Sub"
      "vw s' ns scopeSchemaBucketName = Some Sub"
    by (rule ns, simp add: mgrBuckets_def)+
  have live': "live (vw s') ns"
    using mgr(1) entry_in_bucket by blast
  show "has_buckets (vw s') ns mgrBuckets" using ns by (simp add: has_buckets_def)
  have main: "vw s' (ns @ [mainBucketName]) k
      = (if k = mgrVersionName then Some (Val (uint32ToBytes latestMgrVersion))
         else if k = mgrCreateDateName then Some (Val (le64 now)) else None)" for k
    using missing_bucket [of s ns mainBucketName k] assms(3)
    by (simp add: vw' create_ns_view_def fold_default_frame fold_vput_apply mgrBuckets_def)
  then show "main_ready (vw s') ns" using mgr(1) by (simp add: main_ready_def)
  show "fetchManagerVersion W ns s' = (Ok latestMgrVersion, s')"
    using mgr(1) main by (simp add: main_fetch)
  show "fst (createManagerNS W ns ys now' s')
      = Err (managerError ErrDatabase (Some (WalletdbError ErrBucketExists)))"
    using rw' live' mgr(1) by (simp add: createManagerNS_def go_simps db_simps limits)
  show "scope_ready (vw s') ns scope \<and> fetchLastAccount W ns scope s' = (Ok DefaultAccountNum, s')
      \<and> fetchScopeAddrSchema W ns scope s' = (Ok sch, s')" if "(scope, sch) \<in> set xs"
  proof -
    note f = fold_default_scope [OF assms(4) that]
    have ready: "scope_ready (vw s') ns scope"
      using mgr(2) by (simp add: scope_ready_def scope_there_def has_buckets_def f vw' create_ns_view_def)
    moreover have "vw s' (ns @ [scopeSchemaBucketName]) (scopeToBytes scope) = Some (Val (scopeSchemaToBytes sch))"
      by (simp add: f vw' create_ns_view_def)
    ultimately show ?thesis using mgr(3) last [OF that] by (simp add: fetchLastAccount_effect fetchScopeAddrSchema_effect)
  qed
  show "fetchLastAccount W ns scope s' = (Err (managerError ErrScopeNotFound None), s')"
    if "scope \<notin> fst ` set xs"
  proof -
    have "vw s' (ns @ [scopeBucketName]) (scopeToBytes scope) = vw s (ns @ [scopeBucketName]) (scopeToBytes scope)"
      by (simp add: vw' create_ns_view_def fold_default_other [OF that] fold_vput_apply)
    also have "\<dots> = None"
      using missing_bucket [of s ns scopeBucketName] assms(3) by (simp add: mgrBuckets_def)
    finally show ?thesis
      using mgr(2) by (simp add: fetchLastAccount_def bnd_def fetch_scope_missing)
  qed
qed

end

text \<open>A store with one empty bucket, the namespace of the witnesses.\<close>

definition example_ns :: bkt where "example_ns = [[1]]"

definition example_store :: mem where "example_store = (True, [(([], [1]), Sub)])"

lemma example_store_simps [simp]:
  "fst example_store" "mem_live (snd example_store) example_ns"
  "mem_view (snd example_store) example_ns k = None"
  by (simp_all add: example_store_def example_ns_def mem_view_def mem_live_def)

section \<open>Properties\<close>

text \<open>C21: creating the manager's namespace in an empty bucket succeeds for every list of distinct
  scopes, in any order. Then every listed scope has all its buckets, its address schema and
  last account 0, every other scope is reported as not found, the stored version is the latest
  one, and a second creation is refused.\<close>

theorem mgrdb_create_namespace:
  assumes "walletdb_bucket W vw rw entries"
    and "rw s" and "live (vw s) ns" and "\<forall>k \<in> set mgrBuckets. vw s ns k = None"
    and "distinct (map fst xs)"
    and "s' = snd (createManagerNS W ns xs now s)"
  shows "fst (createManagerNS W ns xs now s) = Ok ()
    \<and> (\<forall>(scope, sch) \<in> set xs. scope_ready (vw s') ns scope
        \<and> fetchLastAccount W ns scope s' = (Ok DefaultAccountNum, s')
        \<and> fetchScopeAddrSchema W ns scope s' = (Ok sch, s'))
    \<and> (\<forall>scope. scope \<notin> fst ` set xs \<longrightarrow>
        fetchLastAccount W ns scope s' = (Err (managerError ErrScopeNotFound None), s'))
    \<and> fetchManagerVersion W ns s' = (Ok 8, s')
    \<and> fst (createManagerNS W ns ys now' s')
        = Err (managerError ErrDatabase (Some (WalletdbError ErrBucketExists)))"
proof -
  note ns = walletdb_bucket.create_namespace [OF assms(1-5), where now = now, folded assms(6)]
  have eight: "latestMgrVersion = 8"
    by (simp add: latestMgrVersion_def getLatestVersion_def versions_def)
  show ?thesis
    using walletdb_bucket.createManagerNS_effect [OF assms(1-5), of now] ns(1) ns(2) ns(3)
      ns(4) [of ys now']
    unfolding eight by blast
qed

definition example_scopes :: "(KeyScope \<times> ScopeAddrSchema) list" where
  "example_scopes =
     [(\<lparr>Purpose = 84, Coin = 0\<rparr>, \<lparr>ExternalAddrType = WitnessPubKey, InternalAddrType = WitnessPubKey\<rparr>),
      (\<lparr>Purpose = 44, Coin = 0\<rparr>, \<lparr>ExternalAddrType = PubKeyHash, InternalAddrType = PubKeyHash\<rparr>)]"

definition example_created :: mem where
  "example_created = snd (createManagerNS (bdb_bucket memB) example_ns example_scopes 0 example_store)"

lemma example_created:
  "fst example_created"
  "main_ready (view memB example_created) example_ns"
  "has_buckets (view memB example_created) example_ns mgrBuckets"
  "(scope, sch) \<in> set example_scopes \<Longrightarrow> scope_ready (view memB example_created) example_ns scope
     \<and> view memB example_created (meta_path example_ns scope) lastAccountName
         = Some (Val (uint32ToBytes DefaultAccountNum))"
proof -
  have "distinct (map fst example_scopes)" by (simp add: example_scopes_def)
  moreover have "bolt_Writable memB example_store" "live (view memB example_store) example_ns"
      "\<forall>k \<in> set mgrBuckets. view memB example_store example_ns k = None" by simp_all
  ultimately have created: "walletdb_bucket (bdb_bucket memB) (view memB) (bolt_Writable memB) (bolt_ForEach memB)"
      "bolt_Writable memB example_store" "live (view memB example_store) example_ns"
      "\<forall>k \<in> set mgrBuckets. view memB example_store example_ns k = None"
      "distinct (map fst example_scopes)"
    using mem.bdb.walletdb_bucket_axioms by blast+
  note created = walletdb_bucket.create_namespace [OF created, where now = 0, folded example_created_def]
  show "fst example_created" using created(8) by simp
  show "main_ready (view memB example_created) example_ns" by (rule created(6))
  show "has_buckets (view memB example_created) example_ns mgrBuckets" by (rule created(5))
  show "scope_ready (view memB example_created) example_ns scope
     \<and> view memB example_created (meta_path example_ns scope) lastAccountName
         = Some (Val (uint32ToBytes DefaultAccountNum))" if "(scope, sch) \<in> set example_scopes"
    using created(1) [OF that] created(7) [OF that] by blast
qed

theorem mgrdb_create_namespace_witness:
  "fetchManagerVersion (bdb_bucket memB) example_ns example_created = (Ok 8, example_created)"
  using mgrdb_create_namespace [OF mem.bdb.walletdb_bucket_axioms, of example_store example_ns
      example_scopes example_created 0]
  by (simp add: example_scopes_def example_created_def)

text \<open>The manager's records are read back as they were stored, after all of them were stored in
  the order \<^verbatim>\<open>Create\<close> stores them.\<close>

lemma mgrdb_records_roundtrip:
  assumes "walletdb_bucket W vw rw entries"
    and "rw s" and "main_ready (vw s) ns"
    and "\<forall>v \<in> {hdPriv, hdPub, pub, priv, cPub, cPriv, cScript}. length v \<le> MaxValueSize"
    and "m = bnd (putMasterHDKeys W ns (Some hdPriv) (Some hdPub)) (\<lambda>_.
       bnd (putMasterKeyParams W ns (Some pub) (Some priv)) (\<lambda>_.
       bnd (putCryptoKeys W ns (Some cPub) (Some cPriv) (Some cScript)) (\<lambda>_.
       putWatchingOnly W ns wo)))"
    and "s' = snd (m s)"
  shows "fst (m s) = Ok ()
    \<and> fetchMasterHDKeys W ns s' = (Ok (Some hdPriv, Some hdPub), s')
    \<and> fetchMasterKeyParams W ns s' = (Ok (pub, Some priv), s')
    \<and> fetchCryptoKeys W ns s' = (Ok (cPub, Some cPriv, Some cScript), s')
    \<and> fetchWatchingOnly W ns s' = (Ok wo, s')"
proof -
  note eff = walletdb_bucket.main_records_effect [OF assms(1)]
  let ?s1 = "snd (putMasterHDKeys W ns (Some hdPriv) (Some hdPub) s)"
  let ?s2 = "snd (putMasterKeyParams W ns (Some pub) (Some priv) ?s1)"
  let ?s3 = "snd (putCryptoKeys W ns (Some cPub) (Some cPriv) (Some cScript) ?s2)"
  have fits: "length hdPriv \<le> MaxValueSize" "length hdPub \<le> MaxValueSize" "length pub \<le> MaxValueSize"
      "length priv \<le> MaxValueSize" "length cPub \<le> MaxValueSize" "length cPriv \<le> MaxValueSize"
      "length cScript \<le> MaxValueSize"
    using assms(4) by simp_all
  have step: "main_ready (vput_opt V (ns @ [mainBucketName]) k (Some v)) ns"
    if "main_ready V ns" "k \<in> set mgrKeys" for V k v
    using that by (auto simp: main_ready_def)
  have r1: "rw ?s1" "main_ready (vw ?s1) ns"
    using assms(2,3) fits by (simp_all add: eff step mgrKeys_def)
  have r2: "rw ?s2" "main_ready (vw ?s2) ns"
    using r1 fits by (simp_all add: eff step mgrKeys_def)
  have r3: "rw ?s3" "main_ready (vw ?s3) ns"
    using r2 fits by (simp_all add: eff step mgrKeys_def)
  have m: "fst (m s) = Ok ()" "s' = snd (putWatchingOnly W ns wo ?s3)"
    unfolding assms(5,6) using assms(2,3) r1 r2 r3 fits by (simp_all add: go_simps eff)
  have main: "vw s' ns mainBucketName = Some Sub"
    using assms(2,3) r1 r2 r3 fits by (simp add: m(2) eff main_ready_def)
  have vals: "vw s' (ns @ [mainBucketName]) masterHDPrivName = Some (Val hdPriv)"
      "vw s' (ns @ [mainBucketName]) masterHDPubName = Some (Val hdPub)"
      "vw s' (ns @ [mainBucketName]) masterPubKeyName = Some (Val pub)"
      "vw s' (ns @ [mainBucketName]) masterPrivKeyName = Some (Val priv)"
      "vw s' (ns @ [mainBucketName]) cryptoPubKeyName = Some (Val cPub)"
      "vw s' (ns @ [mainBucketName]) cryptoPrivKeyName = Some (Val cPriv)"
      "vw s' (ns @ [mainBucketName]) cryptoScriptKeyName = Some (Val cScript)"
      "vw s' (ns @ [mainBucketName]) watchingOnlyName = Some (Val [if wo then 1 else 0])"
    using assms(2,3) r1 r2 r3 fits by (simp_all add: m(2) eff)
  show ?thesis
    using m(1) vals by (simp add: walletdb_bucket.main_fetch [OF assms(1) main])
qed

lemma mgrdb_records_roundtrip_example:
  "\<exists>s'. fetchCryptoKeys (bdb_bucket memB) example_ns s' = (Ok ([5], Some [6], Some [7]), s')"
proof -
  have rw: "bolt_Writable memB example_created" using example_created(1) by simp
  have "\<forall>v \<in> {[1], [2], [3], [4], [5], [6], [7 :: byte]}. length v \<le> MaxValueSize"
    by (simp add: limits)
  from mgrdb_records_roundtrip [OF mem.bdb.walletdb_bucket_axioms rw example_created(2) this refl refl, of False]
  show ?thesis by blast
qed

text \<open>The last account number. It is read back as stored, storing it leaves the other
  scopes alone, and in a scope where none was stored it reads as \<open>2 ^ 32 - 1\<close>.\<close>

lemma mgrdb_last_account:
  assumes "walletdb_bucket W vw rw entries"
    and "rw s" and "scope_ready (vw s) ns scope" and "scope_ready (vw s) ns scope'"
    and "vw s (meta_path ns scope) lastAccountName \<noteq> Some Sub" and "scope' \<noteq> scope"
    and "s' = snd (putLastAccount W ns scope n s)"
  shows "fst (putLastAccount W ns scope n s) = Ok ()
    \<and> fetchLastAccount W ns scope s' = (Ok n, s')
    \<and> fst (fetchLastAccount W ns scope' s') = fst (fetchLastAccount W ns scope' s)
    \<and> (vw s (meta_path ns scope') lastAccountName = None \<longrightarrow>
        fst (fetchLastAccount W ns scope' s') = Ok (2 ^ 32 - 1))"
proof -
  note eff = walletdb_bucket.putLastAccount_effect [OF assms(1,2,3,5), of n, folded assms(7)]
  have ready: "scope_ready (vw s') ns scope" "scope_ready (vw s') ns scope'"
    using assms(3-5) by (simp_all add: eff)
  have same: "vw s' (meta_path ns scope') lastAccountName = vw s (meta_path ns scope') lastAccountName"
    using assms(6) by (simp add: eff)
  have fetch: "fst (fetchLastAccount W ns scope' s') = fst (fetchLastAccount W ns scope' s)"
    using same ready assms(4)
    by (simp add: fetchLastAccount_def go_simps walletdb_bucket.fetch_scope_bucket [OF assms(1)]
        walletdb_bucket.nested_simps [OF assms(1)] walletdb_bucket.Get_sem [OF assms(1)] scope_ready_subs
        split: option.split)
  show ?thesis
    using eff(1) fetch ready assms(4) same
    by (simp add: walletdb_bucket.fetchLastAccount_effect [OF assms(1)] eff(2))
qed

lemma mgrdb_last_account_example:
  "\<exists>s'. fetchLastAccount (bdb_bucket memB) example_ns (fst (example_scopes ! 0)) s' = (Ok 5, s')"
proof -
  have scopes: "(fst (example_scopes ! 0), snd (example_scopes ! 0)) \<in> set example_scopes"
      "(fst (example_scopes ! 1), snd (example_scopes ! 1)) \<in> set example_scopes"
    by (simp_all add: example_scopes_def)
  have pre: "bolt_Writable memB example_created"
      "scope_ready (view memB example_created) example_ns (fst (example_scopes ! 0))"
      "scope_ready (view memB example_created) example_ns (fst (example_scopes ! 1))"
      "view memB example_created (meta_path example_ns (fst (example_scopes ! 0))) lastAccountName \<noteq> Some Sub"
    using example_created(1) example_created(4) [OF scopes(1)] example_created(4) [OF scopes(2)]
    by simp_all
  have "fst (example_scopes ! 1) \<noteq> fst (example_scopes ! 0)" by (simp add: example_scopes_def)
  from mgrdb_last_account [OF mem.bdb.walletdb_bucket_axioms pre this refl, of 5]
  show ?thesis by blast
qed

text \<open>The birthday is written little-endian and read big-endian: what is read back is the
  stored time with its bytes reversed, which is the stored time only for a palindrome.\<close>

lemma mgrdb_birthday_byte_order:
  assumes "walletdb_bucket W vw rw entries"
    and "rw s" and "vw s ns syncBucketName = Some Sub"
    and "vw s (ns @ [syncBucketName]) birthdayName \<noteq> Some Sub"
  shows "fst (putBirthday W ns t s) = Ok ()
    \<and> fst (fetchBirthday W ns (snd (putBirthday W ns t s))) = Ok (le_word (rev (le64 t)))
    \<and> (fst (fetchBirthday W ns (snd (putBirthday W ns t s))) = Ok t \<longleftrightarrow> rev (le64 t) = le64 t)"
proof -
  have "le64 (le_word (rev (le64 t))) = rev (le64 t)"
    using le_bytes_le_word [of "rev (le64 t)", where 'l = 64] by (simp add: le64_def)
  then have "le_word (rev (le64 t)) = t \<longleftrightarrow> rev (le64 t) = le64 t" by (metis le_word_le64)
  with walletdb_bucket.birthday_effect [OF assms, of t] show ?thesis by simp
qed

lemma mgrdb_birthday_byte_order_example:
  "\<exists>s. fst (fetchBirthday (bdb_bucket memB) example_ns s) = Ok (256 * 256 * 256 * 256 * 256 * 256 * 256)"
proof -
  let ?s = "(True, [((example_ns, syncBucketName), Sub), (([], [1]), Sub)]) :: mem"
  have sync: "view memB ?s example_ns syncBucketName = Some Sub"
      "view memB ?s (example_ns @ [syncBucketName]) birthdayName \<noteq> Some Sub" by code_simp+
  have rev: "le_word (rev (le64 1)) = (256 * 256 * 256 * 256 * 256 * 256 * 256 :: u64)" by code_simp
  have "bolt_Writable memB ?s" by simp
  from mgrdb_birthday_byte_order [OF mem.bdb.walletdb_bucket_axioms this sync, of 1]
  show ?thesis unfolding rev by blast
qed

text \<open>\<^verbatim>\<open>forEachKeyScope\<close> runs its callback once for every stored scope, in key order, until one
  fails.\<close>

lemma mgrdb_foreach_scope:
  assumes "walletdb_bucket W vw rw entries" and "vw s ns scopeBucketName = Some Sub"
  shows "\<exists>scopes. forEachKeyScope W ns fn s = wrap_err convertErr (for_each fn scopes) s
    \<and> set scopes = {scope. vw s (ns @ [scopeBucketName]) (scopeToBytes scope) \<noteq> None}
    \<and> distinct scopes \<and> sorted (map scopeToBytes scopes)"
proof (intro exI conjI)
  let ?kvs = "entries s (ns @ [scopeBucketName])"
  show "forEachKeyScope W ns fn s = wrap_err convertErr (for_each fn (key_scopes ?kvs)) s"
    using assms by (rule walletdb_bucket.forEachKeyScope_effect)
  show "set (key_scopes ?kvs) = {scope. vw s (ns @ [scopeBucketName]) (scopeToBytes scope) \<noteq> None}"
    using assms(1) by (rule walletdb_bucket.key_scopes_set)
  have keys: "map scopeToBytes (key_scopes ?kvs) = map fst (filter (\<lambda>kv. length (fst kv) = 8) ?kvs)"
    by (simp add: key_scopes_def)
  show "sorted (map scopeToBytes (key_scopes ?kvs))"
    using walletdb_bucket.entries_keys [OF assms(1), of s "ns @ [scopeBucketName]"]
    by (simp add: keys sorted_filter)
  have "distinct (map fst (filter (\<lambda>kv. length (fst kv) = 8) ?kvs))"
    using walletdb_bucket.entries_keys [OF assms(1), of s "ns @ [scopeBucketName]"]
    by (simp add: distinct_map_filter)
  then show "distinct (key_scopes ?kvs)" by (simp add: keys [symmetric] distinct_map)
qed

lemma mgrdb_foreach_scope_example:
  "\<exists>scopes. forEachKeyScope (bdb_bucket memB) example_ns (\<lambda>_. ret ()) example_created
      = wrap_err convertErr (for_each (\<lambda>_. ret ()) scopes) example_created
    \<and> set scopes = {scope. view memB example_created (example_ns @ [scopeBucketName]) (scopeToBytes scope) \<noteq> None}"
proof -
  have "view memB example_created example_ns scopeBucketName = Some Sub"
    using example_created(3) by (simp add: has_buckets_def mgrBuckets_def)
  from mgrdb_foreach_scope [OF mem.bdb.walletdb_bucket_axioms this] show ?thesis by blast
qed

end
