(* ===== verification/AcctDb.thy ===== *)
theory AcctDb
  imports MgrDb
begin

text \<open>
  Accounts and addresses in the database: the account rows and their two indexes
  (\<^verbatim>\<open>waddrmgr/account_info.go\<close>), the address rows, the index of addresses by account and the
  set of used addresses (\<^verbatim>\<open>waddrmgr/db.go\<close>). \<open>C\<close> gives the SHA-256 function, \<open>now\<close> the
  value of \<^verbatim>\<open>time.Now().Unix()\<close> at the call.
\<close>

section \<open>Accounts\<close>

definition putAccountRow :: "'s ReadWriteBucket \<Rightarrow> bkt \<Rightarrow> KeyScope \<Rightarrow> u32 \<Rightarrow> dbAccountRow \<Rightarrow> ('s, unit) go" where
  "putAccountRow W ns scope acct row =
     bnd (fetchWriteScopeBucket W ns scope) (\<lambda>scopedBucket.
     bnd (nested_rw W scopedBucket acctBucketName) (\<lambda>bucket.
     bnd (lift (serializeAccountRow row)) (\<lambda>v.
     as_db_error (Put W bucket (uint32ToBytes acct) v))))"

definition putAccountIDIndex :: "'s ReadWriteBucket \<Rightarrow> bkt \<Rightarrow> KeyScope \<Rightarrow> u32 \<Rightarrow> gostring \<Rightarrow> ('s, unit) go" where
  "putAccountIDIndex W ns scope acct name =
     bnd (fetchWriteScopeBucket W ns scope) (\<lambda>scopedBucket.
     bnd (nested_rw W scopedBucket acctIDIdxBucketName) (\<lambda>bucket.
     as_db_error (Put W bucket (uint32ToBytes acct) (stringToBytes name))))"

definition putAccountNameIndex :: "'s ReadWriteBucket \<Rightarrow> bkt \<Rightarrow> KeyScope \<Rightarrow> u32 \<Rightarrow> gostring \<Rightarrow> ('s, unit) go" where
  "putAccountNameIndex W ns scope acct name =
     bnd (fetchWriteScopeBucket W ns scope) (\<lambda>scopedBucket.
     bnd (nested_rw W scopedBucket acctNameIdxBucketName) (\<lambda>bucket.
     as_db_error (Put W bucket (stringToBytes name) (uint32ToBytes acct))))"

definition putAccountInfo ::
  "'s ReadWriteBucket \<Rightarrow> bkt \<Rightarrow> KeyScope \<Rightarrow> u32 \<Rightarrow> dbAccountRow \<Rightarrow> gostring \<Rightarrow> ('s, unit) go" where
  "putAccountInfo W ns scope acct acctRow name =
     bnd (putAccountRow W ns scope acct acctRow) (\<lambda>_.
     bnd (putAccountIDIndex W ns scope acct name) (\<lambda>_.
     putAccountNameIndex W ns scope acct name))"

definition putDefaultAccountInfo ::
  "'s ReadWriteBucket \<Rightarrow> bkt \<Rightarrow> KeyScope \<Rightarrow> u32 \<Rightarrow> bytes \<Rightarrow> bytes \<Rightarrow> u32 \<Rightarrow> u32 \<Rightarrow> gostring \<Rightarrow> ('s, unit) go" where
  "putDefaultAccountInfo W ns scope acct encryptedPubKey encryptedPrivKey nextExternalIndex
      nextInternalIndex name =
     bnd (lift (serializeDefaultAccountRow encryptedPubKey encryptedPrivKey nextExternalIndex
            nextInternalIndex name)) (\<lambda>raw.
     putAccountInfo W ns scope acct \<lparr>acctType = accountDefault, rawData = raw\<rparr> name)"

definition putWatchOnlyAccountInfo ::
  "'s ReadWriteBucket \<Rightarrow> bkt \<Rightarrow> KeyScope \<Rightarrow> u32 \<Rightarrow> bytes \<Rightarrow> u32 \<Rightarrow> u32 \<Rightarrow> u32 \<Rightarrow> gostring
   \<Rightarrow> ScopeAddrSchema option \<Rightarrow> ('s, unit) go" where
  "putWatchOnlyAccountInfo W ns scope acct encryptedPubKey masterKeyFingerprint nextExternalIndex
      nextInternalIndex name addrSchema =
     bnd (lift (serializeWatchOnlyAccountRow encryptedPubKey masterKeyFingerprint nextExternalIndex
            nextInternalIndex name addrSchema)) (\<lambda>raw.
     putAccountInfo W ns scope acct \<lparr>acctType = accountWatchOnly, rawData = raw\<rparr> name)"

definition fetchAccountByName :: "'s ReadWriteBucket \<Rightarrow> bkt \<Rightarrow> KeyScope \<Rightarrow> gostring \<Rightarrow> ('s, u32) go" where
  "fetchAccountByName W ns scope name =
     bnd (fetchReadScopeBucket W ns scope) (\<lambda>scopedBucket.
     bnd (nested_r W scopedBucket acctNameIdxBucketName) (\<lambda>idxBucket.
     bnd (Get W idxBucket (stringToBytes name)) (\<lambda>val.
     case val of
       None \<Rightarrow> raise (managerError ErrAccountNotFound None)
     | Some val \<Rightarrow> lift (uint32_le val))))"

definition fetchAccountInfo :: "'s ReadWriteBucket \<Rightarrow> bkt \<Rightarrow> KeyScope \<Rightarrow> u32 \<Rightarrow> ('s, accountRow) go" where
  "fetchAccountInfo W ns scope acct =
     bnd (fetchReadScopeBucket W ns scope) (\<lambda>scopedBucket.
     bnd (nested_r W scopedBucket acctBucketName) (\<lambda>acctBucket.
     let accountID = uint32ToBytes acct in
     bnd (Get W acctBucket accountID) (\<lambda>serializedRow.
     case serializedRow of
       None \<Rightarrow> raise (managerError ErrAccountNotFound None)
     | Some serializedRow \<Rightarrow>
         bnd (lift (deserializeAccountRow accountID serializedRow)) (\<lambda>row.
         if acctType row = accountDefault
         then bnd (lift (deserializeDefaultAccountRow accountID row)) (\<lambda>r. ret (DefaultRow r))
         else if acctType row = accountWatchOnly
         then bnd (lift (deserializeWatchOnlyAccountRow accountID row)) (\<lambda>r. ret (WatchOnlyRow r))
         else raise (managerError ErrAccountNotFound None)))))"

section \<open>Addresses\<close>

definition putAddrAccountIndex :: "'s ReadWriteBucket \<Rightarrow> bkt \<Rightarrow> KeyScope \<Rightarrow> u32 \<Rightarrow> bytes \<Rightarrow> ('s, unit) go" where
  "putAddrAccountIndex W ns scope acct addrHash =
     bnd (fetchWriteScopeBucket W ns scope) (\<lambda>scopedBucket.
     bnd (nested_rw W scopedBucket addrAcctIdxBucketName) (\<lambda>bucket.
     bnd (Put W bucket addrHash (uint32ToBytes acct)) (\<lambda>_.
     bnd (CreateBucketIfNotExists W bucket (uint32ToBytes acct)) (\<lambda>bucket.
     as_db_error (Put W bucket addrHash nullVal)))))"

definition putAddress ::
  "crypto \<Rightarrow> 's ReadWriteBucket \<Rightarrow> bkt \<Rightarrow> KeyScope \<Rightarrow> bytes \<Rightarrow> dbAddressRow \<Rightarrow> ('s, unit) go" where
  "putAddress C W ns scope addressID row =
     bnd (fetchWriteScopeBucket W ns scope) (\<lambda>scopedBucket.
     bnd (nested_rw W scopedBucket addrBucketName) (\<lambda>bucket.
     let addrHash = sha256_Sum256 C addressID in
     bnd (lift (serializeAddressRow row)) (\<lambda>v.
     bnd (as_db_error (Put W bucket addrHash v)) (\<lambda>_.
     putAddrAccountIndex W ns scope (account row) addrHash))))"

definition InternalBranch :: u32 where "InternalBranch = 1"
definition ExternalBranch :: u32 where "ExternalBranch = 0"

text \<open>
  \<^verbatim>\<open>putChainedAddress\<close> reads and writes the account row in the address bucket; a missing row
  is a nil slice of length 0.
\<close>

definition advance_index :: "u32 \<Rightarrow> u32 \<Rightarrow> u32 \<times> u32 \<Rightarrow> u32 \<times> u32" where
  "advance_index br idx = (\<lambda>(ext, itn).
     if br = InternalBranch then (ext, idx + 1) else (idx + 1, itn))"

definition putChainedAddress ::
  "crypto \<Rightarrow> 's ReadWriteBucket \<Rightarrow> bkt \<Rightarrow> u64 \<Rightarrow> KeyScope \<Rightarrow> bytes \<Rightarrow> u32 \<Rightarrow> syncStatus
   \<Rightarrow> u32 \<Rightarrow> u32 \<Rightarrow> addressType \<Rightarrow> ('s, unit) go" where
  "putChainedAddress C W ns now scope addressID acct status br idx atype =
     bnd (fetchWriteScopeBucket W ns scope) (\<lambda>scopedBucket.
     bnd (lift (serializeChainedAddress br idx)) (\<lambda>raw.
     bnd (putAddress C W ns scope addressID
            \<lparr>addrType = atype, account = acct, addTime = now, syncStatus = status, addrRawData = raw\<rparr>) (\<lambda>_.
     let accountID = uint32ToBytes acct in
     bnd (nested_rw W scopedBucket addrBucketName) (\<lambda>bucket.
     bnd (Get W bucket accountID) (\<lambda>serializedAccount.
     bnd (lift (deserializeAccountRow accountID (case serializedAccount of None \<Rightarrow> [] | Some b \<Rightarrow> b))) (\<lambda>row.
     bnd (if acctType row = accountDefault then
            bnd (lift (deserializeDefaultAccountRow accountID row)) (\<lambda>arow.
            let (ext, itn) = advance_index br idx (dar_nextExternalIndex arow, dar_nextInternalIndex arow) in
            lift (serializeDefaultAccountRow (dar_pubKeyEncrypted arow) (dar_privKeyEncrypted arow)
              ext itn (dar_name arow)))
          else if acctType row = accountWatchOnly then
            bnd (lift (deserializeWatchOnlyAccountRow accountID row)) (\<lambda>arow.
            let (ext, itn) = advance_index br idx (wor_nextExternalIndex arow, wor_nextInternalIndex arow) in
            lift (serializeWatchOnlyAccountRow (wor_pubKeyEncrypted arow) (wor_masterKeyFingerprint arow)
              ext itn (wor_name arow) (wor_addrSchema arow)))
          else ret (rawData row)) (\<lambda>newRaw.
     bnd (lift (serializeAccountRow (row\<lparr>rawData := newRaw\<rparr>))) (\<lambda>v.
     as_db_error (Put W bucket accountID v)))))))))"

definition putScriptAddress ::
  "crypto \<Rightarrow> 's ReadWriteBucket \<Rightarrow> bkt \<Rightarrow> u64 \<Rightarrow> KeyScope \<Rightarrow> bytes \<Rightarrow> u32 \<Rightarrow> syncStatus
   \<Rightarrow> bytes \<Rightarrow> bytes \<Rightarrow> ('s, unit) go" where
  "putScriptAddress C W ns now scope addressID acct status encryptedHash encryptedScript =
     bnd (lift (serializeScriptAddress encryptedHash encryptedScript)) (\<lambda>raw.
     putAddress C W ns scope addressID
       \<lparr>addrType = adtScript, account = acct, addTime = now, syncStatus = status, addrRawData = raw\<rparr>)"

definition fetchAddressByHash :: "'s ReadWriteBucket \<Rightarrow> bkt \<Rightarrow> KeyScope \<Rightarrow> bytes \<Rightarrow> ('s, addressRow) go" where
  "fetchAddressByHash W ns scope addrHash =
     bnd (fetchReadScopeBucket W ns scope) (\<lambda>scopedBucket.
     bnd (nested_r W scopedBucket addrBucketName) (\<lambda>bucket.
     bnd (Get W bucket addrHash) (\<lambda>serializedRow.
     case serializedRow of
       None \<Rightarrow> raise (managerError ErrAddressNotFound None)
     | Some serializedRow \<Rightarrow>
         bnd (lift (deserializeAddressRow serializedRow)) (\<lambda>row.
         if addrType row = adtChain
         then bnd (lift (deserializeChainedAddress row)) (\<lambda>r. ret (ChainRow r))
         else if addrType row = adtImport
         then bnd (lift (deserializeImportedAddress row)) (\<lambda>r. ret (ImportedRow r))
         else if addrType row = adtScript
         then bnd (lift (deserializeScriptAddress row)) (\<lambda>r. ret (ScriptRow r))
         else if addrType row = adtWitnessScript
         then bnd (lift (deserializeWitnessScriptAddress row)) (\<lambda>r. ret (WitnessScriptRow r))
         else if addrType row = adtTaprootScript
         then bnd (lift (deserializeWitnessScriptAddress row)) (\<lambda>r. ret (WitnessScriptRow r))
         else raise (managerError ErrDatabase None)))))"

definition fetchAddress :: "crypto \<Rightarrow> 's ReadWriteBucket \<Rightarrow> bkt \<Rightarrow> KeyScope \<Rightarrow> bytes \<Rightarrow> ('s, addressRow) go" where
  "fetchAddress C W ns scope addressID = fetchAddressByHash W ns scope (sha256_Sum256 C addressID)"

definition fetchAddressUsed :: "crypto \<Rightarrow> 's ReadWriteBucket \<Rightarrow> bkt \<Rightarrow> KeyScope \<Rightarrow> bytes \<Rightarrow> ('s, bool) go" where
  "fetchAddressUsed C W ns scope addressID =
     catch_err
       (bnd (fetchReadScopeBucket W ns scope) (\<lambda>scopedBucket.
        bnd (nested_r W scopedBucket usedAddrBucketName) (\<lambda>bucket.
        bnd (Get W bucket (sha256_Sum256 C addressID)) (\<lambda>val.
        ret (val \<noteq> None)))))
       (\<lambda>err. ret False)"

text \<open>The error of a failed \<^verbatim>\<open>Put\<close> is dropped here.\<close>

definition markAddressUsed :: "crypto \<Rightarrow> 's ReadWriteBucket \<Rightarrow> bkt \<Rightarrow> KeyScope \<Rightarrow> bytes \<Rightarrow> ('s, unit) go" where
  "markAddressUsed C W ns scope addressID =
     bnd (fetchWriteScopeBucket W ns scope) (\<lambda>scopedBucket.
     bnd (nested_rw W scopedBucket usedAddrBucketName) (\<lambda>bucket.
     let addrHash = sha256_Sum256 C addressID in
     bnd (Get W bucket addrHash) (\<lambda>val.
     if val \<noteq> None then ret ()
     else wrap_err (\<lambda>_. managerError ErrDatabase None) (Put W bucket addrHash [0]))))"

text \<open>
  The callback's rows come from \<^verbatim>\<open>fetchAddressByHash\<close>. Its error is tested for the dynamic
  type \<^verbatim>\<open>*ManagerError\<close>; \<^verbatim>\<open>managerError\<close> returns a value, so it is passed on as it is.
\<close>

definition forEachAccountAddress ::
  "'s ReadWriteBucket \<Rightarrow> bkt \<Rightarrow> KeyScope \<Rightarrow> u32 \<Rightarrow> (addressRow \<Rightarrow> ('s, unit) go) \<Rightarrow> ('s, unit) go" where
  "forEachAccountAddress W ns scope acct fn =
     bnd (fetchReadScopeBucket W ns scope) (\<lambda>scopedBucket.
     bnd (nested_r W scopedBucket addrAcctIdxBucketName) (\<lambda>idx.
     bnd (NestedReadBucket W idx (uint32ToBytes acct)) (\<lambda>bucket.
     case bucket of
       None \<Rightarrow> ret ()
     | Some bucket \<Rightarrow>
         wrap_err maybeConvertDbError (ForEach W bucket (\<lambda>k v. case v of
             None \<Rightarrow> ret ()
           | Some _ \<Rightarrow> bnd (fetchAddressByHash W ns scope k) fn)))))"

section \<open>Symbolic execution\<close>

abbreviation acct_path :: "bkt \<Rightarrow> KeyScope \<Rightarrow> bkt" where
  "acct_path ns scope \<equiv> ns @ [scopeBucketName, scopeToBytes scope, acctBucketName]"
abbreviation acct_id_path :: "bkt \<Rightarrow> KeyScope \<Rightarrow> bkt" where
  "acct_id_path ns scope \<equiv> ns @ [scopeBucketName, scopeToBytes scope, acctIDIdxBucketName]"
abbreviation acct_name_path :: "bkt \<Rightarrow> KeyScope \<Rightarrow> bkt" where
  "acct_name_path ns scope \<equiv> ns @ [scopeBucketName, scopeToBytes scope, acctNameIdxBucketName]"
abbreviation addr_path :: "bkt \<Rightarrow> KeyScope \<Rightarrow> bkt" where
  "addr_path ns scope \<equiv> ns @ [scopeBucketName, scopeToBytes scope, addrBucketName]"
abbreviation addr_idx_path :: "bkt \<Rightarrow> KeyScope \<Rightarrow> bkt" where
  "addr_idx_path ns scope \<equiv> ns @ [scopeBucketName, scopeToBytes scope, addrAcctIdxBucketName]"
abbreviation used_path :: "bkt \<Rightarrow> KeyScope \<Rightarrow> bkt" where
  "used_path ns scope \<equiv> ns @ [scopeBucketName, scopeToBytes scope, usedAddrBucketName]"

text \<open>No nested bucket sits where the entries of an account go.\<close>

definition account_slots :: "view \<Rightarrow> bkt \<Rightarrow> KeyScope \<Rightarrow> u32 \<Rightarrow> gostring \<Rightarrow> bool" where
  "account_slots V ns scope acct name \<longleftrightarrow>
     V (acct_path ns scope) (uint32ToBytes acct) \<noteq> Some Sub
   \<and> V (acct_id_path ns scope) (uint32ToBytes acct) \<noteq> Some Sub
   \<and> V (acct_name_path ns scope) (stringToBytes name) \<noteq> Some Sub"

text \<open>What storing an account adds to a view.\<close>

definition account_view :: "bkt \<Rightarrow> KeyScope \<Rightarrow> u32 \<Rightarrow> dbAccountRow \<Rightarrow> gostring \<Rightarrow> view \<Rightarrow> view" where
  "account_view ns scope acct row name V =
     vput (vput (vput V (acct_path ns scope) (uint32ToBytes acct) (Val (acctType row # field (rawData row))))
            (acct_id_path ns scope) (uint32ToBytes acct) (Val (stringToBytes name)))
       (acct_name_path ns scope) (stringToBytes name) (Val (uint32ToBytes acct))"

text \<open>Storing an address: the row, the account of the hash, and the hash in the account's bucket.\<close>

definition address_slots :: "view \<Rightarrow> bkt \<Rightarrow> KeyScope \<Rightarrow> u32 \<Rightarrow> bytes \<Rightarrow> bool" where
  "address_slots V ns scope acct h \<longleftrightarrow> length h = 32
   \<and> V (addr_path ns scope) h \<noteq> Some Sub \<and> V (addr_idx_path ns scope) h \<noteq> Some Sub
   \<and> (V (addr_idx_path ns scope) (uint32ToBytes acct) = None
      \<or> V (addr_idx_path ns scope) (uint32ToBytes acct) = Some Sub)
   \<and> V (addr_idx_path ns scope @ [uint32ToBytes acct]) h \<noteq> Some Sub"

context walletdb_bucket
begin

lemma putAccountInfo_effect:
  assumes "rw s" and "scope_ready (vw s) ns scope" and "account_slots (vw s) ns scope acct name"
    and "length (rawData row) + 5 \<le> MaxValueSize" and "length name + 4 \<le> MaxKeySize"
  shows "fst (putAccountInfo W ns scope acct row name s) = Ok ()"
    and "vw (snd (putAccountInfo W ns scope acct row name s)) = account_view ns scope acct row name (vw s)"
    and "rw (snd (putAccountInfo W ns scope acct row name s))"
  using assms
  by (simp_all add: putAccountInfo_def putAccountRow_def putAccountIDIndex_def putAccountNameIndex_def
      go_simps db_simps serializeAccountRow_bytes account_slots_def account_view_def limits)

lemma putAccountInfo_long_name:
  assumes "rw s" and "scope_ready (vw s) ns scope" and "account_slots (vw s) ns scope acct name"
    and "length (rawData row) + 5 \<le> MaxValueSize" and "MaxKeySize < length name + 4"
    and "length name + 4 \<le> MaxValueSize"
  shows "fst (putAccountInfo W ns scope acct row name s)
      = Err (managerError ErrDatabase (Some (WalletdbError ErrKeyTooLarge)))"
    and "vw (snd (putAccountInfo W ns scope acct row name s)) (acct_path ns scope) (uint32ToBytes acct)
      = Some (Val (acctType row # field (rawData row)))"
  using assms
  by (simp_all add: putAccountInfo_def putAccountRow_def putAccountIDIndex_def putAccountNameIndex_def
      go_simps db_simps serializeAccountRow_bytes account_slots_def limits put_error_def)

lemma fetchAccountInfo_default:
  assumes "scope_ready (vw s) ns scope" and "length pub + length priv + length name + 25 < 2 ^ 32"
    and "raw = field pub @ field priv @ le32 ext @ le32 itn @ field name"
    and "vw s (acct_path ns scope) (uint32ToBytes acct) = Some (Val (accountDefault # field raw))"
  shows "fetchAccountInfo W ns scope acct s =
    (Ok (DefaultRow \<lparr>dar_row = \<lparr>acctType = accountDefault, rawData = raw\<rparr>, dar_pubKeyEncrypted = pub,
       dar_privKeyEncrypted = priv, dar_nextExternalIndex = ext, dar_nextInternalIndex = itn,
       dar_name = name\<rparr>), s)"
proof (rule prog_eqI)
  have row: "deserializeAccountRow accountID (accountDefault # field raw)
      = Ok \<lparr>acctType = accountDefault, rawData = raw\<rparr>" for accountID
    using assms(2,3) by (simp add: deserializeAccountRow_bytes)
  have fields: "deserializeDefaultAccountRow accountID \<lparr>acctType = accountDefault, rawData = raw\<rparr>
      = Ok \<lparr>dar_row = \<lparr>acctType = accountDefault, rawData = raw\<rparr>, dar_pubKeyEncrypted = pub,
         dar_privKeyEncrypted = priv, dar_nextExternalIndex = ext, dar_nextInternalIndex = itn,
         dar_name = name\<rparr>" for accountID
    using assms(2,3) by (intro deserializeDefaultAccountRow_bytes) simp_all
  show "fst (fetchAccountInfo W ns scope acct s) = Ok (DefaultRow \<lparr>dar_row = \<lparr>acctType = accountDefault, rawData = raw\<rparr>, dar_pubKeyEncrypted = pub,
       dar_privKeyEncrypted = priv, dar_nextExternalIndex = ext, dar_nextInternalIndex = itn,
       dar_name = name\<rparr>)"
    "snd (fetchAccountInfo W ns scope acct s) = s"
    using assms(1,4) row fields by (simp_all add: fetchAccountInfo_def Let_def go_simps db_simps)
qed

lemma fetchAccountInfo_reads:
  assumes "scope_ready (vw s) ns scope" and "scope_ready (vw t) ns scope"
    and "vw t (acct_path ns scope) (uint32ToBytes acct) = vw s (acct_path ns scope) (uint32ToBytes acct)"
  shows "fst (fetchAccountInfo W ns scope acct t) = fst (fetchAccountInfo W ns scope acct s)"
  using assms by (simp add: fetchAccountInfo_def Let_def go_simps db_simps split: option.split res.split)

lemma fetchAccountByName_effect:
  assumes "scope_ready (vw s) ns scope"
  shows "vw s (acct_name_path ns scope) (stringToBytes name) = Some (Val (uint32ToBytes acct)) \<Longrightarrow>
      fetchAccountByName W ns scope name s = (Ok acct, s)"
    and "vw s (acct_name_path ns scope) (stringToBytes name) = None \<Longrightarrow>
      fetchAccountByName W ns scope name s = (Err (managerError ErrAccountNotFound None), s)"
  using assms by (auto intro!: prog_eqI simp: fetchAccountByName_def go_simps db_simps)

lemma fetchAccountByName_reads:
  assumes "scope_ready (vw s) ns scope" and "scope_ready (vw t) ns scope"
    and "vw t (acct_name_path ns scope) (stringToBytes name) = vw s (acct_name_path ns scope) (stringToBytes name)"
  shows "fst (fetchAccountByName W ns scope name t) = fst (fetchAccountByName W ns scope name s)"
  using assms by (simp add: fetchAccountByName_def go_simps db_simps split: option.split)


lemma markAddressUsed_effect:
  assumes "rw s" and "scope_ready (vw s) ns scope" and "length (sha256_Sum256 C a) = 32"
    and "vw s (used_path ns scope) (sha256_Sum256 C a) \<noteq> Some Sub"
  shows "fst (markAddressUsed C W ns scope a s) = Ok ()"
    and "vw (snd (markAddressUsed C W ns scope a s)) =
      (if vw s (used_path ns scope) (sha256_Sum256 C a) = None
       then vput (vw s) (used_path ns scope) (sha256_Sum256 C a) (Val [0]) else vw s)"
proof -
  have "sha256_Sum256 C a \<noteq> []" using assms(3) by auto
  then show "fst (markAddressUsed C W ns scope a s) = Ok ()"
      "vw (snd (markAddressUsed C W ns scope a s)) =
      (if vw s (used_path ns scope) (sha256_Sum256 C a) = None
       then vput (vw s) (used_path ns scope) (sha256_Sum256 C a) (Val [0]) else vw s)"
    using assms
    by (auto simp: markAddressUsed_def Let_def go_simps db_simps limits split: option.splits entry.splits)
qed

lemma fetchAddressUsed_effect:
  assumes "scope_ready (vw s) ns scope"
  shows "fst (fetchAddressUsed C W ns scope a s)
    = Ok (\<exists>v. vw s (used_path ns scope) (sha256_Sum256 C a) = Some (Val v))"
  using assms
  by (auto simp: fetchAddressUsed_def go_simps db_simps split: option.splits entry.splits)

lemma putAddress_effect:
  assumes "rw s" and "scope_ready (vw s) ns scope" and "h = sha256_Sum256 C a"
    and "address_slots (vw s) ns scope (account row) h"
    and "length (addrRawData row) + 18 \<le> MaxValueSize"
  shows "fst (putAddress C W ns scope a row s) = Ok ()"
    and "vw (snd (putAddress C W ns scope a row s)) (addr_path ns scope) h
      = Some (Val (addrType row # le32 (account row) @ le64 (addTime row) @ syncStatus row # field (addrRawData row)))"
    and "vw (snd (putAddress C W ns scope a row s)) (addr_idx_path ns scope) (uint32ToBytes (account row)) = Some Sub"
    and "vw (snd (putAddress C W ns scope a row s)) (addr_idx_path ns scope @ [uint32ToBytes (account row)]) h
      = Some (Val nullVal)"
    and "scope_ready (vw (snd (putAddress C W ns scope a row s))) ns scope"
    and "rw (snd (putAddress C W ns scope a row s))"
proof -
  have h: "h \<noteq> []" "h \<noteq> uint32ToBytes n" "uint32ToBytes n \<noteq> h" for n
    using assms(4) by (auto simp: address_slots_def)
  show "fst (putAddress C W ns scope a row s) = Ok ()"
    "vw (snd (putAddress C W ns scope a row s)) (addr_path ns scope) h
      = Some (Val (addrType row # le32 (account row) @ le64 (addTime row) @ syncStatus row # field (addrRawData row)))"
    "vw (snd (putAddress C W ns scope a row s)) (addr_idx_path ns scope) (uint32ToBytes (account row)) = Some Sub"
    "vw (snd (putAddress C W ns scope a row s)) (addr_idx_path ns scope @ [uint32ToBytes (account row)]) h
      = Some (Val nullVal)"
    "scope_ready (vw (snd (putAddress C W ns scope a row s))) ns scope"
    "rw (snd (putAddress C W ns scope a row s))"
    using assms h
    by (auto simp: putAddress_def putAddrAccountIndex_def Let_def go_simps db_simps limits
        serializeAddressRow_bytes address_slots_def nullVal_def)
qed

end

text \<open>No stored bytes make an address row with a payload.\<close>

lemma deserializeAddressRow_empty: "deserializeAddressRow b = Ok row \<Longrightarrow> addrRawData row = []"
proof -
  assume ok: "deserializeAddressRow b = Ok row"
  have len: "length b = 18" using ok by (auto simp: deserializeAddressRow_def split: if_splits)
  then obtain n where field: "get_field b 18 n = Ok (addrRawData row)"
    using ok by (auto simp: deserializeAddressRow_def rbind_eq_Ok)
  then have "unat (18 + n) = 18"
    using len by (auto simp: get_field_def rbind_eq_Ok slice_eq_Ok)
  then have "18 + n = (18 :: u32)" by (simp add: word_unat_eq_iff)
  then have "n = 0" by simp
  with field show ?thesis by (auto simp: get_field_def rbind_eq_Ok make_bytes_def copy_bytes_def)
qed

lemma acctdb_unreadable: "\<not> is_Ok (fst (fetchAddressByHash W ns scope h s))"
proof -
  have short: "\<not> is_Ok (deserializeChainedAddress row)" "\<not> is_Ok (deserializeImportedAddress row)"
      "\<not> is_Ok (deserializeScriptAddress row)" "\<not> is_Ok (deserializeWitnessScriptAddress row)"
    if "addrRawData row = []" for row
    using that by (simp_all add: deserializeChainedAddress_def deserializeImportedAddress_def
        deserializeScriptAddress_def deserializeWitnessScriptAddress_def)
  show ?thesis
  proof
    assume "is_Ok (fst (fetchAddressByHash W ns scope h s))"
    then obtain b row where "deserializeAddressRow b = Ok row"
        "is_Ok (deserializeChainedAddress row) \<or> is_Ok (deserializeImportedAddress row)
         \<or> is_Ok (deserializeScriptAddress row) \<or> is_Ok (deserializeWitnessScriptAddress row)"
      by (auto simp: fetchAddressByHash_def go_simps is_Ok_iff split: res.splits option.splits if_splits)
    with short [of row] deserializeAddressRow_empty show False by blast
  qed
qed

lemma for_each_not_Ok:
  "x \<in> set xs \<Longrightarrow> (\<And>t. \<not> is_Ok (fst (f x t))) \<Longrightarrow> \<not> is_Ok (fst (for_each f xs s))"
  by (induction xs arbitrary: s) (auto simp: go_simps is_Ok_iff split: res.splits)

text \<open>The store of the witnesses: the namespace as created, where a scope's buckets are empty.\<close>

definition example_scope :: KeyScope where
  "example_scope = \<lparr>Purpose = 84, Coin = 0\<rparr>"

lemma example_scope_in: "(example_scope, snd (example_scopes ! 0)) \<in> set example_scopes"
  by (simp add: example_scope_def example_scopes_def)

lemmas example_scope_ready = example_created(4) [OF example_scope_in, THEN conjunct1]

lemma example_scope_empty:
  assumes "k \<in> set scopeSubBuckets" and "k \<noteq> metaBucketName"
  shows "view memB example_created (example_ns @ [scopeBucketName, scopeToBytes example_scope, k]) l = None"
proof -
  have "distinct (map fst example_scopes)" by (simp add: example_scopes_def)
  then have "mem_view (snd example_created) = create_ns_view example_ns example_scopes 0 (mem_view (snd example_store))"
    using walletdb_bucket.createManagerNS_effect [OF mem.bdb.walletdb_bucket_axioms,
        of example_store example_ns example_scopes 0]
    by (simp add: example_created_def)
  moreover have "mem_view (snd example_store) (example_ns @ q # r) l = None" for q r
    by (simp add: mem_view_def example_store_def example_ns_def)
  ultimately show ?thesis
    using assms(2)
    by (simp add: create_ns_view_def example_scopes_def create_default_view_apply fold_vput_apply)
qed

section \<open>Properties\<close>

text \<open>C20: a stored default account is found under its number and its name, with the fields it was
  stored with; every other account number and every other name gives what it gave before.\<close>

theorem acctdb_account_roundtrip:
  assumes "walletdb_bucket W vw rw entries"
    and "rw s" and "scope_ready (vw s) ns scope" and "account_slots (vw s) ns scope acct name"
    and "length pub + length priv + length name + 25 \<le> MaxValueSize" and "length name + 4 \<le> MaxKeySize"
    and "m = putDefaultAccountInfo W ns scope acct pub priv ext itn name" and "s' = snd (m s)"
  shows "fst (m s) = Ok ()
    \<and> (\<exists>row. fetchAccountInfo W ns scope acct s' = (Ok (DefaultRow row), s')
         \<and> dar_pubKeyEncrypted row = pub \<and> dar_privKeyEncrypted row = priv
         \<and> dar_nextExternalIndex row = ext \<and> dar_nextInternalIndex row = itn \<and> dar_name row = name)
    \<and> fetchAccountByName W ns scope name s' = (Ok acct, s')
    \<and> (\<forall>acct'. acct' \<noteq> acct \<longrightarrow>
         fst (fetchAccountInfo W ns scope acct' s') = fst (fetchAccountInfo W ns scope acct' s))
    \<and> (\<forall>name'. name' \<noteq> name \<longrightarrow>
         fst (fetchAccountByName W ns scope name' s') = fst (fetchAccountByName W ns scope name' s))"
proof -
  let ?raw = "field pub @ field priv @ le32 ext @ le32 itn @ field name"
  let ?row = "\<lparr>acctType = accountDefault, rawData = ?raw\<rparr>"
  have small: "length pub + length priv + length name + 25 < 2 ^ 32"
    using assms(5) by (simp add: limits)
  have m: "m s = putAccountInfo W ns scope acct ?row name s"
    using small by (simp add: assms(7) putDefaultAccountInfo_def serializeDefaultAccountRow_bytes bnd_def go_simps)
  have "length (rawData ?row) + 5 \<le> MaxValueSize" using assms(5) by simp
  note eff = walletdb_bucket.putAccountInfo_effect [OF assms(1-4) this assms(6), folded m assms(8)]
  have ready: "scope_ready (vw s') ns scope"
    using assms(3,4) by (simp add: eff account_view_def account_slots_def)
  have acct: "vw s' (acct_path ns scope) (uint32ToBytes acct) = Some (Val (accountDefault # field ?raw))"
    by (simp add: eff account_view_def)
  have name: "vw s' (acct_name_path ns scope) (stringToBytes name) = Some (Val (uint32ToBytes acct))"
    by (simp add: eff account_view_def)
  have frame: "fst (fetchAccountInfo W ns scope acct' s') = fst (fetchAccountInfo W ns scope acct' s)"
    if "acct' \<noteq> acct" for acct'
    using that by (intro walletdb_bucket.fetchAccountInfo_reads [OF assms(1,3) ready])
      (simp add: eff account_view_def)
  have frame_name: "fst (fetchAccountByName W ns scope name' s') = fst (fetchAccountByName W ns scope name' s)"
    if "name' \<noteq> name" for name'
    using that by (intro walletdb_bucket.fetchAccountByName_reads [OF assms(1,3) ready])
      (simp add: eff account_view_def)
  show ?thesis
    using eff(1) frame frame_name walletdb_bucket.fetchAccountByName_effect(1) [OF assms(1) ready name]
      walletdb_bucket.fetchAccountInfo_default [OF assms(1) ready small refl acct]
    by simp
qed

theorem acctdb_account_roundtrip_witness:
  "\<exists>s'. fetchAccountByName (bdb_bucket memB) example_ns example_scope (go_string ''savings'') s' = (Ok 3, s')"
proof -
  have rw: "bolt_Writable memB example_created" using example_created(1) by simp
  have slots: "account_slots (view memB example_created) example_ns example_scope 3 (go_string ''savings'')"
    unfolding account_slots_def by (simp add: example_scope_empty scopeSubBuckets_def del: view_memB)
  have "length [1 :: byte] + length [2 :: byte] + length (go_string ''savings'') + 25 \<le> MaxValueSize"
      "length (go_string ''savings'') + 4 \<le> MaxKeySize" by (simp_all add: limits)
  from acctdb_account_roundtrip [OF mem.bdb.walletdb_bucket_axioms rw example_scope_ready slots this refl refl]
  show ?thesis by blast
qed

text \<open>A name of more than 32764 bytes does not fit the name index: the account is refused, but
  only after its row has been written, so the caller's transaction has to be rolled back.\<close>

lemma acctdb_long_name:
  assumes "walletdb_bucket W vw rw entries"
    and "rw s" and "scope_ready (vw s) ns scope" and "account_slots (vw s) ns scope acct name"
    and "length (rawData row) + 5 \<le> MaxValueSize" and "32764 < length name"
    and "length name + 4 \<le> MaxValueSize"
  shows "fst (putAccountInfo W ns scope acct row name s)
      = Err (managerError ErrDatabase (Some (WalletdbError ErrKeyTooLarge)))
    \<and> vw (snd (putAccountInfo W ns scope acct row name s)) (acct_path ns scope) (uint32ToBytes acct)
      = Some (Val (acctType row # field (rawData row)))"
proof -
  have "MaxKeySize < length name + 4" using assms(6) by (simp add: limits)
  from walletdb_bucket.putAccountInfo_long_name [OF assms(1-5) this assms(7)] show ?thesis by blast
qed

lemma acctdb_long_name_example:
  "fst (putAccountInfo (bdb_bucket memB) example_ns example_scope 3
      \<lparr>acctType = accountDefault, rawData = []\<rparr> (replicate 40000 97) example_created)
    = Err (managerError ErrDatabase (Some (WalletdbError ErrKeyTooLarge)))"
proof -
  have rw: "bolt_Writable memB example_created" using example_created(1) by simp
  have slots: "account_slots (view memB example_created) example_ns example_scope 3 (replicate 40000 97)"
    unfolding account_slots_def by (simp add: example_scope_empty scopeSubBuckets_def del: view_memB)
  have "length (rawData \<lparr>acctType = accountDefault, rawData = []\<rparr>) + 5 \<le> MaxValueSize"
      "32764 < length (replicate 40000 (97 :: byte))" "length (replicate 40000 (97 :: byte)) + 4 \<le> MaxValueSize"
    by (simp_all add: limits)
  from acctdb_long_name [OF mem.bdb.walletdb_bucket_axioms rw example_scope_ready slots this]
  show ?thesis by blast
qed

text \<open>Used addresses. Marking succeeds, marks the address, is idempotent, and changes the flag of
  no address with another hash.\<close>

lemma acctdb_mark_used:
  assumes "walletdb_bucket W vw rw entries"
    and "rw s" and "scope_ready (vw s) ns scope" and "length (sha256_Sum256 C a) = 32"
    and "vw s (used_path ns scope) (sha256_Sum256 C a) \<noteq> Some Sub"
    and "s' = snd (markAddressUsed C W ns scope a s)"
  shows "fst (markAddressUsed C W ns scope a s) = Ok ()
    \<and> fst (fetchAddressUsed C W ns scope a s') = Ok True
    \<and> markAddressUsed C W ns scope a s' = (Ok (), s')
    \<and> (\<forall>b. sha256_Sum256 C b \<noteq> sha256_Sum256 C a \<longrightarrow>
        fst (fetchAddressUsed C W ns scope b s') = fst (fetchAddressUsed C W ns scope b s))"
proof -
  note eff = walletdb_bucket.markAddressUsed_effect [OF assms(1-5), folded assms(6)]
  have ready: "scope_ready (vw s') ns scope" using assms(3) by (simp add: eff)
  have used: "\<exists>v. vw s' (used_path ns scope) (sha256_Sum256 C a) = Some (Val v)"
    using assms(5) by (auto simp: eff) (metis entry.exhaust)
  then have again: "markAddressUsed C W ns scope a s' = (Ok (), s')"
    using ready
    by (auto intro!: prog_eqI simp: markAddressUsed_def Let_def go_simps
        walletdb_bucket.fetch_scope_bucket [OF assms(1)] walletdb_bucket.nested_simps [OF assms(1)]
        walletdb_bucket.Get_sem [OF assms(1)] scope_ready_subs)
  show ?thesis
    using eff(1) used again ready assms(3)
    by (simp add: walletdb_bucket.fetchAddressUsed_effect [OF assms(1)] eff(2))
qed

lemma acctdb_mark_used_example:
  "\<exists>s'. fst (fetchAddressUsed ref_crypto (bdb_bucket memB) example_ns example_scope [9] s') = Ok True"
proof -
  have rw: "bolt_Writable memB example_created" using example_created(1) by simp
  have len: "length (sha256_Sum256 ref_crypto [9]) = 32" by (rule ref_crypto.sha256_length)
  have "view memB example_created (used_path example_ns example_scope) (sha256_Sum256 ref_crypto [9]) \<noteq> Some Sub"
    by (simp add: example_scope_empty scopeSubBuckets_def del: view_memB)
  from acctdb_mark_used [OF mem.bdb.walletdb_bucket_axioms rw example_scope_ready len this refl]
  show ?thesis by blast
qed

text \<open>C39: no address is ever read from the database, whatever it holds: the reader of address rows
  accepts 18 bytes only, and every kind of address needs a payload beyond them.\<close>

theorem acctdb_no_address_readable:
  "\<not> is_Ok (fst (fetchAddressByHash W ns scope h s)) \<and> \<not> is_Ok (fst (fetchAddress C W ns scope a s))"
  by (simp add: fetchAddress_def acctdb_unreadable)

text \<open>Storing an address derived from an account panics in its serialiser, before anything is
  written.\<close>

lemma acctdb_put_chained_panics:
  assumes "walletdb_bucket W vw rw entries" and "scope_there (vw s) ns scope"
  shows "putChainedAddress C W ns now scope a acct status br idx atype s = (Panic, s)"
  using assms(2)
  by (simp add: putChainedAddress_def bnd_def go_simps walletdb_bucket.fetch_scope_bucket [OF assms(1)]
      serializeChainedAddress_def copy_into_def make_bytes_def)

lemma acctdb_put_chained_panics_example:
  "putChainedAddress ref_crypto (bdb_bucket memB) example_ns 0 example_scope [9] 0 ssFull 0 0 adtChain
     example_created = (Panic, example_created)"
  by (rule acctdb_put_chained_panics [OF mem.bdb.walletdb_bucket_axioms])
    (use example_scope_ready in simp)

text \<open>A script address is stored, and from then on neither it nor the list of its account's
  addresses can be read: looking it up reports \<^verbatim>\<open>ErrDatabase\<close>, listing fails as well.\<close>

lemma acctdb_script_address_lost:
  assumes "walletdb_bucket W vw rw entries"
    and "rw s" and "scope_ready (vw s) ns scope" and "h = sha256_Sum256 C a"
    and "address_slots (vw s) ns scope acct h"
    and "length hash + length script + 26 \<le> MaxValueSize"
    and "m = putScriptAddress C W ns now scope a acct status hash script" and "s' = snd (m s)"
  shows "fst (m s) = Ok ()
    \<and> fst (fetchAddress C W ns scope a s') = Err (managerError ErrDatabase None)
    \<and> \<not> is_Ok (fst (forEachAccountAddress W ns scope acct fn s'))"
proof -
  have small: "length hash + length script + 8 < 2 ^ 32" using assms(6) by (simp add: limits)
  let ?row = "\<lparr>addrType = adtScript, account = acct, addTime = now, syncStatus = status,
    addrRawData = field hash @ field script\<rparr>"
  have m: "m s = putAddress C W ns scope a ?row s"
    by (simp add: assms(7) putScriptAddress_def serializeScriptAddress_bytes [OF small] bnd_def go_simps)
  have "address_slots (vw s) ns scope (account ?row) h" "length (addrRawData ?row) + 18 \<le> MaxValueSize"
    using assms(5,6) by simp_all
  note eff = walletdb_bucket.putAddress_effect [OF assms(1-4) this, folded m assms(8)]
  have fetch: "fst (fetchAddress C W ns scope a s') = Err (managerError ErrDatabase None)"
    using eff(2,5)
    by (simp add: fetchAddress_def fetchAddressByHash_def assms(4) go_simps deserializeAddressRow_def
        walletdb_bucket.fetch_scope_bucket [OF assms(1)] walletdb_bucket.nested_simps [OF assms(1)]
        walletdb_bucket.Get_sem [OF assms(1)] scope_ready_subs)
  let ?cb = "\<lambda>(k, v :: bytes option). case v of None \<Rightarrow> ret () | Some _ \<Rightarrow> bnd (fetchAddressByHash W ns scope k) fn"
  have "(h, Some nullVal) \<in> set (entries s' (addr_idx_path ns scope @ [uint32ToBytes acct]))"
    using eff(4) by (simp add: walletdb_bucket.entries_set [OF assms(1)])
  moreover have "\<not> is_Ok (fst (?cb (h, Some nullVal) t))" for t
    using acctdb_unreadable [of W ns scope h t] by (auto simp: go_simps is_Ok_iff split: res.split)
  ultimately have "\<not> is_Ok (fst (for_each ?cb (entries s' (addr_idx_path ns scope @ [uint32ToBytes acct])) s'))"
    by (rule for_each_not_Ok)
  then have "\<not> is_Ok (fst (forEachAccountAddress W ns scope acct fn s'))"
    using eff(3,5)
    by (simp add: forEachAccountAddress_def go_simps walletdb_bucket.fetch_scope_bucket [OF assms(1)]
        walletdb_bucket.nested_simps [OF assms(1)] walletdb_bucket.NestedR_sem [OF assms(1)]
        walletdb_bucket.ForEach_sem [OF assms(1)] scope_ready_subs is_Ok_iff)
  with fetch eff(1) show ?thesis by simp
qed

lemma acctdb_script_address_lost_example:
  "\<exists>s'. fst (fetchAddress ref_crypto (bdb_bucket memB) example_ns example_scope [9] s')
     = Err (managerError ErrDatabase None)"
proof -
  have rw: "bolt_Writable memB example_created" using example_created(1) by simp
  let ?h = "sha256_Sum256 ref_crypto [9]"
  have idx: "view memB example_created (addr_idx_path example_ns example_scope) k = None" for k
    by (simp add: example_scope_empty scopeSubBuckets_def del: view_memB)
  have "view memB example_created (addr_idx_path example_ns example_scope @ [uint32ToBytes 1]) k = None" for k
    by (rule mem.bdb.missing_bucket) (simp add: idx del: view_memB)
  then have slots: "address_slots (view memB example_created) example_ns example_scope 1 ?h"
    using ref_crypto.sha256_length
    by (simp add: address_slots_def idx example_scope_empty scopeSubBuckets_def del: view_memB)
  have "length [1 :: byte] + length [2 :: byte] + 26 \<le> MaxValueSize" by (simp add: limits)
  from acctdb_script_address_lost [OF mem.bdb.walletdb_bucket_axioms rw example_scope_ready refl slots this refl refl]
  show ?thesis by blast
qed

end
