(* ===== verification/Keys.thy ===== *)
theory Keys
  imports AcctDb
begin

text \<open>
  What the address manager in memory is made of: the libraries it calls (\<^verbatim>\<open>btcutil\<close>,
  \<^verbatim>\<open>hdkeychain\<close>, \<^verbatim>\<open>btcec\<close>, \<^verbatim>\<open>txscript\<close>) as one record of functions, the records of
  \<^verbatim>\<open>waddrmgr\<close> (\<^verbatim>\<open>Manager\<close>, \<^verbatim>\<open>ScopedKeyManager\<close>, \<^verbatim>\<open>accountInfo\<close>, the managed addresses), the state
  of a running manager, and the key derivation functions, which need no state.

  A \<^verbatim>\<open>ManagedAddress\<close> is shared between the address cache, the list of keys to derive on unlock
  and the account records, and is written through any of them: addresses live in a heap, a
  pointer is an index into it. A \<^verbatim>\<open>ScopedKeyManager\<close> is identified by its scope, an
  \<^verbatim>\<open>accountInfo\<close> by its scope and number. A Go map that the code iterates over is an
  association list, whose order is the iteration order. Mutexes are left out: an operation
  runs alone, as the code holds the manager's lock for its whole duration.
\<close>

section \<open>The libraries\<close>

text \<open>An address by its dynamic type; \<open>'a\<close> is the library's value.\<close>

datatype 'a btcAddress =
    AddressPubKeyHash 'a
  | AddressScriptHash 'a
  | AddressWitnessPubKeyHash 'a
  | AddressTaproot 'a
  | AddressWitnessScriptHash 'a

text \<open>
  \<open>'k\<close> is an \<^verbatim>\<open>ExtendedKey\<close>, \<open>'sk\<close> and \<open>'pk\<close> are the \<^verbatim>\<open>btcec\<close> keys, \<open>'n\<close> the chain parameters
  (a pointer: nil is \<open>None\<close>), a signature is its bytes. The record ends with the
  cryptographic primitives and the database driver.
\<close>

record ('k, 'sk, 'pk, 'a, 'n, 's) env =
  hd_DeriveNonStandard :: "'k \<Rightarrow> u32 \<Rightarrow> 'k result"
  hd_Neuter :: "'k \<Rightarrow> 'k result"
  hd_String :: "'k \<Rightarrow> gostring"
  hd_NewKeyFromString :: "gostring \<Rightarrow> 'k result"
  hd_IsPrivate :: "'k \<Rightarrow> bool"
  hd_ChildIndex :: "'k \<Rightarrow> u32"
  hd_SetNet :: "'k \<Rightarrow> 'n option \<Rightarrow> 'k result"
  hd_ECPrivKey :: "'k \<Rightarrow> 'sk result"
  hd_ECPubKey :: "'k \<Rightarrow> 'pk result"
  ec_Serialize :: "'sk \<Rightarrow> bytes"
  ec_PrivKeyFromBytes :: "bytes \<Rightarrow> 'sk"
  ec_PubKey :: "'sk \<Rightarrow> 'pk"
  ec_IsEqual :: "'pk \<Rightarrow> 'pk \<Rightarrow> bool"
  ec_SerializeCompressed :: "'pk \<Rightarrow> bytes"
  ec_SerializeUncompressed :: "'pk \<Rightarrow> bytes"
  ec_ParsePubKey :: "bytes \<Rightarrow> 'pk result"
  schnorr_SerializePubKey :: "'pk \<Rightarrow> bytes"
  schnorr_ParsePubKey :: "bytes \<Rightarrow> 'pk result"
  ecdsa_Sign :: "'sk \<Rightarrow> bytes \<Rightarrow> bytes"
  schnorr_Sign :: "'sk \<Rightarrow> bytes \<Rightarrow> bytes result"
  ecdsa_Verify :: "bytes \<Rightarrow> bytes \<Rightarrow> 'pk \<Rightarrow> bool"
  schnorr_Verify :: "bytes \<Rightarrow> bytes \<Rightarrow> 'pk \<Rightarrow> bool"
  btcutil_Hash160 :: "bytes \<Rightarrow> bytes"
  btcutil_NewWIF :: "'sk \<Rightarrow> 'n option \<Rightarrow> bool \<Rightarrow> bytes result"
  NewAddressPubKeyHash :: "bytes \<Rightarrow> 'n option \<Rightarrow> 'a result"
  NewAddressWitnessPubKeyHash :: "bytes \<Rightarrow> 'n option \<Rightarrow> 'a result"
  NewAddressScriptHash :: "bytes \<Rightarrow> 'n option \<Rightarrow> 'a result"
  NewAddressScriptHashFromHash :: "bytes \<Rightarrow> 'n option \<Rightarrow> 'a result"
  NewAddressWitnessScriptHash :: "bytes \<Rightarrow> 'n option \<Rightarrow> 'a result"
  NewAddressTaproot :: "bytes \<Rightarrow> 'n option \<Rightarrow> 'a result"
  PayToAddrScript :: "'a btcAddress \<Rightarrow> bytes result"
  ComputeTaprootKeyNoScript :: "'pk \<Rightarrow> 'pk"
  addr_Hash160 :: "'a \<Rightarrow> bytes"
  addr_WitnessProgram :: "'a \<Rightarrow> bytes"
  addr_ScriptAddress :: "'a btcAddress \<Rightarrow> bytes"
  addr_String :: "'a btcAddress \<Rightarrow> gostring"
  env_crypto :: crypto
  env_bolt :: "'s bolt"

section \<open>Constants\<close>

definition HardenedKeyStart :: u32 where "HardenedKeyStart = 0x80000000"
definition maxCoinType :: u32 where "maxCoinType = HardenedKeyStart - 1"
definition MaxAccountNum :: u32 where "MaxAccountNum = HardenedKeyStart - 2"
definition MaxAddressesPerAccount :: u32 where "MaxAddressesPerAccount = HardenedKeyStart - 1"
definition saltSize :: nat where "saltSize = 32"
definition ImportedAddrAccount :: u32 where "ImportedAddrAccount = MaxAccountNum + 1"
definition defaultAccountName :: gostring where "defaultAccountName = go_string ''default''"
definition ImportedAddrAccountName :: gostring where "ImportedAddrAccountName = go_string ''imported''"

lemmas key_limits = HardenedKeyStart_def maxCoinType_def MaxAccountNum_def MaxAddressesPerAccount_def
  ImportedAddrAccount_def

definition KeyScopeBIP0049Plus :: KeyScope where "KeyScopeBIP0049Plus = \<lparr>Purpose = 49, Coin = 0\<rparr>"
definition KeyScopeBIP0084 :: KeyScope where "KeyScopeBIP0084 = \<lparr>Purpose = 84, Coin = 0\<rparr>"
definition KeyScopeBIP0086 :: KeyScope where "KeyScopeBIP0086 = \<lparr>Purpose = 86, Coin = 0\<rparr>"
definition KeyScopeBIP0044 :: KeyScope where "KeyScopeBIP0044 = \<lparr>Purpose = 44, Coin = 0\<rparr>"

lemmas bip_scopes = KeyScopeBIP0049Plus_def KeyScopeBIP0084_def KeyScopeBIP0086_def KeyScopeBIP0044_def

definition DefaultKeyScopes :: "KeyScope list" where
  "DefaultKeyScopes = [KeyScopeBIP0049Plus, KeyScopeBIP0084, KeyScopeBIP0086, KeyScopeBIP0044]"

definition ScopeAddrMap :: "(KeyScope \<times> ScopeAddrSchema) list" where
  "ScopeAddrMap =
     [(KeyScopeBIP0049Plus, \<lparr>ExternalAddrType = NestedWitnessPubKey, InternalAddrType = WitnessPubKey\<rparr>),
      (KeyScopeBIP0084, \<lparr>ExternalAddrType = WitnessPubKey, InternalAddrType = WitnessPubKey\<rparr>),
      (KeyScopeBIP0086, \<lparr>ExternalAddrType = TaprootPubKey, InternalAddrType = TaprootPubKey\<rparr>),
      (KeyScopeBIP0044, \<lparr>ExternalAddrType = PubKeyHash, InternalAddrType = PubKeyHash\<rparr>)]"

fun IsDefaultScope_from :: "KeyScope list \<Rightarrow> KeyScope \<Rightarrow> bool" where
  "IsDefaultScope_from [] scope = False"
| "IsDefaultScope_from (d # ds) scope = (if d = scope then True else IsDefaultScope_from ds scope)"

definition IsDefaultScope :: "KeyScope \<Rightarrow> bool" where
  "IsDefaultScope scope = IsDefaultScope_from DefaultKeyScopes scope"

section \<open>Records\<close>

record DerivationPath =
  dp_InternalAccount :: u32
  dp_Account :: u32
  dp_Branch :: u32
  dp_Index :: u32
  dp_MasterKeyFingerprint :: u32

definition ImportedDerivationPath :: DerivationPath where
  "ImportedDerivationPath =
     \<lparr>dp_InternalAccount = ImportedAddrAccount, dp_Account = 0, dp_Branch = 0, dp_Index = 0,
      dp_MasterKeyFingerprint = 0\<rparr>"

text \<open>Byte slices of which the code only asks for the length have \<open>[]\<close> for nil.\<close>

record ('pk, 'a) managedAddress =
  ma_manager :: KeyScope
  ma_derivationPath :: DerivationPath
  ma_address :: "'a btcAddress option"
  ma_imported :: bool
  ma_internal :: bool
  ma_compressed :: bool
  ma_addrType :: AddressType
  ma_pubKey :: 'pk
  ma_privKeyEncrypted :: bytes
  ma_privKeyCT :: bytes

record baseScriptAddress =
  bs_manager :: KeyScope
  bs_account :: u32
  bs_scriptEncrypted :: bytes
  bs_scriptClearText :: bytes

record 'a scriptAddress =
  sa_base :: baseScriptAddress
  sa_address :: 'a

record 'a witnessScriptAddress =
  wa_base :: baseScriptAddress
  wa_address :: "'a btcAddress"
  wa_witnessVersion :: byte
  wa_isSecretScript :: bool

record ('pk, 'a) taprootScriptAddress =
  ta_witness :: "'a witnessScriptAddress"
  ta_TweakedPubKey :: 'pk

text \<open>The implementations of the interface \<^verbatim>\<open>ManagedAddress\<close>.\<close>

datatype ('pk, 'a) ManagedAddress =
    PubKeyAddr "('pk, 'a) managedAddress"
  | ScriptAddr "'a scriptAddress"
  | WitnessAddr "'a witnessScriptAddress"
  | TaprootAddr "('pk, 'a) taprootScriptAddress"

type_synonym addr_ref = nat

record 'k accountInfo =
  ai_acctName :: gostring
  ai_acctType :: accountType
  ai_acctKeyEncrypted :: bytes
  ai_acctKeyPriv :: "'k option"
  ai_acctKeyPub :: "'k option"
  ai_nextExternalIndex :: u32
  ai_lastExternalAddr :: "addr_ref option"
  ai_nextInternalIndex :: u32
  ai_lastInternalAddr :: "addr_ref option"
  ai_addrSchema :: "ScopeAddrSchema option"
  ai_masterKeyFingerprint :: u32

record unlockDeriveInfo =
  ud_managedAddr :: addr_ref
  ud_branch :: u32
  ud_index :: u32

text \<open>The cache \<^verbatim>\<open>privKeyCache\<close> is made and never used.\<close>

record 'k ScopedKeyManager =
  sm_scope :: KeyScope
  sm_addrSchema :: ScopeAddrSchema
  sm_addrs :: "(bytes \<times> addr_ref) list"
  sm_acctInfo :: "(u32 \<times> 'k accountInfo) list"
  sm_deriveOnUnlock :: "unlockDeriveInfo list"

record ('k, 'n) Manager =
  chainParams :: "'n option"
  scopedManagers :: "(KeyScope \<times> 'k ScopedKeyManager) list"
  externalAddrSchemas :: "AddressType \<Rightarrow> KeyScope list"
  internalAddrSchemas :: "AddressType \<Rightarrow> KeyScope list"
  watchingOnly :: bool
  masterKeyPub :: SecretKey
  masterKeyPriv :: SecretKey
  cryptoKeyPub :: bytes
  cryptoKeyPriv :: bytes
  cryptoKeyPrivEncrypted :: bytes
  cryptoKeyScript :: bytes
  cryptoKeyScriptEncrypted :: bytes
  privPassphraseSalt :: bytes
  hashedPrivPassphrase :: bytes
  locked :: bool
  closed :: bool

record AccountProperties_base =
  AccountNumber :: u32
  AccountName :: gostring
  ExternalKeyCount :: u32
  InternalKeyCount :: u32
  ImportedKeyCount :: u32
  MasterKeyFingerprint :: u32
  ap_KeyScope :: KeyScope
  IsWatchOnly :: bool
  AddrSchema :: "ScopeAddrSchema option"

record 'k AccountProperties = AccountProperties_base +
  AccountPubKey :: "'k option"

section \<open>State\<close>

text \<open>
  What every operation works on: the open transaction and the random source. A running
  manager adds itself, the heap of addresses and the functions to be called at commit.
\<close>

record 's base =
  db :: 's
  rng :: bytes

text \<open>The closure \<^verbatim>\<open>onCommit\<close> of \<^verbatim>\<open>nextAddresses\<close> with the variables it captures.\<close>

record commit_hook =
  ch_scope :: KeyScope
  ch_account :: u32
  ch_addressInfo :: "unlockDeriveInfo list"
  ch_watchOnly :: bool
  ch_internal :: bool
  ch_nextIndex :: u32

record ('k, 'pk, 'a, 'n, 's) world = "'s base" +
  mgr :: "('k, 'n) Manager"
  heap :: "('pk, 'a) ManagedAddress list"
  hooks :: "commit_hook list"

text \<open>The driver's buckets on a transaction that is part of a larger state.\<close>

definition on_db :: "('s \<Rightarrow> 'x \<times> 's) \<Rightarrow> ('s, 'z) base_scheme \<Rightarrow> 'x \<times> ('s, 'z) base_scheme" where
  "on_db m w = (case m (db w) of (x, s) \<Rightarrow> (x, w\<lparr>db := s\<rparr>))"

definition world_bolt :: "'s bolt \<Rightarrow> ('s, 'z) base_scheme bolt" where
  "world_bolt B =
     \<lparr>bolt_Writable = (\<lambda>w. bolt_Writable B (db w)),
      bolt_Bucket = (\<lambda>w. bolt_Bucket B (db w)),
      bolt_Get = (\<lambda>w. bolt_Get B (db w)),
      bolt_ForEach = (\<lambda>w. bolt_ForEach B (db w)),
      bolt_Put = (\<lambda>p k v. on_db (bolt_Put B p k v)),
      bolt_Delete = (\<lambda>p k. on_db (bolt_Delete B p k)),
      bolt_CreateBucket = (\<lambda>p k. on_db (bolt_CreateBucket B p k)),
      bolt_CreateBucketIfNotExists = (\<lambda>p k. on_db (bolt_CreateBucketIfNotExists B p k)),
      bolt_DeleteBucket = (\<lambda>p k. on_db (bolt_DeleteBucket B p k))\<rparr>"

definition dbw :: "('k, 'sk, 'pk, 'a, 'n, 's) env \<Rightarrow> ('s, 'z) base_scheme ReadWriteBucket" where
  "dbw E = bdb_bucket (world_bolt (env_bolt E))"

definition random :: "(bytes, 'x) go \<Rightarrow> (('s, 'z) base_scheme, 'x) go" where
  "random m = zoom rng (\<lambda>r w. w\<lparr>rng := r\<rparr>) m"

definition encrypt ::
  "('k, 'sk, 'pk, 'a, 'n, 's) env \<Rightarrow> bytes \<Rightarrow> bytes \<Rightarrow> (('s, 'z) base_scheme, bytes) go" where
  "encrypt E key inp = random (CryptoKey_Encrypt (env_crypto E) key inp)"

definition decrypt :: "('k, 'sk, 'pk, 'a, 'n, 's) env \<Rightarrow> bytes \<Rightarrow> bytes \<Rightarrow> bytes result" where
  "decrypt E key inp = CryptoKey_Decrypt (env_crypto E) key inp"

text \<open>\<^verbatim>\<open>return managerError(code, str, err)\<close>.\<close>

definition as_error :: "ErrorCode \<Rightarrow> ('s, 'x) go \<Rightarrow> ('s, 'x) go" where
  "as_error c m = wrap_err (\<lambda>err. managerError c (Some err)) m"

section \<open>Key derivation\<close>

text \<open>\<^verbatim>\<open>waddrmgr/manager.go\<close>. The index arithmetic is that of \<^verbatim>\<open>uint32\<close>.\<close>

definition deriveCoinTypeKey :: "('k, 'sk, 'pk, 'a, 'n, 's) env \<Rightarrow> 'k \<Rightarrow> KeyScope \<Rightarrow> 'k result" where
  "deriveCoinTypeKey E masterNode scope =
     (if Coin scope > maxCoinType then Err (managerError ErrCoinTypeTooHigh None)
      else
        rbind (hd_DeriveNonStandard E masterNode (Purpose scope + HardenedKeyStart)) (\<lambda>purpose.
        hd_DeriveNonStandard E purpose (Coin scope + HardenedKeyStart)))"

definition deriveAccountKey :: "('k, 'sk, 'pk, 'a, 'n, 's) env \<Rightarrow> 'k \<Rightarrow> u32 \<Rightarrow> 'k result" where
  "deriveAccountKey E coinTypeKey acct =
     (if acct > MaxAccountNum then Err (managerError ErrAccountNumTooHigh None)
      else hd_DeriveNonStandard E coinTypeKey (acct + HardenedKeyStart))"

definition checkBranchKeys :: "('k, 'sk, 'pk, 'a, 'n, 's) env \<Rightarrow> 'k \<Rightarrow> unit result" where
  "checkBranchKeys E acctKey =
     rbind (hd_DeriveNonStandard E acctKey ExternalBranch) (\<lambda>_.
     rbind (hd_DeriveNonStandard E acctKey InternalBranch) (\<lambda>_. Ok ()))"

definition isReservedAccountName :: "gostring \<Rightarrow> bool" where
  "isReservedAccountName name \<longleftrightarrow> name = ImportedAddrAccountName"

definition ValidateAccountName :: "gostring \<Rightarrow> unit result" where
  "ValidateAccountName name =
     (if name = [] then Err (managerError ErrInvalidAccount None)
      else if isReservedAccountName name then Err (managerError ErrInvalidAccount None)
      else Ok ())"

text \<open>\<^verbatim>\<open>ScopedKeyManager.deriveKey\<close>: a missing account key is a nil pointer.\<close>

definition deriveKey ::
  "('k, 'sk, 'pk, 'a, 'n, 's) env \<Rightarrow> 'k accountInfo \<Rightarrow> u32 \<Rightarrow> u32 \<Rightarrow> bool \<Rightarrow> 'k result" where
  "deriveKey E acctInfo br idx private =
     (case (if private then ai_acctKeyPriv acctInfo else ai_acctKeyPub acctInfo) of
        None \<Rightarrow> Panic
      | Some acctKey \<Rightarrow>
          rbind (map_err (\<lambda>err. managerError ErrKeyChain (Some err))
                   (hd_DeriveNonStandard E acctKey br)) (\<lambda>branchKey.
          map_err (\<lambda>err. managerError ErrKeyChain (Some err))
            (hd_DeriveNonStandard E branchKey idx)))"

section \<open>The database inside the state\<close>

lemma on_db_simps:
  "fst (on_db m w) = fst (m (db w))" "snd (on_db m w) = w\<lparr>db := snd (m (db w))\<rparr>"
  by (simp_all add: on_db_def split: prod.split)

lemma world_bolt_sel [simp]:
  "bolt_Writable (world_bolt B) w = bolt_Writable B (db w)"
  "bolt_Bucket (world_bolt B) w = bolt_Bucket B (db w)"
  "bolt_Get (world_bolt B) w = bolt_Get B (db w)"
  "bolt_ForEach (world_bolt B) w = bolt_ForEach B (db w)"
  "bolt_Put (world_bolt B) p k v = on_db (bolt_Put B p k v)"
  "bolt_CreateBucket (world_bolt B) p k = on_db (bolt_CreateBucket B p k)"
  "bolt_CreateBucketIfNotExists (world_bolt B) p k = on_db (bolt_CreateBucketIfNotExists B p k)"
  by (simp_all add: world_bolt_def)

lemma view_world_bolt [simp]: "view (world_bolt B) w = view B (db w)"
  by (simp add: fun_eq_iff view_def)

lemma on_db_eq: "m (db w) = (x, db w) \<Longrightarrow> on_db m w = (x, w)"
  by (simp add: on_db_def)

text \<open>A driver that meets the contract meets it on the transaction inside a larger state.\<close>

lemma bolt_contract_world: "bolt_contract B \<Longrightarrow> bolt_contract (world_bolt B)"
proof -
  assume "bolt_contract B"
  then have B: "bolt_contract B" .
  note c = bolt_contract.get_not_bucket [OF B] bolt_contract.entry_live [OF B]
    bolt_contract.foreach_set [OF B] bolt_contract.foreach_sorted [OF B]
  have ine: "on_db (bolt_CreateBucketIfNotExists B p k) w =
      (if bolt_Writable B (db w) \<and> k \<noteq> [] \<and> view B (db w) p k = Some Sub then (None, w)
       else on_db (bolt_CreateBucket B p k) w)" for p k and w :: "('a, 'b) base_scheme"
    by (simp add: on_db_def bolt_contract.create_ine [OF B])
  show ?thesis
    by unfold_locales
      (simp_all add: on_db_simps on_db_eq c ine
        bolt_contract.put_writable [OF B] bolt_contract.put_readonly [OF B]
        bolt_contract.put_fails [OF B] bolt_contract.put_ok [OF B]
        bolt_contract.create_writable [OF B] bolt_contract.create_readonly [OF B]
        bolt_contract.create_fails [OF B] bolt_contract.create_ok [OF B])
qed

context bolt_contract
begin

lemma bdb_bucket_contract:
  "walletdb_bucket (bdb_bucket B) (view B) (bolt_Writable B) (bolt_ForEach B)"
  by (rule bdb.walletdb_bucket_axioms)

end

lemma dbw_contract:
  fixes E :: "('k, 'sk, 'pk, 'a, 'n, 's) env"
  assumes "bolt_contract (env_bolt E)"
  shows "walletdb_bucket (dbw E) (\<lambda>w :: ('s, 'z) base_scheme. view (env_bolt E) (db w))
    (\<lambda>w. bolt_Writable (env_bolt E) (db w)) (\<lambda>w. bolt_ForEach (env_bolt E) (db w))"
proof -
  let ?B = "world_bolt (env_bolt E) :: ('s, 'z) base_scheme bolt"
  have "walletdb_bucket (bdb_bucket ?B) (view ?B) (bolt_Writable ?B) (bolt_ForEach ?B)"
    by (rule bolt_contract.bdb_bucket_contract [OF bolt_contract_world [OF assms]])
  moreover have "view ?B = (\<lambda>w. view (env_bolt E) (db w))"
      "bolt_Writable ?B = (\<lambda>w. bolt_Writable (env_bolt E) (db w))"
      "bolt_ForEach ?B = (\<lambda>w. bolt_ForEach (env_bolt E) (db w))"
    by (simp_all add: fun_eq_iff)
  ultimately show ?thesis by (simp add: dbw_def)
qed

section \<open>What an operation leaves alone\<close>

text \<open>Operations that touch only the transaction, and their composition.\<close>

definition only_db :: "(('s, 'z) base_scheme, 'x) go \<Rightarrow> bool" where
  "only_db m \<longleftrightarrow> (\<forall>w. \<exists>s. snd (m w) = w\<lparr>db := s\<rparr>)"

lemma only_dbD:
  assumes "only_db m"
  shows "mgr (snd (m w)) = mgr w" "heap (snd (m w)) = heap w" "hooks (snd (m w)) = hooks w" "rng (snd (m w)) = rng w"
proof -
  obtain s where "snd (m w) = w\<lparr>db := s\<rparr>" using assms by (auto simp: only_db_def)
  then show "mgr (snd (m w)) = mgr w" "heap (snd (m w)) = heap w" "hooks (snd (m w)) = hooks w" "rng (snd (m w)) = rng w"
    by simp_all
qed

named_theorems frame_intros
  \<open>composition of operations that touch only the transaction\<close>

lemma only_db_id: "(\<And>w. snd (m w) = w) \<Longrightarrow> only_db m"
  unfolding only_db_def by (metis (full_types) base.surjective base.update_convs(1))

lemma only_db_ret [frame_intros]: "only_db (ret x)"
  by (rule only_db_id) (simp add: go_simps)

lemma only_db_raise [frame_intros]: "only_db (raise e)"
  by (rule only_db_id) (simp add: go_simps)

lemma only_db_panic [frame_intros]: "only_db panic"
  by (rule only_db_id) (simp add: go_simps)

lemma only_db_lift [frame_intros]: "only_db (lift r)"
  by (rule only_db_id) (simp add: go_simps)

lemma only_db_reads [frame_intros]: "only_db (reads f)"
  by (rule only_db_id) (simp add: go_simps)

lemma only_db_deref [frame_intros]: "only_db (deref x)"
  by (cases x) (simp_all add: go_simps frame_intros)

lemma only_db_bnd [frame_intros]:
  assumes "only_db m" and "\<And>a. only_db (f a)"
  shows "only_db (bnd m f)"
  unfolding only_db_def
proof
  fix w
  obtain s where s: "snd (m w) = w\<lparr>db := s\<rparr>" using assms(1) by (auto simp: only_db_def)
  show "\<exists>s. snd (bnd m f w) = w\<lparr>db := s\<rparr>"
  proof (cases "fst (m w)")
    case (Ok a)
    obtain t where "snd (f a (w\<lparr>db := s\<rparr>)) = w\<lparr>db := s\<rparr>\<lparr>db := t\<rparr>"
      using assms(2) by (metis only_db_def)
    with Ok s show ?thesis by (auto simp: go_simps)
  qed (use s in \<open>auto simp: go_simps\<close>)
qed

lemma only_db_wrap [frame_intros]:
  "only_db m \<Longrightarrow> only_db (wrap_err h m)" "only_db m \<Longrightarrow> only_db (as_db_error m)"
  "only_db m \<Longrightarrow> only_db (as_error c m)" "only_db m \<Longrightarrow> only_db (attempt m)"
  by (simp_all add: only_db_def as_error_def go_simps)

lemma only_db_for_each [frame_intros]: "(\<And>x. only_db (f x)) \<Longrightarrow> only_db (for_each f xs)"
  by (induction xs) (simp_all add: frame_intros)

lemma only_db_cases [frame_intros]:
  "only_db a \<Longrightarrow> only_db b \<Longrightarrow> only_db (if c then a else b)"
  "only_db a \<Longrightarrow> (\<And>x. only_db (f x)) \<Longrightarrow> only_db (case z of None \<Rightarrow> a | Some x \<Rightarrow> f x)"
  "(\<And>x y. only_db (g x y)) \<Longrightarrow> only_db (case q of (x, y) \<Rightarrow> g x y)"
  by (cases c, simp, simp) (cases z, simp, simp, cases q, simp)

lemma only_db_bolt_result: "only_db (bolt_result x (on_db m))"
  by (auto simp: only_db_def snd_bolt_result on_db_simps)

lemma only_db_dbw [frame_intros]:
  "only_db (Get (dbw E) p k)" "only_db (NestedReadBucket (dbw E) p k)" "only_db (NestedReadWriteBucket (dbw E) p k)"
  "only_db (Put (dbw E) p k v)" "only_db (CreateBucket (dbw E) p k)" "only_db (CreateBucketIfNotExists (dbw E) p k)"
  "(\<And>k v. only_db (fn k v)) \<Longrightarrow> only_db (ForEach (dbw E) p fn)"
  by (auto simp: dbw_def bucket_Get_def bucket_NestedReadBucket_def bucket_NestedReadWriteBucket_def
      bucket_Put_def bucket_CreateBucket_def bucket_CreateBucketIfNotExists_def bucket_ForEach_def
      intro!: frame_intros only_db_bolt_result)

lemmas db_op_defs = nested_r_def nested_rw_def fetchReadScopeBucket_def fetchWriteScopeBucket_def
  fetchLastAccount_def putLastAccount_def fetchCoinTypeKeys_def fetchAccountByName_def fetchAccountInfo_def
  putAccountRow_def putAccountIDIndex_def putAccountNameIndex_def putAccountInfo_def putDefaultAccountInfo_def
  fetchMasterHDKeys_def markAddressUsed_def createScopedManagerNS_def put_if_def putCoinTypeKeys_def

lemma only_db_ops [frame_intros]:
  "only_db (nested_rw (dbw E) p k)"
  "only_db (fetchLastAccount (dbw E) ns scope)" "only_db (putLastAccount (dbw E) ns scope n)"
  "only_db (fetchCoinTypeKeys (dbw E) ns scope)" "only_db (fetchAccountByName (dbw E) ns scope name)"
  "only_db (fetchAccountInfo (dbw E) ns scope n)"
  "only_db (putDefaultAccountInfo (dbw E) ns scope n pub priv ext itn name)"
  "only_db (putCoinTypeKeys (dbw E) ns scope pubEnc privEnc)"
  "only_db (fetchMasterHDKeys (dbw E) ns)" "only_db (markAddressUsed C (dbw E) ns scope a)"
  "only_db (createScopedManagerNS (dbw E) p scope)"
  unfolding db_op_defs Let_def by (intro frame_intros)+

text \<open>A component of the state that an operation does not change.\<close>

definition keeps :: "('w \<Rightarrow> 'c) \<Rightarrow> ('w, 'e, 'x) prog \<Rightarrow> bool" where
  "keeps f m \<longleftrightarrow> (\<forall>w. f (snd (m w)) = f w)"

named_theorems keeps_intros
  \<open>composition of operations that keep a component of the state\<close>

lemma keepsD: "keeps f m \<Longrightarrow> f (snd (m w)) = f w"
  by (simp add: keeps_def)

lemma keeps_basic [keeps_intros]:
  "keeps f (ret x)" "keeps f (raise e)" "keeps f panic" "keeps f hang" "keeps f (lift r)" "keeps f (reads g)"
  "keeps f (deref z)"
  by (simp_all add: keeps_def go_simps deref_def split: option.split)

lemma keeps_bnd [keeps_intros]:
  "keeps f m \<Longrightarrow> (\<And>a. keeps f (g a)) \<Longrightarrow> keeps f (bnd m g)"
  by (simp add: keeps_def go_simps split: res.split)

lemma keeps_wrap [keeps_intros]:
  "keeps f m \<Longrightarrow> keeps f (wrap_err h m)" "keeps f m \<Longrightarrow> keeps f (as_error c m)"
  "keeps f m \<Longrightarrow> keeps f (attempt m)"
  "keeps f m \<Longrightarrow> (\<And>e. keeps f (g e)) \<Longrightarrow> keeps f (catch_err m g)"
  by (simp_all add: keeps_def as_error_def go_simps split: res.split)

lemma keeps_for_each [keeps_intros]: "(\<And>x. keeps f (g x)) \<Longrightarrow> keeps f (for_each g xs)"
  by (induction xs) (simp_all add: keeps_intros)

lemma keeps_cases [keeps_intros]:
  "keeps f a \<Longrightarrow> keeps f b \<Longrightarrow> keeps f (if c then a else b)"
  "keeps f a \<Longrightarrow> (\<And>x. keeps f (g x)) \<Longrightarrow> keeps f (case z of None \<Rightarrow> a | Some x \<Rightarrow> g x)"
  "(\<And>x y. keeps f (h x y)) \<Longrightarrow> keeps f (case q of (x, y) \<Rightarrow> h x y)"
  by (cases c, simp, simp) (cases z, simp, simp, cases q, simp)

lemma keeps_modify: "(\<And>w. f (g w) = f w) \<Longrightarrow> keeps f (modify g)"
  by (simp add: keeps_def go_simps)

lemma keeps_only_db:
  "only_db m \<Longrightarrow> keeps mgr m" "only_db m \<Longrightarrow> keeps heap m" "only_db m \<Longrightarrow> keeps hooks m"
  by (simp_all add: keeps_def only_dbD)

lemma keeps_random [keeps_intros]:
  "keeps mgr (random m)" "keeps heap (random m)" "keeps hooks (random m)"
  by (simp_all add: keeps_def random_def go_simps)

lemma keeps_encrypt [keeps_intros]:
  "keeps mgr (encrypt E k b)" "keeps heap (encrypt E k b)" "keeps hooks (encrypt E k b)"
  by (simp_all add: encrypt_def keeps_intros)

section \<open>Properties\<close>

text \<open>C27: the indices handed to key derivation. An account number in range is derived at itself plus \<open>2 ^ 31\<close>,
  a coin type in range at itself plus \<open>2 ^ 31\<close> below the purpose of the scope, all in the hardened half and
  without overflow; numbers out of range are refused before the library is called, and the account
  reserved for imported keys is out of range. The purpose of a scope is not checked: below \<open>2 ^ 31\<close> it is
  hardened too, from there on it wraps around to the non-hardened half.\<close>

theorem keys_derivation_bounds:
  "(acct \<le> MaxAccountNum \<longrightarrow>
      (\<exists>i. unat i = 2 ^ 31 + unat acct \<and> deriveAccountKey E k acct = hd_DeriveNonStandard E k i))
   \<and> (MaxAccountNum < acct \<longrightarrow> deriveAccountKey E k acct = Err (managerError ErrAccountNumTooHigh None))
   \<and> deriveAccountKey E k ImportedAddrAccount = Err (managerError ErrAccountNumTooHigh None)
   \<and> (maxCoinType < Coin scope \<longrightarrow> deriveCoinTypeKey E k scope = Err (managerError ErrCoinTypeTooHigh None))
   \<and> (Coin scope \<le> maxCoinType \<longrightarrow>
      (\<exists>i j. unat i = (if unat (Purpose scope) < 2 ^ 31 then 2 ^ 31 + unat (Purpose scope)
                     else unat (Purpose scope) - 2 ^ 31)
         \<and> unat j = 2 ^ 31 + unat (Coin scope)
         \<and> deriveCoinTypeKey E k scope
             = rbind (hd_DeriveNonStandard E k i) (\<lambda>purpose. hd_DeriveNonStandard E purpose j)))"
proof -
  have hard: "unat (x + HardenedKeyStart) = 2 ^ 31 + unat x" if "x \<le> 0x7FFFFFFF" for x :: u32
  proof -
    have "unat x \<le> 0x7FFFFFFF" using that by (simp add: word_le_nat_alt)
    then show ?thesis by (simp add: unat_plus_if' key_limits)
  qed
  have purpose: "unat (x + HardenedKeyStart) = (if unat x < 2 ^ 31 then 2 ^ 31 + unat x else unat x - 2 ^ 31)" for x :: u32
    by (simp add: unat_plus_if' key_limits)
  have acct: "unat (acct + HardenedKeyStart) = 2 ^ 31 + unat acct" if "acct \<le> MaxAccountNum"
    using that by (intro hard) (auto simp: key_limits intro: order_trans)
  have coin: "unat (Coin scope + HardenedKeyStart) = 2 ^ 31 + unat (Coin scope)" if "Coin scope \<le> maxCoinType"
    using that by (intro hard) (simp add: key_limits)
  show ?thesis
  proof (intro conjI impI)
    show "\<exists>i. unat i = 2 ^ 31 + unat acct \<and> deriveAccountKey E k acct = hd_DeriveNonStandard E k i" if "acct \<le> MaxAccountNum"
      using acct [OF that] that by (intro exI [of _ "acct + HardenedKeyStart"]) (auto simp: deriveAccountKey_def dest: leD)
    show "\<exists>i j. unat i = (if unat (Purpose scope) < 2 ^ 31 then 2 ^ 31 + unat (Purpose scope)
                     else unat (Purpose scope) - 2 ^ 31)
         \<and> unat j = 2 ^ 31 + unat (Coin scope)
         \<and> deriveCoinTypeKey E k scope
             = rbind (hd_DeriveNonStandard E k i) (\<lambda>purpose. hd_DeriveNonStandard E purpose j)"
      if "Coin scope \<le> maxCoinType"
      using purpose [of "Purpose scope"] coin [OF that] that
      by (intro exI [of _ "Purpose scope + HardenedKeyStart"] exI [of _ "Coin scope + HardenedKeyStart"])
        (auto simp: deriveCoinTypeKey_def dest: leD)
  qed (auto simp: deriveAccountKey_def deriveCoinTypeKey_def key_limits)
qed

definition example_hd :: "(nat, nat, nat, nat, nat, mem) env" where
  "example_hd =
     \<lparr>hd_DeriveNonStandard = (\<lambda>k i. Ok (k + unat i)), hd_Neuter = Ok,
      hd_String = (\<lambda>k. [word_of_nat k]),
      hd_NewKeyFromString = (\<lambda>b. case b of [x] \<Rightarrow> Ok (unat x) | _ \<Rightarrow> Err (HdError ErrInvalidSeedLen)),
      hd_IsPrivate = (\<lambda>k. True), hd_ChildIndex = (\<lambda>k. 0), hd_SetNet = (\<lambda>k net. case net of None \<Rightarrow> Panic | Some _ \<Rightarrow> Ok k),
      hd_ECPrivKey = Ok, hd_ECPubKey = Ok, ec_Serialize = (\<lambda>k. [word_of_nat k]), ec_PrivKeyFromBytes = (\<lambda>b. unat (hd b)),
      ec_PubKey = id, ec_IsEqual = (=), ec_SerializeCompressed = (\<lambda>k. [word_of_nat k]),
      ec_SerializeUncompressed = (\<lambda>k. [word_of_nat k]), ec_ParsePubKey = (\<lambda>b. Ok (unat (hd b))),
      schnorr_SerializePubKey = (\<lambda>k. [word_of_nat k]), schnorr_ParsePubKey = (\<lambda>b. Ok (unat (hd b))),
      ecdsa_Sign = (\<lambda>k m. m), schnorr_Sign = (\<lambda>k m. Ok m), ecdsa_Verify = (\<lambda>sig m k. sig = m),
      schnorr_Verify = (\<lambda>sig m k. sig = m), btcutil_Hash160 = id,
      btcutil_NewWIF = (\<lambda>k net c. case net of None \<Rightarrow> Panic | Some _ \<Rightarrow> Ok []),
      NewAddressPubKeyHash = (\<lambda>b net. Ok (length b)), NewAddressWitnessPubKeyHash = (\<lambda>b net. Ok (length b)),
      NewAddressScriptHash = (\<lambda>b net. Ok (length b)), NewAddressScriptHashFromHash = (\<lambda>b net. Ok (length b)),
      NewAddressWitnessScriptHash = (\<lambda>b net. Ok (length b)), NewAddressTaproot = (\<lambda>b net. Ok (length b)),
      PayToAddrScript = (\<lambda>a. Ok []), ComputeTaprootKeyNoScript = id, addr_Hash160 = (\<lambda>a. [word_of_nat a]),
      addr_WitnessProgram = (\<lambda>a. [word_of_nat a]), addr_ScriptAddress = (\<lambda>a. []), addr_String = (\<lambda>a. []),
      env_crypto = ref_crypto, env_bolt = memB\<rparr>"

theorem keys_derivation_bounds_witness:
  "(\<exists>i. unat i = 2 ^ 31 + 5 \<and> deriveAccountKey example_hd 1 5 = hd_DeriveNonStandard example_hd 1 i)
   \<and> (\<exists>i j. unat i = 2 ^ 31 + 84 \<and> unat j = 2 ^ 31
       \<and> deriveCoinTypeKey example_hd 1 KeyScopeBIP0084
           = rbind (hd_DeriveNonStandard example_hd 1 i) (\<lambda>purpose. hd_DeriveNonStandard example_hd purpose j))"
proof -
  have "(5 :: u32) \<le> MaxAccountNum" "Coin KeyScopeBIP0084 \<le> maxCoinType" "unat (Coin KeyScopeBIP0084) = 0"
      "unat (Purpose KeyScopeBIP0084) = 84"
    by (simp_all add: key_limits KeyScopeBIP0084_def)
  with keys_derivation_bounds [of 5 example_hd 1 KeyScopeBIP0084] show ?thesis by simp
qed

end
