(* ===== verification/Addresses.thy ===== *)
theory Addresses
  imports Keys
begin

text \<open>
  The managed addresses: \<^verbatim>\<open>waddrmgr/address.go\<close>, \<^verbatim>\<open>address_managed.go\<close>, \<^verbatim>\<open>address_script.go\<close>
  and \<^verbatim>\<open>address_witness.go\<close>. The methods of the interface \<^verbatim>\<open>ManagedAddress\<close> are functions on
  the datatype of its implementations; the methods that write (\<^verbatim>\<open>lock\<close>, \<^verbatim>\<open>unlock\<close>) take a
  reference into the heap.
\<close>

section \<open>The heap\<close>

definition load :: "addr_ref \<Rightarrow> (('k, 'pk, 'a, 'n, 's) world, ('pk, 'a) ManagedAddress) go" where
  "load r = bnd (reads heap) (\<lambda>h. lift (index h r))"

definition store :: "addr_ref \<Rightarrow> ('pk, 'a) ManagedAddress \<Rightarrow> (('k, 'pk, 'a, 'n, 's) world, unit) go" where
  "store r a = modify (\<lambda>w. w\<lparr>heap := (heap w)[r := a]\<rparr>)"

definition alloc :: "('pk, 'a) ManagedAddress \<Rightarrow> (('k, 'pk, 'a, 'n, 's) world, addr_ref) go" where
  "alloc a = bnd (reads (\<lambda>w. length (heap w))) (\<lambda>r.
     bnd (modify (\<lambda>w. w\<lparr>heap := heap w @ [a]\<rparr>)) (\<lambda>_. ret r))"

section \<open>Methods of the interface\<close>

definition base_of :: "('pk, 'a) ManagedAddress \<Rightarrow> baseScriptAddress option" where
  "base_of m = (case m of
      PubKeyAddr a \<Rightarrow> None
    | ScriptAddr a \<Rightarrow> Some (sa_base a)
    | WitnessAddr a \<Rightarrow> Some (wa_base a)
    | TaprootAddr a \<Rightarrow> Some (wa_base (ta_witness a)))"

definition InternalAccount :: "('pk, 'a) ManagedAddress \<Rightarrow> u32" where
  "InternalAccount m = (case m of
      PubKeyAddr a \<Rightarrow> dp_InternalAccount (ma_derivationPath a)
    | ScriptAddr a \<Rightarrow> bs_account (sa_base a)
    | WitnessAddr a \<Rightarrow> bs_account (wa_base a)
    | TaprootAddr a \<Rightarrow> bs_account (wa_base (ta_witness a)))"

definition Address :: "('pk, 'a) ManagedAddress \<Rightarrow> 'a btcAddress option" where
  "Address m = (case m of
      PubKeyAddr a \<Rightarrow> ma_address a
    | ScriptAddr a \<Rightarrow> Some (AddressScriptHash (sa_address a))
    | WitnessAddr a \<Rightarrow> Some (wa_address a)
    | TaprootAddr a \<Rightarrow> Some (wa_address (ta_witness a)))"

definition managedAddress_AddrHash ::
  "('k, 'sk, 'pk, 'a, 'n, 's) env \<Rightarrow> ('pk, 'a) managedAddress \<Rightarrow> bytes" where
  "managedAddress_AddrHash E a = (case ma_address a of
      Some (AddressPubKeyHash n) \<Rightarrow> addr_Hash160 E n
    | Some (AddressScriptHash n) \<Rightarrow> addr_Hash160 E n
    | Some (AddressWitnessPubKeyHash n) \<Rightarrow> addr_Hash160 E n
    | Some (AddressTaproot n) \<Rightarrow> addr_WitnessProgram E n
    | _ \<Rightarrow> [])"

definition AddrHash :: "('k, 'sk, 'pk, 'a, 'n, 's) env \<Rightarrow> ('pk, 'a) ManagedAddress \<Rightarrow> bytes" where
  "AddrHash E m = (case m of
      PubKeyAddr a \<Rightarrow> managedAddress_AddrHash E a
    | ScriptAddr a \<Rightarrow> addr_Hash160 E (sa_address a)
    | WitnessAddr a \<Rightarrow> addr_ScriptAddress E (wa_address a)
    | TaprootAddr a \<Rightarrow> schnorr_SerializePubKey E (ta_TweakedPubKey a))"

definition Imported :: "('pk, 'a) ManagedAddress \<Rightarrow> bool" where
  "Imported m = (case m of PubKeyAddr a \<Rightarrow> ma_imported a | _ \<Rightarrow> True)"

definition Internal :: "('pk, 'a) ManagedAddress \<Rightarrow> bool" where
  "Internal m = (case m of PubKeyAddr a \<Rightarrow> ma_internal a | _ \<Rightarrow> False)"

definition Compressed :: "('pk, 'a) ManagedAddress \<Rightarrow> bool" where
  "Compressed m = (case m of
      PubKeyAddr a \<Rightarrow> ma_compressed a
    | ScriptAddr a \<Rightarrow> False
    | WitnessAddr a \<Rightarrow> True
    | TaprootAddr a \<Rightarrow> True)"

definition AddrType :: "('pk, 'a) ManagedAddress \<Rightarrow> AddressType" where
  "AddrType m = (case m of
      PubKeyAddr a \<Rightarrow> ma_addrType a
    | ScriptAddr a \<Rightarrow> Script
    | WitnessAddr a \<Rightarrow> WitnessScript
    | TaprootAddr a \<Rightarrow> TaprootScript)"

definition manager_of :: "('pk, 'a) ManagedAddress \<Rightarrow> KeyScope" where
  "manager_of m = (case m of
      PubKeyAddr a \<Rightarrow> ma_manager a
    | ScriptAddr a \<Rightarrow> bs_manager (sa_base a)
    | WitnessAddr a \<Rightarrow> bs_manager (wa_base a)
    | TaprootAddr a \<Rightarrow> bs_manager (wa_base (ta_witness a)))"

text \<open>
  \<^verbatim>\<open>Used\<close> looks up the hash of the address; a taproot script address inherits the method of the
  embedded witness address, and with it its \<^verbatim>\<open>AddrHash\<close>.
\<close>

definition Used ::
  "('k, 'sk, 'pk, 'a, 'n, 's) env \<Rightarrow> bkt \<Rightarrow> ('pk, 'a) ManagedAddress \<Rightarrow> (('s, 'z) base_scheme, bool) go" where
  "Used E ns m =
     fetchAddressUsed (env_crypto E) (dbw E) ns (manager_of m)
       (case m of TaprootAddr a \<Rightarrow> AddrHash E (WitnessAddr (ta_witness a) :: ('pk, 'a) ManagedAddress)
        | _ \<Rightarrow> AddrHash E m)"

section \<open>Public key addresses\<close>

definition pubKeyBytes :: "('k, 'sk, 'pk, 'a, 'n, 's) env \<Rightarrow> ('pk, 'a) managedAddress \<Rightarrow> bytes" where
  "pubKeyBytes E a =
     (if ma_addrType a = TaprootPubKey then schnorr_SerializePubKey E (ma_pubKey a)
      else if ma_compressed a then ec_SerializeCompressed E (ma_pubKey a)
      else ec_SerializeUncompressed E (ma_pubKey a))"

text \<open>\<^verbatim>\<open>hex.EncodeToString\<close>.\<close>

definition hex_digit :: "byte \<Rightarrow> byte" where
  "hex_digit n = (if n < 10 then 48 + n else 87 + n)"

definition hex_EncodeToString :: "bytes \<Rightarrow> gostring" where
  "hex_EncodeToString b = concat (map (\<lambda>x. [hex_digit (drop_bit 4 x), hex_digit (take_bit 4 x)]) b)"

definition ExportPubKey :: "('k, 'sk, 'pk, 'a, 'n, 's) env \<Rightarrow> ('pk, 'a) managedAddress \<Rightarrow> gostring" where
  "ExportPubKey E a = hex_EncodeToString (pubKeyBytes E a)"

definition DerivationInfo :: "('pk, 'a) managedAddress \<Rightarrow> (KeyScope \<times> DerivationPath) option" where
  "DerivationInfo a = (if ma_imported a then None else Some (ma_manager a, ma_derivationPath a))"

text \<open>A type without a case leaves the address nil.\<close>

definition newManagedAddressWithoutPrivKey ::
  "('k, 'sk, 'pk, 'a, 'n, 's) env \<Rightarrow> 'n option \<Rightarrow> KeyScope \<Rightarrow> DerivationPath \<Rightarrow> 'pk \<Rightarrow> bool \<Rightarrow> AddressType
   \<Rightarrow> ('pk, 'a) managedAddress result" where
  "newManagedAddressWithoutPrivKey E net m derivationPath pubKey compressed atype =
     (let pubKeyHash = btcutil_Hash160 E
            (if compressed then ec_SerializeCompressed E pubKey else ec_SerializeUncompressed E pubKey)
      in
      rbind
        (if atype = NestedWitnessPubKey then
           rbind (NewAddressWitnessPubKeyHash E pubKeyHash net) (\<lambda>witAddr.
           rbind (PayToAddrScript E (AddressWitnessPubKeyHash witAddr)) (\<lambda>witnessProgram.
           rbind (NewAddressScriptHash E witnessProgram net) (\<lambda>a. Ok (Some (AddressScriptHash a)))))
         else if atype = PubKeyHash then
           rbind (NewAddressPubKeyHash E pubKeyHash net) (\<lambda>a. Ok (Some (AddressPubKeyHash a)))
         else if atype = WitnessPubKey then
           rbind (NewAddressWitnessPubKeyHash E pubKeyHash net) (\<lambda>a. Ok (Some (AddressWitnessPubKeyHash a)))
         else if atype = TaprootPubKey then
           rbind (NewAddressTaproot E (schnorr_SerializePubKey E (ComputeTaprootKeyNoScript E pubKey)) net)
             (\<lambda>a. Ok (Some (AddressTaproot a)))
         else Ok None) (\<lambda>address.
      Ok \<lparr>ma_manager = m, ma_derivationPath = derivationPath, ma_address = address, ma_imported = False,
          ma_internal = False, ma_compressed = compressed, ma_addrType = atype, ma_pubKey = pubKey,
          ma_privKeyEncrypted = [], ma_privKeyCT = []\<rparr>))"

text \<open>\<^verbatim>\<open>String()\<close> on a nil address panics.\<close>

definition address_String :: "('k, 'sk, 'pk, 'a, 'n, 's) env \<Rightarrow> 'a btcAddress option \<Rightarrow> gostring result" where
  "address_String E addr = (case addr of None \<Rightarrow> Panic | Some a \<Rightarrow> Ok (addr_String E a))"

definition Validate ::
  "('k, 'sk, 'pk, 'a, 'n, 's) env \<Rightarrow> 'n option \<Rightarrow> ('pk, 'a) managedAddress \<Rightarrow> bytes \<Rightarrow> 'sk \<Rightarrow> unit result" where
  "Validate E net a msg priv =
     (let basePubKey = ec_PubKey E priv in
      if \<not> ec_IsEqual E (ma_pubKey a) basePubKey then Err (Wrapped [] (AddrError ErrPubKeyMismatch))
      else
        rbind (map_err (\<lambda>err. Errorf ''unable to re-create addr'')
          (newManagedAddressWithoutPrivKey E net (ma_manager a) (ma_derivationPath a) (ma_pubKey a)
             (ma_compressed a) (ma_addrType a))) (\<lambda>addr.
        rbind (address_String E (ma_address addr)) (\<lambda>new.
        rbind (address_String E (ma_address a)) (\<lambda>old.
        if new \<noteq> old then Err (Wrapped [] (AddrError ErrAddrMismatch))
        else
          let addrPrivKey = ec_PrivKeyFromBytes E (ma_privKeyCT a) in
          rbind
            (if ma_addrType a = NestedWitnessPubKey \<or> ma_addrType a = PubKeyHash
                \<or> ma_addrType a = WitnessPubKey
             then Ok (ecdsa_Verify E (ecdsa_Sign E addrPrivKey msg) msg basePubKey)
             else if ma_addrType a = TaprootPubKey
             then rbind (map_err (Wrapped []) (schnorr_Sign E addrPrivKey msg)) (\<lambda>sig.
                  Ok (schnorr_Verify E sig msg basePubKey))
             else Err (Errorf ''unable to validate addr, unknown type'')) (\<lambda>verified.
          if \<not> verified then Err (AddrError ErrInvalidSignature) else Ok ())))))"

definition newManagedAddress ::
  "('k, 'sk, 'pk, 'a, 'n, 's) env \<Rightarrow> KeyScope \<Rightarrow> DerivationPath \<Rightarrow> 'sk \<Rightarrow> bool \<Rightarrow> AddressType
   \<Rightarrow> 'k accountInfo option \<Rightarrow> (('k, 'pk, 'a, 'n, 's) world, ('pk, 'a) managedAddress) go" where
  "newManagedAddress E s derivationPath privKey compressed atype acctInfo =
     bnd (reads mgr) (\<lambda>root.
     let net = chainParams root; privKeyBytes = ec_Serialize E privKey in
     bnd (as_error ErrCrypto (encrypt E (cryptoKeyPriv root) privKeyBytes)) (\<lambda>privKeyEncrypted.
     bnd (lift (newManagedAddressWithoutPrivKey E net s derivationPath (ec_PubKey E privKey) True atype)) (\<lambda>a0.
     let a = a0\<lparr>ma_privKeyEncrypted := privKeyEncrypted, ma_privKeyCT := privKeyBytes\<rparr> in
     bnd (wrap_err (Wrapped []) (random (read_random 32))) (\<lambda>msg.
     bnd (wrap_err (Wrapped []) (lift (Validate E net a msg privKey))) (\<lambda>_.
     case acctInfo of
       None \<Rightarrow> ret a
     | Some ai \<Rightarrow>
         if ai_acctKeyPriv ai = None then ret a
         else
           bnd (wrap_err (Wrapped []) (lift (deriveKey E ai (dp_Branch derivationPath)
                  (dp_Index derivationPath) True))) (\<lambda>rederivedKey.
           bnd (wrap_err (Wrapped []) (lift (hd_ECPrivKey E rederivedKey))) (\<lambda>freshPrivKey.
           bnd (wrap_err (Wrapped []) (lift (Validate E net a msg freshPrivKey))) (\<lambda>_.
           ret a))))))))"

definition newManagedAddressFromExtKey ::
  "('k, 'sk, 'pk, 'a, 'n, 's) env \<Rightarrow> KeyScope \<Rightarrow> DerivationPath \<Rightarrow> 'k \<Rightarrow> AddressType
   \<Rightarrow> 'k accountInfo option \<Rightarrow> (('k, 'pk, 'a, 'n, 's) world, ('pk, 'a) managedAddress) go" where
  "newManagedAddressFromExtKey E s derivationPath key atype acctInfo =
     (if hd_IsPrivate E key then
        bnd (lift (hd_ECPrivKey E key)) (\<lambda>privKey.
        newManagedAddress E s derivationPath privKey True atype acctInfo)
      else
        bnd (lift (hd_ECPubKey E key)) (\<lambda>pubKey.
        bnd (reads (\<lambda>w. chainParams (mgr w))) (\<lambda>net.
        lift (newManagedAddressWithoutPrivKey E net s derivationPath pubKey True atype))))"

section \<open>Locking and unlocking\<close>

text \<open>A type switch that does not match the pointer's type cannot happen; it is a panic here.\<close>

definition load_pub :: "addr_ref \<Rightarrow> (('k, 'pk, 'a, 'n, 's) world, ('pk, 'a) managedAddress) go" where
  "load_pub r = bnd (load r) (\<lambda>m. case m of PubKeyAddr a \<Rightarrow> ret a | _ \<Rightarrow> panic)"

definition managedAddress_unlock ::
  "('k, 'sk, 'pk, 'a, 'n, 's) env \<Rightarrow> addr_ref \<Rightarrow> bytes \<Rightarrow> (('k, 'pk, 'a, 'n, 's) world, bytes) go" where
  "managedAddress_unlock E r key =
     bnd (load_pub r) (\<lambda>a.
     if length (ma_privKeyEncrypted a) = 0 then raise (managerError ErrWatchingOnly None)
     else
       bnd (if length (ma_privKeyCT a) = 0
            then bnd (as_error ErrCrypto (lift (decrypt E key (ma_privKeyEncrypted a)))) (\<lambda>privKey.
                 bnd (store r (PubKeyAddr (a\<lparr>ma_privKeyCT := privKey\<rparr>))) (\<lambda>_. ret privKey))
            else ret (ma_privKeyCT a)) (\<lambda>ct.
       ret (copy_bytes (make_bytes (length ct)) ct)))"

definition managedAddress_lock :: "('pk, 'a) managedAddress \<Rightarrow> ('pk, 'a) managedAddress" where
  "managedAddress_lock a = a\<lparr>ma_privKeyCT := []\<rparr>"

definition baseScript_lock :: "baseScriptAddress \<Rightarrow> baseScriptAddress" where
  "baseScript_lock b = b\<lparr>bs_scriptClearText := []\<rparr>"

text \<open>\<^verbatim>\<open>unlock\<close> decrypts the clear text, which is empty then, instead of the stored script.\<close>

definition baseScript_unlock ::
  "('k, 'sk, 'pk, 'a, 'n, 's) env \<Rightarrow> bytes \<Rightarrow> baseScriptAddress \<Rightarrow> (bytes \<times> baseScriptAddress) result" where
  "baseScript_unlock E key b =
     rbind (if length (bs_scriptClearText b) = 0
            then rbind (map_err (\<lambda>err. managerError ErrCrypto (Some err))
                   (decrypt E key (bs_scriptClearText b))) (\<lambda>script.
                 Ok (b\<lparr>bs_scriptClearText := script\<rparr>))
            else Ok b) (\<lambda>b.
     Ok (copy_bytes (make_bytes (length (bs_scriptClearText b))) (bs_scriptClearText b), b))"

definition PrivKey ::
  "('k, 'sk, 'pk, 'a, 'n, 's) env \<Rightarrow> addr_ref \<Rightarrow> (('k, 'pk, 'a, 'n, 's) world, 'sk) go" where
  "PrivKey E r =
     bnd (reads mgr) (\<lambda>root.
     if watchingOnly root then raise (managerError ErrWatchingOnly None)
     else if locked root then raise (managerError ErrLocked None)
     else
       bnd (managedAddress_unlock E r (cryptoKeyPriv root)) (\<lambda>privKeyCopy.
       ret (ec_PrivKeyFromBytes E privKeyCopy)))"

definition ExportPrivKey ::
  "('k, 'sk, 'pk, 'a, 'n, 's) env \<Rightarrow> addr_ref \<Rightarrow> (('k, 'pk, 'a, 'n, 's) world, bytes) go" where
  "ExportPrivKey E r =
     bnd (PrivKey E r) (\<lambda>pk.
     bnd (load_pub r) (\<lambda>a.
     bnd (reads (\<lambda>w. chainParams (mgr w))) (\<lambda>net.
     lift (btcutil_NewWIF E pk net (ma_compressed a)))))"

definition set_base :: "baseScriptAddress \<Rightarrow> ('pk, 'a) ManagedAddress \<Rightarrow> ('pk, 'a) ManagedAddress" where
  "set_base b m = (case m of
      PubKeyAddr a \<Rightarrow> PubKeyAddr a
    | ScriptAddr a \<Rightarrow> ScriptAddr (a\<lparr>sa_base := b\<rparr>)
    | WitnessAddr a \<Rightarrow> WitnessAddr (a\<lparr>wa_base := b\<rparr>)
    | TaprootAddr a \<Rightarrow> TaprootAddr (a\<lparr>ta_witness := (ta_witness a)\<lparr>wa_base := b\<rparr>\<rparr>))"

definition script_unlock ::
  "('k, 'sk, 'pk, 'a, 'n, 's) env \<Rightarrow> addr_ref \<Rightarrow> bytes \<Rightarrow> (('k, 'pk, 'a, 'n, 's) world, bytes) go" where
  "script_unlock E r key =
     bnd (load r) (\<lambda>m.
     bnd (deref (base_of m)) (\<lambda>b.
     bnd (lift (baseScript_unlock E key b)) (\<lambda>(script, b').
     bnd (store r (set_base b' m)) (\<lambda>_. ret script))))"

definition scriptAddress_Script ::
  "('k, 'sk, 'pk, 'a, 'n, 's) env \<Rightarrow> addr_ref \<Rightarrow> (('k, 'pk, 'a, 'n, 's) world, bytes) go" where
  "scriptAddress_Script E r =
     bnd (reads mgr) (\<lambda>root.
     if watchingOnly root then raise (managerError ErrWatchingOnly None)
     else if locked root then raise (managerError ErrLocked None)
     else script_unlock E r (cryptoKeyScript root))"

definition witness_of :: "('pk, 'a) ManagedAddress \<Rightarrow> 'a witnessScriptAddress option" where
  "witness_of m = (case m of
      WitnessAddr a \<Rightarrow> Some a | TaprootAddr a \<Rightarrow> Some (ta_witness a) | _ \<Rightarrow> None)"

definition witnessScriptAddress_Script ::
  "('k, 'sk, 'pk, 'a, 'n, 's) env \<Rightarrow> addr_ref \<Rightarrow> (('k, 'pk, 'a, 'n, 's) world, bytes) go" where
  "witnessScriptAddress_Script E r =
     bnd (load r) (\<lambda>m.
     bnd (deref (witness_of m)) (\<lambda>a.
     bnd (reads mgr) (\<lambda>root.
     if wa_isSecretScript a \<and> watchingOnly root then raise (managerError ErrWatchingOnly None)
     else if wa_isSecretScript a \<and> locked root then raise (managerError ErrLocked None)
     else script_unlock E r (if wa_isSecretScript a then cryptoKeyScript root else cryptoKeyPub root))))"

text \<open>\<^verbatim>\<open>waddrmgr/tlv.go\<close> and the method that calls it.\<close>

definition tlvDecodeTaprootTaprootScript :: "bytes \<Rightarrow> unit result" where
  "tlvDecodeTaprootTaprootScript tlvData = Err (Errorf ''tlvDecodeTaprootTaprootScript(...) has not be implemented'')"

definition TaprootScript_method ::
  "('k, 'sk, 'pk, 'a, 'n, 's) env \<Rightarrow> addr_ref \<Rightarrow> (('k, 'pk, 'a, 'n, 's) world, unit) go" where
  "TaprootScript_method E r =
     bnd (witnessScriptAddress_Script E r) (\<lambda>script.
     lift (tlvDecodeTaprootTaprootScript script))"

section \<open>Script addresses from their rows\<close>

definition new_base :: "KeyScope \<Rightarrow> u32 \<Rightarrow> bytes \<Rightarrow> baseScriptAddress" where
  "new_base m acct scriptEncrypted =
     \<lparr>bs_manager = m, bs_account = acct, bs_scriptEncrypted = scriptEncrypted, bs_scriptClearText = []\<rparr>"

definition newScriptAddress ::
  "('k, 'sk, 'pk, 'a, 'n, 's) env \<Rightarrow> 'n option \<Rightarrow> KeyScope \<Rightarrow> u32 \<Rightarrow> bytes \<Rightarrow> bytes
   \<Rightarrow> ('pk, 'a) ManagedAddress result" where
  "newScriptAddress E net m acct scriptHash scriptEncrypted =
     rbind (NewAddressScriptHashFromHash E scriptHash net) (\<lambda>address.
     Ok (ScriptAddr \<lparr>sa_base = new_base m acct scriptEncrypted, sa_address = address\<rparr>))"

definition newWitnessScriptAddress ::
  "('k, 'sk, 'pk, 'a, 'n, 's) env \<Rightarrow> 'n option \<Rightarrow> KeyScope \<Rightarrow> u32 \<Rightarrow> bytes \<Rightarrow> bytes \<Rightarrow> byte \<Rightarrow> bool
   \<Rightarrow> ('pk, 'a) ManagedAddress result" where
  "newWitnessScriptAddress E net m acct scriptIdent scriptEncrypted witnessVersion isSecretScript =
     (if witnessVersion = 0 then
        rbind (NewAddressWitnessScriptHash E scriptIdent net) (\<lambda>address.
        Ok (WitnessAddr \<lparr>wa_base = new_base m acct scriptEncrypted,
              wa_address = AddressWitnessScriptHash address, wa_witnessVersion = witnessVersion,
              wa_isSecretScript = isSecretScript\<rparr>))
      else if witnessVersion = 1 then
        rbind (NewAddressTaproot E scriptIdent net) (\<lambda>address.
        rbind (map_err (Wrapped []) (schnorr_ParsePubKey E scriptIdent)) (\<lambda>tweakedPubKey.
        Ok (TaprootAddr \<lparr>ta_witness = \<lparr>wa_base = new_base m acct scriptEncrypted,
              wa_address = AddressTaproot address, wa_witnessVersion = witnessVersion,
              wa_isSecretScript = isSecretScript\<rparr>, ta_TweakedPubKey = tweakedPubKey\<rparr>)))
      else Err (Errorf ''unsupported witness version''))"

section \<open>The heap of addresses\<close>

lemma load_simps [go_simps]:
  "load r w = (if r < length (heap w) then Ok (heap w ! r) else Panic, w)"
  by (simp add: load_def bnd_def reads_def lift_def index_def)

lemma store_simps [go_simps]: "store r a w = (Ok (), w\<lparr>heap := (heap w)[r := a]\<rparr>)"
  by (simp add: store_def go_simps)

lemma alloc_simps [go_simps]:
  "alloc a w = (Ok (length (heap w)), w\<lparr>heap := heap w @ [a]\<rparr>)"
  by (simp add: alloc_def bnd_def go_simps)

lemma load_pub_simps:
  "r < length (heap w) \<Longrightarrow> heap w ! r = PubKeyAddr a \<Longrightarrow> load_pub r w = (Ok a, w)"
  by (simp add: load_pub_def bnd_def go_simps)

section \<open>Secrets that can be locked\<close>

text \<open>
  The interface \<^verbatim>\<open>lock()\<close>: the clear text is dropped, the encrypted form stays. \<open>covered\<close> says
  for which values the implementation keeps the promise.
\<close>

locale lockable =
  fixes lock :: "'x \<Rightarrow> 'x" and clear :: "'x \<Rightarrow> bytes" and sealed :: "'x \<Rightarrow> bytes"
    and covered :: "'x \<Rightarrow> bool"
  assumes lock_clears: "covered x \<Longrightarrow> clear (lock x) = []"
    and lock_keeps: "sealed (lock x) = sealed x"
    and lock_covers: "covered (lock x) = covered x"
    and lock_idem: "lock (lock x) = lock x"
begin

lemma lock_refs:
  "length (fold (\<lambda>r h. if r < length h then h[r := lock (h ! r)] else h) rs h) = length h
   \<and> (\<forall>i < length h. fold (\<lambda>r h. if r < length h then h[r := lock (h ! r)] else h) rs h ! i
        = (if i \<in> set rs then lock (h ! i) else h ! i))"
proof (induction rs arbitrary: h)
  case (Cons r rs)
  show ?case
    using Cons [of "if r < length h then h[r := lock (h ! r)] else h"]
    by (auto simp: nth_list_update lock_idem)
qed simp

lemma lock_refs_clear:
  assumes "i < length h" and "i \<in> set rs" and "covered (h ! i)"
  shows "clear (fold (\<lambda>r h. if r < length h then h[r := lock (h ! r)] else h) rs h ! i) = []"
  using assms lock_refs [of rs h] by (simp add: lock_clears)

end

interpretation pub_lock: lockable managedAddress_lock ma_privKeyCT ma_privKeyEncrypted "\<lambda>_. True"
  by unfold_locales (simp_all add: managedAddress_lock_def)

interpretation script_lock: lockable baseScript_lock bs_scriptClearText bs_scriptEncrypted "\<lambda>_. True"
  by unfold_locales (simp_all add: baseScript_lock_def)

section \<open>Building an address\<close>

lemma random_eq_Ok:
  "random m w = (Ok x, w') \<longleftrightarrow> (\<exists>r'. m (rng w) = (Ok x, r') \<and> w' = w\<lparr>rng := r'\<rparr>)"
  by (auto simp: random_def zoom_def split: prod.splits)

lemma as_error_eq_Ok [simp]: "as_error c m w = (Ok x, w') \<longleftrightarrow> m w = (Ok x, w')"
  by (auto simp: as_error_def wrap_err_def split: prod.splits)

lemma wrap_err_eq_Ok [simp]: "wrap_err h m w = (Ok x, w') \<longleftrightarrow> m w = (Ok x, w')"
  by (auto simp: wrap_err_def split: prod.splits)

lemma lift_eq_Ok [simp]: "lift r w = (Ok x, w') \<longleftrightarrow> r = Ok x \<and> w' = w"
  by (auto simp: lift_def)

lemma newManagedAddressWithoutPrivKey_Ok:
  assumes "newManagedAddressWithoutPrivKey E net m path pk compressed atype = Ok a"
  shows "ma_pubKey a = pk" "ma_addrType a = atype" "ma_manager a = m" "ma_derivationPath a = path"
    "ma_compressed a = compressed" "ma_imported a = False" "ma_internal a = False"
    "ma_privKeyEncrypted a = []" "ma_privKeyCT a = []"
  using assms by (auto simp: newManagedAddressWithoutPrivKey_def Let_def rbind_eq_Ok)

text \<open>What a successful \<^verbatim>\<open>Validate\<close> has checked.\<close>

definition signs_for ::
  "('k, 'sk, 'pk, 'a, 'n, 's) env \<Rightarrow> ('pk, 'a) managedAddress \<Rightarrow> bytes \<Rightarrow> 'sk \<Rightarrow> bool" where
  "signs_for E a msg priv \<longleftrightarrow>
     ec_IsEqual E (ma_pubKey a) (ec_PubKey E priv)
     \<and> (if ma_addrType a = TaprootPubKey
        then (\<exists>sig. schnorr_Sign E (ec_PrivKeyFromBytes E (ma_privKeyCT a)) msg = Ok sig
                \<and> schnorr_Verify E sig msg (ec_PubKey E priv))
        else ma_addrType a \<in> {NestedWitnessPubKey, PubKeyHash, WitnessPubKey}
           \<and> ecdsa_Verify E (ecdsa_Sign E (ec_PrivKeyFromBytes E (ma_privKeyCT a)) msg) msg (ec_PubKey E priv))"

lemma Validate_Ok:
  assumes "Validate E net a msg priv = Ok ()"
  shows "signs_for E a msg priv" "\<exists>addr. ma_address a = Some addr"
  using assms
  by (auto simp: Validate_def signs_for_def Let_def rbind_eq_Ok address_String_def AddressType_defs
      split: if_splits option.splits)

lemma newManagedAddress_cases:
  assumes "newManagedAddress E s path priv compressed atype acctInfo w = (Ok a, w')"
  obtains enc a0 where "length (rng w) \<ge> 56"
    "CryptoKey_Encrypt (env_crypto E) (cryptoKeyPriv (mgr w)) (ec_Serialize E priv) (rng w)
       = (Ok enc, drop 24 (rng w))"
    "newManagedAddressWithoutPrivKey E (chainParams (mgr w)) s path (ec_PubKey E priv) True atype = Ok a0"
    "a = a0\<lparr>ma_privKeyEncrypted := enc, ma_privKeyCT := ec_Serialize E priv\<rparr>"
    "w' = w\<lparr>rng := drop 56 (rng w)\<rparr>"
    "Validate E (chainParams (mgr w)) a (take 32 (drop 24 (rng w))) priv = Ok ()"
    "\<And>ai. acctInfo = Some ai \<Longrightarrow> ai_acctKeyPriv ai \<noteq> None \<Longrightarrow>
       \<exists>k fresh. deriveKey E ai (dp_Branch path) (dp_Index path) True = Ok k \<and> hd_ECPrivKey E k = Ok fresh
         \<and> Validate E (chainParams (mgr w)) a (take 32 (drop 24 (rng w))) fresh = Ok ()"
  using assms
  by (auto simp: newManagedAddress_def bnd_eq_Ok Let_def encrypt_def random_eq_Ok reads_def
      read_random_Ok Encrypt_Ok ret_def split: option.splits if_splits intro!: that)

lemma managedAddress_unlock_locked:
  assumes "r < length (heap v)" and "heap v ! r = PubKeyAddr a"
    and "ma_privKeyEncrypted a \<noteq> []" and "ma_privKeyCT a = []"
    and "decrypt E key (ma_privKeyEncrypted a) = Ok ct"
  shows "managedAddress_unlock E r key v
    = (Ok ct, v\<lparr>heap := (heap v)[r := PubKeyAddr (a\<lparr>ma_privKeyCT := ct\<rparr>)]\<rparr>)"
  using assms by (simp add: managedAddress_unlock_def bnd_def load_pub_simps as_error_def wrap_err_def go_simps)

lemma script_unlock_fails:
  assumes "r < length (heap w)" and "base_of (heap w ! r) = Some b" and "bs_scriptClearText b = []"
  shows "script_unlock E r key w = (Err (managerError ErrCrypto (Some (SnaclError ErrMalformed))), w)"
  using assms
  by (simp add: script_unlock_def bnd_def go_simps baseScript_unlock_def decrypt_def CryptoKey_Decrypt_def size_defs)

lemma new_script_base:
  "newScriptAddress E net m acct h enc = Ok a \<Longrightarrow> base_of a = Some (new_base m acct enc)"
  "newWitnessScriptAddress E net m acct h enc ver secret = Ok a \<Longrightarrow> base_of a = Some (new_base m acct enc)
     \<and> (\<exists>x. witness_of a = Some x \<and> wa_isSecretScript x = secret)"
  by (auto simp: newScriptAddress_def newWitnessScriptAddress_def rbind_eq_Ok base_of_def witness_of_def
      split: if_splits)

section \<open>Properties\<close>

text \<open>C25: an address with a private key is only ever handed out checked. When \<^verbatim>\<open>newManagedAddress\<close>
  succeeds, the address belongs to the public key of the given private key, the key bytes it
  stores sign a challenge that verifies against that public key and, when the account's private
  key is known, against the key derived again from the account; its type is one of the four
  public key types. Nothing but the random source changes.\<close>

theorem addresses_new_validated:
  assumes "newManagedAddress E s path priv compressed atype acctInfo w = (Ok a, w')"
  shows "ma_pubKey a = ec_PubKey E priv \<and> ma_privKeyCT a = ec_Serialize E priv
    \<and> ma_addrType a = atype \<and> ma_derivationPath a = path \<and> ma_compressed a \<and> ma_address a \<noteq> None
    \<and> signs_for E a (take 32 (drop 24 (rng w))) priv
    \<and> (\<forall>ai. acctInfo = Some ai \<and> ai_acctKeyPriv ai \<noteq> None \<longrightarrow>
        (\<exists>k fresh. deriveKey E ai (dp_Branch path) (dp_Index path) True = Ok k
           \<and> hd_ECPrivKey E k = Ok fresh \<and> signs_for E a (take 32 (drop 24 (rng w))) fresh))
    \<and> atype \<in> {NestedWitnessPubKey, PubKeyHash, WitnessPubKey, TaprootPubKey}
    \<and> w' = w\<lparr>rng := drop 56 (rng w)\<rparr>"
proof -
  obtain enc a0 where a0: "newManagedAddressWithoutPrivKey E (chainParams (mgr w)) s path (ec_PubKey E priv) True atype = Ok a0"
    and a: "a = a0\<lparr>ma_privKeyEncrypted := enc, ma_privKeyCT := ec_Serialize E priv\<rparr>"
    and w': "w' = w\<lparr>rng := drop 56 (rng w)\<rparr>"
    and v: "Validate E (chainParams (mgr w)) a (take 32 (drop 24 (rng w))) priv = Ok ()"
    and again: "\<And>ai. acctInfo = Some ai \<Longrightarrow> ai_acctKeyPriv ai \<noteq> None \<Longrightarrow>
       \<exists>k fresh. deriveKey E ai (dp_Branch path) (dp_Index path) True = Ok k \<and> hd_ECPrivKey E k = Ok fresh
         \<and> Validate E (chainParams (mgr w)) a (take 32 (drop 24 (rng w))) fresh = Ok ()"
    using newManagedAddress_cases [OF assms] by metis
  note fields = newManagedAddressWithoutPrivKey_Ok [OF a0]
  note checked = Validate_Ok [OF v]
  have "ma_addrType a \<in> {NestedWitnessPubKey, PubKeyHash, WitnessPubKey, TaprootPubKey}"
    using checked(1) by (auto simp: signs_for_def split: if_splits)
  moreover have "\<forall>ai. acctInfo = Some ai \<and> ai_acctKeyPriv ai \<noteq> None \<longrightarrow>
        (\<exists>k fresh. deriveKey E ai (dp_Branch path) (dp_Index path) True = Ok k
           \<and> hd_ECPrivKey E k = Ok fresh \<and> signs_for E a (take 32 (drop 24 (rng w))) fresh)"
  proof (intro allI impI)
    fix ai
    assume "acctInfo = Some ai \<and> ai_acctKeyPriv ai \<noteq> None"
    then obtain k fresh where k: "deriveKey E ai (dp_Branch path) (dp_Index path) True = Ok k" "hd_ECPrivKey E k = Ok fresh"
        and v: "Validate E (chainParams (mgr w)) a (take 32 (drop 24 (rng w))) fresh = Ok ()"
      using again [of ai] by auto
    from k Validate_Ok(1) [OF v] show "\<exists>k fresh. deriveKey E ai (dp_Branch path) (dp_Index path) True = Ok k
        \<and> hd_ECPrivKey E k = Ok fresh \<and> signs_for E a (take 32 (drop 24 (rng w))) fresh"
      by auto
  qed
  moreover have "ma_pubKey a = ec_PubKey E priv" "ma_privKeyCT a = ec_Serialize E priv" "ma_addrType a = atype"
      "ma_derivationPath a = path" "ma_compressed a"
    by (simp_all add: a fields)
  ultimately show ?thesis using checked w' by simp
qed

text \<open>C24: locking an address loses nothing. An address made by \<^verbatim>\<open>newManagedAddress\<close> and locked
  afterwards holds no clear key and gives none while the manager is locked or watching-only, whatever
  keys it has then; once the manager is unlocked with the crypto key the address was made under,
  \<^verbatim>\<open>PrivKey\<close> returns the key the address was made from and the address is back in the state it had
  before the lock. That \<^verbatim>\<open>btcec.PrivKeyFromBytes\<close> reads back what \<^verbatim>\<open>Serialize\<close> wrote is a hypothesis
  about the library.\<close>

theorem addresses_lock_roundtrip:
  assumes "crypto_contract (env_crypto E)" and "length (cryptoKeyPriv (mgr w)) = 32"
    and serialized: "ec_PrivKeyFromBytes E (ec_Serialize E priv) = priv"
    and "newManagedAddress E s path priv compressed atype acctInfo w = (Ok a, w')"
    and "r < length (heap v)" and "heap v ! r = PubKeyAddr (managedAddress_lock a)"
  shows "ma_privKeyCT (managedAddress_lock a) = []
    \<and> (watchingOnly (mgr v) \<longrightarrow> PrivKey E r v = (Err (managerError ErrWatchingOnly None), v))
    \<and> (\<not> watchingOnly (mgr v) \<and> locked (mgr v) \<longrightarrow> PrivKey E r v = (Err (managerError ErrLocked None), v))
    \<and> (\<not> watchingOnly (mgr v) \<and> \<not> locked (mgr v) \<and> cryptoKeyPriv (mgr v) = cryptoKeyPriv (mgr w) \<longrightarrow>
        PrivKey E r v = (Ok priv, v\<lparr>heap := (heap v)[r := PubKeyAddr a]\<rparr>))"
proof -
  obtain enc a0 where enc: "CryptoKey_Encrypt (env_crypto E) (cryptoKeyPriv (mgr w)) (ec_Serialize E priv) (rng w)
       = (Ok enc, drop 24 (rng w))"
    and a: "a = a0\<lparr>ma_privKeyEncrypted := enc, ma_privKeyCT := ec_Serialize E priv\<rparr>"
    using newManagedAddress_cases [OF assms(4)] by metis
  have "CryptoKey_Decrypt (env_crypto E) (cryptoKeyPriv (mgr w)) enc = Ok (ec_Serialize E priv)"
      and "enc \<noteq> []"
    using crypto_contract.Decrypt_Encrypt [OF assms(1,2) enc]
      crypto_contract.length_Encrypt [OF assms(1,2) enc] by auto
  then have "managedAddress_unlock E r (cryptoKeyPriv (mgr w)) v
      = (Ok (ec_Serialize E priv), v\<lparr>heap := (heap v)[r := PubKeyAddr a]\<rparr>)"
    using managedAddress_unlock_locked [OF assms(5,6), of E "cryptoKeyPriv (mgr w)" "ec_Serialize E priv"]
    by (auto simp: a managedAddress_lock_def decrypt_def)
  then show ?thesis by (auto simp: PrivKey_def bnd_def go_simps serialized managedAddress_lock_def)
qed

text \<open>C40: the script of a script address can never be read. An address made by
  \<^verbatim>\<open>newScriptAddress\<close> or \<^verbatim>\<open>newWitnessScriptAddress\<close> has no clear text, and \<^verbatim>\<open>unlock\<close> decrypts the
  clear text instead of the stored script: \<^verbatim>\<open>Script\<close> fails with \<^verbatim>\<open>ErrCrypto\<close> in an unlocked
  manager whatever the key, and a script that is not secret fails in a locked or watching-only
  manager too.\<close>

theorem addresses_script_unreadable:
  assumes "r < length (heap w)" and "heap w ! r = a"
    and "newScriptAddress E net m acct h enc = Ok a
      \<or> newWitnessScriptAddress E net m acct h enc ver secret = Ok a"
  shows "(newScriptAddress E net m acct h enc = Ok a \<and> \<not> watchingOnly (mgr w) \<and> \<not> locked (mgr w) \<longrightarrow>
      scriptAddress_Script E r w = (Err (managerError ErrCrypto (Some (SnaclError ErrMalformed))), w))
    \<and> (newWitnessScriptAddress E net m acct h enc ver secret = Ok a
        \<and> (secret \<longrightarrow> \<not> watchingOnly (mgr w) \<and> \<not> locked (mgr w)) \<longrightarrow>
      witnessScriptAddress_Script E r w = (Err (managerError ErrCrypto (Some (SnaclError ErrMalformed))), w))"
proof -
  have "base_of (heap w ! r) = Some (new_base m acct enc)"
    using assms(2,3) new_script_base by blast
  then have fails: "script_unlock E r key w = (Err (managerError ErrCrypto (Some (SnaclError ErrMalformed))), w)" for key
    by (rule script_unlock_fails [OF assms(1)]) (simp add: new_base_def)
  show ?thesis
    using assms(1,2) new_script_base(2) [of E net m acct h enc ver secret a]
    by (auto simp: scriptAddress_Script_def witnessScriptAddress_Script_def bnd_def go_simps fails)
qed

text \<open>A running manager to evaluate the operations on.\<close>

definition example_mgr :: "(nat, nat) Manager" where
  "example_mgr =
     \<lparr>chainParams = Some 0, scopedManagers = [], externalAddrSchemas = (\<lambda>_. []), internalAddrSchemas = (\<lambda>_. []),
      watchingOnly = False, masterKeyPub = example_SecretKey, masterKeyPriv = example_SecretKey,
      cryptoKeyPub = make_bytes 32, cryptoKeyPriv = make_bytes 32, cryptoKeyPrivEncrypted = [],
      cryptoKeyScript = make_bytes 32, cryptoKeyScriptEncrypted = [], privPassphraseSalt = make_bytes 32,
      hashedPrivPassphrase = make_bytes 64, locked = False, closed = False\<rparr>"

definition example_world :: "(nat, nat, nat, nat, mem) world" where
  "example_world =
     \<lparr>db = example_created, rng = replicate 500 7, mgr = example_mgr, heap = [], hooks = []\<rparr>"

definition example_path :: DerivationPath where
  "example_path = \<lparr>dp_InternalAccount = 0, dp_Account = 0, dp_Branch = 0, dp_Index = 0, dp_MasterKeyFingerprint = 0\<rparr>"

definition example_new :: "(nat, nat) managedAddress result \<times> (nat, nat, nat, nat, mem) world" where
  "example_new = newManagedAddress example_hd KeyScopeBIP0084 example_path 5 True WitnessPubKey None example_world"

definition example_address :: "(nat, nat) managedAddress" where
  "example_address =
     \<lparr>ma_manager = KeyScopeBIP0084, ma_derivationPath = example_path,
      ma_address = Some (AddressWitnessPubKeyHash 1), ma_imported = False, ma_internal = False,
      ma_compressed = True, ma_addrType = WitnessPubKey, ma_pubKey = 5,
      ma_privKeyEncrypted = replicate 24 7 @ secretbox_Seal ref_crypto [5] (replicate 24 7) (make_bytes 32),
      ma_privKeyCT = [5]\<rparr>"

lemma example_new_eval:
  "example_new = (Ok example_address, example_world\<lparr>rng := replicate 444 7\<rparr>)"
  by (simp add: example_new_def example_address_def newManagedAddress_def bnd_def go_simps Let_def encrypt_def
      random_def zoom_def example_world_def example_mgr_def example_hd_def CryptoKey_Encrypt_def read_random_def
      as_error_def wrap_err_def newManagedAddressWithoutPrivKey_def Validate_def address_String_def AddressType_defs size_defs)

theorem addresses_new_validated_witness:
  "signs_for example_hd example_address (replicate 32 7) 5 \<and> ma_pubKey example_address = 5"
  using addresses_new_validated [OF example_new_eval [unfolded example_new_def]]
  by (simp add: example_hd_def example_world_def)

theorem addresses_lock_roundtrip_witness:
  "fst (PrivKey example_hd 0 (example_world\<lparr>heap := [PubKeyAddr (managedAddress_lock example_address)]\<rparr>)) = Ok 5
   \<and> fst (PrivKey example_hd 0 (example_world\<lparr>heap := [PubKeyAddr (managedAddress_lock example_address)],
        mgr := example_mgr\<lparr>locked := True, cryptoKeyPriv := []\<rparr>\<rparr>)) = Err (managerError ErrLocked None)"
proof -
  let ?v = "example_world\<lparr>heap := [PubKeyAddr (managedAddress_lock example_address)]\<rparr>"
  let ?u = "?v\<lparr>mgr := example_mgr\<lparr>locked := True, cryptoKeyPriv := []\<rparr>\<rparr>"
  have "crypto_contract (env_crypto example_hd)" "length (cryptoKeyPriv (mgr example_world)) = 32"
      "cryptoKeyPriv (mgr ?v) = cryptoKeyPriv (mgr example_world)" "\<not> watchingOnly (mgr ?v)" "\<not> locked (mgr ?v)"
      "\<not> watchingOnly (mgr ?u)" "ec_PrivKeyFromBytes example_hd (ec_Serialize example_hd 5) = 5"
    by (simp_all add: example_hd_def example_world_def example_mgr_def ref_crypto.crypto_contract_axioms)
  with addresses_lock_roundtrip [OF _ _ _ example_new_eval [unfolded example_new_def], of 0 ?v]
    addresses_lock_roundtrip [OF _ _ _ example_new_eval [unfolded example_new_def], of 0 ?u] show ?thesis
    by simp
qed

theorem addresses_script_unreadable_witness:
  "\<exists>a. newScriptAddress example_hd (Some 0) KeyScopeBIP0084 0 [1] [2] = Ok a
     \<and> fst (scriptAddress_Script example_hd 0 (example_world\<lparr>heap := [a]\<rparr>))
         = Err (managerError ErrCrypto (Some (SnaclError ErrMalformed)))"
proof -
  obtain a where a: "newScriptAddress example_hd (Some 0) KeyScopeBIP0084 0 [1] [2] = Ok a"
    by (simp add: newScriptAddress_def example_hd_def)
  have "\<not> watchingOnly (mgr example_world)" "\<not> locked (mgr example_world)"
    by (simp_all add: example_world_def example_mgr_def)
  with a show ?thesis
    using addresses_script_unreadable [of 0 "example_world\<lparr>heap := [a]\<rparr>" a example_hd "Some 0" KeyScopeBIP0084 0 "[1]" "[2]"]
    by simp
qed

end
