(* ===== verification/ScopedManager.thy ===== *)
theory ScopedManager
  imports Addresses "HOL-Library.AList"
begin

text \<open>
  \<^verbatim>\<open>waddrmgr/scoped_manager.go\<close>: the manager of one key scope. A method of
  \<^verbatim>\<open>*ScopedKeyManager\<close> takes the scope that identifies its receiver; \<open>ns\<close> is the namespace
  bucket, \<open>now\<close> the value of \<^verbatim>\<open>time.Now().Unix()\<close>.
\<close>

section \<open>Receivers\<close>

definition sm_lookup :: "KeyScope \<Rightarrow> (('k, 'pk, 'a, 'n, 's) world, 'k ScopedKeyManager) go" where
  "sm_lookup scope = bnd (reads (\<lambda>w. map_of (scopedManagers (mgr w)) scope)) deref"

definition sm_modify ::
  "KeyScope \<Rightarrow> ('k ScopedKeyManager \<Rightarrow> 'k ScopedKeyManager) \<Rightarrow> (('k, 'pk, 'a, 'n, 's) world, unit) go" where
  "sm_modify scope f = modify (\<lambda>w. w\<lparr>mgr := (mgr w)\<lparr>scopedManagers :=
     map (\<lambda>(sc, sm). (sc, if sc = scope then f sm else sm)) (scopedManagers (mgr w))\<rparr>\<rparr>)"

definition put_acctInfo :: "KeyScope \<Rightarrow> u32 \<Rightarrow> 'k accountInfo \<Rightarrow> (('k, 'pk, 'a, 'n, 's) world, unit) go" where
  "put_acctInfo scope acct ai = sm_modify scope (\<lambda>sm. sm\<lparr>sm_acctInfo := AList.update acct ai (sm_acctInfo sm)\<rparr>)"

definition put_addr :: "KeyScope \<Rightarrow> bytes \<Rightarrow> addr_ref \<Rightarrow> (('k, 'pk, 'a, 'n, 's) world, unit) go" where
  "put_addr scope key r = sm_modify scope (\<lambda>sm. sm\<lparr>sm_addrs := AList.update key r (sm_addrs sm)\<rparr>)"

definition delete_addr :: "KeyScope \<Rightarrow> bytes \<Rightarrow> (('k, 'pk, 'a, 'n, 's) world, unit) go" where
  "delete_addr scope key = sm_modify scope (\<lambda>sm. sm\<lparr>sm_addrs := AList.delete key (sm_addrs sm)\<rparr>)"

definition add_deriveOnUnlock :: "KeyScope \<Rightarrow> unlockDeriveInfo \<Rightarrow> (('k, 'pk, 'a, 'n, 's) world, unit) go" where
  "add_deriveOnUnlock scope info =
     sm_modify scope (\<lambda>sm. sm\<lparr>sm_deriveOnUnlock := sm_deriveOnUnlock sm @ [info]\<rparr>)"

text \<open>\<^verbatim>\<open>Close\<close>: the public account keys are zeroed and dropped.\<close>

definition zero_acctKeyPub :: "KeyScope \<Rightarrow> u32 \<Rightarrow> (('k, 'pk, 'a, 'n, 's) world, unit) go" where
  "zero_acctKeyPub scope acct =
     bnd (sm_lookup scope) (\<lambda>sm.
     bnd (deref (map_of (sm_acctInfo sm) acct)) (\<lambda>ai.
     bnd (deref (ai_acctKeyPub ai)) (\<lambda>_.
     put_acctInfo scope acct (ai\<lparr>ai_acctKeyPub := None\<rparr>))))"

definition zeroSensitivePublicData :: "KeyScope \<Rightarrow> (('k, 'pk, 'a, 'n, 's) world, unit) go" where
  "zeroSensitivePublicData scope =
     bnd (sm_lookup scope) (\<lambda>sm.
     for_each (zero_acctKeyPub scope) (map fst (sm_acctInfo sm)))"

definition ScopedKeyManager_Close :: "KeyScope \<Rightarrow> (('k, 'pk, 'a, 'n, 's) world, unit) go" where
  "ScopedKeyManager_Close scope = zeroSensitivePublicData scope"

section \<open>Accounts and keys\<close>

definition accountAddrType :: "'k ScopedKeyManager \<Rightarrow> 'k accountInfo \<Rightarrow> bool \<Rightarrow> AddressType" where
  "accountAddrType s acctInfo internal =
     (let addrSchema = (case ai_addrSchema acctInfo of Some sch \<Rightarrow> sch | None \<Rightarrow> sm_addrSchema s)
      in if internal then InternalAddrType addrSchema else ExternalAddrType addrSchema)"

definition keyToManaged ::
  "('k, 'sk, 'pk, 'a, 'n, 's) env \<Rightarrow> KeyScope \<Rightarrow> 'k \<Rightarrow> DerivationPath \<Rightarrow> 'k accountInfo
   \<Rightarrow> (('k, 'pk, 'a, 'n, 's) world, addr_ref) go" where
  "keyToManaged E scope derivedKey derivationPath acctInfo =
     bnd (sm_lookup scope) (\<lambda>s.
     let internal = (dp_Branch derivationPath = InternalBranch);
         atype = accountAddrType s acctInfo internal
     in
     bnd (newManagedAddressFromExtKey E scope derivationPath derivedKey atype (Some acctInfo)) (\<lambda>a.
     bnd (alloc (PubKeyAddr (if internal then a\<lparr>ma_internal := True\<rparr> else a))) (\<lambda>ma.
     bnd (if \<not> hd_IsPrivate E derivedKey
          then add_deriveOnUnlock scope \<lparr>ud_managedAddr = ma, ud_branch = dp_Branch derivationPath,
                 ud_index = dp_Index derivationPath\<rparr>
          else ret ()) (\<lambda>_.
     ret ma))))"

text \<open>The closure \<^verbatim>\<open>decryptKey\<close> of \<^verbatim>\<open>loadAccountInfo\<close>.\<close>

definition decryptKey :: "('k, 'sk, 'pk, 'a, 'n, 's) env \<Rightarrow> bytes \<Rightarrow> bytes \<Rightarrow> 'k result" where
  "decryptKey E cryptoKey encryptedKey =
     rbind (decrypt E cryptoKey encryptedKey) (\<lambda>serializedKey. hd_NewKeyFromString E serializedKey)"

text \<open>
  The account record built from a row. The private key's error is overwritten before it is
  looked at: the key is then nil.
\<close>

definition accountInfo_from_row ::
  "('k, 'sk, 'pk, 'a, 'n, 's) env \<Rightarrow> ('k, 'n) Manager \<Rightarrow> accountRow \<Rightarrow> ('k accountInfo \<times> bool) result" where
  "accountInfo_from_row E root row =
     (let hasPrivateKey = (\<not> locked root \<and> \<not> watchingOnly root) in
      case row of
        DefaultRow row \<Rightarrow>
          rbind (map_err (\<lambda>err. managerError ErrCrypto (Some err))
            (decryptKey E (cryptoKeyPub root) (dar_pubKeyEncrypted row))) (\<lambda>pub.
          rbind (if hasPrivateKey
                 then (case decryptKey E (cryptoKeyPriv root) (dar_privKeyEncrypted row) of
                         Ok k \<Rightarrow> Ok (Some k) | Err e \<Rightarrow> Ok None | Panic \<Rightarrow> Panic | Hang \<Rightarrow> Hang)
                 else Ok None) (\<lambda>priv.
          Ok (\<lparr>ai_acctName = dar_name row, ai_acctType = acctType (dar_row row),
               ai_acctKeyEncrypted = dar_privKeyEncrypted row, ai_acctKeyPriv = priv,
               ai_acctKeyPub = Some pub, ai_nextExternalIndex = dar_nextExternalIndex row,
               ai_lastExternalAddr = None, ai_nextInternalIndex = dar_nextInternalIndex row,
               ai_lastInternalAddr = None, ai_addrSchema = None, ai_masterKeyFingerprint = 0\<rparr>,
              hasPrivateKey)))
      | WatchOnlyRow row \<Rightarrow>
          rbind (map_err (\<lambda>err. managerError ErrCrypto (Some err))
            (decryptKey E (cryptoKeyPub root) (wor_pubKeyEncrypted row))) (\<lambda>pub.
          Ok (\<lparr>ai_acctName = wor_name row, ai_acctType = acctType (wor_row row),
               ai_acctKeyEncrypted = [], ai_acctKeyPriv = None,
               ai_acctKeyPub = Some pub, ai_nextExternalIndex = wor_nextExternalIndex row,
               ai_lastExternalAddr = None, ai_nextInternalIndex = wor_nextInternalIndex row,
               ai_lastInternalAddr = None, ai_addrSchema = wor_addrSchema row,
               ai_masterKeyFingerprint = wor_masterKeyFingerprint row\<rparr>, False)))"

text \<open>
  \<^verbatim>\<open>loadAccountInfo\<close>: the cached record, or the row from the database with its keys decrypted.
  What is kept as last internal address is derived on the external branch.
\<close>

definition loadAccountInfo ::
  "('k, 'sk, 'pk, 'a, 'n, 's) env \<Rightarrow> KeyScope \<Rightarrow> bkt \<Rightarrow> u32
   \<Rightarrow> (('k, 'pk, 'a, 'n, 's) world, 'k accountInfo) go" where
  "loadAccountInfo E scope ns acct =
     bnd (sm_lookup scope) (\<lambda>s.
     case map_of (sm_acctInfo s) acct of
       Some acctInfo \<Rightarrow> ret acctInfo
     | None \<Rightarrow>
         bnd (wrap_err maybeConvertDbError (fetchAccountInfo (dbw E) ns (sm_scope s) acct)) (\<lambda>row.
         bnd (reads mgr) (\<lambda>root.
         bnd (lift (accountInfo_from_row E root row)) (\<lambda>(acctInfo, hasPrivateKey).
         let idx = (if ai_nextExternalIndex acctInfo > 0 then ai_nextExternalIndex acctInfo - 1
                    else ai_nextExternalIndex acctInfo) in
         bnd (deref (ai_acctKeyPub acctInfo)) (\<lambda>pub.
         bnd (lift (deriveKey E acctInfo ExternalBranch idx hasPrivateKey)) (\<lambda>lastIntKey.
         bnd (keyToManaged E scope lastIntKey
                \<lparr>dp_InternalAccount = acct, dp_Account = hd_ChildIndex E pub, dp_Branch = ExternalBranch,
                 dp_Index = idx, dp_MasterKeyFingerprint = ai_masterKeyFingerprint acctInfo\<rparr>
                acctInfo) (\<lambda>lastIntAddr.
         let acctInfo = acctInfo\<lparr>ai_lastInternalAddr := Some lastIntAddr\<rparr> in
         bnd (put_acctInfo scope acct acctInfo) (\<lambda>_.
         ret acctInfo))))))))"

definition deriveKeyFromPath ::
  "('k, 'sk, 'pk, 'a, 'n, 's) env \<Rightarrow> KeyScope \<Rightarrow> bkt \<Rightarrow> u32 \<Rightarrow> u32 \<Rightarrow> u32 \<Rightarrow> bool
   \<Rightarrow> (('k, 'pk, 'a, 'n, 's) world, 'k \<times> 'k option \<times> u32) go" where
  "deriveKeyFromPath E scope ns internalAccount br idx private =
     bnd (loadAccountInfo E scope ns internalAccount) (\<lambda>acctInfo.
     bnd (lift (deriveKey E acctInfo br idx private)) (\<lambda>addrKey.
     ret (addrKey, if private then ai_acctKeyPriv acctInfo else ai_acctKeyPub acctInfo,
          ai_masterKeyFingerprint acctInfo)))"

definition DeriveFromKeyPath ::
  "('k, 'sk, 'pk, 'a, 'n, 's) env \<Rightarrow> KeyScope \<Rightarrow> bkt \<Rightarrow> DerivationPath
   \<Rightarrow> (('k, 'pk, 'a, 'n, 's) world, addr_ref) go" where
  "DeriveFromKeyPath E scope ns kp =
     bnd (reads mgr) (\<lambda>root.
     let private = (\<not> locked root \<and> \<not> watchingOnly root) in
     bnd (deriveKeyFromPath E scope ns (dp_InternalAccount kp) (dp_Branch kp) (dp_Index kp) private)
       (\<lambda>(addrKey, _, _).
     bnd (loadAccountInfo E scope ns (dp_InternalAccount kp)) (\<lambda>acctInfo.
     keyToManaged E scope addrKey kp acctInfo)))"

section \<open>Addresses from the database\<close>

definition chainAddressRowToManaged ::
  "('k, 'sk, 'pk, 'a, 'n, 's) env \<Rightarrow> KeyScope \<Rightarrow> bkt \<Rightarrow> dbChainAddressRow
   \<Rightarrow> (('k, 'pk, 'a, 'n, 's) world, addr_ref) go" where
  "chainAddressRowToManaged E scope ns row =
     bnd (reads mgr) (\<lambda>root.
     let private = (\<not> locked root \<and> \<not> watchingOnly root) in
     bnd (deriveKeyFromPath E scope ns (account (car_row row)) (branch row) (addrIndex row) private)
       (\<lambda>(addressKey, acctKey, masterKeyFingerprint).
     bnd (loadAccountInfo E scope ns (account (car_row row))) (\<lambda>acctInfo.
     bnd (deref acctKey) (\<lambda>acctKey.
     keyToManaged E scope addressKey
       \<lparr>dp_InternalAccount = account (car_row row), dp_Account = hd_ChildIndex E acctKey,
        dp_Branch = branch row, dp_Index = addrIndex row,
        dp_MasterKeyFingerprint = masterKeyFingerprint\<rparr> acctInfo))))"

definition importedAddressRowToManaged ::
  "('k, 'sk, 'pk, 'a, 'n, 's) env \<Rightarrow> KeyScope \<Rightarrow> dbImportedAddressRow
   \<Rightarrow> (('k, 'pk, 'a, 'n, 's) world, addr_ref) go" where
  "importedAddressRowToManaged E scope row =
     bnd (sm_lookup scope) (\<lambda>s.
     bnd (reads mgr) (\<lambda>root.
     bnd (as_error ErrCrypto (lift (decrypt E (cryptoKeyPub root) (iar_encryptedPubKey row)))) (\<lambda>pubBytes.
     bnd (as_error ErrCrypto (lift (ec_ParsePubKey E pubBytes))) (\<lambda>pubKey.
     let compressed = (length pubBytes = 33) in
     bnd (lift (newManagedAddressWithoutPrivKey E (chainParams root) scope ImportedDerivationPath pubKey
            compressed (ExternalAddrType (sm_addrSchema s)))) (\<lambda>ma.
     alloc (PubKeyAddr (ma\<lparr>ma_privKeyEncrypted := iar_encryptedPrivKey row, ma_imported := True\<rparr>)))))))"

definition scriptAddressRowToManaged ::
  "('k, 'sk, 'pk, 'a, 'n, 's) env \<Rightarrow> KeyScope \<Rightarrow> dbScriptAddressRow
   \<Rightarrow> (('k, 'pk, 'a, 'n, 's) world, addr_ref) go" where
  "scriptAddressRowToManaged E scope row =
     bnd (reads mgr) (\<lambda>root.
     bnd (as_error ErrCrypto (lift (decrypt E (cryptoKeyPub root) (sar_encryptedHash row)))) (\<lambda>scriptHash.
     bnd (lift (newScriptAddress E (chainParams root) scope (account (sar_row row)) scriptHash
            (sar_encryptedScript row))) alloc))"

definition witnessScriptAddressRowToManaged ::
  "('k, 'sk, 'pk, 'a, 'n, 's) env \<Rightarrow> KeyScope \<Rightarrow> dbWitnessScriptAddressRow
   \<Rightarrow> (('k, 'pk, 'a, 'n, 's) world, addr_ref) go" where
  "witnessScriptAddressRowToManaged E scope row =
     bnd (reads mgr) (\<lambda>root.
     bnd (as_error ErrCrypto (lift (decrypt E (cryptoKeyPub root) (war_encryptedHash row)))) (\<lambda>scriptHash.
     bnd (lift (newWitnessScriptAddress E (chainParams root) scope (account (war_row row)) scriptHash
            (war_encryptedScript row) (war_witnessVersion row) (war_isSecretScript row))) alloc))"

definition rowInterfaceToManaged ::
  "('k, 'sk, 'pk, 'a, 'n, 's) env \<Rightarrow> KeyScope \<Rightarrow> bkt \<Rightarrow> addressRow
   \<Rightarrow> (('k, 'pk, 'a, 'n, 's) world, addr_ref) go" where
  "rowInterfaceToManaged E scope ns row = (case row of
      ChainRow r \<Rightarrow> chainAddressRowToManaged E scope ns r
    | ImportedRow r \<Rightarrow> importedAddressRowToManaged E scope r
    | ScriptRow r \<Rightarrow> scriptAddressRowToManaged E scope r
    | WitnessScriptRow r \<Rightarrow> witnessScriptAddressRowToManaged E scope r)"

definition address_of :: "addr_ref \<Rightarrow> (('k, 'pk, 'a, 'n, 's) world, 'a btcAddress) go" where
  "address_of r = bnd (load r) (\<lambda>m. deref (Address m))"

definition loadAndCacheAddress ::
  "('k, 'sk, 'pk, 'a, 'n, 's) env \<Rightarrow> KeyScope \<Rightarrow> bkt \<Rightarrow> 'a btcAddress
   \<Rightarrow> (('k, 'pk, 'a, 'n, 's) world, addr_ref) go" where
  "loadAndCacheAddress E scope ns address =
     bnd (wrap_err maybeConvertDbError
            (fetchAddress (env_crypto E) (dbw E) ns scope (addr_ScriptAddress E address))) (\<lambda>row.
     bnd (rowInterfaceToManaged E scope ns row) (\<lambda>managedAddr.
     bnd (address_of managedAddr) (\<lambda>a.
     bnd (put_addr scope (addr_ScriptAddress E a) managedAddr) (\<lambda>_.
     ret managedAddr))))"

section \<open>New addresses\<close>

text \<open>
  The inner loop of \<^verbatim>\<open>nextAddresses\<close> derives child \<open>i\<close> again and again while the library
  reports \<^verbatim>\<open>ErrInvalidChild\<close>, counting \<open>nextIndex\<close> up; \<open>None\<close> is the loop that does not end.
\<close>

partial_function (option) derive_loop ::
  "('k, 'sk, 'pk, 'a, 'n, 's) env \<Rightarrow> 'n option \<Rightarrow> 'k \<Rightarrow> u32 \<Rightarrow> u32 \<Rightarrow> ('k \<times> u32) result option" where
  "derive_loop E net branchKey i nextIndex =
     (case hd_DeriveNonStandard E branchKey i of
        Err err \<Rightarrow>
          if err = HdError ErrInvalidChild then derive_loop E net branchKey i (nextIndex + 1)
          else Some (Err (managerError ErrKeyChain (Some err)))
      | Ok key \<Rightarrow> Some (rbind (hd_SetNet E key net) (\<lambda>key. Ok (key, nextIndex + 1)))
      | Panic \<Rightarrow> Some Panic
      | Hang \<Rightarrow> Some Hang)"

declare derive_loop.simps [code]

fun derive_addresses ::
  "('k, 'sk, 'pk, 'a, 'n, 's) env \<Rightarrow> KeyScope \<Rightarrow> u32 \<Rightarrow> 'k accountInfo \<Rightarrow> 'k \<Rightarrow> 'k \<Rightarrow> u32 \<Rightarrow> AddressType
   \<Rightarrow> bool \<Rightarrow> nat \<Rightarrow> u32 \<Rightarrow> u32 \<Rightarrow> unlockDeriveInfo list
   \<Rightarrow> (('k, 'pk, 'a, 'n, 's) world, unlockDeriveInfo list \<times> u32) go" where
  "derive_addresses E scope acct acctInfo acctKey branchKey br atype internal 0 i nextIndex infos =
     ret (infos, nextIndex)"
| "derive_addresses E scope acct acctInfo acctKey branchKey br atype internal (Suc n) i nextIndex infos =
     bnd (reads (\<lambda>w. chainParams (mgr w))) (\<lambda>net.
     bnd (case derive_loop E net branchKey i nextIndex of None \<Rightarrow> hang | Some r \<Rightarrow> lift r) (\<lambda>(nextKey, nextIndex).
     bnd (newManagedAddressFromExtKey E scope
            \<lparr>dp_InternalAccount = acct, dp_Account = hd_ChildIndex E acctKey, dp_Branch = br,
             dp_Index = nextIndex - 1, dp_MasterKeyFingerprint = ai_masterKeyFingerprint acctInfo\<rparr>
            nextKey atype (Some acctInfo)) (\<lambda>a.
     bnd (alloc (PubKeyAddr (if internal then a\<lparr>ma_internal := True\<rparr> else a))) (\<lambda>ma.
     derive_addresses E scope acct acctInfo acctKey branchKey br atype internal n (i + 1) nextIndex
       (infos @ [\<lparr>ud_managedAddr = ma, ud_branch = br, ud_index = nextIndex - 1\<rparr>])))))"

text \<open>
  The body of the loop that stores the addresses. It ends in an unconditional
  \<^verbatim>\<open>return nil, ErrAddrMismatch\<close>: it never reaches a second address.
\<close>

definition store_address ::
  "('k, 'sk, 'pk, 'a, 'n, 's) env \<Rightarrow> KeyScope \<Rightarrow> bkt \<Rightarrow> u64 \<Rightarrow> u32 \<Rightarrow> unlockDeriveInfo
   \<Rightarrow> (('k, 'pk, 'a, 'n, 's) world, 'x) go" where
  "store_address E scope ns now acct info =
     bnd (load (ud_managedAddr info)) (\<lambda>ma.
     bnd (deref (Address ma)) (\<lambda>address.
     bnd (case ma of
            PubKeyAddr a \<Rightarrow>
              wrap_err maybeConvertDbError
                (putChainedAddress (env_crypto E) (dbw E) ns now scope (addr_ScriptAddress E address) acct
                   ssFull (ud_branch info) (ud_index info) adtChain)
          | ScriptAddr a \<Rightarrow>
              bnd (reads mgr) (\<lambda>root.
              bnd (as_error ErrCrypto (encrypt E (cryptoKeyPub root) (AddrHash E ma))) (\<lambda>encryptedHash.
              wrap_err maybeConvertDbError
                (putScriptAddress (env_crypto E) (dbw E) ns now scope (AddrHash E ma) ImportedAddrAccount
                   ssNone encryptedHash (bs_scriptEncrypted (sa_base a)))))
          | _ \<Rightarrow> ret ()) (\<lambda>_.
     bnd (wrap_err maybeConvertDbError (loadAndCacheAddress E scope ns address)) (\<lambda>diskAddr.
     bnd (address_of diskAddr) (\<lambda>disk.
     bnd (if addr_String E address \<noteq> addr_String E disk
          then delete_addr scope (addr_ScriptAddress E disk) else ret ()) (\<lambda>_.
     raise (Wrapped [] (AddrError ErrAddrMismatch))))))))"

definition nextAddresses ::
  "('k, 'sk, 'pk, 'a, 'n, 's) env \<Rightarrow> KeyScope \<Rightarrow> bkt \<Rightarrow> u64 \<Rightarrow> u32 \<Rightarrow> u32 \<Rightarrow> bool
   \<Rightarrow> (('k, 'pk, 'a, 'n, 's) world, addr_ref list) go" where
  "nextAddresses E scope ns now acct numAddresses internal =
     bnd (loadAccountInfo E scope ns acct) (\<lambda>acctInfo.
     bnd (sm_lookup scope) (\<lambda>s.
     bnd (reads mgr) (\<lambda>root.
     let watchOnly = (watchingOnly root \<or> length (ai_acctKeyEncrypted acctInfo) = 0);
         acctKey = (if \<not> locked root \<and> \<not> watchOnly then ai_acctKeyPriv acctInfo else ai_acctKeyPub acctInfo);
         br = (if internal then InternalBranch else ExternalBranch);
         nextIndex = (if internal then ai_nextInternalIndex acctInfo else ai_nextExternalIndex acctInfo);
         atype = accountAddrType s acctInfo internal
     in
     if numAddresses > MaxAddressesPerAccount \<or> nextIndex + numAddresses > MaxAddressesPerAccount
     then raise (managerError ErrTooManyAddresses None)
     else
       bnd (deref acctKey) (\<lambda>acctKey.
       bnd (as_error ErrKeyChain (lift (hd_DeriveNonStandard E acctKey br))) (\<lambda>branchKey.
       bnd (derive_addresses E scope acct acctInfo acctKey branchKey br atype internal
              (unat numAddresses) 0 nextIndex []) (\<lambda>(addressInfo, nextIndex).
       bnd (case addressInfo of [] \<Rightarrow> ret () | info # _ \<Rightarrow> store_address E scope ns now acct info) (\<lambda>_.
       bnd (modify (\<lambda>w. w\<lparr>hooks := hooks w @
              [\<lparr>ch_scope = scope, ch_account = acct, ch_addressInfo = addressInfo, ch_watchOnly = watchOnly,
                ch_internal = internal, ch_nextIndex = nextIndex\<rparr>]\<rparr>)) (\<lambda>_.
       ret (map ud_managedAddr addressInfo)))))))))"

text \<open>The registered function, run when the transaction is committed.\<close>

definition onCommit_address ::
  "('k, 'sk, 'pk, 'a, 'n, 's) env \<Rightarrow> commit_hook \<Rightarrow> unlockDeriveInfo
   \<Rightarrow> (('k, 'pk, 'a, 'n, 's) world, unit) go" where
  "onCommit_address E h info =
     bnd (address_of (ud_managedAddr info)) (\<lambda>a.
     bnd (put_addr (ch_scope h) (addr_ScriptAddress E a) (ud_managedAddr info)) (\<lambda>_.
     bnd (reads mgr) (\<lambda>root.
     if locked root \<and> \<not> ch_watchOnly h then add_deriveOnUnlock (ch_scope h) info else ret ())))"

definition onCommit ::
  "('k, 'sk, 'pk, 'a, 'n, 's) env \<Rightarrow> commit_hook \<Rightarrow> (('k, 'pk, 'a, 'n, 's) world, unit) go" where
  "onCommit E h =
     bnd (for_each (onCommit_address E h) (ch_addressInfo h)) (\<lambda>_.
     bnd (if ch_addressInfo h = [] then panic else ret (last (ch_addressInfo h))) (\<lambda>info.
     bnd (sm_lookup (ch_scope h)) (\<lambda>s.
     bnd (deref (map_of (sm_acctInfo s) (ch_account h))) (\<lambda>acctInfo.
     put_acctInfo (ch_scope h) (ch_account h)
       (if ch_internal h
        then acctInfo\<lparr>ai_nextInternalIndex := ch_nextIndex h, ai_lastInternalAddr := Some (ud_managedAddr info)\<rparr>
        else acctInfo\<lparr>ai_nextExternalIndex := ch_nextIndex h, ai_lastExternalAddr := Some (ud_managedAddr info)\<rparr>)))))"

definition NextExternalAddresses ::
  "('k, 'sk, 'pk, 'a, 'n, 's) env \<Rightarrow> KeyScope \<Rightarrow> bkt \<Rightarrow> u64 \<Rightarrow> u32 \<Rightarrow> u32
   \<Rightarrow> (('k, 'pk, 'a, 'n, 's) world, addr_ref list) go" where
  "NextExternalAddresses E scope ns now acct numAddresses =
     (if acct > MaxAccountNum then raise (managerError ErrAccountNumTooHigh None)
      else nextAddresses E scope ns now acct numAddresses False)"

definition NextInternalAddresses ::
  "('k, 'sk, 'pk, 'a, 'n, 's) env \<Rightarrow> KeyScope \<Rightarrow> bkt \<Rightarrow> u64 \<Rightarrow> u32 \<Rightarrow> u32
   \<Rightarrow> (('k, 'pk, 'a, 'n, 's) world, addr_ref list) go" where
  "NextInternalAddresses E scope ns now acct numAddresses =
     (if acct > MaxAccountNum then raise (managerError ErrAccountNumTooHigh None)
      else nextAddresses E scope ns now acct numAddresses True)"

definition MarkUsed ::
  "('k, 'sk, 'pk, 'a, 'n, 's) env \<Rightarrow> KeyScope \<Rightarrow> bkt \<Rightarrow> 'a btcAddress
   \<Rightarrow> (('k, 'pk, 'a, 'n, 's) world, unit) go" where
  "MarkUsed E scope ns address =
     (let addressID = addr_ScriptAddress E address in
      bnd (wrap_err maybeConvertDbError (markAddressUsed (env_crypto E) (dbw E) ns scope addressID)) (\<lambda>_.
      delete_addr scope addressID))"

section \<open>New accounts\<close>

definition lookupAccount ::
  "('k, 'sk, 'pk, 'a, 'n, 's) env \<Rightarrow> KeyScope \<Rightarrow> bkt \<Rightarrow> gostring \<Rightarrow> (('k, 'pk, 'a, 'n, 's) world, u32) go" where
  "lookupAccount E scope ns name = fetchAccountByName (dbw E) ns scope name"

definition LookupAccount ::
  "('k, 'sk, 'pk, 'a, 'n, 's) env \<Rightarrow> KeyScope \<Rightarrow> bkt \<Rightarrow> gostring \<Rightarrow> (('k, 'pk, 'a, 'n, 's) world, u32) go" where
  "LookupAccount E scope ns name = lookupAccount E scope ns name"

definition newAccount ::
  "('k, 'sk, 'pk, 'a, 'n, 's) env \<Rightarrow> KeyScope \<Rightarrow> bkt \<Rightarrow> u32 \<Rightarrow> gostring
   \<Rightarrow> (('k, 'pk, 'a, 'n, 's) world, unit) go" where
  "newAccount E scope ns acct name =
     bnd (lift (ValidateAccountName name)) (\<lambda>_.
     bnd (attempt (lookupAccount E scope ns name)) (\<lambda>found.
     case found of
       Inr _ \<Rightarrow> raise (managerError ErrDuplicateAccount None)
     | Inl _ \<Rightarrow>
         bnd (fetchCoinTypeKeys (dbw E) ns scope) (\<lambda>(_, coinTypePrivEnc).
         bnd (reads mgr) (\<lambda>root.
         bnd (as_error ErrLocked (lift (decrypt E (cryptoKeyPriv root) coinTypePrivEnc))) (\<lambda>serializedKeyPriv.
         bnd (as_error ErrKeyChain (lift (hd_NewKeyFromString E serializedKeyPriv))) (\<lambda>coinTypeKeyPriv.
         bnd (as_error ErrKeyChain (lift (deriveAccountKey E coinTypeKeyPriv acct))) (\<lambda>acctKeyPriv.
         bnd (as_error ErrKeyChain (lift (hd_Neuter E acctKeyPriv))) (\<lambda>acctKeyPub.
         bnd (as_error ErrCrypto (encrypt E (cryptoKeyPub root) (hd_String E acctKeyPub))) (\<lambda>acctPubEnc.
         bnd (as_error ErrCrypto (encrypt E (cryptoKeyPriv root) (hd_String E acctKeyPriv))) (\<lambda>acctPrivEnc.
         bnd (putDefaultAccountInfo (dbw E) ns scope acct acctPubEnc acctPrivEnc 0 0 name) (\<lambda>_.
         putLastAccount (dbw E) ns scope acct)))))))))))"

definition NewAccount ::
  "('k, 'sk, 'pk, 'a, 'n, 's) env \<Rightarrow> KeyScope \<Rightarrow> bkt \<Rightarrow> gostring \<Rightarrow> (('k, 'pk, 'a, 'n, 's) world, u32) go" where
  "NewAccount E scope ns name =
     bnd (reads mgr) (\<lambda>root.
     if watchingOnly root then raise (managerError ErrWatchingOnly None)
     else if locked root then raise (managerError ErrLocked None)
     else
       bnd (fetchLastAccount (dbw E) ns scope) (\<lambda>last.
       let acct = last + 1 in
       bnd (newAccount E scope ns acct name) (\<lambda>_.
       ret acct)))"

definition NewRawAccount ::
  "('k, 'sk, 'pk, 'a, 'n, 's) env \<Rightarrow> KeyScope \<Rightarrow> bkt \<Rightarrow> u32 \<Rightarrow> (('k, 'pk, 'a, 'n, 's) world, unit) go" where
  "NewRawAccount E scope ns number =
     bnd (reads mgr) (\<lambda>root.
     if watchingOnly root then raise (managerError ErrWatchingOnly None)
     else if locked root then raise (managerError ErrLocked None)
     else newAccount E scope ns number (go_string (''act:'' @ show_nat (unat number))))"

section \<open>Account properties\<close>

text \<open>\<^verbatim>\<open>cloneKeyWithVersion\<close> is not implemented in the sources: it returns an error.\<close>

definition cloneKeyWithVersion :: "'k option \<Rightarrow> 'k result" where
  "cloneKeyWithVersion key = Err (Errorf ''cloneKeyWithVersion(...) has not be implemented'')"

text \<open>The counter the callback of \<^verbatim>\<open>forEachAccountAddress\<close> increments, beside the transaction.\<close>

record 's counting = "'s base" +
  importedKeyCount :: u32

definition countImported ::
  "('k, 'sk, 'pk, 'a, 'n, 's) env \<Rightarrow> KeyScope \<Rightarrow> bkt \<Rightarrow> (('k, 'pk, 'a, 'n, 's) world, u32) go" where
  "countImported E scope ns = (\<lambda>w.
     case forEachAccountAddress (dbw E) ns scope ImportedAddrAccount
            (\<lambda>row. modify (\<lambda>c. c\<lparr>importedKeyCount := importedKeyCount c + 1\<rparr>))
            \<lparr>db = db w, rng = rng w, importedKeyCount = 0\<rparr> of
       (r, c) \<Rightarrow> (rbind r (\<lambda>_. Ok (importedKeyCount c)), w\<lparr>db := db c, rng := rng c\<rparr>))"

definition AccountProperties_of ::
  "('k, 'sk, 'pk, 'a, 'n, 's) env \<Rightarrow> KeyScope \<Rightarrow> bkt \<Rightarrow> u32
   \<Rightarrow> (('k, 'pk, 'a, 'n, 's) world, 'k AccountProperties) go" where
  "AccountProperties_of E scope ns acct =
     bnd (reads mgr) (\<lambda>root.
     if acct \<noteq> ImportedAddrAccount then
       bnd (loadAccountInfo E scope ns acct) (\<lambda>acctInfo.
       bnd (if ai_acctType acctInfo = accountDefault \<and> IsDefaultScope scope
            then bnd (wrap_err (\<lambda>err. Errorf ''failed to retrieve account public key'')
                        (lift (cloneKeyWithVersion (ai_acctKeyPub acctInfo)))) (\<lambda>k. ret (Some k))
            else ret (ai_acctKeyPub acctInfo)) (\<lambda>pub.
       ret \<lparr>AccountNumber = acct, AccountName = ai_acctName acctInfo,
            ExternalKeyCount = ai_nextExternalIndex acctInfo,
            InternalKeyCount = ai_nextInternalIndex acctInfo, ImportedKeyCount = 0,
            MasterKeyFingerprint = ai_masterKeyFingerprint acctInfo, ap_KeyScope = scope,
            IsWatchOnly = (watchingOnly root \<or> ai_acctKeyPriv acctInfo = None),
            AddrSchema = ai_addrSchema acctInfo, AccountPubKey = pub\<rparr>))
     else
       bnd (countImported E scope ns) (\<lambda>count.
       ret \<lparr>AccountNumber = acct, AccountName = ImportedAddrAccountName, ExternalKeyCount = 0,
            InternalKeyCount = 0, ImportedKeyCount = count, MasterKeyFingerprint = 0,
            ap_KeyScope = scope, IsWatchOnly = watchingOnly root, AddrSchema = None,
            AccountPubKey = None\<rparr>))"

section \<open>What the operations leave alone\<close>

lemma sm_lookup_simps [go_simps]:
  "sm_lookup scope w = (case map_of (scopedManagers (mgr w)) scope of None \<Rightarrow> Panic | Some s \<Rightarrow> Ok s, w)"
  by (simp add: sm_lookup_def bnd_def go_simps deref_def split: option.split)

text \<open>The scopes that have a manager.\<close>

definition known_scopes :: "('k, 'pk, 'a, 'n, 's) world \<Rightarrow> KeyScope list" where
  "known_scopes w = map fst (scopedManagers (mgr w))"

lemma known_scopes_lookup: "scope \<in> set (known_scopes w) \<longleftrightarrow> (\<exists>s. map_of (scopedManagers (mgr w)) scope = Some s)"
  using map_of_eq_None_iff [of "scopedManagers (mgr w)" scope] by (auto simp: known_scopes_def)

lemma keeps_sm_hooks [keeps_intros]:
  "keeps hooks (sm_lookup scope)" "keeps hooks (sm_modify scope f)" "keeps hooks (put_acctInfo scope n ai)"
  "keeps hooks (put_addr scope k r)" "keeps hooks (delete_addr scope k)" "keeps hooks (add_deriveOnUnlock scope i)"
  "keeps hooks (load r)" "keeps hooks (store r a)" "keeps hooks (alloc a)"
  by (simp_all add: keeps_def go_simps sm_modify_def put_acctInfo_def put_addr_def delete_addr_def add_deriveOnUnlock_def)

lemma known_scopes_modify:
  "map fst (map (\<lambda>(sc, sm). (sc, if sc = scope then f sm else sm)) xs) = map fst xs"
  by (induction xs) auto

lemma keeps_sm_scopes [keeps_intros]:
  "keeps known_scopes (sm_lookup scope)" "keeps known_scopes (sm_modify scope f)"
  "keeps known_scopes (put_acctInfo scope n ai)" "keeps known_scopes (put_addr scope k r)"
  "keeps known_scopes (delete_addr scope k)" "keeps known_scopes (add_deriveOnUnlock scope i)"
  "keeps known_scopes (load r)" "keeps known_scopes (store r a)" "keeps known_scopes (alloc a)"
  "keeps known_scopes (random m)" "keeps known_scopes (encrypt E key b)"
  by (simp_all add: keeps_def go_simps sm_modify_def put_acctInfo_def put_addr_def delete_addr_def
      add_deriveOnUnlock_def known_scopes_def known_scopes_modify encrypt_def random_def del: map_map)

lemma keeps_fetchAccountInfo [keeps_intros]:
  "keeps hooks (fetchAccountInfo (dbw E) ns scope n)" "keeps mgr (fetchAccountInfo (dbw E) ns scope n)"
  "keeps known_scopes (fetchAccountInfo (dbw E) ns scope n)"
  by (intro keeps_only_db frame_intros)+ (simp add: keeps_def known_scopes_def only_dbD frame_intros)

lemma keeps_newManagedAddress [keeps_intros]:
  "keeps hooks (newManagedAddress E s path k c t ai)" "keeps known_scopes (newManagedAddress E s path k c t ai)"
  "keeps hooks (newManagedAddressFromExtKey E s path key t ai)"
  "keeps known_scopes (newManagedAddressFromExtKey E s path key t ai)"
  unfolding newManagedAddressFromExtKey_def newManagedAddress_def Let_def by (intro keeps_intros)+

lemma keeps_keyToManaged [keeps_intros]:
  "keeps hooks (keyToManaged E scope key path ai)" "keeps known_scopes (keyToManaged E scope key path ai)"
  unfolding keyToManaged_def Let_def by (intro keeps_intros)+

lemma keeps_loadAccountInfo [keeps_intros]:
  "keeps hooks (loadAccountInfo E scope ns acct)" "keeps known_scopes (loadAccountInfo E scope ns acct)"
  unfolding loadAccountInfo_def Let_def by (intro keeps_intros)+

lemma keeps_derive_addresses [keeps_intros]:
  "keeps hooks (derive_addresses E scope acct ai acctKey branchKey br t internal n i nextIndex infos)"
proof (induction n arbitrary: i nextIndex infos)
  case (Suc n)
  show ?case unfolding derive_addresses.simps by (intro keeps_intros Suc)
qed (simp add: keeps_intros)

section \<open>Deriving addresses\<close>

text \<open>The loop does not end when the library keeps rejecting the child, and only then.\<close>

lemma derive_loop_Some:
  "derive_loop E net branchKey i n = Some r \<Longrightarrow> hd_DeriveNonStandard E branchKey i \<noteq> Err (HdError ErrInvalidChild)"
  by (erule derive_loop.raw_induct [rotated]) (fastforce split: res.splits if_splits)

lemma derive_loop_None:
  "hd_DeriveNonStandard E branchKey i = Err (HdError ErrInvalidChild) \<Longrightarrow> derive_loop E net branchKey i n = None"
  by (metis derive_loop_Some option.exhaust)

lemma derive_loop_Ok:
  "derive_loop E net branchKey i n = Some (Ok (key, n')) \<longleftrightarrow>
     n' = n + 1 \<and> (\<exists>k. hd_DeriveNonStandard E branchKey i = Ok k \<and> hd_SetNet E k net = Ok key)"
  by (subst derive_loop.simps) (auto simp: rbind_eq_Ok dest: derive_loop_Some split: res.splits)

lemma derive_addresses_length:
  assumes "derive_addresses E scope acct ai acctKey branchKey br t internal n i nextIndex infos w
      = (Ok (infos', nextIndex'), w')"
  shows "length infos' = length infos + n"
  using assms
proof (induction n arbitrary: i nextIndex infos w)
  case (Suc n)
  from Suc.prems show ?case
    by (auto simp: bnd_eq_Ok split: prod.splits dest!: Suc.IH)
qed (simp add: ret_def)

lemma store_address_not_Ok: "store_address E scope ns now acct info w \<noteq> (Ok x, w')"
  by (auto simp: store_address_def bnd_eq_Ok raise_def)

lemma nextAddresses_Ok:
  assumes "nextAddresses E scope ns now acct n internal w = (Ok rs, w')"
  shows "rs = [] \<and> n = 0 \<and> (\<exists>h. hooks w' = hooks w @ [h] \<and> ch_addressInfo h = [] \<and> ch_scope h = scope \<and> ch_account h = acct)"
proof -
  obtain ai acctKey branchKey br t nextIndex w1 infos nextIndex2 w2 wo where
      load: "loadAccountInfo E scope ns acct w = (Ok ai, w1)"
    and derive: "derive_addresses E scope acct ai acctKey branchKey br t internal (unat n) 0 nextIndex [] w1
        = (Ok (infos, nextIndex2), w2)"
    and rest: "bnd (case infos of [] \<Rightarrow> ret () | info # _ \<Rightarrow> store_address E scope ns now acct info) (\<lambda>_.
       bnd (modify (\<lambda>w. w\<lparr>hooks := hooks w @
              [\<lparr>ch_scope = scope, ch_account = acct, ch_addressInfo = infos, ch_watchOnly = wo,
                ch_internal = internal, ch_nextIndex = nextIndex2\<rparr>]\<rparr>)) (\<lambda>_.
       ret (map ud_managedAddr infos))) w2 = (Ok rs, w')"
    using assms unfolding nextAddresses_def Let_def
    by (fastforce simp: bnd_eq_Ok reads_def raise_def sm_lookup_simps deref_def ret_def panic_def
        split: option.splits if_splits prod.splits)
  have "infos = []"
    using rest by (cases infos) (auto simp: bnd_eq_Ok store_address_not_Ok)
  moreover have "hooks w2 = hooks w"
    using keepsD [OF keeps_loadAccountInfo(1), of E scope ns acct w] load derive
      keepsD [OF keeps_derive_addresses, of E scope acct ai acctKey branchKey br t internal "unat n" 0 nextIndex "[]" w1]
    by simp
  moreover have "unat n = 0" using derive_addresses_length [OF derive] \<open>infos = []\<close> by simp
  ultimately show ?thesis using rest by (auto simp: bnd_def go_simps unat_eq_zero)
qed

lemma loadAccountInfo_cached:
  assumes "map_of (scopedManagers (mgr w)) scope = Some s" and "map_of (sm_acctInfo s) acct = Some ai"
  shows "loadAccountInfo E scope ns acct w = (Ok ai, w)"
  using assms by (simp add: loadAccountInfo_def bnd_def go_simps)

lemma map_of_modify:
  "map_of (map (\<lambda>(sc, sm). (sc, if sc = scope then f sm else sm)) xs) scope = map_option f (map_of xs scope)"
  by (induction xs) auto

text \<open>A successful load leaves the record in the cache.\<close>

lemma loadAccountInfo_caches:
  assumes "loadAccountInfo E scope ns acct w = (Ok ai, w')"
  shows "loadAccountInfo E scope ns acct w' = (Ok ai, w')"
proof -
  obtain s where s: "map_of (scopedManagers (mgr w)) scope = Some s"
    using assms by (auto simp: loadAccountInfo_def bnd_eq_Ok sm_lookup_simps split: option.splits)
  show ?thesis
  proof (cases "map_of (sm_acctInfo s) acct")
    case (Some ai')
    with s assms show ?thesis using loadAccountInfo_cached [of w scope s acct ai' E ns] by simp
  next
    case None
    then obtain w2 where put: "put_acctInfo scope acct ai w2 = (Ok (), w')"
      using assms s unfolding loadAccountInfo_def Let_def
      by (auto simp: bnd_eq_Ok sm_lookup_simps ret_def)
    have "known_scopes w' = known_scopes w"
      using keepsD [OF keeps_loadAccountInfo(2), of E scope ns acct w] assms by simp
    then obtain s' where s': "map_of (scopedManagers (mgr w')) scope = Some s'"
      using s known_scopes_lookup by metis
    with put have "map_of (sm_acctInfo s') acct = Some ai"
      by (auto simp: put_acctInfo_def sm_modify_def go_simps map_of_modify update_conv')
    with s' show ?thesis by (rule loadAccountInfo_cached)
  qed
qed

lemma loadAccountInfo_scope:
  assumes "loadAccountInfo E scope ns acct w = (Ok ai, w')"
  shows "\<exists>s. map_of (scopedManagers (mgr w')) scope = Some s"
proof -
  have "known_scopes w' = known_scopes w"
    using keepsD [OF keeps_loadAccountInfo(2), of E scope ns acct w] assms by simp
  moreover have "\<exists>s. map_of (scopedManagers (mgr w)) scope = Some s"
    using assms by (auto simp: loadAccountInfo_def bnd_eq_Ok sm_lookup_simps split: option.splits)
  ultimately show ?thesis using known_scopes_lookup by metis
qed

section \<open>Properties\<close>

text \<open>C36: the inner loop of \<^verbatim>\<open>nextAddresses\<close>. It does not end exactly when the library rejects the
  child it is asked for; otherwise it derives child \<open>i\<close>, whatever index is next for the
  account, and counts that index up by one.\<close>

theorem scoped_derive_loop:
  "(derive_loop E net branchKey i nextIndex = None
      \<longleftrightarrow> hd_DeriveNonStandard E branchKey i = Err (HdError ErrInvalidChild))
   \<and> (derive_loop E net branchKey i nextIndex = Some (Ok (key, nextIndex'))
      \<longleftrightarrow> nextIndex' = nextIndex + 1
        \<and> (\<exists>k. hd_DeriveNonStandard E branchKey i = Ok k \<and> hd_SetNet E k net = Ok key))"
proof -
  have "hd_DeriveNonStandard E branchKey i = Err (HdError ErrInvalidChild)"
    if "derive_loop E net branchKey i nextIndex = None"
    using that by (subst (asm) derive_loop.simps) (auto split: res.splits if_splits)
  then show ?thesis
    using derive_loop_None [of E branchKey i net nextIndex] derive_loop_Ok [of E net branchKey i nextIndex key nextIndex']
    by auto
qed

text \<open>\<^verbatim>\<open>nextAddresses\<close> never hands out an address. The only request it grants is the one for no
  address at all; the function it then registers for the commit indexes the empty list and
  panics.\<close>

lemma scoped_next_addresses_none:
  assumes "nextAddresses E scope ns now acct n internal w = (Ok rs, w')"
  shows "n = 0 \<and> rs = []
    \<and> (\<exists>h. hooks w' = hooks w @ [h] \<and> ch_account h = acct \<and> (\<forall>v. fst (onCommit E h v) = Panic))"
  using nextAddresses_Ok [OF assms] by (auto simp: onCommit_def go_simps)

text \<open>C26: the limits on new addresses. Both entry points refuse account numbers above \<^verbatim>\<open>MaxAccountNum\<close>,
  among them that of the imported account, before anything is looked at, and otherwise do what
  \<^verbatim>\<open>nextAddresses\<close> does. That first loads the account, from the cache of the scope, which changes
  nothing, or from the database, and fails when this fails. Then a count above \<^verbatim>\<open>MaxAddressesPerAccount\<close>,
  or one that takes an index within the limit past it, is refused with nothing changed after the
  loading; the numbers are too small for the \<^verbatim>\<open>uint32\<close> sum to wrap.\<close>

theorem scoped_address_limits:
  "(acct > MaxAccountNum \<longrightarrow>
      NextExternalAddresses E scope ns now acct n w = (Err (managerError ErrAccountNumTooHigh None), w)
      \<and> NextInternalAddresses E scope ns now acct n w = (Err (managerError ErrAccountNumTooHigh None), w))
    \<and> (acct \<le> MaxAccountNum \<longrightarrow>
      NextExternalAddresses E scope ns now acct n w = nextAddresses E scope ns now acct n False w
      \<and> NextInternalAddresses E scope ns now acct n w = nextAddresses E scope ns now acct n True w)
    \<and> (loadAccountInfo E scope ns acct w = (Err e, w1) \<longrightarrow>
      nextAddresses E scope ns now acct n internal w = (Err e, w1))
    \<and> (map_of (scopedManagers (mgr w)) scope = Some s \<and> map_of (sm_acctInfo s) acct = Some ai \<longrightarrow>
      loadAccountInfo E scope ns acct w = (Ok ai, w))
    \<and> (loadAccountInfo E scope ns acct w = (Ok ai, w1)
        \<and> nextIndex = (if internal then ai_nextInternalIndex ai else ai_nextExternalIndex ai)
        \<and> (unat n > 2 ^ 31 - 1 \<or> unat nextIndex \<le> 2 ^ 31 - 1 \<and> unat nextIndex + unat n > 2 ^ 31 - 1) \<longrightarrow>
      nextAddresses E scope ns now acct n internal w = (Err (managerError ErrTooManyAddresses None), w1))"
proof (intro conjI impI)
  assume load: "loadAccountInfo E scope ns acct w = (Ok ai, w1)
        \<and> nextIndex = (if internal then ai_nextInternalIndex ai else ai_nextExternalIndex ai)
        \<and> (unat n > 2 ^ 31 - 1 \<or> unat nextIndex \<le> 2 ^ 31 - 1 \<and> unat nextIndex + unat n > 2 ^ 31 - 1)"
  then have "n > MaxAddressesPerAccount \<or> nextIndex + n > MaxAddressesPerAccount"
    by (auto simp: key_limits word_less_nat_alt unat_plus_if')
  moreover obtain s where "map_of (scopedManagers (mgr w1)) scope = Some s"
    using loadAccountInfo_scope load by blast
  ultimately show "nextAddresses E scope ns now acct n internal w = (Err (managerError ErrTooManyAddresses None), w1)"
    using load by (simp add: nextAddresses_def Let_def bnd_def go_simps)
next
  assume "map_of (scopedManagers (mgr w)) scope = Some s \<and> map_of (sm_acctInfo s) acct = Some ai"
  then show "loadAccountInfo E scope ns acct w = (Ok ai, w)" by (intro loadAccountInfo_cached) auto
qed (auto simp: NextExternalAddresses_def NextInternalAddresses_def nextAddresses_def raise_def bnd_def)

text \<open>The properties of an ordinary account cannot be read in a default scope:
  \<^verbatim>\<open>AccountProperties\<close> fails on every account of the default type there, and its result for the
  imported account is the reserved name with the number of imported rows.\<close>

lemma scoped_account_properties:
  assumes "IsDefaultScope scope" and "acct \<noteq> ImportedAddrAccount"
    and "loadAccountInfo E scope ns acct w = (Ok ai, w')"
  shows "(ai_acctType ai = accountDefault \<longrightarrow> AccountProperties_of E scope ns acct w
      = (Err (Errorf ''failed to retrieve account public key''), w'))
    \<and> (ai_acctType ai \<noteq> accountDefault \<longrightarrow> (\<exists>props. AccountProperties_of E scope ns acct w = (Ok props, w')
        \<and> AccountName props = ai_acctName ai \<and> AccountPubKey props = ai_acctKeyPub ai
        \<and> ExternalKeyCount props = ai_nextExternalIndex ai \<and> InternalKeyCount props = ai_nextInternalIndex ai))"
  using assms
  by (simp add: AccountProperties_of_def bnd_def go_simps cloneKeyWithVersion_def wrap_err_def)

text \<open>A running manager with one account in its cache.\<close>

definition example_account :: "nat accountInfo" where
  "example_account =
     \<lparr>ai_acctName = defaultAccountName, ai_acctType = accountDefault, ai_acctKeyEncrypted = [1],
      ai_acctKeyPriv = Some 5, ai_acctKeyPub = Some 5, ai_nextExternalIndex = 7, ai_lastExternalAddr = None,
      ai_nextInternalIndex = 0, ai_lastInternalAddr = None, ai_addrSchema = None, ai_masterKeyFingerprint = 0\<rparr>"

definition example_scoped :: "nat ScopedKeyManager" where
  "example_scoped =
     \<lparr>sm_scope = KeyScopeBIP0084, sm_addrSchema = \<lparr>ExternalAddrType = WitnessPubKey, InternalAddrType = WitnessPubKey\<rparr>,
      sm_addrs = [], sm_acctInfo = [(0, example_account)], sm_deriveOnUnlock = []\<rparr>"

definition example_running :: "(nat, nat, nat, nat, mem) world" where
  "example_running = example_world\<lparr>mgr := example_mgr\<lparr>scopedManagers := [(KeyScopeBIP0084, example_scoped)]\<rparr>\<rparr>"

lemma example_running_lookup:
  "map_of (scopedManagers (mgr example_running)) KeyScopeBIP0084 = Some example_scoped"
  "map_of (sm_acctInfo example_scoped) 0 = Some example_account"
  by (simp_all add: example_running_def example_scoped_def)

lemma example_running_unlocked: "\<not> locked (mgr example_running)" "\<not> watchingOnly (mgr example_running)"
  by (simp_all add: example_running_def example_mgr_def)

lemmas example_running_load = loadAccountInfo_cached [OF example_running_lookup]

lemma scoped_next_addresses_none_example:
  "\<exists>(w' :: (nat, nat, nat, nat, mem) world) h. hooks w' = hooks example_running @ [h] \<and> fst (onCommit example_hd h example_running) = Panic"
proof -
  obtain w' where ok: "nextAddresses example_hd KeyScopeBIP0084 example_ns 0 0 0 False example_running = (Ok [], w')"
    by (simp add: nextAddresses_def Let_def bnd_def go_simps example_running_load example_running_lookup example_running_unlocked
        example_account_def example_hd_def key_limits as_error_def wrap_err_def)
  from scoped_next_addresses_none [OF ok] show ?thesis by metis
qed

theorem scoped_address_limits_witness:
  "nextAddresses example_hd KeyScopeBIP0084 example_ns 0 0 0x7FFFFFFF False example_running
     = (Err (managerError ErrTooManyAddresses None), example_running)
   \<and> NextExternalAddresses example_hd KeyScopeBIP0084 example_ns 0 0x7FFFFFFF 1 example_running
     = (Err (managerError ErrAccountNumTooHigh None), example_running)"
proof -
  have "(0x7FFFFFFF :: u32) > MaxAccountNum" by (simp add: key_limits)
  then have "NextExternalAddresses example_hd KeyScopeBIP0084 example_ns 0 0x7FFFFFFF 1 example_running
     = (Err (managerError ErrAccountNumTooHigh None), example_running)"
    using scoped_address_limits [where acct = "0x7FFFFFFF" and n = 1 and w = example_running] by blast
  moreover have "unat (0x7FFFFFFF :: u32) > 2 ^ 31 - 1 \<or> unat (ai_nextExternalIndex example_account) \<le> 2 ^ 31 - 1
      \<and> unat (ai_nextExternalIndex example_account) + unat (0x7FFFFFFF :: u32) > 2 ^ 31 - 1"
    by (simp add: example_account_def)
  then have "nextAddresses example_hd KeyScopeBIP0084 example_ns 0 0 0x7FFFFFFF False example_running
     = (Err (managerError ErrTooManyAddresses None), example_running)"
    using scoped_address_limits [where acct = 0 and n = "0x7FFFFFFF" and w = example_running and ai = example_account
        and ?w1.0 = example_running and internal = False and nextIndex = "ai_nextExternalIndex example_account"]
      example_running_load [of example_hd example_ns] by (metis (full_types))
  ultimately show ?thesis by blast
qed

lemma scoped_account_properties_example:
  "AccountProperties_of example_hd KeyScopeBIP0084 example_ns 0 example_running
     = (Err (Errorf ''failed to retrieve account public key''), example_running)"
proof -
  have "IsDefaultScope KeyScopeBIP0084" "(0 :: u32) \<noteq> ImportedAddrAccount"
    by (simp_all add: IsDefaultScope_def DefaultKeyScopes_def key_limits)
  from scoped_account_properties [OF this example_running_load] show ?thesis
    by (simp add: example_account_def)
qed

end
