(* ===== verification/Manager.thy ===== *)
theory Manager
  imports ScopedManager
begin

text \<open>
  \<^verbatim>\<open>waddrmgr/manager.go\<close>: creating the manager's namespace, opening it, locking, unlocking, and
  adding a key scope.
\<close>

section \<open>Creating\<close>

text \<open>\<^verbatim>\<open>ScryptOptions\<close>; \<^verbatim>\<open>int\<close> is 64 bits wide.\<close>

record ScryptOptions =
  opt_N :: goint
  opt_R :: goint
  opt_P :: goint

definition DefaultScryptOptions :: ScryptOptions where
  "DefaultScryptOptions = \<lparr>opt_N = 262144, opt_R = 8, opt_P = 1\<rparr>"

definition FastScryptOptions :: ScryptOptions where
  "FastScryptOptions = \<lparr>opt_N = 16, opt_R = 8, opt_P = 1\<rparr>"

definition newSecretKey ::
  "('k, 'sk, 'pk, 'a, 'n, 's) env \<Rightarrow> bytes \<Rightarrow> ScryptOptions \<Rightarrow> (('s, 'z) base_scheme, SecretKey) go" where
  "newSecretKey E passphrase config =
     random (NewSecretKey (env_crypto E) passphrase (opt_N config) (opt_R config) (opt_P config))"

definition newCryptoKey :: "(('s, 'z) base_scheme, bytes) go" where
  "newCryptoKey = random defaultNewCryptoKey"

definition secret_encrypt ::
  "('k, 'sk, 'pk, 'a, 'n, 's) env \<Rightarrow> SecretKey \<Rightarrow> bytes \<Rightarrow> (('s, 'z) base_scheme, bytes) go" where
  "secret_encrypt E sk inp = random (SecretKey_Encrypt (env_crypto E) sk inp)"

definition managerExists :: "('k, 'sk, 'pk, 'a, 'n, 's) env \<Rightarrow> bkt option \<Rightarrow> (('s, 'z) base_scheme, bool) go" where
  "managerExists E ns = (case ns of
      None \<Rightarrow> ret False
    | Some ns \<Rightarrow> bnd (NestedReadBucket (dbw E) ns mainBucketName) (\<lambda>mainBucket. ret (mainBucket \<noteq> None)))"

text \<open>Errors of the library that mean an unusable seed.\<close>

definition unusable_seed :: "'x result \<Rightarrow> 'x result" where
  "unusable_seed r = map_err (\<lambda>err.
     if err = HdError ErrInvalidChild
     then managerError ErrKeyChain (Some (HdError ErrUnusableSeed)) else err) r"

definition createManagerKeyScope ::
  "('k, 'sk, 'pk, 'a, 'n, 's) env \<Rightarrow> bkt \<Rightarrow> KeyScope \<Rightarrow> 'k \<Rightarrow> bytes \<Rightarrow> bytes
   \<Rightarrow> (('s, 'z) base_scheme, unit) go" where
  "createManagerKeyScope E ns scope root keyPub keyPriv =
     bnd (as_error ErrKeyChain (lift (deriveCoinTypeKey E root scope))) (\<lambda>coinTypeKeyPriv.
     bnd (lift (unusable_seed (deriveAccountKey E coinTypeKeyPriv 0))) (\<lambda>acctKeyPriv.
     bnd (lift (unusable_seed (checkBranchKeys E acctKeyPriv))) (\<lambda>_.
     bnd (as_error ErrKeyChain (lift (hd_Neuter E acctKeyPriv))) (\<lambda>acctKeyPub.
     bnd (as_error ErrKeyChain (lift (hd_Neuter E coinTypeKeyPriv))) (\<lambda>coinTypeKeyPub.
     bnd (as_error ErrCrypto (encrypt E keyPub (hd_String E coinTypeKeyPub))) (\<lambda>coinTypePubEnc.
     bnd (as_error ErrCrypto (encrypt E keyPriv (hd_String E coinTypeKeyPriv))) (\<lambda>coinTypePrivEnc.
     bnd (as_error ErrCrypto (encrypt E keyPub (hd_String E acctKeyPub))) (\<lambda>acctPubEnc.
     bnd (as_error ErrCrypto (encrypt E keyPriv (hd_String E acctKeyPriv))) (\<lambda>acctPrivEnc.
     bnd (putCoinTypeKeys (dbw E) ns scope (Some coinTypePubEnc) (Some coinTypePrivEnc)) (\<lambda>_.
     bnd (putDefaultAccountInfo (dbw E) ns scope DefaultAccountNum acctPubEnc acctPrivEnc 0 0
            defaultAccountName) (\<lambda>_.
     putDefaultAccountInfo (dbw E) ns scope ImportedAddrAccount [] [] 0 0 ImportedAddrAccountName)))))))))))"

text \<open>
  The part of \<^verbatim>\<open>Create\<close> for a manager that has a root key: the private side of the keys, every
  default scope, and the root key itself. It returns what is stored afterwards.
\<close>

definition create_private ::
  "('k, 'sk, 'pk, 'a, 'n, 's) env \<Rightarrow> bkt \<Rightarrow> 'k \<Rightarrow> bytes \<Rightarrow> ScryptOptions \<Rightarrow> bytes
   \<Rightarrow> (('s, 'z) base_scheme, bytes \<times> bytes \<times> bytes) go" where
  "create_private E ns rootKey privPassphrase config keyPub =
     bnd (as_error ErrCrypto (newSecretKey E privPassphrase config)) (\<lambda>mkPriv.
     bnd (as_error ErrCrypto (random (read_random saltSize))) (\<lambda>salt.
     bnd (as_error ErrCrypto newCryptoKey) (\<lambda>keyPriv.
     bnd (as_error ErrCrypto newCryptoKey) (\<lambda>keyScript.
     bnd (as_error ErrCrypto (secret_encrypt E mkPriv (cryptoKey_Bytes keyPriv))) (\<lambda>privEnc.
     bnd (as_error ErrCrypto (secret_encrypt E mkPriv (cryptoKey_Bytes keyScript))) (\<lambda>scriptEnc.
     bnd (as_error ErrKeyChain (lift (hd_Neuter E rootKey))) (\<lambda>rootPubKey.
     bnd (for_each (\<lambda>scope. wrap_err maybeConvertDbError
            (createManagerKeyScope E ns scope rootKey keyPub keyPriv)) DefaultKeyScopes) (\<lambda>_.
     bnd (wrap_err maybeConvertDbError (encrypt E keyPriv (hd_String E rootKey))) (\<lambda>hdPrivEnc.
     bnd (wrap_err maybeConvertDbError (encrypt E keyPub (hd_String E rootPubKey))) (\<lambda>hdPubEnc.
     bnd (wrap_err maybeConvertDbError (putMasterHDKeys (dbw E) ns (Some hdPrivEnc) (Some hdPubEnc))) (\<lambda>_.
     ret (SecretKey_Marshal mkPriv, privEnc, scriptEnc))))))))))))"

text \<open>
  \<open>rootKey = None\<close> makes a watching-only manager. \<open>scopeOrder\<close> is the order in which the map
  \<^verbatim>\<open>ScopeAddrMap\<close> is iterated, \<open>now\<close> the time of the call, \<open>birthday\<close> the Unix seconds of the
  birthday; 48 hours are subtracted before it is stored.
\<close>

definition Create ::
  "('k, 'sk, 'pk, 'a, 'n, 's) env \<Rightarrow> bkt \<Rightarrow> 'k option \<Rightarrow> bytes \<Rightarrow> bytes \<Rightarrow> ScryptOptions option
   \<Rightarrow> u64 \<Rightarrow> (KeyScope \<times> ScopeAddrSchema) list \<Rightarrow> u64 \<Rightarrow> (('s, 'z) base_scheme, unit) go" where
  "Create E ns rootKey pubPassphrase privPassphrase config birthday scopeOrder now =
     (let isWatchingOnly = (rootKey = None) in
      bnd (managerExists E (Some ns)) (\<lambda>exists.
      if exists then raise (managerError ErrAlreadyExists None)
      else if \<not> isWatchingOnly \<and> length privPassphrase = 0
      then raise (managerError ErrEmptyPassphrase None)
      else
        bnd (wrap_err maybeConvertDbError
               (createManagerNS (dbw E) ns (if isWatchingOnly then [] else scopeOrder) now)) (\<lambda>_.
        let config = (case config of None \<Rightarrow> DefaultScryptOptions | Some c \<Rightarrow> c) in
        bnd (as_error ErrCrypto (newSecretKey E pubPassphrase config)) (\<lambda>mkPub.
        bnd (as_error ErrCrypto newCryptoKey) (\<lambda>keyPub.
        bnd (as_error ErrCrypto (secret_encrypt E mkPub (cryptoKey_Bytes keyPub))) (\<lambda>pubEnc.
        let pubParams = SecretKey_Marshal mkPub in
        bnd (case rootKey of
               None \<Rightarrow> ret (None, None, None)
             | Some rootKey \<Rightarrow>
                 bnd (create_private E ns rootKey privPassphrase config keyPub)
                   (\<lambda>(privParams, privEnc, scriptEnc). ret (Some privParams, Some privEnc, Some scriptEnc)))
          (\<lambda>(privParams, privEnc, scriptEnc).
        bnd (wrap_err maybeConvertDbError
               (putMasterKeyParams (dbw E) ns (Some pubParams) privParams)) (\<lambda>_.
        bnd (wrap_err maybeConvertDbError
               (putCryptoKeys (dbw E) ns (Some pubEnc) privEnc scriptEnc)) (\<lambda>_.
        bnd (wrap_err maybeConvertDbError (putWatchingOnly (dbw E) ns isWatchingOnly)) (\<lambda>_.
        putBirthday (dbw E) ns (birthday - 48 * 60 * 60)))))))))))"

section \<open>Opening\<close>

definition new_scoped :: "KeyScope \<Rightarrow> ScopeAddrSchema \<Rightarrow> 'k ScopedKeyManager" where
  "new_scoped scope sch =
     \<lparr>sm_scope = scope, sm_addrSchema = sch, sm_addrs = [], sm_acctInfo = [], sm_deriveOnUnlock = []\<rparr>"

text \<open>\<^verbatim>\<open>m[t] = append(m[t], scope)\<close>.\<close>

definition append_schema :: "AddressType \<Rightarrow> KeyScope \<Rightarrow> (AddressType \<Rightarrow> KeyScope list) \<Rightarrow> AddressType \<Rightarrow> KeyScope list" where
  "append_schema t scope m = m(t := m t @ [scope])"

text \<open>\<^verbatim>\<open>newManager\<close> does not store the chain parameters nor the birthday it is given.\<close>

definition newManager ::
  "'n option \<Rightarrow> SecretKey \<Rightarrow> SecretKey \<Rightarrow> bytes \<Rightarrow> bytes \<Rightarrow> bytes \<Rightarrow> u64 \<Rightarrow> bytes
   \<Rightarrow> (KeyScope \<times> 'k ScopedKeyManager) list \<Rightarrow> bool \<Rightarrow> ('k, 'n) Manager" where
  "newManager params mkPub mkPriv keyPub keyPrivEncrypted keyScriptEncrypted birthday salt scoped wo =
     fold (\<lambda>(_, sMgr) m.
         m\<lparr>externalAddrSchemas := append_schema (ExternalAddrType (sm_addrSchema sMgr)) (sm_scope sMgr)
             (externalAddrSchemas m),
           internalAddrSchemas := append_schema (InternalAddrType (sm_addrSchema sMgr)) (sm_scope sMgr)
             (internalAddrSchemas m)\<rparr>)
       scoped
       \<lparr>chainParams = None, scopedManagers = scoped, externalAddrSchemas = (\<lambda>_. []),
        internalAddrSchemas = (\<lambda>_. []), watchingOnly = wo, masterKeyPub = mkPub, masterKeyPriv = mkPriv,
        cryptoKeyPub = keyPub, cryptoKeyPriv = make_bytes KeySize,
        cryptoKeyPrivEncrypted = keyPrivEncrypted, cryptoKeyScript = make_bytes KeySize,
        cryptoKeyScriptEncrypted = keyScriptEncrypted, privPassphraseSalt = salt,
        hashedPrivPassphrase = make_bytes 64, locked = True, closed = False\<rparr>"

text \<open>The map of scoped managers that the callback of \<^verbatim>\<open>forEachKeyScope\<close> fills.\<close>

record ('k, 's) loading = "'s base" +
  loaded :: "(KeyScope \<times> 'k ScopedKeyManager) list"

definition load_scope ::
  "('k, 'sk, 'pk, 'a, 'n, 's) env \<Rightarrow> bkt \<Rightarrow> KeyScope \<Rightarrow> (('k, 's) loading, unit) go" where
  "load_scope E ns scope =
     bnd (fetchScopeAddrSchema (dbw E) ns scope) (\<lambda>scopeSchema.
     modify (\<lambda>l. l\<lparr>loaded := AList.update scope (new_scoped scope scopeSchema) (loaded l)\<rparr>))"

definition load_scopes ::
  "('k, 'sk, 'pk, 'a, 'n, 's) env \<Rightarrow> bkt
   \<Rightarrow> (('s, 'z) base_scheme, (KeyScope \<times> 'k ScopedKeyManager) list) go" where
  "load_scopes E ns = (\<lambda>w.
     case forEachKeyScope (dbw E) ns (load_scope E ns) \<lparr>db = db w, rng = rng w, loaded = []\<rparr> of
       (r, l) \<Rightarrow> (rbind r (\<lambda>_. Ok (loaded l)), w\<lparr>db := db l, rng := rng l\<rparr>))"

text \<open>A \<^verbatim>\<open>SecretKey\<close> variable is a zero value until it is unmarshalled.\<close>

definition zero_SecretKey :: SecretKey where
  "zero_SecretKey = \<lparr>Key = None, Params = \<lparr>Salt = make_bytes 32, Digest = make_bytes 32, N = 0, R = 0, P = 0\<rparr>\<rparr>"

definition unmarshal :: "bytes \<Rightarrow> SecretKey result" where
  "unmarshal b = (case SecretKey_Unmarshal b zero_SecretKey of (r, sk) \<Rightarrow> rbind r (\<lambda>_. Ok sk))"

definition opt_bytes :: "bytes option \<Rightarrow> bytes" where
  "opt_bytes b = (case b of None \<Rightarrow> [] | Some b \<Rightarrow> b)"

definition loadManager ::
  "('k, 'sk, 'pk, 'a, 'n, 's) env \<Rightarrow> bkt \<Rightarrow> bytes \<Rightarrow> 'n option
   \<Rightarrow> (('s, 'z) base_scheme, ('k, 'n) Manager) go" where
  "loadManager E ns pubPassphrase params =
     bnd (as_error ErrDatabase (fetchManagerVersion (dbw E) ns)) (\<lambda>version.
     if version < latestMgrVersion then raise (managerError ErrUpgrade None)
     else if version > latestMgrVersion then raise (managerError ErrUpgrade None)
     else
       bnd (wrap_err maybeConvertDbError (fetchWatchingOnly (dbw E) ns)) (\<lambda>wo.
       bnd (wrap_err maybeConvertDbError (fetchMasterKeyParams (dbw E) ns)) (\<lambda>(pubParams, privParams).
       bnd (wrap_err maybeConvertDbError (fetchCryptoKeys (dbw E) ns)) (\<lambda>(pubEnc, privEnc, scriptEnc).
       bnd (wrap_err maybeConvertDbError (fetchBirthday (dbw E) ns)) (\<lambda>birthday.
       bnd (if \<not> wo then as_error ErrCrypto (lift (unmarshal (opt_bytes privParams)))
            else ret zero_SecretKey) (\<lambda>mkPriv.
       bnd (as_error ErrCrypto (lift (unmarshal pubParams))) (\<lambda>mkPub.
       let (derived, mkPub) = SecretKey_DeriveKey (env_crypto E) pubPassphrase mkPub in
       bnd (as_error ErrWrongPassphrase (lift derived)) (\<lambda>_.
       bnd (as_error ErrCrypto (lift (SecretKey_Decrypt (env_crypto E) mkPub pubEnc))) (\<lambda>keyPubCT.
       let keyPub = cryptoKey_CopyBytes (make_bytes KeySize) keyPubCT in
       bnd (as_error ErrCrypto (random (read_random saltSize))) (\<lambda>salt.
       bnd (load_scopes E ns) (\<lambda>scoped.
       ret (newManager params mkPub mkPriv keyPub (opt_bytes privEnc) (opt_bytes scriptEnc) birthday salt
              scoped wo))))))))))))"

definition Open ::
  "('k, 'sk, 'pk, 'a, 'n, 's) env \<Rightarrow> bkt option \<Rightarrow> bytes \<Rightarrow> 'n option
   \<Rightarrow> (('s, 'z) base_scheme, ('k, 'n) Manager) go" where
  "Open E ns pubPassphrase params =
     bnd (managerExists E ns) (\<lambda>exists.
     if \<not> exists then raise (managerError ErrNoExist None)
     else bnd (deref ns) (\<lambda>ns. loadManager E ns pubPassphrase params))"

section \<open>Locking\<close>

definition Manager_Close :: "(('k, 'pk, 'a, 'n, 's) world, unit) go" where
  "Manager_Close = modify (\<lambda>w. w\<lparr>mgr := (mgr w)\<lparr>closed := True\<rparr>\<rparr>)"

definition WatchOnly :: "('k, 'n) Manager \<Rightarrow> bool" where
  "WatchOnly m = watchingOnly m"

definition IsLocked :: "('k, 'n) Manager \<Rightarrow> bool" where
  "IsLocked m = locked m"

definition lock_account :: "'k accountInfo \<Rightarrow> 'k accountInfo" where
  "lock_account ai = ai\<lparr>ai_acctKeyPriv := None\<rparr>"

definition lock_accounts :: "('k, 'n) Manager \<Rightarrow> ('k, 'n) Manager" where
  "lock_accounts m = m\<lparr>scopedManagers := map (\<lambda>(sc, sm).
     (sc, sm\<lparr>sm_acctInfo := map (\<lambda>(n, ai). (n, lock_account ai)) (sm_acctInfo sm)\<rparr>)) (scopedManagers m)\<rparr>"

text \<open>The type switch of \<^verbatim>\<open>lock\<close> has no case for witness script and taproot script addresses.\<close>

definition lock_address :: "('pk, 'a) ManagedAddress \<Rightarrow> ('pk, 'a) ManagedAddress" where
  "lock_address m = (case m of
      PubKeyAddr a \<Rightarrow> PubKeyAddr (managedAddress_lock a)
    | ScriptAddr a \<Rightarrow> ScriptAddr (a\<lparr>sa_base := baseScript_lock (sa_base a)\<rparr>)
    | _ \<Rightarrow> m)"

definition cached_addresses :: "('k, 'n) Manager \<Rightarrow> addr_ref list" where
  "cached_addresses m = concat (map (\<lambda>(_, sm). map snd (sm_addrs sm)) (scopedManagers m))"

definition lock_addresses :: "addr_ref list \<Rightarrow> ('pk, 'a) ManagedAddress list \<Rightarrow> ('pk, 'a) ManagedAddress list" where
  "lock_addresses rs h = fold (\<lambda>r h. if r < length h then h[r := lock_address (h ! r)] else h) rs h"

text \<open>\<^verbatim>\<open>masterKeyPriv.Zero()\<close> panics on a key that was never unmarshalled.\<close>

definition Manager_lock :: "(('k, 'pk, 'a, 'n, 's) world, unit) go" where
  "Manager_lock =
     bnd (modify (\<lambda>w. w\<lparr>mgr := lock_accounts (mgr w)\<rparr>)) (\<lambda>_.
     bnd (modify (\<lambda>w. w\<lparr>heap := lock_addresses (cached_addresses (mgr w)) (heap w)\<rparr>)) (\<lambda>_.
     bnd (modify (\<lambda>w. w\<lparr>mgr := (mgr w)\<lparr>cryptoKeyScript := CryptoKey_Zero (cryptoKeyScript (mgr w)),
            cryptoKeyPriv := CryptoKey_Zero (cryptoKeyPriv (mgr w))\<rparr>\<rparr>)) (\<lambda>_.
     bnd (zoom (\<lambda>w. masterKeyPriv (mgr w)) (\<lambda>sk w. w\<lparr>mgr := (mgr w)\<lparr>masterKeyPriv := sk\<rparr>\<rparr>) SecretKey_Zero) (\<lambda>_.
     modify (\<lambda>w. w\<lparr>mgr := (mgr w)\<lparr>hashedPrivPassphrase := zero_Bytea64 (hashedPrivPassphrase (mgr w)),
       locked := True\<rparr>\<rparr>)))))"

definition Lock :: "(('k, 'pk, 'a, 'n, 's) world, unit) go" where
  "Lock =
     bnd (reads mgr) (\<lambda>m.
     if watchingOnly m then raise (managerError ErrWatchingOnly None)
     else if locked m then raise (managerError ErrLocked None)
     else Manager_lock)"

section \<open>Unlocking\<close>

text \<open>\<^verbatim>\<open>if err != nil { m.lock(); return h(err) }\<close>.\<close>

definition or_lock ::
  "(go_error \<Rightarrow> go_error) \<Rightarrow> (('k, 'pk, 'a, 'n, 's) world, 'x) go \<Rightarrow> (('k, 'pk, 'a, 'n, 's) world, 'x) go" where
  "or_lock h m = catch_err m (\<lambda>err. bnd Manager_lock (\<lambda>_. raise (h err)))"

text \<open>
  \<^verbatim>\<open>append(m.privPassphraseSalt[:], passphrase...)\<close>, hashed and then zeroed: for an empty
  passphrase the slice is the salt's own array, and the salt is zeroed with it.
\<close>

definition salted_hash ::
  "('k, 'sk, 'pk, 'a, 'n, 's) env \<Rightarrow> bytes \<Rightarrow> (('k, 'pk, 'a, 'n, 's) world, bytes) go" where
  "salted_hash E passphrase =
     bnd (reads (\<lambda>w. privPassphraseSalt (mgr w))) (\<lambda>salt.
     let hashed = sha512_Sum512 (env_crypto E) (salt @ passphrase) in
     bnd (if passphrase = []
          then modify (\<lambda>w. w\<lparr>mgr := (mgr w)\<lparr>privPassphraseSalt := zero_Bytes (privPassphraseSalt (mgr w))\<rparr>\<rparr>)
          else ret ()) (\<lambda>_.
     ret hashed))"

definition unlock_account ::
  "('k, 'sk, 'pk, 'a, 'n, 's) env \<Rightarrow> KeyScope \<Rightarrow> u32 \<Rightarrow> (('k, 'pk, 'a, 'n, 's) world, unit) go" where
  "unlock_account E scope acct =
     bnd (sm_lookup scope) (\<lambda>sm.
     bnd (deref (map_of (sm_acctInfo sm) acct)) (\<lambda>ai.
     bnd (reads mgr) (\<lambda>m.
     bnd (or_lock (\<lambda>err. managerError ErrCrypto (Some err))
            (lift (decrypt E (cryptoKeyPriv m) (ai_acctKeyEncrypted ai)))) (\<lambda>decrypted.
     bnd (or_lock (\<lambda>err. managerError ErrKeyChain (Some err))
            (lift (hd_NewKeyFromString E decrypted))) (\<lambda>acctKeyPriv.
     put_acctInfo scope acct (ai\<lparr>ai_acctKeyPriv := Some acctKeyPriv\<rparr>))))))"

text \<open>The error of \<^verbatim>\<open>ECPrivKey\<close> is ignored: its key is nil then.\<close>

definition unlock_derived ::
  "('k, 'sk, 'pk, 'a, 'n, 's) env \<Rightarrow> bkt \<Rightarrow> KeyScope \<Rightarrow> unlockDeriveInfo
   \<Rightarrow> (('k, 'pk, 'a, 'n, 's) world, unit) go" where
  "unlock_derived E ns scope info =
     bnd (load (ud_managedAddr info)) (\<lambda>ma.
     bnd (or_lock id (deriveKeyFromPath E scope ns (InternalAccount ma) (ud_branch info) (ud_index info) True))
       (\<lambda>(addressKey, _, _).
     bnd (case hd_ECPrivKey E addressKey of Ok k \<Rightarrow> ret k | Hang \<Rightarrow> hang | _ \<Rightarrow> panic) (\<lambda>privKey.
     let privKeyBytes = ec_Serialize E privKey in
     bnd (reads mgr) (\<lambda>m.
     bnd (or_lock (\<lambda>err. managerError ErrCrypto (Some err)) (encrypt E (cryptoKeyPriv m) privKeyBytes))
       (\<lambda>privKeyEncrypted.
     bnd (load (ud_managedAddr info)) (\<lambda>ma.
     bnd (case ma of
            PubKeyAddr a \<Rightarrow> store (ud_managedAddr info)
              (PubKeyAddr (a\<lparr>ma_privKeyEncrypted := privKeyEncrypted, ma_privKeyCT := privKeyBytes\<rparr>))
          | _ \<Rightarrow> ret ()) (\<lambda>_.
     sm_modify scope (\<lambda>sm. sm\<lparr>sm_deriveOnUnlock := tl (sm_deriveOnUnlock sm)\<rparr>))))))))"

definition unlock_scope ::
  "('k, 'sk, 'pk, 'a, 'n, 's) env \<Rightarrow> bkt \<Rightarrow> KeyScope \<Rightarrow> (('k, 'pk, 'a, 'n, 's) world, unit) go" where
  "unlock_scope E ns scope =
     bnd (sm_lookup scope) (\<lambda>sm.
     bnd (for_each (unlock_account E scope) (map fst (sm_acctInfo sm))) (\<lambda>_.
     bnd (sm_lookup scope) (\<lambda>sm.
     for_each (unlock_derived E ns scope) (sm_deriveOnUnlock sm))))"

text \<open>An unlocked manager compares the hash of the passphrase with the one it keeps.\<close>

definition recheck_passphrase ::
  "('k, 'sk, 'pk, 'a, 'n, 's) env \<Rightarrow> bytes \<Rightarrow> bytes \<Rightarrow> (('k, 'pk, 'a, 'n, 's) world, unit) go" where
  "recheck_passphrase E passphrase expected =
     bnd (salted_hash E passphrase) (\<lambda>hashed.
     if hashed \<noteq> expected
     then bnd Manager_lock (\<lambda>_. raise (managerError ErrWrongPassphrase None))
     else ret ())"

text \<open>A locked one derives the master key and decrypts what depends on it.\<close>

definition unlock_keys ::
  "('k, 'sk, 'pk, 'a, 'n, 's) env \<Rightarrow> bytes \<Rightarrow> (('k, 'pk, 'a, 'n, 's) world, unit) go" where
  "unlock_keys E passphrase =
     bnd (or_lock (\<lambda>err. if err = SnaclError ErrInvalidPassword then managerError ErrWrongPassphrase None
                        else managerError ErrCrypto (Some err))
            (zoom (\<lambda>w. masterKeyPriv (mgr w)) (\<lambda>sk w. w\<lparr>mgr := (mgr w)\<lparr>masterKeyPriv := sk\<rparr>\<rparr>)
              (SecretKey_DeriveKey (env_crypto E) passphrase))) (\<lambda>_.
     bnd (reads mgr) (\<lambda>m.
     bnd (or_lock (\<lambda>err. managerError ErrCrypto (Some err))
            (lift (SecretKey_Decrypt (env_crypto E) (masterKeyPriv m) (cryptoKeyPrivEncrypted m)))) (\<lambda>decryptedKey.
     modify (\<lambda>w. w\<lparr>mgr := (mgr w)\<lparr>cryptoKeyPriv :=
       cryptoKey_CopyBytes (cryptoKeyPriv (mgr w)) decryptedKey\<rparr>\<rparr>))))"

definition finish_unlock ::
  "('k, 'sk, 'pk, 'a, 'n, 's) env \<Rightarrow> bytes \<Rightarrow> (('k, 'pk, 'a, 'n, 's) world, unit) go" where
  "finish_unlock E passphrase =
     bnd (modify (\<lambda>w. w\<lparr>mgr := (mgr w)\<lparr>locked := False\<rparr>\<rparr>)) (\<lambda>_.
     bnd (salted_hash E passphrase) (\<lambda>hashed.
     modify (\<lambda>w. w\<lparr>mgr := (mgr w)\<lparr>hashedPrivPassphrase := hashed\<rparr>\<rparr>)))"

definition Unlock ::
  "('k, 'sk, 'pk, 'a, 'n, 's) env \<Rightarrow> bkt \<Rightarrow> bytes \<Rightarrow> (('k, 'pk, 'a, 'n, 's) world, unit) go" where
  "Unlock E ns passphrase =
     bnd (reads mgr) (\<lambda>m.
     if watchingOnly m then raise (managerError ErrWatchingOnly None)
     else if \<not> locked m then recheck_passphrase E passphrase (hashedPrivPassphrase m)
     else
       bnd (unlock_keys E passphrase) (\<lambda>_.
       bnd (for_each (unlock_scope E ns) (map fst (scopedManagers m))) (\<lambda>_.
       finish_unlock E passphrase)))"

section \<open>Key scopes\<close>

definition FetchScopedKeyManager :: "KeyScope \<Rightarrow> (('k, 'pk, 'a, 'n, 's) world, KeyScope) go" where
  "FetchScopedKeyManager scope =
     bnd (reads (\<lambda>w. map_of (scopedManagers (mgr w)) scope)) (\<lambda>sm. case sm of
       None \<Rightarrow> raise (managerError ErrScopeNotFound None)
     | Some _ \<Rightarrow> ret scope)"

definition root_private_key ::
  "('k, 'sk, 'pk, 'a, 'n, 's) env \<Rightarrow> bkt \<Rightarrow> ('k, 'n) Manager \<Rightarrow> (('k, 'pk, 'a, 'n, 's) world, 'k) go" where
  "root_private_key E ns m =
     (if locked m then raise (managerError ErrLocked None)
      else
        bnd (fetchMasterHDKeys (dbw E) ns) (\<lambda>(masterRootPrivEnc, _).
        case masterRootPrivEnc of
          None \<Rightarrow> raise (managerError ErrWatchingOnly None)
        | Some enc \<Rightarrow>
            bnd (as_error ErrCrypto (lift (decrypt E (cryptoKeyPriv m) enc))) (\<lambda>serialized.
            as_error ErrCrypto (lift (hd_NewKeyFromString E serialized)))))"

definition NewScopedKeyManager ::
  "('k, 'sk, 'pk, 'a, 'n, 's) env \<Rightarrow> bkt \<Rightarrow> KeyScope \<Rightarrow> ScopeAddrSchema
   \<Rightarrow> (('k, 'pk, 'a, 'n, 's) world, KeyScope) go" where
  "NewScopedKeyManager E ns scope addrSchema =
     bnd (reads mgr) (\<lambda>m.
     bnd (if \<not> watchingOnly m then bnd (root_private_key E ns m) (\<lambda>k. ret (Some k)) else ret None) (\<lambda>rootPriv.
     bnd (nested_rw (dbw E) ns scopeBucketName) (\<lambda>scopeBucket.
     bnd (createScopedManagerNS (dbw E) scopeBucket scope) (\<lambda>_.
     bnd (NestedReadWriteBucket (dbw E) ns scopeSchemaBucketName) (\<lambda>scopeSchemas.
     case scopeSchemas of
       None \<Rightarrow> raise (managerError ErrDatabase None)
     | Some scopeSchemas \<Rightarrow>
         bnd (Put (dbw E) scopeSchemas (scopeToBytes scope) (scopeSchemaToBytes addrSchema)) (\<lambda>_.
         bnd (if \<not> watchingOnly m
              then bnd (deref rootPriv) (\<lambda>rootPriv.
                   createManagerKeyScope E ns scope rootPriv (cryptoKeyPub m) (cryptoKeyPriv m))
              else ret ()) (\<lambda>_.
         bnd (modify (\<lambda>w. w\<lparr>mgr := (mgr w)\<lparr>
                scopedManagers := AList.update scope (new_scoped scope addrSchema) (scopedManagers (mgr w)),
                externalAddrSchemas := append_schema (ExternalAddrType addrSchema) scope (externalAddrSchemas (mgr w)),
                internalAddrSchemas := append_schema (InternalAddrType addrSchema) scope (internalAddrSchemas (mgr w))\<rparr>\<rparr>)) (\<lambda>_.
         ret scope))))))))"

end
