(* ===== verification/MgrLock.thy ===== *)
theory MgrLock
  imports Manager
begin

text \<open>
  The lock of the address manager: what \<^verbatim>\<open>Lock\<close> clears, what \<^verbatim>\<open>Unlock\<close> checks, and the invariant
  every operation of the manager keeps, that a locked manager holds no private account key.
\<close>

section \<open>What locking does\<close>

definition no_private_keys :: "('k, 'pk, 'a, 'n, 's) world \<Rightarrow> bool" where
  "no_private_keys w \<longleftrightarrow> (\<forall>(sc, sm) \<in> set (scopedManagers (mgr w)).
     \<forall>(n, ai) \<in> set (sm_acctInfo sm). ai_acctKeyPriv ai = None)"

text \<open>The clear text an address holds, its encrypted form, and the kinds of address \<^verbatim>\<open>lock\<close> visits.\<close>

definition clear_text :: "('pk, 'a) ManagedAddress \<Rightarrow> bytes" where
  "clear_text m = (case m of PubKeyAddr a \<Rightarrow> ma_privKeyCT a | _ \<Rightarrow>
     (case base_of m of None \<Rightarrow> [] | Some b \<Rightarrow> bs_scriptClearText b))"

definition sealed_text :: "('pk, 'a) ManagedAddress \<Rightarrow> bytes" where
  "sealed_text m = (case m of PubKeyAddr a \<Rightarrow> ma_privKeyEncrypted a | _ \<Rightarrow>
     (case base_of m of None \<Rightarrow> [] | Some b \<Rightarrow> bs_scriptEncrypted b))"

definition visited :: "('pk, 'a) ManagedAddress \<Rightarrow> bool" where
  "visited m = (case m of PubKeyAddr a \<Rightarrow> True | ScriptAddr a \<Rightarrow> True | _ \<Rightarrow> False)"

interpretation addr_lock: lockable lock_address clear_text sealed_text visited
  by unfold_locales
    (simp_all add: lock_address_def clear_text_def sealed_text_def visited_def base_of_def
       managedAddress_lock_def baseScript_lock_def split: ManagedAddress.splits)

lemma lock_address_unvisited: "\<not> visited m \<Longrightarrow> lock_address m = m"
  by (auto simp: visited_def lock_address_def split: ManagedAddress.splits)

lemma lock_addresses_nth:
  assumes "i < length h"
  shows "length (lock_addresses rs h) = length h"
    and "lock_addresses rs h ! i = (if i \<in> set rs then lock_address (h ! i) else h ! i)"
  using addr_lock.lock_refs [of rs h] assms by (simp_all add: lock_addresses_def)

lemma lock_accounts_keeps [simp]: "masterKeyPriv (lock_accounts m) = masterKeyPriv m"
  by (simp add: lock_accounts_def)

lemma cached_addresses_lock_accounts [simp]: "cached_addresses (lock_accounts m) = cached_addresses m"
  by (simp add: cached_addresses_def lock_accounts_def case_prod_unfold comp_def)

definition locked_manager :: "('k, 'n) Manager \<Rightarrow> ('k, 'n) Manager" where
  "locked_manager m = (lock_accounts m)\<lparr>cryptoKeyScript := make_bytes 32, cryptoKeyPriv := make_bytes 32,
     masterKeyPriv := (masterKeyPriv m)\<lparr>Key := Some (make_bytes 32)\<rparr>,
     hashedPrivPassphrase := make_bytes 64, locked := True\<rparr>"

lemma Manager_lock_eq:
  "Manager_lock w = (case Key (masterKeyPriv (mgr w)) of
      None \<Rightarrow> (Panic, w\<lparr>heap := lock_addresses (cached_addresses (mgr w)) (heap w),
        mgr := (lock_accounts (mgr w))\<lparr>cryptoKeyScript := make_bytes 32, cryptoKeyPriv := make_bytes 32\<rparr>\<rparr>)
    | Some k \<Rightarrow> (Ok (), w\<lparr>heap := lock_addresses (cached_addresses (mgr w)) (heap w),
        mgr := locked_manager (mgr w)\<rparr>))"
  by (simp add: Manager_lock_def bnd_def go_simps zoom_def SecretKey_Zero_def CryptoKey_Zero_def zero_Bytea32_def
      zero_Bytea64_def locked_manager_def split: option.split)

lemma no_private_keys_accounts:
  "scopedManagers (mgr w) = scopedManagers (lock_accounts m) \<Longrightarrow> no_private_keys w"
  by (auto simp: no_private_keys_def lock_accounts_def lock_account_def)

lemma locked_manager_simps [simp]:
  "locked (locked_manager m)" "scopedManagers (locked_manager m) = scopedManagers (lock_accounts m)"
  "watchingOnly (locked_manager m) = watchingOnly m" "chainParams (locked_manager m) = chainParams m"
  "cryptoKeyPub (locked_manager m) = cryptoKeyPub m"
  "cryptoKeyPrivEncrypted (locked_manager m) = cryptoKeyPrivEncrypted m"
  "cryptoKeyPriv (locked_manager m) = make_bytes 32" "cryptoKeyScript (locked_manager m) = make_bytes 32"
  "hashedPrivPassphrase (locked_manager m) = make_bytes 64"
  "masterKeyPriv (locked_manager m) = (masterKeyPriv m)\<lparr>Key := Some (make_bytes 32)\<rparr>"
  by (simp_all add: locked_manager_def lock_accounts_def)

lemma Manager_lock_Ok:
  "Manager_lock w = (r, w') \<Longrightarrow> r = Panic \<or> r = Ok () \<and> locked (mgr w') \<and> no_private_keys w'"
  by (auto simp: Manager_lock_eq intro: no_private_keys_accounts split: option.splits)

section \<open>The lock as an invariant\<close>

text \<open>A call that came back: it did not panic and did not hang.\<close>

definition returned :: "'x result \<Rightarrow> bool" where
  "returned r \<longleftrightarrow> r \<noteq> Panic \<and> r \<noteq> Hang"

text \<open>While the manager is locked no account holds a private key.\<close>

definition lock_inv :: "('k, 'pk, 'a, 'n, 's) world \<Rightarrow> bool" where
  "lock_inv w \<longleftrightarrow> (locked (mgr w) \<longrightarrow> no_private_keys w)"

definition accounts_of :: "(KeyScope \<times> 'k ScopedKeyManager) list \<Rightarrow> 'k accountInfo list" where
  "accounts_of xs = concat (map (\<lambda>(sc, sm). map snd (sm_acctInfo sm)) xs)"

lemma accounts_of_simps [simp]:
  "accounts_of [] = []" "accounts_of ((sc, sm) # xs) = map snd (sm_acctInfo sm) @ accounts_of xs"
  by (simp_all add: accounts_of_def)

definition accounts_view :: "('k, 'pk, 'a, 'n, 's) world \<Rightarrow> bool \<times> 'k accountInfo list" where
  "accounts_view w = (locked (mgr w), accounts_of (scopedManagers (mgr w)))"

lemma lock_inv_view:
  "lock_inv w \<longleftrightarrow> (fst (accounts_view w) \<longrightarrow> (\<forall>ai \<in> set (snd (accounts_view w)). ai_acctKeyPriv ai = None))"
  by (force simp: lock_inv_def no_private_keys_def accounts_view_def accounts_of_def)

text \<open>Operations that keep the invariant and leave the manager locked or unlocked as it was.\<close>

definition stays :: "bool \<Rightarrow> (('k, 'pk, 'a, 'n, 's) world, 'x) go \<Rightarrow> bool" where
  "stays b m \<longleftrightarrow> (\<forall>w. lock_inv w \<longrightarrow> locked (mgr w) = b \<longrightarrow> returned (fst (m w)) \<longrightarrow>
     lock_inv (snd (m w)) \<and> locked (mgr (snd (m w))) = b)"

named_theorems stays_intros
  \<open>composition of operations that keep the invariant of the lock\<close>

lemma staysI:
  "(\<And>w. lock_inv w \<Longrightarrow> locked (mgr w) = b \<Longrightarrow> returned (fst (m w)) \<Longrightarrow>
     lock_inv (snd (m w)) \<and> locked (mgr (snd (m w))) = b) \<Longrightarrow> stays b m"
  by (simp add: stays_def)

lemma stays_keeps: "keeps accounts_view m \<Longrightarrow> stays b m"
  unfolding stays_def keeps_def lock_inv_view by (metis accounts_view_def fst_conv)

lemma stays_bnd:
  assumes "stays b m" and "\<And>a. stays b (f a)"
  shows "stays b (bnd m f)"
  using assms by (auto simp: stays_def go_simps returned_def split: res.splits)

lemma stays_bnd_reads:
  "(\<And>root. locked root = b \<Longrightarrow> stays b (f root)) \<Longrightarrow> stays b (bnd (reads mgr) f)"
  by (simp add: stays_def go_simps)

lemma stays_bnd_lift: "(\<And>a. r = Ok a \<Longrightarrow> stays b (f a)) \<Longrightarrow> stays b (bnd (lift r) f)"
  by (auto simp: stays_def go_simps split: res.splits)

lemma stays_bnd_deref: "(\<And>a. z = Some a \<Longrightarrow> stays b (f a)) \<Longrightarrow> stays b (bnd (deref z) f)"
  by (cases z) (simp_all add: stays_def go_simps returned_def)

lemma stays_bnd_lookup:
  assumes "\<And>s. (b \<Longrightarrow> \<forall>ai \<in> snd ` set (sm_acctInfo s). ai_acctKeyPriv ai = None) \<Longrightarrow> stays b (f s)"
  shows "stays b (bnd (sm_lookup scope) f)"
proof (rule staysI, goal_cases)
  case (1 w)
  then obtain s where s: "map_of (scopedManagers (mgr w)) scope = Some s"
    by (auto simp: go_simps returned_def split: option.splits)
  have "stays b (f s)"
    using map_of_SomeD [OF s] 1 by (intro assms) (force simp: lock_inv_def no_private_keys_def)
  with 1 s show ?case by (simp add: stays_def go_simps)
qed

lemma stays_basic [stays_intros]:
  "stays b (ret x)" "stays b (raise e)" "stays b panic" "stays b hang" "stays b (lift r)"
  "stays b (reads g)" "stays b (deref z)"
  by (intro stays_keeps keeps_intros)+

lemma stays_wrap [stays_intros]:
  "stays b m \<Longrightarrow> stays b (wrap_err h m)" "stays b m \<Longrightarrow> stays b (as_error c m)"
  "stays b m \<Longrightarrow> stays b (attempt m)"
  by (auto simp: stays_def as_error_def go_simps returned_def split: res.splits)

lemma stays_for_each [stays_intros]: "(\<And>x. stays b (g x)) \<Longrightarrow> stays b (for_each g xs)"
  by (induction xs) (simp_all add: stays_intros stays_bnd)

lemma stays_cases [stays_intros]:
  "stays b m \<Longrightarrow> stays b m' \<Longrightarrow> stays b (if c then m else m')"
  "stays b m \<Longrightarrow> (\<And>x. stays b (g x)) \<Longrightarrow> stays b (case z of None \<Rightarrow> m | Some x \<Rightarrow> g x)"
  "(\<And>x y. q = (x, y) \<Longrightarrow> stays b (h x y)) \<Longrightarrow> stays b (case q of (x, y) \<Rightarrow> h x y)"
  by (cases c, simp, simp) (cases z, simp, simp, cases q, simp)

lemmas stays_steps = stays_bnd_reads stays_bnd_lift stays_bnd_deref stays_bnd_lookup stays_bnd

lemma keeps_mgr_accounts: "keeps mgr m \<Longrightarrow> keeps accounts_view m"
  by (simp add: keeps_def accounts_view_def)

lemma accounts_of_modify:
  "(\<And>sm. sm_acctInfo (f sm) = sm_acctInfo sm) \<Longrightarrow>
     accounts_of (map (\<lambda>(sc, sm). (sc, if sc = scope then f sm else sm)) xs) = accounts_of xs"
  by (induction xs) auto

lemma keeps_accounts_modify:
  "(\<And>sm. sm_acctInfo (f sm) = sm_acctInfo sm) \<Longrightarrow> keeps accounts_view (sm_modify scope f)"
  by (simp add: keeps_def sm_modify_def go_simps accounts_view_def accounts_of_modify)

lemma keeps_accounts [keeps_intros]:
  "keeps accounts_view (put_addr scope k r)" "keeps accounts_view (delete_addr scope k)"
  "keeps accounts_view (add_deriveOnUnlock scope i)"
  "keeps accounts_view (sm_lookup scope)" "keeps accounts_view (load r)" "keeps accounts_view (store r a)"
  "keeps accounts_view (alloc a)"
  unfolding put_addr_def delete_addr_def add_deriveOnUnlock_def
  by (intro keeps_accounts_modify, simp)+ (simp_all add: keeps_def go_simps accounts_view_def)

lemma keeps_accounts_load [keeps_intros]:
  "keeps accounts_view (load_pub r)" "keeps accounts_view (address_of r)"
  by (auto simp: load_pub_def address_of_def intro!: keeps_intros split: ManagedAddress.splits)

lemma keeps_accounts_random [keeps_intros]:
  "keeps accounts_view (random m)" "keeps accounts_view (encrypt E key b)"
  by (intro keeps_mgr_accounts keeps_intros)+

lemma keeps_accounts_db: "only_db m \<Longrightarrow> keeps accounts_view m"
  by (intro keeps_mgr_accounts keeps_only_db)

lemma keeps_accounts_new [keeps_intros]:
  "keeps accounts_view (newManagedAddress E s path k c t ai)"
  "keeps accounts_view (newManagedAddressFromExtKey E s path key t ai)"
  "keeps accounts_view (keyToManaged E scope key path acctInfo)"
  unfolding keyToManaged_def newManagedAddressFromExtKey_def newManagedAddress_def Let_def by (intro keeps_intros)+

lemma update_set: "set (AList.update k v xs) \<subseteq> insert (k, v) (set xs)"
  by (induction xs) auto

lemma accounts_of_put:
  "set (accounts_of (map (\<lambda>(sc, sm). (sc, if sc = scope
     then sm\<lparr>sm_acctInfo := AList.update n ai (sm_acctInfo sm)\<rparr> else sm)) xs)) \<subseteq> insert ai (set (accounts_of xs))"
proof (induction xs)
  case (Cons x xs)
  with update_set [of n ai "sm_acctInfo (snd x)"] show ?case
    by (cases x) auto
qed simp

lemma stays_put_acctInfo [stays_intros]:
  assumes "b \<Longrightarrow> ai_acctKeyPriv ai = None"
  shows "stays b (put_acctInfo scope n ai)"
proof (rule staysI, goal_cases)
  case (1 w)
  with assms accounts_of_put [of scope n ai "scopedManagers (mgr w)"] show ?case
    by (auto simp: lock_inv_view accounts_view_def put_acctInfo_def sm_modify_def go_simps)
qed

lemma accountInfo_from_row_locked:
  "accountInfo_from_row E root row = Ok (ai, p) \<Longrightarrow> locked root \<Longrightarrow> ai_acctKeyPriv ai = None"
  by (auto simp: accountInfo_from_row_def rbind_eq_Ok Let_def split: accountRow.splits)

lemma stays_keyToManaged [stays_intros]: "stays b (keyToManaged E scope key path ai)"
  by (intro stays_keeps keeps_intros)

lemma stays_fetchAccountInfo [stays_intros]: "stays b (fetchAccountInfo (dbw E) ns scope acct)"
  by (intro stays_keeps keeps_accounts_db frame_intros)

lemma stays_loadAccountInfo [stays_intros]: "stays b (loadAccountInfo E scope ns acct)"
  unfolding loadAccountInfo_def Let_def
  by (intro stays_steps stays_intros) (auto dest: accountInfo_from_row_locked)

lemma stays_deriveKeyFromPath [stays_intros]: "stays b (deriveKeyFromPath E scope ns acct br idx p)"
  unfolding deriveKeyFromPath_def by (intro stays_steps stays_intros)

lemma stays_DeriveFromKeyPath [stays_intros]: "stays b (DeriveFromKeyPath E scope ns kp)"
  unfolding DeriveFromKeyPath_def Let_def by (intro stays_steps stays_intros)

lemma stays_rows [stays_intros]: "stays b (rowInterfaceToManaged E scope ns row)"
  unfolding rowInterfaceToManaged_def chainAddressRowToManaged_def importedAddressRowToManaged_def
    scriptAddressRowToManaged_def witnessScriptAddressRowToManaged_def Let_def
  by (cases row) (auto intro!: stays_steps stays_intros stays_keeps [OF keeps_accounts(4)] stays_keeps [OF keeps_accounts(7)])

lemma only_db_address_ops [frame_intros]:
  "only_db (putAddress C (dbw E) ns scope a row)"
  "only_db (fetchAddress C (dbw E) ns scope a)"
  "only_db (putChainedAddress C (dbw E) ns now scope a acct st br idx t)"
  "only_db (putScriptAddress C (dbw E) ns now scope a acct st h sc)"
  unfolding putChainedAddress_def putScriptAddress_def fetchAddress_def fetchAddressByHash_def putAddress_def
    putAddrAccountIndex_def db_op_defs Let_def
  by (intro frame_intros)+

lemma stays_db: "only_db m \<Longrightarrow> stays b m"
  by (intro stays_keeps keeps_accounts_db)

lemma stays_db_ops [stays_intros]:
  "stays b (putChainedAddress C (dbw E) ns now scope a acct st br idx t)"
  "stays b (putScriptAddress C (dbw E) ns now scope a acct st h sc)"
  "stays b (fetchAddress C (dbw E) ns scope a)" "stays b (markAddressUsed C (dbw E) ns scope a)"
  "stays b (fetchAccountByName (dbw E) ns scope name)" "stays b (fetchCoinTypeKeys (dbw E) ns scope)"
  "stays b (putDefaultAccountInfo (dbw E) ns scope n pub priv ext itn name)"
  "stays b (putLastAccount (dbw E) ns scope n)" "stays b (fetchLastAccount (dbw E) ns scope)"
  "stays b (putCoinTypeKeys (dbw E) ns scope cpub cpriv)" "stays b (fetchMasterHDKeys (dbw E) ns)"
  "stays b (createScopedManagerNS (dbw E) ns scope)" "stays b (nested_rw (dbw E) ns k)"
  "stays b (NestedReadWriteBucket (dbw E) ns k)" "stays b (Put (dbw E) ns k v)"
  by (intro stays_db frame_intros)+

lemma stays_state_ops [stays_intros]:
  "stays b (random m)" "stays b (encrypt E key v)" "stays b (sm_lookup scope)" "stays b (load r)" "stays b (load_pub r)"
  "stays b (store r a)" "stays b (alloc a)" "stays b (address_of r)" "stays b (put_addr scope k r)"
  "stays b (delete_addr scope k)" "stays b (add_deriveOnUnlock scope i)"
  "stays b (newManagedAddressFromExtKey E s path hdkey t ai)"
  by (intro stays_keeps keeps_intros)+

lemma stays_loadAndCacheAddress [stays_intros]: "stays b (loadAndCacheAddress E scope ns a)"
  unfolding loadAndCacheAddress_def by (intro stays_steps stays_intros)

lemma stays_derive_addresses [stays_intros]:
  "stays b (derive_addresses E scope acct ai acctKey branchKey br t internal n i nextIndex infos)"
proof (induction n arbitrary: i nextIndex infos)
  case (Suc n)
  show ?case unfolding derive_addresses.simps by (intro stays_bnd stays_intros Suc)
qed (simp add: stays_intros)

lemma stays_store_address [stays_intros]: "stays b (store_address E scope ns now acct info)"
  unfolding store_address_def
  by (intro stays_bnd stays_intros) (auto intro!: stays_bnd stays_intros split: ManagedAddress.split)

lemma stays_modify: "(\<And>w. mgr (f w) = mgr w) \<Longrightarrow> stays b (modify f)"
  by (intro stays_keeps keeps_mgr_accounts keeps_modify)

lemma stays_nextAddresses [stays_intros]: "stays b (nextAddresses E scope ns now acct n internal)"
  unfolding nextAddresses_def Let_def
  by (intro stays_bnd stays_intros stays_modify) (auto intro!: stays_intros split: list.split)

lemma looked_up:
  assumes "b \<Longrightarrow> \<forall>ai \<in> snd ` set xs. ai_acctKeyPriv ai = None" and "map_of xs n = Some ai" and b
  shows "ai_acctKeyPriv ai = None"
  using assms(1) [OF assms(3)] map_of_SomeD [OF assms(2)] by force

lemma stays_onCommit [stays_intros]: "stays b (onCommit E h)"
  unfolding onCommit_def onCommit_address_def
  by (intro stays_steps stays_intros) (force dest: map_of_SomeD)

lemma stays_newAccount [stays_intros]: "stays b (newAccount E scope ns acct name)"
  unfolding newAccount_def lookupAccount_def
  by (intro stays_bnd stays_intros) (auto intro!: stays_bnd stays_intros split: sum.split)

lemma stays_accounts [stays_intros]:
  "stays b (NewAccount E scope ns name)" "stays b (NewRawAccount E scope ns number)"
  "stays b (MarkUsed E scope ns a)" "stays b (NextExternalAddresses E scope ns now acct n)"
  "stays b (NextInternalAddresses E scope ns now acct n)"
  unfolding NewAccount_def NewRawAccount_def MarkUsed_def NextExternalAddresses_def NextInternalAddresses_def Let_def
  by (intro stays_bnd stays_intros)+

lemma stays_countImported [stays_intros]: "stays b (countImported E scope ns)"
proof (rule stays_keeps, simp add: keeps_def countImported_def split: prod.split)
qed (simp add: accounts_view_def)

lemma stays_AccountProperties [stays_intros]: "stays b (AccountProperties_of E scope ns acct)"
  unfolding AccountProperties_of_def by (intro stays_bnd stays_intros)

lemma stays_secrets [stays_intros]:
  "stays b (PrivKey E r)" "stays b (ExportPrivKey E r)" "stays b (scriptAddress_Script E r)"
  "stays b (witnessScriptAddress_Script E r)" "stays b (TaprootScript_method E r)"
  unfolding TaprootScript_method_def ExportPrivKey_def PrivKey_def managedAddress_unlock_def scriptAddress_Script_def
    witnessScriptAddress_Script_def script_unlock_def
  by (intro stays_bnd stays_intros)+

lemma stays_zero_acctKeyPub [stays_intros]: "stays b (zero_acctKeyPub scope acct)"
  unfolding zero_acctKeyPub_def
  by (intro stays_steps stays_intros) (simp, rule looked_up, auto)

lemma stays_Close [stays_intros]: "stays b (ScopedKeyManager_Close scope)"
  unfolding ScopedKeyManager_Close_def zeroSensitivePublicData_def by (intro stays_bnd stays_intros)

lemma stays_createManagerKeyScope [stays_intros]: "stays b (createManagerKeyScope E ns scope root keyPub keyPriv)"
  unfolding createManagerKeyScope_def by (intro stays_bnd stays_intros)

lemma accounts_of_update: "set (accounts_of (AList.update scope sm xs)) \<subseteq> set (map snd (sm_acctInfo sm)) \<union> set (accounts_of xs)"
  by (induction xs) auto

lemma stays_new_scope [stays_intros]:
  "stays b (modify (\<lambda>w. w\<lparr>mgr := (mgr w)\<lparr>
     scopedManagers := AList.update scope (new_scoped scope sch) (scopedManagers (mgr w)),
     externalAddrSchemas := f w, internalAddrSchemas := g w\<rparr>\<rparr>))"
proof (rule staysI, goal_cases)
  case (1 w)
  with accounts_of_update [of scope "new_scoped scope sch" "scopedManagers (mgr w)"] show ?case
    by (auto simp: lock_inv_view accounts_view_def go_simps new_scoped_def)
qed

lemma stays_NewScopedKeyManager [stays_intros]: "stays b (NewScopedKeyManager E ns scope sch)"
  unfolding NewScopedKeyManager_def root_private_key_def by (intro stays_bnd stays_intros)

section \<open>Unlocking and the invariant\<close>

text \<open>Programs that fail only after they have locked the manager.\<close>

definition errs_locked :: "(('k, 'pk, 'a, 'n, 's) world, 'x) go \<Rightarrow> bool" where
  "errs_locked m \<longleftrightarrow> (\<forall>w e w'. m w = (Err e, w') \<longrightarrow> locked (mgr w') \<and> no_private_keys w')"

lemma errs_locked_or_lock: "errs_locked (or_lock h m)"
  unfolding errs_locked_def or_lock_def catch_err_def
  by (auto simp: bnd_def raise_def dest!: Manager_lock_Ok split: prod.splits res.splits)

lemma errs_locked_bnd:
  assumes "errs_locked m" and "\<And>a. errs_locked (f a)"
  shows "errs_locked (bnd m f)"
  using assms unfolding errs_locked_def by (auto simp: bnd_def split: prod.splits res.splits)

lemma errs_locked_lock: "errs_locked (bnd Manager_lock (\<lambda>_. raise e))"
  unfolding errs_locked_def by (auto simp: bnd_def raise_def dest!: Manager_lock_Ok split: prod.splits res.splits)

lemma errs_locked_basic:
  "errs_locked (ret x)" "errs_locked panic" "errs_locked hang" "errs_locked (reads g)" "errs_locked (modify u)"
  "errs_locked (deref z)" "errs_locked (sm_lookup scope)" "errs_locked (load r)" "errs_locked (store r a)"
  "errs_locked (sm_modify scope f)" "errs_locked (put_acctInfo scope n ai)"
  by (auto simp: errs_locked_def go_simps deref_def sm_modify_def put_acctInfo_def split: option.splits if_splits)

lemma errs_locked_for_each: "(\<And>x. errs_locked (f x)) \<Longrightarrow> errs_locked (for_each f xs)"
  by (induction xs) (simp_all add: errs_locked_basic errs_locked_bnd)

lemma errs_locked_if: "errs_locked m \<Longrightarrow> errs_locked m' \<Longrightarrow> errs_locked (if c then m else m')"
  by simp

lemmas errs_locked_intros = errs_locked_or_lock errs_locked_lock errs_locked_basic errs_locked_for_each errs_locked_if
  errs_locked_bnd

lemma errs_lockedD: "m w = (Err e, w') \<Longrightarrow> errs_locked m \<Longrightarrow> locked (mgr w') \<and> no_private_keys w'"
  by (simp add: errs_locked_def)

lemma errs_locked_unlock_scope: "errs_locked (unlock_scope E ns scope)"
proof -
  have "errs_locked (unlock_account E scope acct)" for acct
    unfolding unlock_account_def by (intro errs_locked_intros)
  moreover have "errs_locked (unlock_derived E ns scope info)" for info
    unfolding unlock_derived_def Let_def
    by (intro errs_locked_intros)
      (auto intro!: errs_locked_intros split: res.splits ManagedAddress.splits prod.splits)
  ultimately show ?thesis unfolding unlock_scope_def by (intro errs_locked_intros)
qed

lemma salted_hash_eq:
  "salted_hash E passphrase w = (Ok (sha512_Sum512 (env_crypto E) (privPassphraseSalt (mgr w) @ passphrase)),
     if passphrase = [] then w\<lparr>mgr := (mgr w)\<lparr>privPassphraseSalt := make_bytes (length (privPassphraseSalt (mgr w)))\<rparr>\<rparr>
     else w)"
  by (simp add: salted_hash_def bnd_def go_simps zero_Bytes_eq)

lemma errs_locked_salted_hash: "errs_locked (salted_hash E passphrase)"
  by (simp add: errs_locked_def salted_hash_eq)

lemma bnd_reads: "bnd (reads f) g w = g (f w) w"
  by (simp add: bnd_def reads_def)

lemma errs_locked_Unlock_parts:
  "errs_locked (recheck_passphrase E passphrase hashed)" "errs_locked (unlock_keys E passphrase)"
  "errs_locked (finish_unlock E passphrase)"
  unfolding recheck_passphrase_def unlock_keys_def finish_unlock_def
  by (intro errs_locked_intros errs_locked_salted_hash)+

lemma Unlock_Err:
  assumes "Unlock E ns passphrase w = (Err e, w')"
  shows "w' = w \<and> watchingOnly (mgr w) \<or> locked (mgr w') \<and> no_private_keys w'"
proof -
  have "errs_locked (bnd (unlock_keys E passphrase) (\<lambda>_.
     bnd (for_each (unlock_scope E ns) scopes) (\<lambda>_. finish_unlock E passphrase)))" for scopes
    by (intro errs_locked_intros errs_locked_Unlock_parts errs_locked_unlock_scope)
  with assms errs_locked_Unlock_parts(1) [of E passphrase "hashedPrivPassphrase (mgr w)"] show ?thesis
    by (auto simp: Unlock_def bnd_reads raise_def errs_locked_def split: if_splits)
qed

lemma finish_unlock_unlocks: "\<not> locked (mgr (snd (finish_unlock E passphrase w)))"
  by (simp add: finish_unlock_def go_simps salted_hash_eq)

lemma recheck_Ok:
  "recheck_passphrase E passphrase hashed w = (Ok (), w') \<Longrightarrow> locked (mgr w') = locked (mgr w)"
  by (auto simp: recheck_passphrase_def bnd_eq_Ok salted_hash_eq raise_def ret_def split: if_splits)

lemma Unlock_Ok:
  assumes "Unlock E ns passphrase w = (Ok (), w')"
  shows "\<not> locked (mgr w')"
proof -
  have "\<not> locked (mgr w')" if "finish_unlock E passphrase w1 = (Ok (), w')" for w1
    using finish_unlock_unlocks [of E passphrase w1] that by simp
  with assms recheck_Ok [of E passphrase "hashedPrivPassphrase (mgr w)" w w'] show ?thesis
    by (auto simp: Unlock_def bnd_reads raise_def bnd_eq_Ok split: if_splits)
qed

section \<open>The steps of a manager\<close>

text \<open>A call of one of the manager's operations that returns, with or without an error.\<close>

inductive mgr_step ::
  "('k, 'sk, 'pk, 'a, 'n, 's) env \<Rightarrow> ('k, 'pk, 'a, 'n, 's) world \<Rightarrow> ('k, 'pk, 'a, 'n, 's) world \<Rightarrow> bool"
  for E :: "('k, 'sk, 'pk, 'a, 'n, 's) env" where
  Lock: "Lock w = (r, w') \<Longrightarrow> returned r \<Longrightarrow> mgr_step E w w'"
| Unlock: "Unlock E ns passphrase w = (r, w') \<Longrightarrow> returned r \<Longrightarrow> mgr_step E w w'"
| NewScopedKeyManager: "NewScopedKeyManager E ns scope sch w = (r, w') \<Longrightarrow> returned r \<Longrightarrow> mgr_step E w w'"
| NewAccount: "NewAccount E scope ns name w = (r, w') \<Longrightarrow> returned r \<Longrightarrow> mgr_step E w w'"
| NewRawAccount: "NewRawAccount E scope ns number w = (r, w') \<Longrightarrow> returned r \<Longrightarrow> mgr_step E w w'"
| NextExternal: "NextExternalAddresses E scope ns now acct n w = (r, w') \<Longrightarrow> returned r \<Longrightarrow> mgr_step E w w'"
| NextInternal: "NextInternalAddresses E scope ns now acct n w = (r, w') \<Longrightarrow> returned r \<Longrightarrow> mgr_step E w w'"
| Commit: "onCommit E h w = (r, w') \<Longrightarrow> returned r \<Longrightarrow> mgr_step E w w'"
| MarkUsed: "MarkUsed E scope ns a w = (r, w') \<Longrightarrow> returned r \<Longrightarrow> mgr_step E w w'"
| DeriveFromKeyPath: "DeriveFromKeyPath E scope ns kp w = (r, w') \<Longrightarrow> returned r \<Longrightarrow> mgr_step E w w'"
| AccountProperties: "AccountProperties_of E scope ns acct w = (r, w') \<Longrightarrow> returned r \<Longrightarrow> mgr_step E w w'"
| PrivKey: "PrivKey E ref w = (r, w') \<Longrightarrow> returned r \<Longrightarrow> mgr_step E w w'"
| Script: "scriptAddress_Script E ref w = (r, w') \<Longrightarrow> returned r \<Longrightarrow> mgr_step E w w'"
| WitnessScript: "witnessScriptAddress_Script E ref w = (r, w') \<Longrightarrow> returned r \<Longrightarrow> mgr_step E w w'"
| Close: "ScopedKeyManager_Close scope w = (r, w') \<Longrightarrow> returned r \<Longrightarrow> mgr_step E w w'"

text \<open>A manager as \<^verbatim>\<open>Open\<close> returns it: locked, with no account in any cache.\<close>

definition fresh :: "('k, 'n) Manager \<Rightarrow> bool" where
  "fresh m \<longleftrightarrow> locked m \<and> (\<forall>(sc, sm) \<in> set (scopedManagers m). sm_acctInfo sm = [])"

inductive reachable ::
  "('k, 'sk, 'pk, 'a, 'n, 's) env \<Rightarrow> ('k, 'pk, 'a, 'n, 's) world \<Rightarrow> bool"
  for E :: "('k, 'sk, 'pk, 'a, 'n, 's) env" where
  start: "fresh (mgr w) \<Longrightarrow> reachable E w"
| step: "reachable E w \<Longrightarrow> mgr_step E w w' \<Longrightarrow> reachable E w'"

lemma staysD: "stays (locked (mgr w)) m \<Longrightarrow> m w = (r, w') \<Longrightarrow> returned r \<Longrightarrow> lock_inv w \<Longrightarrow> lock_inv w'"
  unfolding stays_def by (metis fst_conv snd_conv)

lemma lock_inv_Lock:
  assumes "Lock w = (r, w')" and "returned r" and "lock_inv w"
  shows "lock_inv w'"
  using assms Manager_lock_Ok [of w r w']
  by (auto simp: Lock_def bnd_reads raise_def returned_def lock_inv_def split: if_splits)

lemma lock_inv_Unlock:
  assumes "Unlock E ns passphrase w = (r, w')" and "returned r" and "lock_inv w"
  shows "lock_inv w'"
  using assms Unlock_Err [of E ns passphrase w _ w'] Unlock_Ok [of E ns passphrase w w']
  by (cases r) (auto simp: returned_def lock_inv_def)

lemma mgr_step_lock_inv: "mgr_step E w w' \<Longrightarrow> lock_inv w \<Longrightarrow> lock_inv w'"
proof (induction rule: mgr_step.induct)
  case (Lock w r w')
  then show ?case by (rule lock_inv_Lock)
next
  case (Unlock ns passphrase w r w')
  then show ?case by (rule lock_inv_Unlock)
qed (erule (2) staysD [rotated], rule stays_intros)+

lemma reachable_lock_inv: "reachable E w \<Longrightarrow> lock_inv w"
proof (induction rule: reachable.induct)
  case (start w)
  then show ?case by (force simp: fresh_def lock_inv_def no_private_keys_def)
next
  case (step w w')
  then show ?case by (blast intro: mgr_step_lock_inv)
qed

section \<open>A successful unlock\<close>

lemma unlock_keys_right:
  assumes "crypto_contract (env_crypto E)" and "Key (masterKeyPriv (mgr w)) = Some k" and "length k = 32"
    and "Params (masterKeyPriv (mgr w)) = ps"
    and "scrypt_Key (env_crypto E) passphrase (Salt ps) (N ps) (R ps) (P ps) 32 = Ok mk"
    and "sha256_Sum256 (env_crypto E) mk = Digest ps"
    and "CryptoKey_Decrypt (env_crypto E) mk (cryptoKeyPrivEncrypted (mgr w)) = Ok ck"
    and "length (cryptoKeyPriv (mgr w)) = 32" and "length ck = 32"
  shows "unlock_keys E passphrase w = (Ok (), w\<lparr>mgr := (mgr w)\<lparr>masterKeyPriv := (masterKeyPriv (mgr w))\<lparr>Key := Some mk\<rparr>,
     cryptoKeyPriv := ck\<rparr>\<rparr>)"
proof -
  have "SecretKey_DeriveKey (env_crypto E) passphrase (masterKeyPriv (mgr w))
      = (Ok (), (masterKeyPriv (mgr w))\<lparr>Key := Some mk\<rparr>)"
    using crypto_contract.DeriveKey_eq [OF assms(1,2,3)] assms(4-6) by simp
  then show ?thesis
    using assms(7-9)
    by (simp add: unlock_keys_def bnd_def or_lock_def catch_err_def zoom_def go_simps SecretKey_Decrypt_def cryptoKey_CopyBytes_def)
qed

lemma unlock_keys_wrong:
  assumes "crypto_contract (env_crypto E)" and "Key (masterKeyPriv (mgr w)) = Some k" and "length k = 32"
    and "Params (masterKeyPriv (mgr w)) = ps"
    and "scrypt_Key (env_crypto E) passphrase (Salt ps) (N ps) (R ps) (P ps) 32 = Ok mk"
    and "sha256_Sum256 (env_crypto E) mk \<noteq> Digest ps"
  shows "unlock_keys E passphrase w = (Err (managerError ErrWrongPassphrase None),
     w\<lparr>heap := lock_addresses (cached_addresses (mgr w)) (heap w), mgr := locked_manager (mgr w)\<rparr>)"
proof -
  have derive: "SecretKey_DeriveKey (env_crypto E) passphrase (masterKeyPriv (mgr w))
      = (Err (SnaclError ErrInvalidPassword), (masterKeyPriv (mgr w))\<lparr>Key := Some mk\<rparr>)"
    using crypto_contract.DeriveKey_eq [OF assms(1,2,3)] assms(4-6) by simp
  have "locked_manager ((mgr w)\<lparr>masterKeyPriv := (masterKeyPriv (mgr w))\<lparr>Key := Some mk\<rparr>\<rparr>) = locked_manager (mgr w)"
    "cached_addresses ((mgr w)\<lparr>masterKeyPriv := x\<rparr>) = cached_addresses (mgr w)" for x
    by (simp_all add: locked_manager_def lock_accounts_def cached_addresses_def)
  then show ?thesis
    by (simp add: unlock_keys_def bnd_def or_lock_def catch_err_def zoom_def derive Manager_lock_eq go_simps)
qed

lemma unlock_scope_empty:
  assumes "map_of (scopedManagers (mgr w)) scope = Some sm" and "sm_acctInfo sm = []" and "sm_deriveOnUnlock sm = []"
  shows "unlock_scope E ns scope w = (Ok (), w)"
  using assms by (simp add: unlock_scope_def bnd_def go_simps)

lemma unlock_scopes_empty:
  assumes "\<forall>(sc, sm) \<in> set (scopedManagers (mgr w)). sm_acctInfo sm = [] \<and> sm_deriveOnUnlock sm = []"
    and "set scopes \<subseteq> set (known_scopes w)"
  shows "for_each (unlock_scope E ns) scopes w = (Ok (), w)"
  using assms(2)
proof (induction scopes)
  case (Cons scope scopes)
  then obtain sm where sm: "map_of (scopedManagers (mgr w)) scope = Some sm"
    using known_scopes_lookup [of scope w] by auto
  then have "sm_acctInfo sm = [] \<and> sm_deriveOnUnlock sm = []" using assms(1) map_of_SomeD [OF sm] by auto
  with unlock_scope_empty [OF sm, of E ns] Cons show ?case by (simp add: bnd_def)
qed (simp add: go_simps)

lemma Unlock_fresh:
  assumes "\<not> watchingOnly (mgr w)" and "locked (mgr w)"
    and "\<forall>(sc, sm) \<in> set (scopedManagers (mgr w)). sm_acctInfo sm = [] \<and> sm_deriveOnUnlock sm = []"
    and "unlock_keys E passphrase w = (Ok (), w\<lparr>mgr := (mgr w)\<lparr>masterKeyPriv := mk, cryptoKeyPriv := ck\<rparr>\<rparr>)"
    and "passphrase \<noteq> []"
  shows "Unlock E ns passphrase w = (Ok (), w\<lparr>mgr := (mgr w)\<lparr>masterKeyPriv := mk, cryptoKeyPriv := ck, locked := False,
     hashedPrivPassphrase := sha512_Sum512 (env_crypto E) (privPassphraseSalt (mgr w) @ passphrase)\<rparr>\<rparr>)"
proof -
  let ?w = "w\<lparr>mgr := (mgr w)\<lparr>masterKeyPriv := mk, cryptoKeyPriv := ck\<rparr>\<rparr>"
  have "for_each (unlock_scope E ns) (map fst (scopedManagers (mgr w))) ?w = (Ok (), ?w)"
    using assms(3) by (intro unlock_scopes_empty) (simp_all add: known_scopes_def)
  with assms show ?thesis
    by (simp add: Unlock_def bnd_def go_simps finish_unlock_def salted_hash_eq)
qed

section \<open>Properties\<close>

text \<open>C12: \<^verbatim>\<open>Lock\<close> on an unlocked manager succeeds and leaves no secret in it: the private account
  keys are dropped, the crypto keys, the master key and the passphrase hash are zero, and every
  cached public key or script address has lost its clear text. The addresses it does not visit,
  witness and taproot script addresses among the cached ones, are as they were. What \<^verbatim>\<open>Unlock\<close>
  needs, the database and the random source are untouched, and a second \<^verbatim>\<open>Lock\<close> fails with
  \<^verbatim>\<open>ErrLocked\<close>.\<close>

theorem mgr_lock_clears:
  assumes "\<not> watchingOnly (mgr w)" and "\<not> locked (mgr w)" and "Key (masterKeyPriv (mgr w)) = Some k"
    and "w' = snd (Lock w)"
  shows "fst (Lock w) = Ok () \<and> locked (mgr w') \<and> no_private_keys w'
    \<and> cryptoKeyPriv (mgr w') = make_bytes 32 \<and> cryptoKeyScript (mgr w') = make_bytes 32
    \<and> Key (masterKeyPriv (mgr w')) = Some (make_bytes 32) \<and> hashedPrivPassphrase (mgr w') = make_bytes 64
    \<and> (\<forall>r \<in> set (cached_addresses (mgr w)). r < length (heap w) \<longrightarrow>
        (if visited (heap w ! r) then clear_text (heap w' ! r) = [] \<and> sealed_text (heap w' ! r) = sealed_text (heap w ! r)
         else heap w' ! r = heap w ! r))
    \<and> cryptoKeyPrivEncrypted (mgr w') = cryptoKeyPrivEncrypted (mgr w)
    \<and> Params (masterKeyPriv (mgr w')) = Params (masterKeyPriv (mgr w)) \<and> db w' = db w \<and> rng w' = rng w
    \<and> Lock w' = (Err (managerError ErrLocked None), w')"
proof -
  have run: "Lock w = (Ok (), w\<lparr>heap := lock_addresses (cached_addresses (mgr w)) (heap w), mgr := locked_manager (mgr w)\<rparr>)"
    using assms by (simp add: Lock_def bnd_reads Manager_lock_eq)
  then have w': "w' = w\<lparr>heap := lock_addresses (cached_addresses (mgr w)) (heap w), mgr := locked_manager (mgr w)\<rparr>"
    using assms(4) by simp
  have "\<forall>r \<in> set (cached_addresses (mgr w)). r < length (heap w) \<longrightarrow>
      (if visited (heap w ! r) then clear_text (heap w' ! r) = [] \<and> sealed_text (heap w' ! r) = sealed_text (heap w ! r)
       else heap w' ! r = heap w ! r)"
    using lock_addresses_nth [of _ "heap w" "cached_addresses (mgr w)"]
    by (simp add: w' addr_lock.lock_clears addr_lock.lock_keeps lock_address_unvisited)
  moreover have "Lock w' = (Err (managerError ErrLocked None), w')"
    using assms(1) by (simp add: w' Lock_def bnd_reads raise_def)
  moreover have "no_private_keys w'" by (simp add: w' no_private_keys_accounts)
  ultimately show ?thesis by (simp add: run) (simp add: w')
qed

text \<open>A locked manager for evaluation: its master key is the reference key of the passphrase \<open>[9]\<close>.\<close>

definition example_master :: SecretKey where
  "example_master = \<lparr>Key = Some (make_bytes 32), Params = \<lparr>Salt = make_bytes 32, Digest = 9 # make_bytes 31,
     N = 16, R = 8, P = 1\<rparr>\<rparr>"

definition example_locked :: "(nat, nat, nat, nat, mem) world" where
  "example_locked = example_world\<lparr>mgr := example_mgr\<lparr>masterKeyPriv := example_master, locked := True,
     cryptoKeyPrivEncrypted := make_bytes 24 @ (9 # make_bytes 15) @ replicate 32 4\<rparr>\<rparr>"

lemma example_locked_simps [simp]:
  "\<not> watchingOnly (mgr example_locked)" "locked (mgr example_locked)" "masterKeyPriv (mgr example_locked) = example_master"
  "scopedManagers (mgr example_locked) = []" "heap example_locked = []" "cryptoKeyPriv (mgr example_locked) = make_bytes 32"
  "cryptoKeyPrivEncrypted (mgr example_locked) = make_bytes 24 @ (9 # make_bytes 15) @ replicate 32 4"
  by (simp_all add: example_locked_def example_mgr_def example_world_def)

lemma example_hd_simps [simp]: "env_crypto example_hd = ref_crypto" "env_bolt example_hd = memB"
  by (simp_all add: example_hd_def)

theorem mgr_lock_clears_witness:
  "\<exists>w'. Lock example_world = (Ok (), w') \<and> locked (mgr w') \<and> no_private_keys w'
     \<and> cryptoKeyPriv (mgr w') = make_bytes 32"
proof -
  have "\<not> watchingOnly (mgr example_world)" "\<not> locked (mgr example_world)"
      "Key (masterKeyPriv (mgr example_world)) = Some (make_bytes 32)"
    by (simp_all add: example_world_def example_mgr_def example_SecretKey_def)
  from mgr_lock_clears [OF this refl] show ?thesis by (metis prod.collapse)
qed

text \<open>C10: an invariant of the whole manager. In every state that calls of its operations can reach
  from a manager as \<^verbatim>\<open>Open\<close> returns it, no account in any scope's cache holds its private key
  while the manager is locked. Failed and interrupted unlocks are among the steps; a call that
  panics is not a step, it ends the program.\<close>

theorem mgr_lock_invariant:
  assumes "reachable E w" and "locked (mgr w)"
  shows "no_private_keys w"
  using reachable_lock_inv [OF assms(1)] assms(2) by (simp add: lock_inv_def)

lemma example_unlock_wrong:
  "Unlock example_hd example_ns [5] example_locked = (Err (managerError ErrWrongPassphrase None),
     example_locked\<lparr>heap := lock_addresses (cached_addresses (mgr example_locked)) (heap example_locked),
       mgr := locked_manager (mgr example_locked)\<rparr>)"
proof -
  have "scrypt_Key ref_crypto [5] (make_bytes 32) 16 8 1 32 = Ok (5 # make_bytes 31)"
      "sha256_Sum256 ref_crypto (5 # make_bytes 31) \<noteq> 9 # make_bytes 31"
    by code_simp+
  then show ?thesis
    using unlock_keys_wrong [of example_hd example_locked "make_bytes 32" "Params example_master" "[5]" "5 # make_bytes 31"]
    by (simp add: ref_crypto.crypto_contract_axioms example_master_def Unlock_def bnd_def go_simps)
qed

lemma example_reachable: "reachable example_hd (snd (Unlock example_hd example_ns [5] example_locked))"
proof (rule reachable.step)
  show "reachable example_hd example_locked" by (rule reachable.start) (simp add: fresh_def)
  show "mgr_step example_hd example_locked (snd (Unlock example_hd example_ns [5] example_locked))"
    by (rule mgr_step.Unlock [OF prod.collapse [symmetric]]) (simp add: example_unlock_wrong returned_def)
qed

theorem mgr_lock_invariant_witness:
  "no_private_keys (snd (Unlock example_hd example_ns [5] example_locked))"
  by (rule mgr_lock_invariant [OF example_reachable]) (simp add: example_unlock_wrong)



end
