(* ===== verification/WalletSync.thy ===== *)
theory WalletSync
  imports Errors
begin

text \<open>
  The life of a wallet's goroutines (\<^verbatim>\<open>wallet/wallet.go\<close>): \<^verbatim>\<open>Start\<close> spawns \<^verbatim>\<open>txCreator\<close> and
  \<^verbatim>\<open>walletLocker\<close>, \<^verbatim>\<open>Stop\<close> closes the channel \<^verbatim>\<open>quit\<close>, \<^verbatim>\<open>WaitForShutdown\<close> waits for the
  \<^verbatim>\<open>WaitGroup\<close>. The calls and the goroutines are threads that interleave: an event is a call that
  begins or one step of one thread, and between two events no thread holds the mutex \<^verbatim>\<open>quitMu\<close>, except
  a \<^verbatim>\<open>Start\<close> that waits for the shutdown. A channel is a number; a closed one is in the list \<open>shut\<close>.
  The \<^verbatim>\<open>WaitGroup\<close> is that of the package \<^verbatim>\<open>sync\<close>: a counter and a number of waiters, with the panics
  that the package has for a counter that is raised again while waiters are being released.
\<close>

section \<open>Threads\<close>

type_synonym chan = nat

text \<open>
  A goroutine at its entry, before \<^verbatim>\<open>quit := w.quitChan()\<close>; in the \<^verbatim>\<open>select\<close> of its loop with the
  channel it got; or in the \<^verbatim>\<open>Done\<close> that brought the counter to zero, about to release the waiters it
  saw. The locker also has its variable \<^verbatim>\<open>timeout\<close>, set or nil.
\<close>

datatype pc = Entry | Select chan | Releasing nat

text \<open>A call of \<^verbatim>\<open>wg.Wait\<close>: not yet begun, asleep as one of the waiters, or released.\<close>

datatype wait = Enter | Asleep | Woken

text \<open>
  \<^verbatim>\<open>Start\<close> waits in its restart branch (\<open>Starting\<close>), holding the mutex; after its unlock it has
  \<^verbatim>\<open>wg.Add(2)\<close> and the two \<^verbatim>\<open>go\<close> statements before it (\<open>Adding\<close>, \<open>SpawnCreator\<close>, \<open>SpawnLocker\<close>).
\<close>

datatype thread =
    Creator pc
  | Locker pc bool
  | Starting wait
  | Adding
  | SpawnCreator
  | SpawnLocker
  | Stopping chan
  | Closing chan
  | Waiting wait
  | Requesting bool
  | Finished

record sync =
  unlockRequests :: "chan option"
  started :: bool
  quit :: chan
  shut :: "chan list"
  nextChan :: chan
  quitMu :: bool
  wg :: nat
  waiters :: nat
  threads :: "thread list"

text \<open>The fields of the \<^verbatim>\<open>Wallet\<close> that \<^verbatim>\<open>OpenWithRetry\<close> builds: only \<^verbatim>\<open>quit\<close> is made.\<close>

definition new_sync :: sync where
  "new_sync = \<lparr>unlockRequests = None, started = False, quit = 0, shut = [], nextChan = 1, quitMu = False,
     wg = 0, waiters = 0, threads = []\<rparr>"

section \<open>Steps\<close>

type_synonym step_result = "sync result option"

text \<open>\<open>None\<close> is a step that is not possible now: the thread is blocked.\<close>

definition add_thread :: "thread \<Rightarrow> sync \<Rightarrow> sync" where
  "add_thread t s = s\<lparr>threads := threads s @ [t]\<rparr>"

definition set_thread :: "nat \<Rightarrow> thread \<Rightarrow> sync \<Rightarrow> sync" where
  "set_thread i t s = s\<lparr>threads := (threads s)[i := t]\<rparr>"

text \<open>
  The \<^verbatim>\<open>WaitGroup\<close>, with its documented misuses as panics: an \<^verbatim>\<open>Add\<close> that raises the counter from zero
  while there are waiters, and a waiter that finds the group in use again when it is released.
  \<open>at w\<close> is the calling thread at the point \<open>w\<close> of its wait, \<open>k\<close> what it does after it.
\<close>

definition wg_Add :: "nat \<Rightarrow> thread \<Rightarrow> sync \<Rightarrow> step_result" where
  "wg_Add i t s =
     (if wg s = 0 \<and> waiters s \<noteq> 0 then Some Panic
      else Some (Ok (set_thread i t (s\<lparr>wg := wg s + 2\<rparr>))))"

definition wg_Wait :: "nat \<Rightarrow> (wait \<Rightarrow> thread) \<Rightarrow> wait \<Rightarrow> (sync \<Rightarrow> sync) \<Rightarrow> sync \<Rightarrow> step_result" where
  "wg_Wait i at w k s = (case w of
      Enter \<Rightarrow> if wg s = 0 then Some (Ok (k s))
               else Some (Ok (set_thread i (at Asleep) (s\<lparr>waiters := waiters s + 1\<rparr>)))
    | Asleep \<Rightarrow> None
    | Woken \<Rightarrow> if wg s \<noteq> 0 \<or> waiters s \<noteq> 0 then Some Panic else Some (Ok (k s)))"

text \<open>
  \<^verbatim>\<open>w.wg.Done()\<close> at the end of a goroutine; a negative counter panics, and the last goroutine goes on to
  release the waiters.
\<close>

definition wg_Done :: "nat \<Rightarrow> (pc \<Rightarrow> thread) \<Rightarrow> sync \<Rightarrow> step_result" where
  "wg_Done i at s =
     (if wg s = 0 then Some Panic
      else Some (Ok (set_thread i (if wg s = 1 \<and> waiters s \<noteq> 0 then at (Releasing (waiters s)) else Finished)
             (s\<lparr>wg := wg s - 1\<rparr>))))"

fun wake :: "thread \<Rightarrow> thread" where
  "wake (Starting Asleep) = Starting Woken"
| "wake (Waiting Asleep) = Waiting Woken"
| "wake t = t"

definition wg_release :: "nat \<Rightarrow> nat \<Rightarrow> sync \<Rightarrow> step_result" where
  "wg_release i n s =
     (if wg s \<noteq> 0 \<or> waiters s \<noteq> n then Some Panic
      else Some (Ok (s\<lparr>waiters := 0, threads := map wake ((threads s)[i := Finished])\<rparr>)))"

text \<open>
  \<^verbatim>\<open>Start\<close> up to its \<^verbatim>\<open>quitMu.Unlock()\<close>, or up to the wait of the restart branch; the rest of that branch;
  and the statements after the unlock, one event each.
\<close>

definition Wallet_Start :: "sync \<Rightarrow> step_result" where
  "Wallet_Start s =
     (if quitMu s then None
      else if quit s \<in> set (shut s) then Some (Ok (add_thread (Starting Enter) (s\<lparr>quitMu := True\<rparr>)))
      else if started s then Some (Ok (add_thread Finished s))
      else Some (Ok (add_thread Adding (s\<lparr>started := True\<rparr>))))"

definition Start_again :: "nat \<Rightarrow> sync \<Rightarrow> sync" where
  "Start_again i s =
     set_thread i Adding (s\<lparr>quit := nextChan s, nextChan := nextChan s + 1, quitMu := False\<rparr>)"

definition spawn :: "nat \<Rightarrow> thread \<Rightarrow> thread \<Rightarrow> sync \<Rightarrow> step_result" where
  "spawn i next t s = Some (Ok (add_thread t (set_thread i next s)))"

definition quitChan :: "sync \<Rightarrow> chan option" where
  "quitChan s = (if quitMu s then None else Some (quit s))"

definition Wallet_Stop :: "sync \<Rightarrow> step_result" where
  "Wallet_Stop s = map_option (\<lambda>c. Ok (add_thread (Stopping c) s)) (quitChan s)"

text \<open>The \<^verbatim>\<open>select\<close> of \<^verbatim>\<open>Stop\<close>, and its default branch: closing a closed channel panics.\<close>

definition Stop_select :: "nat \<Rightarrow> chan \<Rightarrow> sync \<Rightarrow> step_result" where
  "Stop_select i c s = Some (Ok (set_thread i (if c \<in> set (shut s) then Finished else Closing c) s))"

definition Stop_close :: "nat \<Rightarrow> chan \<Rightarrow> sync \<Rightarrow> step_result" where
  "Stop_close i c s =
     (if c \<in> set (shut s) then Some Panic
      else Some (Ok (set_thread i Finished (s\<lparr>shut := c # shut s\<rparr>))))"

definition WaitForShutdown :: "sync \<Rightarrow> step_result" where
  "WaitForShutdown s = Some (Ok (add_thread (Waiting Enter) s))"

definition txCreator :: "nat \<Rightarrow> pc \<Rightarrow> sync \<Rightarrow> step_result" where
  "txCreator i p s = (case p of
      Entry \<Rightarrow> map_option (\<lambda>c. Ok (set_thread i (Creator (Select c)) s)) (quitChan s)
    | Select c \<Rightarrow> if c \<in> set (shut s) then wg_Done i Creator s else None
    | Releasing n \<Rightarrow> wg_release i n s)"

definition walletLocker :: "nat \<Rightarrow> pc \<Rightarrow> bool \<Rightarrow> sync \<Rightarrow> step_result" where
  "walletLocker i p t s = (case p of
      Entry \<Rightarrow> map_option (\<lambda>c. Ok (set_thread i (Locker (Select c) False) s)) (quitChan s)
    | Select c \<Rightarrow> if c \<in> set (shut s) then wg_Done i (\<lambda>p. Locker p t) s else None
    | Releasing n \<Rightarrow> wg_release i n s)"

definition run_thread :: "nat \<Rightarrow> sync \<Rightarrow> step_result" where
  "run_thread i s =
     (if i < length (threads s) then
        (case threads s ! i of
           Creator p \<Rightarrow> txCreator i p s
         | Locker p t \<Rightarrow> walletLocker i p t s
         | Starting w \<Rightarrow> wg_Wait i Starting w (Start_again i) s
         | Adding \<Rightarrow> wg_Add i SpawnCreator s
         | SpawnCreator \<Rightarrow> spawn i SpawnLocker (Creator Entry) s
         | SpawnLocker \<Rightarrow> spawn i Finished (Locker Entry False) s
         | Stopping c \<Rightarrow> Stop_select i c s
         | Closing c \<Rightarrow> Stop_close i c s
         | Waiting w \<Rightarrow> wg_Wait i Waiting w (set_thread i Finished) s
         | Requesting b \<Rightarrow> None
         | Finished \<Rightarrow> None)
      else None)"

text \<open>
  \<^verbatim>\<open>Unlock\<close> sends a request, with or without \<^verbatim>\<open>lockAfter\<close>, and waits for the answer. The locker's
  \<^verbatim>\<open>select\<close> receives it when the channel was made; \<open>ok\<close> is whether the manager's \<^verbatim>\<open>Unlock\<close> succeeded, and
  then \<^verbatim>\<open>timeout\<close> is what the request says. The case of an expired \<^verbatim>\<open>timeout\<close> is empty: nothing is locked.
\<close>

definition Wallet_Unlock :: "bool \<Rightarrow> sync \<Rightarrow> step_result" where
  "Wallet_Unlock lockAfter s = Some (Ok (add_thread (Requesting lockAfter) s))"

definition locker_request :: "nat \<Rightarrow> nat \<Rightarrow> bool \<Rightarrow> sync \<Rightarrow> step_result" where
  "locker_request i j ok s =
     (if i < length (threads s) \<and> j < length (threads s) \<and> unlockRequests s \<noteq> None then
        (case (threads s ! i, threads s ! j) of
           (Locker (Select c) t, Requesting b) \<Rightarrow>
             Some (Ok (set_thread j Finished (set_thread i (Locker (Select c) (if ok then b else t)) s)))
         | _ \<Rightarrow> None)
      else None)"

definition locker_timeout :: "nat \<Rightarrow> sync \<Rightarrow> step_result" where
  "locker_timeout i s =
     (if i < length (threads s) then
        (case threads s ! i of Locker (Select c) True \<Rightarrow> Some (Ok s) | _ \<Rightarrow> None)
      else None)"

datatype event = CallStart | CallStop | CallWait | CallUnlock bool | Run nat
  | Request nat nat bool | Timeout nat

fun sync_step :: "event \<Rightarrow> sync \<Rightarrow> step_result" where
  "sync_step CallStart s = Wallet_Start s"
| "sync_step CallStop s = Wallet_Stop s"
| "sync_step CallWait s = WaitForShutdown s"
| "sync_step (Run i) s = run_thread i s"
| "sync_step (CallUnlock b) s = Wallet_Unlock b s"
| "sync_step (Request i j ok) s = locker_request i j ok s"
| "sync_step (Timeout i) s = locker_timeout i s"

fun run_events :: "event list \<Rightarrow> sync \<Rightarrow> step_result" where
  "run_events [] s = Some (Ok s)"
| "run_events (e # es) s = (case sync_step e s of
      Some (Ok s') \<Rightarrow> run_events es s'
    | r \<Rightarrow> r)"

inductive sync_reachable :: "sync \<Rightarrow> bool" where
  sync_init: "sync_reachable new_sync"
| sync_next: "sync_reachable s \<Longrightarrow> sync_step e s = Some (Ok s') \<Longrightarrow> sync_reachable s'"


section \<open>Invariants\<close>

text \<open>
  What a thread counts for: what it will take from the counter of the \<^verbatim>\<open>WaitGroup\<close> (a \<^verbatim>\<open>Start\<close>
  after its \<^verbatim>\<open>Add\<close> stands for the goroutines it has still to start), whether it sleeps in \<^verbatim>\<open>Wait\<close>, waits
  with the mutex, or is about to release the waiters.
\<close>

fun owes :: "thread \<Rightarrow> nat" where
  "owes (Creator Entry) = 1"
| "owes (Creator (Select c)) = 1"
| "owes (Locker Entry t) = 1"
| "owes (Locker (Select c) t) = 1"
| "owes SpawnCreator = 2"
| "owes SpawnLocker = 1"
| "owes _ = 0"

fun asleep :: "thread \<Rightarrow> nat" where
  "asleep (Starting Asleep) = 1"
| "asleep (Waiting Asleep) = 1"
| "asleep _ = 0"

fun starting :: "thread \<Rightarrow> nat" where
  "starting (Starting w) = 1"
| "starting _ = 0"

fun releasing :: "thread \<Rightarrow> nat" where
  "releasing (Creator (Releasing n)) = 1"
| "releasing (Locker (Releasing n) t) = 1"
| "releasing _ = 0"

definition tally :: "(thread \<Rightarrow> nat) \<Rightarrow> sync \<Rightarrow> nat" where
  "tally f s = sum_list (map f (threads s))"

text \<open>The channel a goroutine's loop waits on.\<close>

fun selects :: "thread \<Rightarrow> chan option" where
  "selects (Creator (Select c)) = Some c"
| "selects (Locker (Select c) t) = Some c"
| "selects _ = None"

fun thread_ok :: "sync \<Rightarrow> thread \<Rightarrow> bool" where
  "thread_ok s (Creator (Releasing n)) = (n = waiters s)"
| "thread_ok s (Locker (Releasing n) t) = (n = waiters s)"
| "thread_ok s (Stopping c) = (c < nextChan s)"
| "thread_ok s (Closing c) = (c < nextChan s)"
| "thread_ok s t = (selects t \<in> {None, Some (quit s)})"

definition mutex_holders :: "sync \<Rightarrow> nat" where
  "mutex_holders s = (if quitMu s then 1 else 0)"

definition releasers :: "sync \<Rightarrow> nat" where
  "releasers s = (if wg s = 0 \<and> waiters s \<noteq> 0 then 1 else 0)"

text \<open>
  The counter of the \<^verbatim>\<open>WaitGroup\<close> is the number of goroutines that run or are being started, its waiters
  are the threads asleep; when it is zero with waiters, one goroutine is about to release them; each
  goroutine waits on the wallet's current channel; the mutex is held between events exactly while one
  \<^verbatim>\<open>Start\<close> waits for a shutdown; what was closed was made before.
\<close>

definition sync_inv :: "sync \<Rightarrow> bool" where
  "sync_inv s \<longleftrightarrow> wg s = tally owes s \<and> waiters s = tally asleep s
     \<and> mutex_holders s = tally starting s \<and> releasers s = tally releasing s
     \<and> (\<forall>t \<in> set (threads s). thread_ok s t)
     \<and> (quitMu s \<longrightarrow> quit s \<in> set (shut s))
     \<and> quit s < nextChan s \<and> (\<forall>c \<in> set (shut s). c < nextChan s)"

lemma sum_list_update_nat:
  "i < length xs \<Longrightarrow> sum_list (map f (xs[i := t])) + f (xs ! i) = sum_list (map f xs) + (f t :: nat)"
proof (induction xs arbitrary: i)
  case (Cons x xs)
  then show ?case by (cases i) auto
qed simp

lemma tally_set_thread [simp]:
  "i < length (threads s) \<Longrightarrow> tally f (set_thread i t s) + f (threads s ! i) = tally f s + f t"
  using sum_list_update_nat [of i "threads s" f t] by (simp add: tally_def set_thread_def)

lemma tally_update:
  "i < length (threads s) \<Longrightarrow> threads s' = (threads s)[i := t] @ us \<Longrightarrow>
   tally f s' + f (threads s ! i) = tally f s + f t + sum_list (map f us)"
  using sum_list_update_nat [of i "threads s" f t] by (simp add: tally_def)

lemma tally_add_thread [simp]: "tally f (add_thread t s) = tally f s + f t"
  by (simp add: tally_def add_thread_def)

lemma tally_fields [simp]:
  "tally f (s\<lparr>started := b\<rparr>) = tally f s" "tally f (s\<lparr>quitMu := b\<rparr>) = tally f s"
  "tally f (s\<lparr>quit := c\<rparr>) = tally f s" "tally f (s\<lparr>nextChan := c\<rparr>) = tally f s"
  "tally f (s\<lparr>shut := cs\<rparr>) = tally f s" "tally f (s\<lparr>wg := n\<rparr>) = tally f s"
  by (simp_all add: tally_def)

lemma tally_0: "tally f s = 0 \<longleftrightarrow> (\<forall>t \<in> set (threads s). f t = 0)"
  by (auto simp: tally_def)

lemma tally_ge: "t \<in> set (threads s) \<Longrightarrow> f t \<le> tally f s"
  unfolding tally_def by (rule member_le_sum_list) auto

lemma set_thread_sel [simp]:
  "wg (set_thread i t s) = wg s" "quit (set_thread i t s) = quit s" "quitMu (set_thread i t s) = quitMu s"
  "shut (set_thread i t s) = shut s" "nextChan (set_thread i t s) = nextChan s" "waiters (set_thread i t s) = waiters s"
  "started (set_thread i t s) = started s" "unlockRequests (set_thread i t s) = unlockRequests s"
  "threads (set_thread i t s) = (threads s)[i := t]"
  by (simp_all add: set_thread_def)

lemma add_thread_sel [simp]:
  "wg (add_thread t s) = wg s" "quit (add_thread t s) = quit s" "quitMu (add_thread t s) = quitMu s"
  "shut (add_thread t s) = shut s" "nextChan (add_thread t s) = nextChan s" "waiters (add_thread t s) = waiters s"
  "started (add_thread t s) = started s" "unlockRequests (add_thread t s) = unlockRequests s"
  "threads (add_thread t s) = threads s @ [t]"
  by (simp_all add: add_thread_def)

lemmas step_defs = Wallet_Start_def Wallet_Stop_def WaitForShutdown_def run_thread_def Start_again_def quitChan_def
  Stop_select_def Stop_close_def wg_Wait_def wg_Done_def wg_Add_def wg_release_def spawn_def txCreator_def
  walletLocker_def locker_request_def locker_timeout_def Wallet_Unlock_def

lemmas step_splits = thread.splits pc.splits wait.splits if_splits

lemma thread_ok_mono:
  "thread_ok s t \<Longrightarrow> quit s' = quit s \<or> owes t = 0 \<Longrightarrow> waiters s' = waiters s \<or> releasing t = 0 \<Longrightarrow>
   nextChan s \<le> nextChan s' \<Longrightarrow> thread_ok s' t"
  by (cases "(s, t)" rule: thread_ok.cases; cases t rule: selects.cases) auto

text \<open>A step that replaces a thread and starts others keeps the invariant when the sums move together.\<close>

lemma sync_inv_update:
  assumes inv: "sync_inv s" and i: "i < length (threads s)" and ts: "threads s' = (threads s)[i := t] @ us"
    and "wg s' + owes (threads s ! i) = wg s + owes t + sum_list (map owes us)"
    and "waiters s' + asleep (threads s ! i) = waiters s + asleep t + sum_list (map asleep us)"
    and "mutex_holders s' + starting (threads s ! i) = mutex_holders s + starting t + sum_list (map starting us)"
    and "releasers s' + releasing (threads s ! i) = releasers s + releasing t + sum_list (map releasing us)"
    and ok: "thread_ok s' t" "\<forall>u \<in> set us. thread_ok s' u"
    and quit: "quit s' = quit s \<or> wg s = 0" and waiters: "waiters s' = waiters s \<or> releasers s = 0"
    and chans: "nextChan s \<le> nextChan s'" "quit s' < nextChan s'" "\<forall>c \<in> set (shut s'). c < nextChan s'"
    and "quitMu s' \<longrightarrow> quit s' \<in> set (shut s')"
  shows "sync_inv s'"
proof -
  note sums = tally_update [OF i ts]
  have "wg s' = tally owes s'" using assms(4) sums [of owes] inv by (simp add: sync_inv_def)
  moreover have "waiters s' = tally asleep s'" using assms(5) sums [of asleep] inv by (simp add: sync_inv_def)
  moreover have "mutex_holders s' = tally starting s'" using assms(6) sums [of starting] inv by (simp add: sync_inv_def)
  moreover have "releasers s' = tally releasing s'" using assms(7) sums [of releasing] inv by (simp add: sync_inv_def)
  moreover have "thread_ok s' u" if "u \<in> set (threads s)" for u
  proof (rule thread_ok_mono [of s])
    show "thread_ok s u" using inv that by (simp add: sync_inv_def)
    show "quit s' = quit s \<or> owes u = 0" using inv quit that by (auto simp: sync_inv_def tally_0)
    show "waiters s' = waiters s \<or> releasing u = 0" using inv waiters that by (auto simp: sync_inv_def tally_0)
  qed (rule chans)
  then have "\<forall>u \<in> set (threads s'). thread_ok s' u"
    using ok by (auto simp: ts dest!: set_update_subset_insert [THEN subsetD])
  ultimately show ?thesis using chans assms(15) by (simp add: sync_inv_def)
qed

lemma sync_inv_append:
  assumes "sync_inv s" and "thread_ok s t" and "owes t = 0" and "asleep t = 0" and "starting t = 0" and "releasing t = 0"
  shows "sync_inv (add_thread t s)"
proof -
  have "thread_ok (add_thread t s) u = thread_ok s u" for u
    by (cases "(s, u)" rule: thread_ok.cases) auto
  moreover have "mutex_holders (add_thread t s) = mutex_holders s" "releasers (add_thread t s) = releasers s"
    by (simp_all add: mutex_holders_def releasers_def)
  ultimately show ?thesis using assms by (auto simp: sync_inv_def)
qed

lemma sync_inv_spawned:
  assumes "sync_inv s" and "i < length (threads s)" and "owes (threads s ! i) = owes t + owes u"
    and "asleep (threads s ! i) = 0" "starting (threads s ! i) = 0" "releasing (threads s ! i) = 0"
    and "asleep t = 0" "starting t = 0" "releasing t = 0" "thread_ok s t"
    and "asleep u = 0" "starting u = 0" "releasing u = 0" "thread_ok s u"
  shows "sync_inv (add_thread u (set_thread i t s))"
  by (rule sync_inv_update [OF assms(1,2), of _ t "[u]"])
    (use assms in \<open>auto simp: mutex_holders_def releasers_def sync_inv_def intro: thread_ok_mono [of s]\<close>)

text \<open>A thread replaced by another keeps the invariant when what it counts for and its channel do.\<close>

lemma sync_inv_set_thread:
  assumes "sync_inv s" and "i < length (threads s)" and "owes t = owes (threads s ! i)"
    and "asleep t = asleep (threads s ! i)" and "starting t = starting (threads s ! i)"
    and "releasing t = releasing (threads s ! i)" and "thread_ok s t"
  shows "sync_inv (set_thread i t s)"
  by (rule sync_inv_update [OF assms(1,2), of _ t "[]"])
    (use assms in \<open>auto simp: mutex_holders_def releasers_def sync_inv_def intro: thread_ok_mono [of s]\<close>)

text \<open>The operations of the \<^verbatim>\<open>WaitGroup\<close> and the restart.\<close>

lemma sync_inv_done:
  assumes inv: "sync_inv s" and i: "i < length (threads s)" and "owes (threads s ! i) = 1"
    and "asleep (threads s ! i) = 0" "starting (threads s ! i) = 0" "releasing (threads s ! i) = 0"
    and "\<And>n. at (Releasing n) \<in> {Creator (Releasing n), Locker (Releasing n) b}"
    and "wg_Done i at s = Some r"
  shows "\<exists>s'. r = Ok s' \<and> sync_inv s'"
proof -
  let ?t = "if wg s = 1 \<and> waiters s \<noteq> 0 then at (Releasing (waiters s)) else Finished"
  have "1 \<le> wg s" using tally_ge [of "threads s ! i" s owes] inv i assms(3) by (simp add: sync_inv_def)
  then have r: "r = Ok (set_thread i ?t (s\<lparr>wg := wg s - 1\<rparr>))" using assms(8) by (simp add: wg_Done_def)
  have t: "?t \<in> {Finished, Creator (Releasing (waiters s)), Locker (Releasing (waiters s)) b}"
    using assms(7) [of "waiters s"] by auto
  have "releasing ?t = (if wg s = 1 \<and> waiters s \<noteq> 0 then 1 else 0)" using assms(7) [of "waiters s"] by auto
  moreover from t have "owes ?t = 0" "asleep ?t = 0" "starting ?t = 0" "thread_ok s' ?t = True"
    if "waiters s' = waiters s" for s' using that by auto
  ultimately have "sync_inv (set_thread i ?t (s\<lparr>wg := wg s - 1\<rparr>))"
    using \<open>1 \<le> wg s\<close> assms(1-6)
    by (intro sync_inv_update [OF inv i, of _ ?t "[]"]) (auto simp: mutex_holders_def releasers_def sync_inv_def)
  with r show ?thesis by blast
qed

lemma sync_inv_add:
  assumes inv: "sync_inv s" and i: "i < length (threads s)" and t: "threads s ! i = Adding"
    and "wg_Add i SpawnCreator s = Some (Ok s')"
  shows "sync_inv s'"
proof -
  from assms(4) have "\<not> (wg s = 0 \<and> waiters s \<noteq> 0)" "s' = set_thread i SpawnCreator (s\<lparr>wg := wg s + 2\<rparr>)"
    by (auto simp: wg_Add_def split: if_splits)
  with inv t show ?thesis
    by (intro sync_inv_update [OF inv i, of _ SpawnCreator "[]"]) (auto simp: mutex_holders_def releasers_def sync_inv_def)
qed

lemma sync_inv_sleep:
  assumes inv: "sync_inv s" and i: "i < length (threads s)" and "wg s \<noteq> 0"
    and "(threads s ! i, t) \<in> {(Starting Enter, Starting Asleep), (Waiting Enter, Waiting Asleep)}"
  shows "sync_inv (set_thread i t (s\<lparr>waiters := waiters s + 1\<rparr>))"
  using assms by (intro sync_inv_update [OF inv i, of _ t "[]"]) (auto simp: mutex_holders_def releasers_def sync_inv_def)

lemma sync_inv_restart:
  assumes inv: "sync_inv s" and i: "i < length (threads s)" and "wg s = 0"
    and "threads s ! i \<in> {Starting Enter, Starting Woken}"
  shows "sync_inv (Start_again i s)"
proof -
  have "starting (threads s ! i) = 1" using assms(4) by auto
  then have "1 \<le> tally starting s" using tally_ge [of "threads s ! i" s starting] i by simp
  then have "quitMu s" using inv by (auto simp: sync_inv_def mutex_holders_def split: if_splits)
  with assms show ?thesis
    by (intro sync_inv_update [OF inv i, of _ Adding "[]"])
      (auto simp: Start_again_def mutex_holders_def releasers_def sync_inv_def less_Suc_eq)
qed

lemma tally_map:
  fixes s :: sync
  assumes "\<And>t. f (wake t) = f t"
  shows "tally f (s\<lparr>waiters := n, threads := map wake ts\<rparr>) = sum_list (map f ts)"
  using assms by (simp add: tally_def comp_def)

lemma wake_sums [simp]:
  "owes (wake t) = owes t" "starting (wake t) = starting t" "releasing (wake t) = releasing t" "asleep (wake t) = 0"
  "selects (wake t) = selects t" "(wake t = Closing c) = (t = Closing c)"
  by (cases t rule: wake.cases; auto)+

lemma wake_same: "asleep t = 0 \<Longrightarrow> wake t = t"
  by (cases t rule: wake.cases) auto

lemma thread_ok_wake: "thread_ok s (wake t) = thread_ok s t"
  by (cases t rule: wake.cases) auto

lemma releasing_one:
  assumes "sync_inv s" and i: "i < length (threads s)" and "releasing (threads s ! i) = 1"
  shows "wg s = 0" "threads s ! i \<in> {Creator (Releasing (waiters s))} \<union> range (\<lambda>t. Locker (Releasing (waiters s)) t)"
    "j < length (threads s) \<Longrightarrow> j \<noteq> i \<Longrightarrow> releasing (threads s ! j) = 0"
proof -
  have r: "tally releasing s = 1" "wg s = 0"
    using assms tally_ge [of "threads s ! i" s releasing] nth_mem [OF i]
    by (auto simp: sync_inv_def releasers_def split: if_splits)
  then show "wg s = 0" by simp
  have "thread_ok s (threads s ! i)" using assms nth_mem [OF i] by (simp add: sync_inv_def)
  then show "threads s ! i \<in> {Creator (Releasing (waiters s))} \<union> range (\<lambda>t. Locker (Releasing (waiters s)) t)"
    using assms(3) by (cases "threads s ! i" rule: releasing.cases) auto
  have z: "tally releasing (set_thread i Finished s) = 0" using tally_set_thread [OF i, of releasing Finished] r assms(3) by simp
  show "releasing (threads s ! j) = 0" if "j < length (threads s)" "j \<noteq> i"
  proof -
    have "threads (set_thread i Finished s) ! j \<in> set (threads (set_thread i Finished s))"
      using that by (intro nth_mem) simp
    with z that show ?thesis by (auto simp: tally_0)
  qed
qed

lemma sync_inv_release:
  assumes inv: "sync_inv s" and i: "i < length (threads s)" and r: "releasing (threads s ! i) = 1"
  shows "sync_inv (s\<lparr>waiters := 0, threads := map wake ((threads s)[i := Finished])\<rparr>)"
proof -
  let ?s = "s\<lparr>waiters := 0, threads := map wake ((threads s)[i := Finished])\<rparr>"
  note one = releasing_one [OF inv i r]
  have sums: "tally f ?s = tally f (set_thread i Finished s)" if "\<And>t. f (wake t) = f t" for f
    using tally_map [of f "(threads s)[i := Finished]" 0 s, OF that] by (simp add: tally_def)
  have zero: "owes (threads s ! i) = 0" "starting (threads s ! i) = 0" using one(2) by auto
  have "releasers s = 1" using inv r tally_ge [of "threads s ! i" s releasing] nth_mem [OF i]
    by (auto simp: sync_inv_def releasers_def split: if_splits)
  with zero have "wg ?s = tally owes ?s" "mutex_holders ?s = tally starting ?s" "releasers ?s = tally releasing ?s"
    using inv r tally_set_thread [OF i, of owes Finished] tally_set_thread [OF i, of starting Finished]
      tally_set_thread [OF i, of releasing Finished]
    by (auto simp: sums sync_inv_def mutex_holders_def releasers_def)
  moreover have "waiters ?s = tally asleep ?s" by (auto simp: tally_def)
  moreover have "thread_ok ?s u" if u: "u \<in> set (threads ?s)" for u
  proof -
    obtain j where j: "j < length (threads s)" "u = wake ((threads s)[i := Finished] ! j)"
      using u by (auto simp: in_set_conv_nth)
    have "thread_ok ?s (threads s ! j)" if "j \<noteq> i"
      by (rule thread_ok_mono [of s]) (use inv j(1) one(3) [OF j(1) that] in \<open>auto simp: sync_inv_def\<close>)
    with j show ?thesis by (cases "j = i") (auto simp: thread_ok_wake)
  qed
  ultimately show ?thesis using inv by (auto simp: sync_inv_def)
qed

lemma sync_inv_close:
  assumes "sync_inv s" and "c < nextChan s"
  shows "sync_inv (s\<lparr>shut := c # shut s\<rparr>)"
proof -
  have "thread_ok (s\<lparr>shut := c # shut s\<rparr>) u = thread_ok s u" for u
    by (cases "(s, u)" rule: thread_ok.cases) auto
  with assms show ?thesis by (auto simp: sync_inv_def mutex_holders_def releasers_def)
qed

lemma run_thread_lt: "run_thread i s = Some r \<Longrightarrow> i < length (threads s)"
  by (simp add: run_thread_def split: if_splits)

lemma sync_inv_goroutine:
  assumes inv: "sync_inv s" and i: "i < length (threads s)"
    and "(\<exists>p. threads s ! i = Creator p \<and> txCreator i p s = Some r)
      \<or> (\<exists>p t. threads s ! i = Locker p t \<and> walletLocker i p t s = Some r)"
  shows "\<exists>s'. r = Ok s' \<and> sync_inv s'"
  using assms(3)
proof (elim disjE exE conjE)
  fix p
  assume p: "threads s ! i = Creator p" and "txCreator i p s = Some r"
  then show ?thesis
    using sync_inv_done [OF inv i, of Creator] sync_inv_release [OF inv i] releasing_one [OF inv i]
      sync_inv_set_thread [OF inv i, of "Creator (Select (quit s))"]
    by (cases p) (auto simp: txCreator_def quitChan_def wg_release_def split: if_splits)
next
  fix p t
  assume p: "threads s ! i = Locker p t" and "walletLocker i p t s = Some r"
  then show ?thesis
    using sync_inv_done [OF inv i, of "\<lambda>p. Locker p t" t] sync_inv_release [OF inv i] releasing_one [OF inv i]
      sync_inv_set_thread [OF inv i, of "Locker (Select (quit s)) False"]
    by (cases p) (auto simp: walletLocker_def quitChan_def wg_release_def split: if_splits)
qed

lemma sync_inv_wait:
  assumes inv: "sync_inv s" and i: "i < length (threads s)" and t: "threads s ! i = at w"
    and "at = Starting \<and> k = Start_again i \<or> at = Waiting \<and> k = set_thread i Finished"
    and "wg_Wait i at w k s = Some (Ok s')"
  shows "sync_inv s'"
proof -
  have "sync_inv (k s)" if "wg s = 0" "w \<noteq> Asleep"
    using assms that sync_inv_restart [OF inv i] sync_inv_set_thread [OF inv i, of Finished] by (cases w) auto
  moreover have "sync_inv (set_thread i (at Asleep) (s\<lparr>waiters := waiters s + 1\<rparr>))" if "wg s \<noteq> 0" "w = Enter"
    using assms(4) t that by (intro sync_inv_sleep [OF inv i]) auto
  ultimately show ?thesis using assms(5) by (cases w) (auto simp: wg_Wait_def split: if_splits)
qed

lemma sync_inv_run:
  assumes inv: "sync_inv s" and step: "run_thread i s = Some (Ok s')"
  shows "sync_inv s'"
proof -
  have i: "i < length (threads s)" using step by (rule run_thread_lt)
  have ok: "thread_ok s (threads s ! i)" using inv nth_mem [OF i] by (simp add: sync_inv_def)
  note frame = sync_inv_set_thread [OF inv i]
  show ?thesis
  proof (cases "threads s ! i")
    case (Creator p)
    with i step sync_inv_goroutine [OF inv i] show ?thesis by (auto simp: run_thread_def)
  next
    case (Locker p t)
    with i step sync_inv_goroutine [OF inv i] show ?thesis by (auto simp: run_thread_def)
  next
    case (Starting w)
    with i step sync_inv_wait [OF inv i, of Starting w "Start_again i"] show ?thesis by (simp add: run_thread_def)
  next
    case Adding
    with i step sync_inv_add [OF inv i] show ?thesis by (simp add: run_thread_def)
  next
    case (Closing c)
    with i step have s': "s' = (set_thread i Finished s)\<lparr>shut := c # shut (set_thread i Finished s)\<rparr>"
      by (auto simp: run_thread_def Stop_close_def set_thread_def split: if_splits)
    show ?thesis unfolding s' using Closing ok by (intro sync_inv_close frame) auto
  next
    case (Waiting w)
    with i step sync_inv_wait [OF inv i, of Waiting w "set_thread i Finished"] show ?thesis by (simp add: run_thread_def)
  qed (use i step ok in \<open>auto simp: run_thread_def spawn_def Stop_select_def intro!: frame sync_inv_spawned [OF inv i]\<close>)
qed

lemma sync_inv_Start:
  assumes inv: "sync_inv s" and "Wallet_Start s = Some (Ok s')"
  shows "sync_inv s'"
proof (cases "quit s \<in> set (shut s)")
  case True
  with assms have s': "s' = add_thread (Starting Enter) (s\<lparr>quitMu := True\<rparr>)" "\<not> quitMu s"
    by (auto simp: Wallet_Start_def split: if_splits)
  have "thread_ok s' u = thread_ok s u" for u by (cases "(s, u)" rule: thread_ok.cases) (auto simp: s')
  moreover have "releasers s' = releasers s" by (simp add: s' releasers_def)
  ultimately show ?thesis using inv True s' by (auto simp: sync_inv_def mutex_holders_def)
next
  case False
  have "sync_inv (s\<lparr>started := b\<rparr>)" for b
  proof -
    have "thread_ok (s\<lparr>started := b\<rparr>) u = thread_ok s u" for u by (cases "(s, u)" rule: thread_ok.cases) auto
    with inv show ?thesis by (auto simp: sync_inv_def mutex_holders_def releasers_def)
  qed
  with False assms show ?thesis
    by (auto simp: Wallet_Start_def intro!: sync_inv_append split: if_splits)
qed

lemma request_cases:
  assumes "locker_request i j ok s = Some r"
  obtains c t b where "i < length (threads s)" "j < length (threads s)" "i \<noteq> j" "unlockRequests s \<noteq> None"
    "threads s ! i = Locker (Select c) t" "threads s ! j = Requesting b"
    "r = Ok (set_thread j Finished (set_thread i (Locker (Select c) (if ok then b else t)) s))"
proof -
  from assms have "i < length (threads s)" "j < length (threads s)" "unlockRequests s \<noteq> None"
    by (auto simp: locker_request_def split: if_splits)
  moreover from assms obtain c t b where "threads s ! i = Locker (Select c) t" "threads s ! j = Requesting b"
      "r = Ok (set_thread j Finished (set_thread i (Locker (Select c) (if ok then b else t)) s))"
    by (auto simp: locker_request_def split: if_splits thread.splits pc.splits)
  moreover from this have "i \<noteq> j" by auto
  ultimately show thesis using that by blast
qed

lemma sync_inv_request:
  assumes inv: "sync_inv s" and step: "locker_request i j ok s = Some (Ok s')"
  shows "sync_inv s'"
proof (rule request_cases [OF step], goal_cases)
  case (1 c t b)
  let ?s = "set_thread i (Locker (Select c) (if ok then b else t)) s"
  have "thread_ok s (threads s ! i)" using inv nth_mem [OF 1(1)] unfolding sync_inv_def by blast
  with 1 have "sync_inv ?s" by (intro sync_inv_set_thread [OF inv]) auto
  with 1 have "sync_inv (set_thread j Finished ?s)" by (intro sync_inv_set_thread [of ?s]) auto
  with 1 show ?case by simp
qed

lemma sync_inv_step:
  assumes "sync_inv s" and "sync_step e s = Some (Ok s')"
  shows "sync_inv s'"
proof (cases e)
  case CallStart
  with assms show ?thesis using sync_inv_Start by simp
next
  case CallStop
  moreover have "quit s < nextChan s" using assms by (simp add: sync_inv_def)
  ultimately show ?thesis using assms
    by (auto simp: Wallet_Stop_def quitChan_def intro!: sync_inv_append split: if_splits)
next
  case CallWait
  with assms show ?thesis by (auto simp: WaitForShutdown_def intro!: sync_inv_append)
next
  case (Run i)
  with assms show ?thesis using sync_inv_run by simp
next
  case (CallUnlock b)
  with assms show ?thesis by (auto simp: Wallet_Unlock_def intro!: sync_inv_append)
next
  case (Request i j ok)
  with assms show ?thesis using sync_inv_request by simp
next
  case (Timeout i)
  with assms show ?thesis by (auto simp: locker_timeout_def split: if_splits thread.splits pc.splits bool.splits)
qed

lemma sync_inv_new: "sync_inv new_sync"
  by (simp add: sync_inv_def new_sync_def tally_def mutex_holders_def releasers_def)

lemma sync_inv_reachable: "sync_reachable s \<Longrightarrow> sync_inv s"
  by (induction rule: sync_reachable.induct) (auto intro: sync_inv_step sync_inv_new)

lemma run_events_keeps:
  assumes "\<And>e s s'. J s \<Longrightarrow> sync_step e s = Some (Ok s') \<Longrightarrow> J s'" and "J s" and "run_events es s = Some (Ok s')"
  shows "J s'"
  using assms(2,3)
proof (induction es arbitrary: s)
  case (Cons e es)
  then obtain s1 where "sync_step e s = Some (Ok s1)" "run_events es s1 = Some (Ok s')"
    by (auto split: option.splits res.splits)
  with Cons assms(1) show ?case by blast
qed simp

text \<open>
  The panics: closing a closed channel; a released waiter that finds the \<^verbatim>\<open>WaitGroup\<close> in use again; and
  an \<^verbatim>\<open>Add\<close> between the last \<^verbatim>\<open>Done\<close> and the release of the waiters.
\<close>

definition panics :: "sync \<Rightarrow> thread \<Rightarrow> bool" where
  "panics s t \<longleftrightarrow> (case t of
      Closing c \<Rightarrow> c \<in> set (shut s)
    | Waiting Woken \<Rightarrow> wg s \<noteq> 0 \<or> waiters s \<noteq> 0
    | Starting Woken \<Rightarrow> wg s \<noteq> 0 \<or> waiters s \<noteq> 0
    | Adding \<Rightarrow> wg s = 0 \<and> waiters s \<noteq> 0
    | _ \<Rightarrow> False)"

lemma run_panic:
  assumes "sync_inv s"
  shows "run_thread i s = Some Panic \<longleftrightarrow> i < length (threads s) \<and> panics s (threads s ! i)"
proof (cases "i < length (threads s)")
  case True
  have "txCreator i p s \<noteq> Some Panic" if "threads s ! i = Creator p" for p
    using sync_inv_goroutine [OF assms True, of Panic] that by auto
  moreover have "walletLocker i p t s \<noteq> Some Panic" if "threads s ! i = Locker p t" for p t
    using sync_inv_goroutine [OF assms True, of Panic] that by auto
  ultimately show ?thesis using True
    by (cases "threads s ! i") (auto simp: panics_def run_thread_def wg_Wait_def wg_Add_def spawn_def Stop_select_def
        Stop_close_def split: wait.splits)
qed (simp add: run_thread_def)

lemma sync_panic:
  assumes "sync_inv s"
  shows "sync_step e s = Some Panic \<longleftrightarrow> (\<exists>i < length (threads s). e = Run i \<and> panics s (threads s ! i))"
proof (cases e)
  case (Run i)
  with run_panic [OF assms, of i] show ?thesis by auto
qed (auto simp: step_defs split: if_splits thread.splits pc.splits bool.splits)

section \<open>Progress\<close>

text \<open>
  The steps a thread has left when no call begins and no \<^verbatim>\<open>Start\<close> is waiting, those of the goroutines
  it will start included.
\<close>

fun steps_left :: "thread \<Rightarrow> nat" where
  "steps_left (Creator Entry) = 3"
| "steps_left (Creator (Select c)) = 2"
| "steps_left (Creator (Releasing n)) = 1"
| "steps_left (Locker Entry t) = 3"
| "steps_left (Locker (Select c) t) = 2"
| "steps_left (Locker (Releasing n) t) = 1"
| "steps_left (Starting w) = 1"
| "steps_left Adding = 9"
| "steps_left SpawnCreator = 8"
| "steps_left SpawnLocker = 4"
| "steps_left (Stopping c) = 2"
| "steps_left (Closing c) = 1"
| "steps_left (Waiting Enter) = 2"
| "steps_left (Waiting Asleep) = 1"
| "steps_left (Waiting Woken) = 1"
| "steps_left (Requesting b) = 0"
| "steps_left Finished = 0"

definition work :: "sync \<Rightarrow> nat" where
  "work s = tally steps_left s"

text \<open>A shutdown under way: the current channel is closed and no \<^verbatim>\<open>Start\<close> waits.\<close>

definition stopped :: "sync \<Rightarrow> bool" where
  "stopped s \<longleftrightarrow> sync_inv s \<and> \<not> quitMu s \<and> quit s \<in> set (shut s)"

lemma not_starting:
  assumes "sync_inv s" and "\<not> quitMu s"
  shows "Starting w \<notin> set (threads s)"
proof
  assume "Starting w \<in> set (threads s)"
  from tally_ge [OF this, of starting] assms show False by (simp add: sync_inv_def mutex_holders_def)
qed

lemma work_bound: "work s \<le> 9 * length (threads s)"
proof -
  have "steps_left t \<le> 9" for t by (cases t rule: steps_left.cases) auto
  then have "sum_list (map steps_left ts) \<le> 9 * length ts" for ts
    using sum_list_mono [of ts steps_left "\<lambda>_. 9"] by (simp add: sum_list_triv)
  then show ?thesis by (simp add: work_def tally_def)
qed

lemma work_fields [simp]:
  "work (set_thread i t (s\<lparr>wg := n\<rparr>)) = work (set_thread i t s)"
  "work (set_thread i t (s\<lparr>shut := cs\<rparr>)) = work (set_thread i t s)"
  "work (set_thread i t (s\<lparr>waiters := n\<rparr>)) = work (set_thread i t s)"
  by (simp_all add: work_def tally_def set_thread_def)

lemma work_less:
  assumes "i < length (threads s)" and "steps_left t < steps_left (threads s ! i)"
  shows "work (set_thread i t s) < work s"
  using tally_set_thread [OF assms(1), of steps_left t] assms(2) by (simp add: work_def)

lemma work_spawn:
  assumes "i < length (threads s)" and "steps_left t + steps_left u < steps_left (threads s ! i)"
  shows "work (add_thread u (set_thread i t s)) < work s"
  using tally_set_thread [OF assms(1), of steps_left t] assms(2) by (simp add: work_def)

lemma work_wake: "work (s\<lparr>waiters := n, threads := map wake ((threads s)[i := t])\<rparr>) = work (set_thread i t s)"
proof -
  have "steps_left (wake t) = steps_left t" for t by (cases t rule: wake.cases) auto
  then show ?thesis by (simp add: work_def tally_def set_thread_def comp_def)
qed

text \<open>Every step leaves less work when no \<^verbatim>\<open>Start\<close> waits.\<close>

lemma run_work:
  assumes "sync_inv s" and "\<not> quitMu s" and step: "run_thread i s = Some (Ok s')"
  shows "work s' < work s"
proof -
  have i: "i < length (threads s)" using step by (rule run_thread_lt)
  have ns: "threads s ! i \<noteq> Starting w" for w using not_starting [OF assms(1,2)] i by (metis nth_mem)
  show ?thesis using i ns step
    by (cases "threads s ! i" rule: steps_left.cases)
      (auto simp: step_defs work_wake intro!: work_less work_spawn split: if_splits)
qed

text \<open>What a step leaves of the other threads: it may wake them, and it may start goroutines.\<close>

lemma run_others:
  assumes "run_thread i s = Some (Ok s')" and "k < length (threads s')" and "k \<noteq> i"
  shows "k < length (threads s) \<and> threads s' ! k \<in> {threads s ! k, wake (threads s ! k)}
    \<or> length (threads s) \<le> k \<and> threads s' ! k \<in> {Creator Entry, Locker Entry False}"
  using assms(1) [THEN run_thread_lt] assms
  by (cases "threads s ! i") (auto simp: step_defs nth_append split: pc.splits wait.splits if_splits)

lemma run_fields:
  assumes "run_thread i s = Some (Ok s')"
  shows "quitMu s' \<longrightarrow> quitMu s" "set (shut s) \<subseteq> set (shut s')" "length (threads s) \<le> length (threads s')"
    "(\<forall>w. threads s ! i \<noteq> Starting w) \<Longrightarrow> quitMu s' = quitMu s \<and> quit s' = quit s"
  using assms(1) [THEN run_thread_lt] assms
  by (cases "threads s ! i"; auto simp: step_defs split: pc.splits wait.splits if_splits)+


lemma stopped_progress:
  assumes st: "stopped s" and "0 < wg s"
  shows "\<exists>i s'. run_thread i s = Some (Ok s')"
proof -
  have inv: "sync_inv s" using st by (simp add: stopped_def)
  then have "tally owes s \<noteq> 0" using assms(2) by (simp add: sync_inv_def)
  then obtain i where i: "i < length (threads s)" and g: "owes (threads s ! i) \<noteq> 0"
    by (auto simp: tally_0 in_set_conv_nth)
  have "thread_ok s (threads s ! i)" using inv nth_mem [OF i] by (simp add: sync_inv_def)
  with st g i \<open>0 < wg s\<close> show ?thesis
    by (cases "threads s ! i" rule: steps_left.cases)
      (auto simp: step_defs stopped_def intro!: exI [of _ i])
qed



section \<open>Calls run to their end\<close>

text \<open>
  A caller that has nothing else to do: the call begins, and the threads run, one schedule of the many,
  until the call is over; it hangs when none can step before that.
\<close>

fun is_call :: "thread \<Rightarrow> bool" where
  "is_call (Creator p) = False"
| "is_call (Locker p t) = False"
| "is_call Finished = False"
| "is_call _ = True"

definition running :: "nat \<Rightarrow> sync \<Rightarrow> bool" where
  "running j s \<longleftrightarrow> j < length (threads s) \<and> is_call (threads s ! j)"

fun settle :: "nat \<Rightarrow> nat \<Rightarrow> sync \<Rightarrow> sync result" where
  "settle j n s =
     (if \<not> running j s then Ok s
      else case n of 0 \<Rightarrow> Hang | Suc m \<Rightarrow>
        (case find (\<lambda>i. run_thread i s \<noteq> None) [0..<length (threads s)] of
           None \<Rightarrow> Hang
         | Some i \<Rightarrow> (case run_thread i s of
               Some (Ok s') \<Rightarrow> settle j m s' | Some r \<Rightarrow> r | None \<Rightarrow> Hang)))"

declare settle.simps [simp del]

definition sync_call :: "event \<Rightarrow> sync \<Rightarrow> sync result" where
  "sync_call e s = (case sync_step e s of
      None \<Rightarrow> Hang
    | Some (Ok s') \<Rightarrow> settle (length (threads s)) (9 * length (threads s')) s'
    | Some r \<Rightarrow> r)"

text \<open>No call but the \<open>j\<close>-th thread is under way, and that one is not about to panic.\<close>

definition only_call :: "nat \<Rightarrow> sync \<Rightarrow> bool" where
  "only_call j s \<longleftrightarrow> sync_inv s \<and> \<not> quitMu s \<and> j < length (threads s)
     \<and> (\<forall>i < length (threads s). i \<noteq> j \<longrightarrow> \<not> is_call (threads s ! i)) \<and> \<not> panics s (threads s ! j)"

lemma is_call_wake [simp]: "is_call (wake t) = is_call t"
  by (cases t rule: wake.cases) auto

lemma not_call: "\<not> is_call t \<Longrightarrow> asleep t = 0 \<and> \<not> panics s t"
  by (cases t) (auto simp: panics_def)

lemma only_call_waiters:
  assumes J: "only_call j s" and "asleep (threads s ! j) = 0"
  shows "waiters s = 0"
proof -
  have "asleep (threads s ! i) = 0" if "i < length (threads s)" for i
    using assms that not_call by (cases "i = j") (auto simp: only_call_def)
  then have "tally asleep s = 0" by (auto simp: tally_0 in_set_conv_nth)
  with J show ?thesis by (simp add: only_call_def sync_inv_def)
qed

lemma panics_frame:
  assumes "shut s' = shut s" and "t = t' \<or> wg s' = 0 \<and> waiters s' = 0" and "asleep t = 0 \<Longrightarrow> waiters s' = 0"
    and "t \<noteq> Waiting Woken" and "t' \<in> {t, wake t}" and "\<not> panics s t" and "\<forall>w. t \<noteq> Starting w"
  shows "\<not> panics s' t'"
proof (cases "t = t'")
  case True
  then show ?thesis using assms by (cases t) (auto simp: panics_def split: wait.splits)
next
  case False
  with assms show ?thesis by (cases t rule: wake.cases) (auto simp: panics_def)
qed

text \<open>A step of another thread does not make the call panic.\<close>

lemma only_call_calm:
  assumes J: "only_call j s" and step: "run_thread i s = Some (Ok s')"
  shows "\<not> panics s' (threads s' ! j)"
proof (cases "i = j")
  case True
  have "\<forall>w. threads s ! j \<noteq> Starting w" using J not_starting by (metis only_call_def nth_mem)
  then show ?thesis using True J step
    by (cases "threads s ! j")
      (auto simp: step_defs only_call_def panics_def nth_append split: pc.splits wait.splits if_splits)
next
  case False
  have i: "i < length (threads s)" "\<not> is_call (threads s ! i)" "j < length (threads s)"
    using J False run_thread_lt [OF step] by (auto simp: only_call_def)
  have inv: "sync_inv s" using J by (simp add: only_call_def)
  have "shut s' = shut s"
    using i step by (cases "threads s ! i") (auto simp: step_defs split: pc.splits if_splits)
  moreover have "threads s ! j = threads s' ! j \<or> wg s' = 0 \<and> waiters s' = 0"
    using i step False by (cases "threads s ! i") (auto simp: step_defs split: pc.splits if_splits)
  moreover have "waiters s' = 0" if "asleep (threads s ! j) = 0"
    using only_call_waiters [OF J that] i step by (cases "threads s ! i") (auto simp: step_defs split: pc.splits if_splits)
  moreover have "threads s ! j \<noteq> Waiting Woken"
  proof
    assume w: "threads s ! j = Waiting Woken"
    then have "wg s = 0" "releasers s = 0" using J by (auto simp: only_call_def panics_def releasers_def)
    then have "owes (threads s ! i) = 0" "releasing (threads s ! i) = 0"
      using inv nth_mem [OF i(1)] by (auto simp: sync_inv_def tally_0)
    with i step show False by (cases "threads s ! i" rule: steps_left.cases) (auto simp: run_thread_def)
  qed
  moreover have "threads s' ! j \<in> {threads s ! j, wake (threads s ! j)}" "\<not> panics s (threads s ! j)"
    using run_others [OF step, of j] i False J run_fields(3) [OF step] by (auto simp: only_call_def)
  moreover have "\<forall>w. threads s ! j \<noteq> Starting w" using J not_starting by (metis only_call_def nth_mem)
  ultimately show ?thesis using panics_frame by metis
qed

lemma only_call_step:
  assumes J: "only_call j s" and step: "run_thread i s = Some r"
  shows "\<exists>s'. r = Ok s' \<and> only_call j s' \<and> work s' < work s"
proof -
  have i: "i < length (threads s)" using step by (rule run_thread_lt)
  have inv: "sync_inv s" "\<not> quitMu s" "j < length (threads s)" using J by (simp_all add: only_call_def)
  have "r \<noteq> Panic"
    using run_panic [OF inv(1), of i] step J i not_call by (cases "i = j") (auto simp: only_call_def)
  then obtain s' where r: "r = Ok s'"
    using step i by (cases "threads s ! i") (auto simp: step_defs split: pc.splits wait.splits if_splits)
  have "\<not> is_call (threads s' ! k)" if k: "k < length (threads s')" "k \<noteq> j" for k
  proof (cases "k = i")
    case True
    then have "\<not> is_call (threads s ! i)" using J i k by (simp add: only_call_def)
    then show ?thesis using True i step r
      by (cases "threads s ! i") (auto simp: step_defs split: pc.splits if_splits)
  next
    case False
    then show ?thesis using run_others [OF step [unfolded r] k(1) False] J k(2) by (auto simp: only_call_def)
  qed
  then show ?thesis
    using r inv step sync_inv_run [OF inv(1)] run_work [OF inv(1,2)] run_fields [of i s s'] only_call_calm [OF J]
    by (auto simp: only_call_def)
qed

lemma settle_Ok:
  assumes step: "\<And>i s s'. K s \<Longrightarrow> only_call j s \<Longrightarrow> running j s \<Longrightarrow> run_thread i s = Some (Ok s') \<Longrightarrow> K s'"
    and progress: "\<And>s. K s \<Longrightarrow> only_call j s \<Longrightarrow> running j s \<Longrightarrow> \<exists>i. run_thread i s \<noteq> None"
    and "K s" and "only_call j s" and "work s \<le> n"
  shows "\<exists>s'. settle j n s = Ok s' \<and> K s' \<and> only_call j s' \<and> \<not> running j s'"
  using assms(3-)
proof (induction n arbitrary: s)
  case 0
  then have "\<not> running j s" using progress [of s] only_call_step [of j s] by fastforce
  with 0 show ?case by (simp add: settle.simps)
next
  case (Suc n)
  show ?case
  proof (cases "running j s")
    case True
    then obtain i where "run_thread i s \<noteq> None" using progress Suc.prems by blast
    moreover from this have "i < length (threads s)" by (auto simp: run_thread_def split: if_splits)
    ultimately obtain i where i: "find (\<lambda>i. run_thread i s \<noteq> None) [0..<length (threads s)] = Some i"
      by (cases "find (\<lambda>i. run_thread i s \<noteq> None) [0..<length (threads s)]") (auto simp: find_None_iff)
    then obtain r where r: "run_thread i s = Some r" by (auto simp: find_Some_iff)
    with only_call_step [OF Suc.prems(2) r] obtain s1 where "r = Ok s1" "only_call j s1" "work s1 < work s" by blast
    with Suc r True step [of s i s1] have "\<exists>s'. settle j n s1 = Ok s' \<and> K s' \<and> only_call j s' \<and> \<not> running j s'"
      by (intro Suc.IH) auto
    with True i r \<open>r = Ok s1\<close> show ?thesis by (auto simp: settle.simps [of j "Suc n" s])
  qed (use Suc in \<open>auto simp: settle.simps\<close>)
qed

text \<open>The state of a wallet on which no call is under way.\<close>

definition idle :: "sync \<Rightarrow> bool" where
  "idle s \<longleftrightarrow> sync_inv s \<and> \<not> quitMu s \<and> (\<forall>t \<in> set (threads s). \<not> is_call t)"

lemma idle_call:
  assumes "idle s" and "(\<exists>c < nextChan s. t = Stopping c) \<or> t = Waiting Enter"
  shows "only_call (length (threads s)) (add_thread t s)"
proof -
  have "sync_inv (add_thread t s)" using assms by (intro sync_inv_append) (auto simp: idle_def)
  with assms show ?thesis by (auto simp: only_call_def idle_def nth_append panics_def)
qed

lemma only_call_over:
  assumes "only_call j s" and "\<not> running j s"
  shows "idle s"
proof -
  have "\<not> is_call (threads s ! i)" if "i < length (threads s)" for i
    using assms that by (cases "i = j") (auto simp: only_call_def running_def)
  then show ?thesis using assms(1) by (auto simp: idle_def only_call_def in_set_conv_nth)
qed

text \<open>A wallet that is idle with its counter at zero has no goroutine left.\<close>

lemma idle_ended:
  assumes "idle s" and "wg s = 0"
  shows "set (threads s) \<subseteq> {Finished}"
proof
  fix t assume t: "t \<in> set (threads s)"
  have "\<forall>t \<in> set (threads s). asleep t = 0" using assms(1) not_call by (auto simp: idle_def)
  then have "releasers s = 0" using assms by (simp add: idle_def sync_inv_def tally_0 [THEN iffD2] releasers_def)
  with t assms have "owes t = 0" "releasing t = 0" "\<not> is_call t" by (auto simp: idle_def sync_inv_def tally_0)
  then show "t \<in> {Finished}" by (cases t rule: steps_left.cases) auto
qed

lemma call_Stop:
  assumes "idle s"
  shows "\<exists>s'. sync_call CallStop s = Ok s' \<and> idle s' \<and> quit s' \<in> set (shut s')"
proof -
  let ?j = "length (threads s)"
  let ?s = "add_thread (Stopping (quit s)) s"
  let ?K = "\<lambda>u. ?j < length (threads u) \<and> (threads u ! ?j = Stopping (quit u) \<or> threads u ! ?j = Closing (quit u)
    \<or> threads u ! ?j = Finished \<and> quit u \<in> set (shut u))"
  have "quit s < nextChan s" using assms by (simp add: idle_def sync_inv_def)
  then have J: "only_call ?j ?s" using assms by (intro idle_call) auto
  have "\<exists>s'. settle ?j (9 * length (threads ?s)) ?s = Ok s' \<and> ?K s' \<and> only_call ?j s' \<and> \<not> running ?j s'"
  proof (rule settle_Ok [OF _ _ _ J work_bound])
    fix i u u'
    assume K: "?K u" and J: "only_call ?j u" and step: "run_thread i u = Some (Ok u')"
    have "\<forall>w. threads u ! i \<noteq> Starting w"
      using J not_starting run_thread_lt [OF step] by (metis only_call_def nth_mem)
    note fields = run_fields(2,3) [OF step] run_fields(4) [OF step this]
    show "?K u'"
    proof (cases "i = ?j")
      case True
      with K step show ?thesis by (auto simp: step_defs split: if_splits)
    next
      case False
      with K fields run_others [OF step, of ?j] show ?thesis by (auto simp: subset_iff)
    qed
  next
    fix u
    assume "?K u" and "running ?j u"
    then have "run_thread ?j u \<noteq> None" by (auto simp: step_defs running_def)
    then show "\<exists>i. run_thread i u \<noteq> None" ..
  qed simp
  then obtain s' where s': "settle ?j (9 * length (threads ?s)) ?s = Ok s'" "?K s'" "only_call ?j s'" "\<not> running ?j s'"
    by blast
  moreover have "sync_call CallStop s = settle ?j (9 * length (threads ?s)) ?s"
    using assms by (simp add: sync_call_def Wallet_Stop_def quitChan_def idle_def)
  ultimately show ?thesis using only_call_over [of ?j s'] by (auto simp: running_def)
qed

lemma call_Wait:
  assumes "idle s" and "quit s \<in> set (shut s)"
  shows "\<exists>s'. sync_call CallWait s = Ok s' \<and> idle s' \<and> wg s' = 0 \<and> quit s' \<in> set (shut s')"
proof -
  let ?j = "length (threads s)"
  let ?s = "add_thread (Waiting Enter) s"
  let ?K = "\<lambda>u. ?j < length (threads u) \<and> quit u \<in> set (shut u)
    \<and> ((\<exists>w. threads u ! ?j = Waiting w) \<or> threads u ! ?j = Finished \<and> wg u = 0)"
  have J: "only_call ?j ?s" using assms by (intro idle_call) auto
  have "\<exists>s'. settle ?j (9 * length (threads ?s)) ?s = Ok s' \<and> ?K s' \<and> only_call ?j s' \<and> \<not> running ?j s'"
  proof (rule settle_Ok [OF _ _ _ J work_bound])
    fix i u u'
    assume K: "?K u" and J: "only_call ?j u" and step: "run_thread i u = Some (Ok u')" and r: "running ?j u"
    have "\<forall>w. threads u ! i \<noteq> Starting w"
      using J not_starting run_thread_lt [OF step] by (metis only_call_def nth_mem)
    note fields = run_fields(2,3) [OF step] run_fields(4) [OF step this]
    obtain w where w: "threads u ! ?j = Waiting w" using K r by (auto simp: running_def)
    show "?K u'"
    proof (cases "i = ?j")
      case True
      with K w step show ?thesis by (cases w) (auto simp: run_thread_def wg_Wait_def split: if_splits)
    next
      case False
      have "wake (Waiting w) \<in> range Waiting" by (cases w) auto
      with False K w fields run_others [OF step, of ?j] show ?thesis by (auto simp: subset_iff)
    qed
  next
    fix u
    assume K: "?K u" and J: "only_call ?j u" and r: "running ?j u"
    obtain w where w: "threads u ! ?j = Waiting w" "?j < length (threads u)" using K r by (auto simp: running_def)
    show "\<exists>i. run_thread i u \<noteq> None"
    proof (cases "wg u = 0 \<and> w = Asleep")
      case True
      then have "waiters u \<noteq> 0"
        using J w tally_ge [of "threads u ! ?j" u asleep] nth_mem [OF w(2)] by (auto simp: only_call_def sync_inv_def)
      then have "tally releasing u \<noteq> 0" using True J by (simp add: only_call_def sync_inv_def releasers_def)
      then obtain i where "i < length (threads u)" "releasing (threads u ! i) \<noteq> 0"
        by (auto simp: tally_0 in_set_conv_nth)
      then have "run_thread i u \<noteq> None"
        by (cases "threads u ! i" rule: releasing.cases) (auto simp: step_defs)
      then show ?thesis ..
    next
      case False
      show ?thesis
      proof (cases "wg u = 0")
        case True
        with False w have "run_thread ?j u \<noteq> None" by (cases w) (auto simp: run_thread_def wg_Wait_def)
        then show ?thesis ..
      next
        case False
        with K J show ?thesis using stopped_progress [of u] by (auto simp: stopped_def only_call_def)
      qed
    qed
  qed (use assms in simp_all)
  then obtain s' where s': "settle ?j (9 * length (threads ?s)) ?s = Ok s'" "?K s'" "only_call ?j s'" "\<not> running ?j s'"
    by blast
  moreover have "sync_call CallWait s = settle ?j (9 * length (threads ?s)) ?s"
    using assms by (simp add: sync_call_def WaitForShutdown_def)
  ultimately show ?thesis using only_call_over [of ?j s'] by (auto simp: running_def)
qed

text \<open>The first \<^verbatim>\<open>Start\<close> of a new wallet.\<close>

definition started_sync :: sync where
  "started_sync = new_sync\<lparr>started := True, wg := 2, threads := [Finished, Creator Entry, Locker Entry False]\<rparr>"

lemma call_Start_new: "sync_call CallStart new_sync = Ok started_sync"
  by code_simp

lemma idle_started: "idle started_sync"
  by (simp add: idle_def sync_inv_def tally_def mutex_holders_def releasers_def started_sync_def new_sync_def)

section \<open>Properties\<close>

lemma no_requests: "sync_step e s = Some (Ok s') \<Longrightarrow> unlockRequests s' = unlockRequests s"
proof (cases e)
  case (Run i)
  assume "sync_step e s = Some (Ok s')"
  with Run show ?thesis by (auto simp: step_defs split: thread.splits pc.splits wait.splits if_splits)
next
  case (Request i j ok)
  assume "sync_step e s = Some (Ok s')"
  with Request show ?thesis by (auto elim!: request_cases)
qed (auto simp: step_defs split: if_splits thread.splits pc.splits bool.splits)

lemma requesting_step:
  assumes "sync_step e s = Some (Ok s')" and "j < length (threads s)" and "threads s ! j = Requesting b"
    and "unlockRequests s = None"
  shows "j < length (threads s') \<and> threads s' ! j = Requesting b"
  using assms
proof (cases e)
  case (Run i)
  then have step: "run_thread i s = Some (Ok s')" using assms(1) by simp
  with assms have "j \<noteq> i" by (auto simp: run_thread_def split: if_splits)
  with run_others [OF step, of j] run_fields(3) [OF step] assms(2,3) show ?thesis by auto
qed (auto simp: step_defs nth_append split: if_splits thread.splits pc.splits bool.splits)

lemma panics_eq:
  "panics s t \<longleftrightarrow> (\<exists>c \<in> set (shut s). t = Closing c)
     \<or> t \<in> {Waiting Woken, Starting Woken} \<and> (wg s \<noteq> 0 \<or> waiters s \<noteq> 0) \<or> t = Adding \<and> wg s = 0 \<and> waiters s \<noteq> 0"
  by (cases t) (auto simp: panics_def split: wait.splits)

lemma thread_ok_selects: "thread_ok s t \<Longrightarrow> selects t \<in> {None, Some (quit s)}"
  by (cases "(s, t)" rule: thread_ok.cases) auto

lemma sync_inv_selects: "sync_inv s \<Longrightarrow> t \<in> set (threads s) \<Longrightarrow> selects t \<in> {None, Some (quit s)}"
  by (rule thread_ok_selects) (simp add: sync_inv_def)

text \<open>C15: in every state the calls \<^verbatim>\<open>Start\<close>, \<^verbatim>\<open>Stop\<close> and \<^verbatim>\<open>WaitForShutdown\<close> and the goroutines can reach,
  in any interleaving, the counter of the \<^verbatim>\<open>WaitGroup\<close> is the number of goroutines that run or that a
  \<^verbatim>\<open>Start\<close> after its \<^verbatim>\<open>Add\<close> is about to start, every goroutine's loop waits on the wallet's current
  \<^verbatim>\<open>quit\<close> channel, and the steps that panic are exactly these: a \<^verbatim>\<open>Stop\<close> that closes the channel another
  \<^verbatim>\<open>Stop\<close> closed after its test; a released waiter that finds the \<^verbatim>\<open>WaitGroup\<close> in use again; and a
  \<^verbatim>\<open>Start\<close> that adds to the counter between the last \<^verbatim>\<open>Done\<close> and the release of the waiters. So the
  counter never becomes negative, and \<^verbatim>\<open>Done\<close> and the release of the waiters never panic.\<close>

theorem wallet_sync_invariant:
  assumes "sync_reachable s"
  shows "wg s = tally owes s
    \<and> (\<forall>t \<in> set (threads s). selects t \<in> {None, Some (quit s)})
    \<and> (sync_step e s = Some Panic \<longleftrightarrow> (\<exists>i < length (threads s). e = Run i \<and>
         ((\<exists>c \<in> set (shut s). threads s ! i = Closing c)
          \<or> threads s ! i \<in> {Waiting Woken, Starting Woken} \<and> (wg s \<noteq> 0 \<or> waiters s \<noteq> 0)
          \<or> threads s ! i = Adding \<and> wg s = 0 \<and> waiters s \<noteq> 0)))"
  using sync_inv_reachable [OF assms] sync_panic panics_eq sync_inv_selects by (auto simp: sync_inv_def)

definition example_racing :: sync where
  "example_racing = (case run_events [CallStart, Run 0, Run 0, Run 0, CallStop, CallStop, Run 3, Run 4, Run 3] new_sync of
     Some (Ok s) \<Rightarrow> s | _ \<Rightarrow> new_sync)"

lemma run_events_reachable: "sync_reachable s \<Longrightarrow> run_events es s = Some (Ok s') \<Longrightarrow> sync_reachable s'"
  using run_events_keeps [of sync_reachable] sync_next by blast

theorem wallet_sync_invariant_witness:
  "wg example_racing = tally owes example_racing \<and> wg example_racing = 2
    \<and> sync_step (Run 4) example_racing = Some Panic \<and> \<not> sync_step (Run 1) example_racing = Some Panic"
proof -
  have "sync_reachable example_racing"
    by (rule run_events_reachable [OF sync_init,
        of "[CallStart, Run 0, Run 0, Run 0, CallStop, CallStop, Run 3, Run 4, Run 3]"]) code_simp
  note inv = wallet_sync_invariant [OF this, of "Run 4"] wallet_sync_invariant [OF this, of "Run 1"]
  have at: "wg example_racing = 2" "threads example_racing ! 4 = Closing 0" "length (threads example_racing) = 5"
      "shut example_racing = [0]" "threads example_racing ! 1 = Creator Entry" by code_simp+
  with inv show ?thesis by simp
qed

text \<open>The two panics of the \<^verbatim>\<open>WaitGroup\<close> happen: a \<^verbatim>\<open>WaitForShutdown\<close> and a restarting \<^verbatim>\<open>Start\<close> race.\<close>

lemma wallet_waitgroup_reused:
  "run_events [CallStart, Run 0, Run 0, Run 0, Run 1, Run 2, CallWait, Run 3, CallStop, Run 4, Run 4, Run 1, Run 2,
     Run 2, CallStart, Run 5, Run 5, Run 3] new_sync = Some Panic"
  "run_events [CallStart, Run 0, Run 0, Run 0, Run 1, Run 2, CallWait, Run 3, CallStop, Run 4, Run 4, Run 1, Run 2,
     CallStart, Run 5, Run 5] new_sync = Some Panic"
  by code_simp+

text \<open>Two pairs of goroutines: when \<^verbatim>\<open>Stop\<close> comes before the first \<^verbatim>\<open>Start\<close>, two calls of \<^verbatim>\<open>Start\<close> leave two
  of each, since the restart does not set \<^verbatim>\<open>started\<close>; and a restarting \<^verbatim>\<open>Start\<close> that comes before the
  \<^verbatim>\<open>Add\<close> of the first \<^verbatim>\<open>Start\<close> finds the counter at zero and starts a second pair.\<close>

definition goroutines_after :: "event list \<Rightarrow> nat \<times> nat" where
  "goroutines_after es = (case run_events es new_sync of
     Some (Ok s) \<Rightarrow> (count_list (threads s) (Creator Entry), count_list (threads s) (Locker Entry False)) | _ \<Rightarrow> (0, 0))"

lemma wallet_two_pairs:
  "goroutines_after [CallStop, Run 0, Run 0, CallStart, Run 1, Run 1, Run 1, Run 1, CallStart, Run 4, Run 4, Run 4] = (2, 2)"
  "goroutines_after [CallStart, CallStop, Run 1, Run 1, CallStart, Run 2, Run 0, Run 0, Run 0, Run 2, Run 2, Run 2] = (2, 2)"
  by code_simp+




text \<open>A \<^verbatim>\<open>Start\<close> that waits with the mutex for goroutines that need the mutex to read \<^verbatim>\<open>quit\<close>.\<close>

abbreviation stuck :: "thread set" where
  "stuck \<equiv> {Creator Entry, Locker Entry False, Starting Enter, Starting Asleep, Waiting Enter, Waiting Asleep,
     Finished, Requesting True, Requesting False}"

definition deadlocked :: "sync \<Rightarrow> bool" where
  "deadlocked s \<longleftrightarrow> quitMu s \<and> wg s = 2 \<and> (\<exists>w. Starting w \<in> set (threads s)) \<and> set (threads s) \<subseteq> stuck"

lemma deadlocked_sleep:
  assumes "deadlocked s" and i: "i < length (threads s)"
    and "(threads s ! i, t) \<in> {(Starting Enter, Starting Asleep), (Waiting Enter, Waiting Asleep)}"
  shows "deadlocked (set_thread i t (s\<lparr>waiters := n\<rparr>))"
proof -
  obtain w where "Starting w \<in> set (threads s)" using assms(1) by (auto simp: deadlocked_def)
  then obtain j where j: "j < length (threads s)" "threads s ! j = Starting w" by (auto simp: in_set_conv_nth)
  have "\<exists>w. (threads s)[i := t] ! j = Starting w" using j i assms(3) by (cases "i = j") auto
  then have "\<exists>w. Starting w \<in> set ((threads s)[i := t])" using j(1) by (metis length_list_update nth_mem)
  moreover have "set (threads s) \<subseteq> stuck" "t \<in> stuck" using assms by (auto simp: deadlocked_def)
  then have "set ((threads s)[i := t]) \<subseteq> stuck" by (rule set_update_subsetI)
  ultimately show ?thesis using assms(1) by (simp add: deadlocked_def)
qed

lemma deadlocked_step:
  assumes "deadlocked s" and "sync_step e s = Some r"
  shows "\<exists>s'. r = Ok s' \<and> deadlocked s'"
proof -
  have at: "threads s ! i \<in> stuck" if "i < length (threads s)" for i
    using assms(1) nth_mem [OF that] unfolding deadlocked_def by blast
  have "locker_request i j ok s = None \<and> locker_timeout i s = None" for i j ok
    using assms(1) at [of i] by (cases "threads s ! i") (auto simp: step_defs deadlocked_def)
  moreover have "\<exists>s'. r = Ok s' \<and> deadlocked s'" if "run_thread i s = Some r" for i r
  proof -
    have i: "i < length (threads s)" using that by (rule run_thread_lt)
    have "deadlocked s \<Longrightarrow> quitMu s \<and> wg s = 2" by (simp add: deadlocked_def)
    with i that assms(1) at [OF i] show ?thesis
      by (auto simp: run_thread_def txCreator_def walletLocker_def quitChan_def wg_Wait_def intro!: deadlocked_sleep)
  qed
  ultimately show ?thesis using assms by (cases e)
      (auto simp: Wallet_Start_def Wallet_Stop_def quitChan_def WaitForShutdown_def Wallet_Unlock_def deadlocked_def)
qed

lemma deadlocked_events: "deadlocked s \<Longrightarrow> run_events es s = Some r \<Longrightarrow> \<exists>s'. r = Ok s' \<and> deadlocked s'"
proof (induction es arbitrary: s)
  case (Cons e es)
  then obtain r1 where "sync_step e s = Some r1" by (cases "sync_step e s") auto
  with Cons deadlocked_step [OF Cons.prems(1) this] show ?case by auto
qed auto

text \<open>C37: \<^verbatim>\<open>Start\<close>, \<^verbatim>\<open>Stop\<close>, \<^verbatim>\<open>Start\<close> deadlocks when the goroutines of the first \<^verbatim>\<open>Start\<close> have not run
  yet: the second \<^verbatim>\<open>Start\<close> holds \<^verbatim>\<open>quitMu\<close> while it waits for them and they wait for \<^verbatim>\<open>quitMu\<close>; no
  later event lets the \<^verbatim>\<open>Start\<close> return or a goroutine end.\<close>

theorem wallet_restart_deadlocks:
  "\<exists>s. run_events [CallStart, Run 0, Run 0, Run 0, CallStop, Run 3, Run 3, CallStart] new_sync = Some (Ok s)
    \<and> (\<forall>es r. run_events es s = Some r \<longrightarrow> (\<exists>s' w. r = Ok s' \<and> Starting w \<in> set (threads s') \<and> wg s' = 2))"
proof -
  let ?es = "[CallStart, Run 0, Run 0, Run 0, CallStop, Run 3, Run 3, CallStart]"
  let ?s = "new_sync\<lparr>started := True, shut := [0], quitMu := True, wg := 2,
    threads := [Finished, Creator Entry, Locker Entry False, Finished, Starting Enter]\<rparr>"
  have s: "run_events ?es new_sync = Some (Ok ?s)" by code_simp
  have "deadlocked ?s" by (simp add: deadlocked_def)
  have "\<exists>s' w. r = Ok s' \<and> Starting w \<in> set (threads s') \<and> wg s' = 2" if "run_events es ?s = Some r" for es r
    using deadlocked_events [OF \<open>deadlocked ?s\<close> that] by (auto simp: deadlocked_def)
  with s show ?thesis by blast
qed

theorem wallet_restart_deadlocks_witness:
  "\<exists>s s' w. run_events [CallStart, Run 0, Run 0, Run 0, CallStop, Run 3, Run 3, CallStart] new_sync = Some (Ok s)
    \<and> run_events [CallWait] s = Some (Ok s') \<and> Starting w \<in> set (threads s') \<and> wg s' = 2"
proof -
  let ?es = "[CallStart, Run 0, Run 0, Run 0, CallStop, Run 3, Run 3, CallStart]"
  obtain s where s: "run_events ?es new_sync = Some (Ok s)"
      and d: "\<forall>es r. run_events es s = Some r \<longrightarrow> (\<exists>s' w. r = Ok s' \<and> Starting w \<in> set (threads s') \<and> wg s' = 2)"
    using wallet_restart_deadlocks by blast
  have w: "run_events [CallWait] s = Some (Ok (add_thread (Waiting Enter) s))"
    by (simp add: WaitForShutdown_def)
  with d obtain s' w where "Ok (add_thread (Waiting Enter) s) = Ok s'" "Starting w \<in> set (threads s')" "wg s' = 2"
    by blast
  with s w show ?thesis by auto
qed


text \<open>\<^verbatim>\<open>Wallet.Unlock\<close> never returns: the channel \<^verbatim>\<open>unlockRequests\<close> is never made, so a request that
  was sent is never received, whatever happens afterwards.\<close>

lemma wallet_unlock_blocks:
  assumes "sync_reachable s" and "sync_step (CallUnlock b) s = Some (Ok s1)" and "run_events es s1 = Some (Ok s2)"
  shows "length (threads s) < length (threads s2) \<and> threads s2 ! length (threads s) = Requesting b"
proof -
  let ?j = "length (threads s)"
  let ?J = "\<lambda>u. unlockRequests u = None \<and> ?j < length (threads u) \<and> threads u ! ?j = Requesting b"
  have "unlockRequests s = None"
    using assms(1) by (induction rule: sync_reachable.induct) (auto simp: no_requests new_sync_def)
  then have "?J s1" using assms(2) by (auto simp: Wallet_Unlock_def)
  moreover have "?J u'" if "?J u" and "sync_step e u = Some (Ok u')" for e u u'
    using that no_requests [OF that(2)] requesting_step [OF that(2), of ?j] by simp
  ultimately show ?thesis using run_events_keeps [of ?J s1 es s2] assms(3) by blast
qed

end
