(* ===== verification/Loader.thy ===== *)
theory Loader
  imports MgrLock WalletSync
begin

text \<open>
  The wallet and its loader: \<^verbatim>\<open>wallet/wallet.go\<close> (creating and opening a wallet's database),
  \<^verbatim>\<open>wallet/loader.go\<close>, \<^verbatim>\<open>wallet/disksync.go\<close> and the stubs of \<^verbatim>\<open>wtxmgr/tx.go\<close>. The file system, the
  files of bbolt and the two constructors of \<^verbatim>\<open>hdkeychain\<close> the package calls are the record \<open>sys\<close>. The
  state is the disk, the random source, the loader and the callbacks that were called: a callback
  \<^verbatim>\<open>func(*Wallet)\<close> is a name, and calling it is recorded. The mutex of the loader makes each of its
  methods one step.
\<close>

section \<open>Parameters\<close>

text \<open>
  \<open>'d\<close> is the disk with the open databases on it, \<open>'h\<close> a handle of an open database. \<^verbatim>\<open>os.Stat\<close> gives
  whether the path is a directory.
\<close>

record ('k, 'n, 'd, 'h, 's) sys =
  os_Stat :: "gostring \<Rightarrow> 'd \<Rightarrow> io_error + bool"
  os_MkdirAll :: "gostring \<Rightarrow> 'd \<Rightarrow> io_error option \<times> 'd"
  bbolt_Open :: "gostring \<Rightarrow> bool \<Rightarrow> duration \<Rightarrow> 'd \<Rightarrow> (bolt_error + 'h) \<times> 'd"
  bbolt_DB :: "'h \<Rightarrow> ('d, 's) boltdb"
  hd_NewMaster :: "bytes \<Rightarrow> 'n option \<Rightarrow> 'k result"
  hd_GenerateSeed :: "nat \<Rightarrow> (bytes, bytes) go"

record 'd proc =
  disk :: 'd
  entropy :: bytes

text \<open>The constants of \<^verbatim>\<open>hdkeychain\<close> that the package names.\<close>

definition RecommendedSeedLen :: nat where "RecommendedSeedLen = 32"
definition MinSeedBytes :: nat where "MinSeedBytes = 16"
definition MaxSeedBytes :: nat where "MaxSeedBytes = 64"

section \<open>Paths\<close>

text \<open>\<^verbatim>\<open>filepath.Join\<close> and \<^verbatim>\<open>filepath.Clean\<close>, with the separator \<^verbatim>\<open>/\<close>.\<close>

definition slash :: byte where "slash = 47"
definition dot :: gostring where "dot = go_string ''.''"
definition dotdot :: gostring where "dotdot = go_string ''..''"

fun split_path :: "gostring \<Rightarrow> gostring \<Rightarrow> gostring list" where
  "split_path [] acc = [acc]"
| "split_path (b # bs) acc = (if b = slash then acc # split_path bs [] else split_path bs (acc @ [b]))"

text \<open>The elements kept so far, the last one first.\<close>

fun clean_elements :: "bool \<Rightarrow> gostring list \<Rightarrow> gostring list \<Rightarrow> gostring list" where
  "clean_elements rooted kept [] = rev kept"
| "clean_elements rooted kept (e # es) =
     (if e = [] \<or> e = dot then clean_elements rooted kept es
      else if e = dotdot then
        (case kept of
           [] \<Rightarrow> clean_elements rooted (if rooted then [] else [dotdot]) es
         | k # ks \<Rightarrow> if k = dotdot then clean_elements rooted (dotdot # kept) es else clean_elements rooted ks es)
      else clean_elements rooted (e # kept) es)"

fun join_path :: "gostring list \<Rightarrow> gostring" where
  "join_path [] = []"
| "join_path [e] = e"
| "join_path (e # es) = e @ slash # join_path es"

definition filepath_Clean :: "gostring \<Rightarrow> gostring" where
  "filepath_Clean path =
     (let rooted = (path \<noteq> [] \<and> hd path = slash);
          cleaned = join_path (clean_elements rooted [] (split_path path []))
      in if rooted then slash # cleaned else if cleaned = [] then dot else cleaned)"

definition filepath_Join :: "gostring list \<Rightarrow> gostring" where
  "filepath_Join es = (case dropWhile (\<lambda>e. e = []) es of [] \<Rightarrow> [] | es' \<Rightarrow> filepath_Clean (join_path es'))"

section \<open>Databases\<close>

definition stat_error :: "('k, 'n, 'd, 'h, 's) sys \<Rightarrow> 'd \<Rightarrow> gostring \<Rightarrow> io_error option" where
  "stat_error S d path = (case os_Stat S path d of Inl e \<Rightarrow> Some e | Inr isDir \<Rightarrow> None)"

text \<open>The registry after the \<^verbatim>\<open>init\<close> of the driver, which looks at the disk as it is.\<close>

definition registered :: "('k, 'n, 'd, 'h, 's) sys \<Rightarrow> 'd \<Rightarrow> 'h drivers" where
  "registered S d = snd (bdb_init (stat_error S d) (\<lambda>path nfs t. fst (bbolt_Open S path nfs t d)) Map.empty)"

definition bdb_args :: "gostring \<Rightarrow> bool \<Rightarrow> duration \<Rightarrow> goarg list" where
  "bdb_args path nfs t = [ArgString path, ArgBool nfs, ArgDuration t]"

text \<open>\<^verbatim>\<open>walletdb.Create("bdb", ...)\<close> and \<^verbatim>\<open>walletdb.Open("bdb", ...)\<close>; the latter reaches bbolt only for a file that exists.\<close>

definition create_db ::
  "('k, 'n, 'd, 'h, 's) sys \<Rightarrow> gostring \<Rightarrow> bool \<Rightarrow> duration \<Rightarrow> (('d, 'z) proc_scheme, 'h) go" where
  "create_db S path nfs t = (\<lambda>w.
     (walletdb_Create (registered S (disk w)) (go_string ''bdb'') (bdb_args path nfs t),
      w\<lparr>disk := snd (bbolt_Open S path nfs t (disk w))\<rparr>))"

definition open_db ::
  "('k, 'n, 'd, 'h, 's) sys \<Rightarrow> gostring \<Rightarrow> bool \<Rightarrow> duration \<Rightarrow> (('d, 'z) proc_scheme, 'h) go" where
  "open_db S path nfs t = (\<lambda>w.
     (walletdb_Open (registered S (disk w)) (go_string ''bdb'') (bdb_args path nfs t),
      if bdb_fileExists (stat_error S (disk w)) path then w\<lparr>disk := snd (bbolt_Open S path nfs t (disk w))\<rparr> else w))"

text \<open>A transaction's closure also draws from the random source.\<close>

definition proc_boltdb :: "('d, 's) boltdb \<Rightarrow> (('d, 'z) proc_scheme, 's base) boltdb" where
  "proc_boltdb T =
     \<lparr>bolt_Begin = (\<lambda>rw w. case bolt_Begin T rw (disk w) of
        Inl e \<Rightarrow> Inl e | Inr tx \<Rightarrow> Inr \<lparr>db = tx, rng = entropy w\<rparr>),
      bolt_Commit = (\<lambda>tx w. case bolt_Commit T (db tx) (disk w) of (e, d) \<Rightarrow> (e, w\<lparr>disk := d, entropy := rng tx\<rparr>)),
      bolt_Rollback = (\<lambda>tx w. case bolt_Rollback T (db tx) (disk w) of (e, d) \<Rightarrow> (e, w\<lparr>disk := d, entropy := rng tx\<rparr>)),
      bolt_Close = (\<lambda>w. case bolt_Close T (disk w) of (e, d) \<Rightarrow> (e, w\<lparr>disk := d\<rparr>))\<rparr>"

text \<open>\<^verbatim>\<open>walletdb.Update(db, f)\<close>, a method call on the interface value \<^verbatim>\<open>db\<close>, and \<^verbatim>\<open>db.Close()\<close>.\<close>

definition walletdb_Update ::
  "('k, 'n, 'd, 'h, 's) sys \<Rightarrow> 'h option \<Rightarrow> ('s base, 'x) go \<Rightarrow> (('d, 'z) proc_scheme, 'x) go" where
  "walletdb_Update S dbh f = bnd (deref dbh) (\<lambda>h. db_Update (proc_boltdb (bbolt_DB S h)) f)"

definition close_db :: "('k, 'n, 'd, 'h, 's) sys \<Rightarrow> 'h option \<Rightarrow> (('d, 'z) proc_scheme, unit) go" where
  "close_db S dbh = bnd (deref dbh) (\<lambda>h. db_Close (proc_boltdb (bbolt_DB S h)))"

section \<open>Transaction manager\<close>

text \<open>\<^verbatim>\<open>wtxmgr/tx.go\<close>: both functions only announce that they are not implemented.\<close>

record 'n Store =
  st_chainParams :: "'n option"

definition wtxmgr_Create :: "bkt \<Rightarrow> ('w, unit) go" where
  "wtxmgr_Create ns = ret ()"

definition wtxmgr_Open :: "bkt \<Rightarrow> 'n option \<Rightarrow> ('w, 'n Store) go" where
  "wtxmgr_Open ns params = ret \<lparr>st_chainParams = None\<rparr>"

section \<open>Creating and opening a wallet\<close>

text \<open>The \<^verbatim>\<open>Wallet\<close>: \<^verbatim>\<open>lockRequests\<close> is never made nor used. The heap holds the manager's addresses.\<close>

record ('h, 'k, 'pk, 'a, 'n) Wallet =
  w_db :: "'h option"
  w_Manager :: "('k, 'n) Manager"
  w_heap :: "('pk, 'a) ManagedAddress list"
  w_TxStore :: "'n Store"
  w_sync :: sync

definition waddrmgrNamespaceKey :: bytes where "waddrmgrNamespaceKey = go_string ''waddrmgr''"
definition wtxmgrNamespaceKey :: bytes where "wtxmgrNamespaceKey = go_string ''wtxmgr''"

text \<open>The closure of \<^verbatim>\<open>create\<close>. \<open>scopeOrder\<close> and \<open>now\<close> are the map's iteration order and the time of the call.\<close>

definition create_tx ::
  "('k, 'sk, 'pk, 'a, 'n, 's) env \<Rightarrow> 'k option \<Rightarrow> bytes \<Rightarrow> bytes \<Rightarrow> u64 \<Rightarrow> ('s base, unit) go option
   \<Rightarrow> (KeyScope \<times> ScopeAddrSchema) list \<Rightarrow> u64 \<Rightarrow> ('s base, unit) go" where
  "create_tx E rootKey pubPass privPass birthday cb scopeOrder now =
     bnd (tx_CreateTopLevelBucket (world_bolt (env_bolt E)) waddrmgrNamespaceKey) (\<lambda>addrmgrNs.
     bnd (tx_CreateTopLevelBucket (world_bolt (env_bolt E)) wtxmgrNamespaceKey) (\<lambda>txmgrNs.
     bnd (Create E addrmgrNs rootKey pubPass privPass None birthday scopeOrder now) (\<lambda>_.
     bnd (wtxmgr_Create txmgrNs) (\<lambda>_.
     case cb of Some cb \<Rightarrow> cb | None \<Rightarrow> ret ()))))"

definition new_root ::
  "('k, 'n, 'd, 'h, 's) sys \<Rightarrow> 'n option \<Rightarrow> (('d, 'z) proc_scheme, 'k) go" where
  "new_root S params =
     bnd (zoom entropy (\<lambda>r w. w\<lparr>entropy := r\<rparr>) (hd_GenerateSeed S RecommendedSeedLen)) (\<lambda>hdSeed.
     wrap_err (\<lambda>_. Errorf ''failed to derive master extended key'') (lift (hd_NewMaster S hdSeed params)))"

definition wallet_create ::
  "('k, 'sk, 'pk, 'a, 'n, 's) env \<Rightarrow> ('k, 'n, 'd, 'h, 's) sys \<Rightarrow> 'h option \<Rightarrow> bytes \<Rightarrow> bytes \<Rightarrow> 'k option
   \<Rightarrow> 'n option \<Rightarrow> u64 \<Rightarrow> bool \<Rightarrow> ('s base, unit) go option
   \<Rightarrow> (KeyScope \<times> ScopeAddrSchema) list \<Rightarrow> u64 \<Rightarrow> (('d, 'z) proc_scheme, unit) go" where
  "wallet_create E S dbh pubPass privPass rootKey params birthday isWatchingOnly cb scopeOrder now =
     bnd (if \<not> isWatchingOnly \<and> rootKey = None then bnd (new_root S params) (\<lambda>k. ret (Some k)) else ret rootKey)
       (\<lambda>rootKey.
     if \<not> isWatchingOnly \<and> (case rootKey of None \<Rightarrow> False | Some k \<Rightarrow> \<not> hd_IsPrivate E k)
     then raise (Errorf ''need extended private key for wallet that is not watching only'')
     else walletdb_Update S dbh (create_tx E rootKey pubPass privPass birthday cb scopeOrder now))"

definition CreateWithCallback ::
  "('k, 'sk, 'pk, 'a, 'n, 's) env \<Rightarrow> ('k, 'n, 'd, 'h, 's) sys \<Rightarrow> 'h option \<Rightarrow> bytes \<Rightarrow> bytes \<Rightarrow> 'k option
   \<Rightarrow> 'n option \<Rightarrow> u64 \<Rightarrow> ('s base, unit) go option
   \<Rightarrow> (KeyScope \<times> ScopeAddrSchema) list \<Rightarrow> u64 \<Rightarrow> (('d, 'z) proc_scheme, unit) go" where
  "CreateWithCallback E S dbh pubPass privPass rootKey params birthday cb =
     wallet_create E S dbh pubPass privPass rootKey params birthday False cb"

definition CreateWatchingOnlyWithCallback ::
  "('k, 'sk, 'pk, 'a, 'n, 's) env \<Rightarrow> ('k, 'n, 'd, 'h, 's) sys \<Rightarrow> 'h option \<Rightarrow> bytes
   \<Rightarrow> 'n option \<Rightarrow> u64 \<Rightarrow> ('s base, unit) go option
   \<Rightarrow> (KeyScope \<times> ScopeAddrSchema) list \<Rightarrow> u64 \<Rightarrow> (('d, 'z) proc_scheme, unit) go" where
  "CreateWatchingOnlyWithCallback E S dbh pubPass params birthday cb =
     wallet_create E S dbh pubPass [] None params birthday True cb"

definition open_tx ::
  "('k, 'sk, 'pk, 'a, 'n, 's) env \<Rightarrow> bytes \<Rightarrow> 'n option \<Rightarrow> ('s base, ('k, 'n) Manager \<times> 'n Store) go" where
  "open_tx E pubPass params =
     bnd (tx_ReadWriteBucket (world_bolt (env_bolt E)) waddrmgrNamespaceKey) (\<lambda>addrMgrBucket.
     case addrMgrBucket of None \<Rightarrow> raise (Errorf ''missing address manager namespace'') | Some addrMgrBucket \<Rightarrow>
     bnd (tx_ReadWriteBucket (world_bolt (env_bolt E)) wtxmgrNamespaceKey) (\<lambda>txMgrBucket.
     case txMgrBucket of None \<Rightarrow> raise (Errorf ''missing transaction manager namespace'') | Some txMgrBucket \<Rightarrow>
     bnd (Open E (Some addrMgrBucket) pubPass params) (\<lambda>addrMgr.
     bnd (wtxmgr_Open txMgrBucket params) (\<lambda>txMgr.
     ret (addrMgr, txMgr)))))"

definition OpenWithRetry ::
  "('k, 'sk, 'pk, 'a, 'n, 's) env \<Rightarrow> ('k, 'n, 'd, 'h, 's) sys \<Rightarrow> 'h option \<Rightarrow> bytes \<Rightarrow> 'n option \<Rightarrow> u32
   \<Rightarrow> duration \<Rightarrow> (('d, 'z) proc_scheme, ('h, 'k, 'pk, 'a, 'n) Wallet) go" where
  "OpenWithRetry E S dbh pubPass params recoveryWindow syncRetryInterval =
     bnd (walletdb_Update S dbh (open_tx E pubPass params)) (\<lambda>(addrMgr, txMgr).
     ret \<lparr>w_db = dbh, w_Manager = addrMgr, w_heap = [], w_TxStore = txMgr, w_sync = new_sync\<rparr>)"

text \<open>The calls of the loader on the wallet's goroutines.\<close>

definition wallet_call ::
  "event \<Rightarrow> ('h, 'k, 'pk, 'a, 'n) Wallet \<Rightarrow> ('h, 'k, 'pk, 'a, 'n) Wallet result" where
  "wallet_call e w = rbind (sync_call e (w_sync w)) (\<lambda>s. Ok (w\<lparr>w_sync := s\<rparr>))"

section \<open>The loader\<close>

text \<open>\<^verbatim>\<open>loaderConfig\<close> has one field; the interval is in nanoseconds.\<close>

definition defaultSyncRetryInterval :: duration where "defaultSyncRetryInterval = 5000000000"
definition WalletDBName :: gostring where "WalletDBName = go_string ''wallet.db''"

record loaderConfig =
  walletSyncRetryInterval :: duration

definition defaultLoaderConfig :: loaderConfig where
  "defaultLoaderConfig = \<lparr>walletSyncRetryInterval = defaultSyncRetryInterval\<rparr>"

record ('k, 'pk, 'a, 'n, 'd, 'h, 's) Loader =
  cfg :: loaderConfig
  callbacks :: "nat list"
  l_chainParams :: "'n option"
  dbDirPath :: gostring
  noFreelistSync :: bool
  l_timeout :: duration
  recoveryWindow :: u32
  localDB :: bool
  l_wallet :: "('h, 'k, 'pk, 'a, 'n) Wallet option"
  l_db :: "'h option"
  walletExists :: "('d \<Rightarrow> bool result) option"
  walletCreated :: "('s base, unit) go option"

record ('k, 'pk, 'a, 'n, 'd, 'h, 's) app = "'d proc" +
  ldr :: "('k, 'pk, 'a, 'n, 'd, 'h, 's) Loader"
  called :: "nat list"

definition NewLoader ::
  "'n option \<Rightarrow> gostring \<Rightarrow> bool \<Rightarrow> duration \<Rightarrow> u32 \<Rightarrow> ('k, 'pk, 'a, 'n, 'd, 'h, 's) Loader" where
  "NewLoader params dir nfs t rw =
     \<lparr>cfg = defaultLoaderConfig, callbacks = [], l_chainParams = params, dbDirPath = dir, noFreelistSync = nfs,
      l_timeout = t, recoveryWindow = rw, localDB = True, l_wallet = None, l_db = None, walletExists = None,
      walletCreated = None\<rparr>"

definition NewLoaderWithDB ::
  "'n option \<Rightarrow> u32 \<Rightarrow> 'h option \<Rightarrow> ('d \<Rightarrow> bool result) option
   \<Rightarrow> ('k, 'pk, 'a, 'n, 'd, 'h, 's) Loader result" where
  "NewLoaderWithDB params rw dbh exists =
     (if dbh = None then Err (Errorf ''no DB provided'')
      else case exists of
        None \<Rightarrow> Err (Errorf ''unable to check if wallet exists'')
      | Some _ \<Rightarrow> Ok \<lparr>cfg = defaultLoaderConfig, callbacks = [], l_chainParams = params, dbDirPath = [],
          noFreelistSync = False, l_timeout = 0, recoveryWindow = rw, localDB = False, l_wallet = None, l_db = dbh,
          walletExists = exists, walletCreated = None\<rparr>)"

definition with_ldr ::
  "(('k, 'pk, 'a, 'n, 'd, 'h, 's) Loader \<Rightarrow> ('k, 'pk, 'a, 'n, 'd, 'h, 's) Loader)
   \<Rightarrow> (('k, 'pk, 'a, 'n, 'd, 'h, 's) app, unit) go" where
  "with_ldr f = modify (\<lambda>w. w\<lparr>ldr := f (ldr w)\<rparr>)"

definition db_path :: "('k, 'pk, 'a, 'n, 'd, 'h, 's) Loader \<Rightarrow> gostring" where
  "db_path l = filepath_Join [dbDirPath l, WalletDBName]"

definition fileExists :: "('k, 'n, 'd, 'h, 's) sys \<Rightarrow> gostring \<Rightarrow> 'd \<Rightarrow> bool result" where
  "fileExists S path d = (case os_Stat S path d of
      Inl err \<Rightarrow> if err = OsNotExist then Ok False else Err (IoError err)
    | Inr _ \<Rightarrow> Ok True)"

definition WalletExists ::
  "('k, 'n, 'd, 'h, 's) sys \<Rightarrow> (('k, 'pk, 'a, 'n, 'd, 'h, 's) app, bool) go" where
  "WalletExists S =
     bnd (reads ldr) (\<lambda>l.
     if localDB l then bnd (reads disk) (\<lambda>d. lift (fileExists S (db_path l) d))
     else bnd (deref (walletExists l)) (\<lambda>f. bnd (reads disk) (\<lambda>d. lift (f d))))"

definition MkdirAll :: "('k, 'n, 'd, 'h, 's) sys \<Rightarrow> gostring \<Rightarrow> (('d, 'z) proc_scheme, unit) go" where
  "MkdirAll S path = (\<lambda>w. case os_MkdirAll S path (disk w) of
      (None, d) \<Rightarrow> (Ok (), w\<lparr>disk := d\<rparr>)
    | (Some e, d) \<Rightarrow> (Err (IoError e), w\<lparr>disk := d\<rparr>))"

text \<open>\<^verbatim>\<open>l.db, err = ...\<close>: the field is nil after an error.\<close>

definition assign_db ::
  "(('k, 'pk, 'a, 'n, 'd, 'h, 's) app, 'h) go \<Rightarrow> (('k, 'pk, 'a, 'n, 'd, 'h, 's) app, unit) go" where
  "assign_db m =
     bnd (attempt m) (\<lambda>r. case r of
       Inl err \<Rightarrow> bnd (with_ldr (\<lambda>l. l\<lparr>l_db := None\<rparr>)) (\<lambda>_. raise err)
     | Inr h \<Rightarrow> with_ldr (\<lambda>l. l\<lparr>l_db := Some h\<rparr>))"

definition OpenWallet ::
  "('k, 'sk, 'pk, 'a, 'n, 's) env \<Rightarrow> ('k, 'n, 'd, 'h, 's) sys \<Rightarrow> bytes
   \<Rightarrow> (('k, 'pk, 'a, 'n, 'd, 'h, 's) app, ('h, 'k, 'pk, 'a, 'n) Wallet) go" where
  "OpenWallet E S pubPassphrase =
     bnd (reads ldr) (\<lambda>l.
     OpenWithRetry E S (l_db l) pubPassphrase (l_chainParams l) (recoveryWindow l)
       (walletSyncRetryInterval (cfg l)))"

text \<open>The two halves of \<^verbatim>\<open>createNewWallet\<close>: making the database, then creating and opening the wallet in it.\<close>

definition make_database ::
  "('k, 'n, 'd, 'h, 's) sys \<Rightarrow> (('k, 'pk, 'a, 'n, 'd, 'h, 's) app, unit) go" where
  "make_database S =
     bnd (reads ldr) (\<lambda>l.
     if localDB l
     then bnd (MkdirAll S (dbDirPath l)) (\<lambda>_.
          assign_db (create_db S (db_path l) (noFreelistSync l) (l_timeout l)))
     else ret ())"

definition create_and_open ::
  "('k, 'sk, 'pk, 'a, 'n, 's) env \<Rightarrow> ('k, 'n, 'd, 'h, 's) sys \<Rightarrow> bytes \<Rightarrow> bytes \<Rightarrow> 'k option \<Rightarrow> u64 \<Rightarrow> bool
   \<Rightarrow> (KeyScope \<times> ScopeAddrSchema) list \<Rightarrow> u64
   \<Rightarrow> (('k, 'pk, 'a, 'n, 'd, 'h, 's) app, ('h, 'k, 'pk, 'a, 'n) Wallet) go" where
  "create_and_open E S pubPassphrase privPassphrase rootKey bday isWatchingOnly scopeOrder now =
     bnd (reads ldr) (\<lambda>l.
     bnd (if isWatchingOnly
          then CreateWatchingOnlyWithCallback E S (l_db l) pubPassphrase (l_chainParams l) bday
                 (walletCreated l) scopeOrder now
          else CreateWithCallback E S (l_db l) pubPassphrase privPassphrase rootKey (l_chainParams l) bday
                 (walletCreated l) scopeOrder now) (\<lambda>_.
     bnd (OpenWallet E S pubPassphrase) (\<lambda>w.
     lift (wallet_call CallStart w))))"

definition createNewWallet ::
  "('k, 'sk, 'pk, 'a, 'n, 's) env \<Rightarrow> ('k, 'n, 'd, 'h, 's) sys \<Rightarrow> bytes \<Rightarrow> bytes \<Rightarrow> 'k option \<Rightarrow> u64 \<Rightarrow> bool
   \<Rightarrow> (KeyScope \<times> ScopeAddrSchema) list \<Rightarrow> u64
   \<Rightarrow> (('k, 'pk, 'a, 'n, 'd, 'h, 's) app, ('h, 'k, 'pk, 'a, 'n) Wallet) go" where
  "createNewWallet E S pubPassphrase privPassphrase rootKey bday isWatchingOnly scopeOrder now =
     bnd (reads ldr) (\<lambda>l.
     if l_wallet l \<noteq> None then raise (LoaderError ErrLoaded)
     else
       bnd (WalletExists S) (\<lambda>exists.
       if exists then raise (LoaderError ErrExists)
       else
         bnd (make_database S) (\<lambda>_.
         create_and_open E S pubPassphrase privPassphrase rootKey bday isWatchingOnly scopeOrder now)))"

text \<open>A nil \<open>seed\<close> makes \<^verbatim>\<open>create\<close> generate one.\<close>

definition CreateNewWallet ::
  "('k, 'sk, 'pk, 'a, 'n, 's) env \<Rightarrow> ('k, 'n, 'd, 'h, 's) sys \<Rightarrow> bytes \<Rightarrow> bytes \<Rightarrow> bytes option \<Rightarrow> u64
   \<Rightarrow> (KeyScope \<times> ScopeAddrSchema) list \<Rightarrow> u64
   \<Rightarrow> (('k, 'pk, 'a, 'n, 'd, 'h, 's) app, ('h, 'k, 'pk, 'a, 'n) Wallet) go" where
  "CreateNewWallet E S pubPassphrase privPassphrase seed bday scopeOrder now =
     bnd (reads ldr) (\<lambda>l.
     bnd (case seed of
            None \<Rightarrow> ret None
          | Some seed \<Rightarrow>
              if length seed < MinSeedBytes \<or> length seed > MaxSeedBytes
              then raise (HdError ErrInvalidSeedLen)
              else bnd (wrap_err (\<lambda>_. Errorf ''failed to derive master extended key'')
                          (lift (hd_NewMaster S seed (l_chainParams l)))) (\<lambda>k. ret (Some k))) (\<lambda>rootKey.
     createNewWallet E S pubPassphrase privPassphrase rootKey bday False scopeOrder now))"

text \<open>\<^verbatim>\<open>wallet/disksync.go\<close>.\<close>

definition CheckCreateDir :: "('k, 'n, 'd, 'h, 's) sys \<Rightarrow> gostring \<Rightarrow> (('d, 'z) proc_scheme, unit) go" where
  "CheckCreateDir S path =
     bnd (reads (\<lambda>w. os_Stat S path (disk w))) (\<lambda>fi. case fi of
       Inl err \<Rightarrow>
         if err = OsNotExist then wrap_err (Wrapped ''cannot create directory'') (MkdirAll S path)
         else raise (Wrapped ''error checking directory'' (IoError err))
     | Inr isDir \<Rightarrow> if \<not> isDir then raise (Errorf ''is not a directory'') else ret ())"

definition onLoaded ::
  "('h, 'k, 'pk, 'a, 'n) Wallet \<Rightarrow> (('k, 'pk, 'a, 'n, 'd, 'h, 's) app, unit) go" where
  "onLoaded w =
     bnd (reads (\<lambda>W. callbacks (ldr W))) (\<lambda>fns.
     bnd (for_each (\<lambda>fn. modify (\<lambda>W. W\<lparr>called := called W @ [fn]\<rparr>)) fns) (\<lambda>_.
     with_ldr (\<lambda>l. l\<lparr>l_wallet := Some w, callbacks := []\<rparr>)))"

text \<open>An error of \<^verbatim>\<open>Close\<close> on the way out is printed and dropped.\<close>

definition open_failed ::
  "('k, 'n, 'd, 'h, 's) sys \<Rightarrow> go_error \<Rightarrow> (('k, 'pk, 'a, 'n, 'd, 'h, 's) app, 'x) go" where
  "open_failed S err =
     bnd (reads ldr) (\<lambda>l.
     bnd (if localDB l then bnd (attempt (close_db S (l_db l))) (\<lambda>_. ret ()) else ret ()) (\<lambda>_.
     raise err))"

definition OpenExistingWallet ::
  "('k, 'sk, 'pk, 'a, 'n, 's) env \<Rightarrow> ('k, 'n, 'd, 'h, 's) sys \<Rightarrow> bytes
   \<Rightarrow> (('k, 'pk, 'a, 'n, 'd, 'h, 's) app, ('h, 'k, 'pk, 'a, 'n) Wallet) go" where
  "OpenExistingWallet E S pubPassphrase =
     bnd (reads ldr) (\<lambda>l.
     if l_wallet l \<noteq> None then raise (LoaderError ErrLoaded)
     else
       bnd (if localDB l
            then bnd (CheckCreateDir S (dbDirPath l)) (\<lambda>_.
                 assign_db (open_db S (db_path l) (noFreelistSync l) (l_timeout l)))
            else ret ()) (\<lambda>_.
       bnd (catch_err (OpenWallet E S pubPassphrase) (open_failed S)) (\<lambda>w.
       bnd (lift (wallet_call CallStart w)) (\<lambda>w.
       bnd (onLoaded w) (\<lambda>_.
       ret w)))))"

definition UnloadWallet ::
  "('k, 'n, 'd, 'h, 's) sys \<Rightarrow> (('k, 'pk, 'a, 'n, 'd, 'h, 's) app, unit) go" where
  "UnloadWallet S =
     bnd (reads ldr) (\<lambda>l. case l_wallet l of
       None \<Rightarrow> raise (LoaderError ErrNotLoaded)
     | Some w \<Rightarrow>
         bnd (lift (wallet_call CallStop w)) (\<lambda>w.
         bnd (with_ldr (\<lambda>l. l\<lparr>l_wallet := Some w\<rparr>)) (\<lambda>_.
         bnd (lift (wallet_call CallWait w)) (\<lambda>w.
         bnd (with_ldr (\<lambda>l. l\<lparr>l_wallet := Some w\<rparr>)) (\<lambda>_.
         bnd (if localDB l then close_db S (l_db l) else ret ()) (\<lambda>_.
         with_ldr (\<lambda>l. l\<lparr>l_wallet := None, l_db := None\<rparr>)))))))"

definition RunAfterLoad :: "nat \<Rightarrow> (('k, 'pk, 'a, 'n, 'd, 'h, 's) app, unit) go" where
  "RunAfterLoad fn =
     bnd (reads ldr) (\<lambda>l.
     if l_wallet l \<noteq> None then modify (\<lambda>W. W\<lparr>called := called W @ [fn]\<rparr>)
     else with_ldr (\<lambda>l. l\<lparr>callbacks := callbacks l @ [fn]\<rparr>))"

section \<open>What the operations leave alone\<close>

text \<open>What a client of the loader sees: whether a wallet is loaded, the callbacks that wait and those called.\<close>

definition loader_view :: "('k, 'pk, 'a, 'n, 'd, 'h, 's) app \<Rightarrow> bool \<times> nat list \<times> nat list" where
  "loader_view W = (l_wallet (ldr W) \<noteq> None, callbacks (ldr W), called W)"

text \<open>Programs on the disk and the random source, which leave the loader alone.\<close>

abbreviation rest :: "('k, 'pk, 'a, 'n, 'd, 'h, 's) app
    \<Rightarrow> ('k, 'pk, 'a, 'n, 'd, 'h, 's) Loader \<times> nat list" where
  "rest W \<equiv> (ldr W, called W)"

lemma keeps_rest_Update: "keeps rest (db_Update (proc_boltdb T) f)"
  by (auto simp: keeps_def db_Update_def proc_boltdb_def db_rollback_def
      split: sum.splits prod.splits res.splits option.splits)

lemma keeps_rest_db [keeps_intros]:
  "keeps rest (walletdb_Update S dbh f)" "keeps rest (close_db S dbh)" "keeps rest (create_db S p nfs t)"
  "keeps rest (open_db S p nfs t)" "keeps rest (MkdirAll S p)" "keeps rest (new_root S params)"
  by (auto simp: walletdb_Update_def close_db_def new_root_def intro!: keeps_intros keeps_rest_Update)
    (auto simp: keeps_def create_db_def open_db_def MkdirAll_def db_Close_def bolt_result_def
      proc_boltdb_def go_simps split: prod.splits option.splits)

lemma keeps_rest_sum [keeps_intros]:
  "(\<And>x. keeps f (g x)) \<Longrightarrow> (\<And>y. keeps f (h y)) \<Longrightarrow> keeps f (case z of Inl x \<Rightarrow> g x | Inr y \<Rightarrow> h y)"
  by (cases z) simp_all

lemma keeps_rest_wallet [keeps_intros]:
  "keeps rest (wallet_create E S dbh pubPass privPass rootKey params bday wo cb order now)"
  "keeps rest (OpenWithRetry E S dbh pubPass params rw t)" "keeps rest (CheckCreateDir S p)"
  "keeps rest (WalletExists S)"
  by (auto simp: wallet_create_def OpenWithRetry_def CheckCreateDir_def WalletExists_def intro!: keeps_intros)

lemma keeps_rest_OpenWallet: "keeps rest (OpenWallet E S pubPass)"
  unfolding OpenWallet_def by (intro keeps_intros)

lemma keeps_view: "keeps rest m \<Longrightarrow> keeps loader_view m"
  by (simp add: keeps_def loader_view_def)

lemma keeps_view_ldr:
  "(\<And>l. l_wallet (f l) = l_wallet l \<and> callbacks (f l) = callbacks l) \<Longrightarrow> keeps loader_view (with_ldr f)"
  by (simp add: with_ldr_def loader_view_def keeps_def go_simps)

lemma keeps_view_steps [keeps_intros]:
  "keeps loader_view (WalletExists S)" "keeps loader_view (MkdirAll S p)" "keeps loader_view (OpenWallet E S pubPass)"
  "keeps loader_view (CheckCreateDir S p)" "keeps loader_view (close_db S dbh)"
  "keeps rest m \<Longrightarrow> keeps loader_view (assign_db m)"
  by (auto simp: OpenWallet_def assign_db_def intro!: keeps_intros keeps_view_ldr intro: keeps_view)

lemma keeps_view_open_failed [keeps_intros]: "keeps loader_view (open_failed S err)"
  by (auto simp: open_failed_def intro!: keeps_intros)

lemma keeps_view_create [keeps_intros]:
  "keeps loader_view (CreateWithCallback E S dbh pubPass privPass rootKey params bday cb order now)"
  "keeps loader_view (CreateWatchingOnlyWithCallback E S dbh pubPass params bday cb order now)"
  by (auto simp: CreateWithCallback_def CreateWatchingOnlyWithCallback_def intro!: keeps_intros keeps_view)

lemma keeps_view_CreateNewWallet:
  "keeps loader_view (CreateNewWallet E S pubPass privPass seed bday order now)"
  by (auto simp: CreateNewWallet_def createNewWallet_def make_database_def create_and_open_def intro!: keeps_intros)

section \<open>The loader as a state machine\<close>

text \<open>
  The specification: \<open>(loaded, waiting, called)\<close>. Opening delivers the callbacks that wait, in the order of
  their registration; one registered while a wallet is loaded is called at once.
\<close>

fun spec_open :: "bool \<times> nat list \<times> nat list \<Rightarrow> bool \<times> nat list \<times> nat list" where
  "spec_open (b, ps, cs) = (True, [], cs @ ps)"

fun spec_unload :: "bool \<times> nat list \<times> nat list \<Rightarrow> bool \<times> nat list \<times> nat list" where
  "spec_unload (b, ps, cs) = (False, ps, cs)"

fun spec_run :: "nat \<Rightarrow> bool \<times> nat list \<times> nat list \<Rightarrow> bool \<times> nat list \<times> nat list" where
  "spec_run fn (b, ps, cs) = (if b then (b, ps, cs @ [fn]) else (b, ps @ [fn], cs))"

lemma call_all:
  "for_each (\<lambda>fn. modify (\<lambda>W. W\<lparr>called := called W @ [fn]\<rparr>)) fns W = (Ok (), W\<lparr>called := called W @ fns\<rparr>)"
  by (induction fns arbitrary: W) (simp_all add: bnd_def go_simps)

lemma onLoaded_eq:
  "onLoaded w W = (Ok (), W\<lparr>called := called W @ callbacks (ldr W),
     ldr := (ldr W)\<lparr>l_wallet := Some w, callbacks := []\<rparr>\<rparr>)"
  by (simp add: onLoaded_def bnd_def go_simps with_ldr_def call_all)

lemma RunAfterLoad_refines:
  "fst (RunAfterLoad fn W) = Ok () \<and> loader_view (snd (RunAfterLoad fn W)) = spec_run fn (loader_view W)"
  by (simp add: RunAfterLoad_def bnd_def go_simps with_ldr_def loader_view_def)

text \<open>A program that does what \<open>g\<close> says when it succeeds, and nothing a client sees when it does not.\<close>

definition does ::
  "(bool \<times> nat list \<times> nat list) \<Rightarrow> (bool \<times> nat list \<times> nat list)
   \<Rightarrow> (('k, 'pk, 'a, 'n, 'd, 'h, 's) app, 'x) go \<Rightarrow> bool" where
  "does v v' m \<longleftrightarrow> (\<forall>W. loader_view W = v \<longrightarrow>
     loader_view (snd (m W)) = (if is_Ok (fst (m W)) then v' else v))"

lemma doesD: "does v v' m \<Longrightarrow> loader_view W = v \<Longrightarrow> loader_view (snd (m W)) = (if is_Ok (fst (m W)) then v' else v)"
  by (simp add: does_def)

lemma does_bnd: "keeps loader_view m \<Longrightarrow> (\<And>a. does v v' (f a)) \<Longrightarrow> does v v' (bnd m f)"
  by (auto simp: does_def keeps_def go_simps split: res.split)

lemma does_bnd_reads: "(\<And>W. loader_view W = v \<Longrightarrow> does v v' (f (g W))) \<Longrightarrow> does v v' (bnd (reads g) f)"
  by (auto simp: does_def bnd_reads)

lemma does_basic: "does v v' (raise e)" "does v v' panic" "does v v' m \<Longrightarrow> does v v' m' \<Longrightarrow> does v v' (if c then m else m')"
  by (auto simp: does_def go_simps)

lemma does_onLoaded: "does v (spec_open v) (bnd (onLoaded w) (\<lambda>_. ret w))"
proof -
  have "loader_view (snd (bnd (onLoaded w) (\<lambda>_. ret w) W)) = spec_open (loader_view W)" for W
    by (simp add: bnd_def onLoaded_eq go_simps loader_view_def)
  then show ?thesis by (auto simp: does_def bnd_def onLoaded_eq go_simps)
qed

lemma OpenExisting_refines: "does v (spec_open v) (OpenExistingWallet E S pubPass)"
  unfolding OpenExistingWallet_def
  by (intro does_bnd_reads does_basic does_onLoaded does_bnd keeps_intros)

lemma does_put_wallet:
  assumes "fst v" and "does v v' (f ())"
  shows "does v v' (bnd (with_ldr (\<lambda>l. l\<lparr>l_wallet := Some w\<rparr>)) f)"
proof -
  have upd: "loader_view (W\<lparr>ldr := (ldr W)\<lparr>l_wallet := Some w\<rparr>\<rparr>) = v" if "loader_view W = v" for W
    using assms(1) that by (auto simp: loader_view_def)
  show ?thesis
    using assms(2) [unfolded does_def, rule_format, OF upd] by (simp add: does_def bnd_def with_ldr_def go_simps)
qed

lemma does_unload: "does v (spec_unload v) (with_ldr (\<lambda>l. l\<lparr>l_wallet := None, l_db := None\<rparr>))"
  by (auto simp: does_def with_ldr_def go_simps loader_view_def)

lemma Unload_refines: "does v (spec_unload v) (UnloadWallet S)"
  unfolding UnloadWallet_def
proof (rule does_bnd_reads, goal_cases)
  case (1 W)
  show ?case
  proof (cases "l_wallet (ldr W)")
    case (Some w)
    then have "fst v" using 1 by (auto simp: loader_view_def)
    then show ?thesis unfolding Some option.simps
      by (intro does_bnd does_put_wallet does_unload keeps_intros) (auto intro: keeps_view keeps_intros)
  qed (simp add: does_basic)
qed

section \<open>The wallet a loader holds\<close>

lemma settle_reachable: "sync_reachable s \<Longrightarrow> settle j n s = Ok s' \<Longrightarrow> sync_reachable s'"
proof (induction n arbitrary: s)
  case 0
  then show ?case by (simp add: settle.simps split: if_splits)
next
  case (Suc n)
  have "s' = s \<or> (\<exists>i s1. run_thread i s = Some (Ok s1) \<and> settle j n s1 = Ok s')"
    using Suc.prems(2) by (subst (asm) settle.simps) (auto split: if_splits option.splits res.splits)
  then show ?case using Suc.IH Suc.prems(1) sync_next [of s "Run i" for i] by fastforce
qed

lemma sync_call_reachable: "sync_reachable s \<Longrightarrow> sync_call e s = Ok s' \<Longrightarrow> sync_reachable s'"
  by (auto simp: sync_call_def split: option.splits res.splits intro: settle_reachable sync_next)

lemma wallet_call_reachable:
  "sync_reachable (w_sync w) \<Longrightarrow> wallet_call e w = Ok w' \<Longrightarrow> sync_reachable (w_sync w')"
  by (auto simp: wallet_call_def rbind_eq_Ok intro: sync_call_reachable)

lemma OpenWallet_sync: "OpenWallet E S pubPass W = (Ok w, W') \<Longrightarrow> w_sync w = new_sync"
  by (auto simp: OpenWallet_def OpenWithRetry_def bnd_eq_Ok go_simps split: prod.splits)

definition wallet_ok :: "('k, 'pk, 'a, 'n, 'd, 'h, 's) app \<Rightarrow> bool" where
  "wallet_ok W \<longleftrightarrow> (\<forall>w. l_wallet (ldr W) = Some w \<longrightarrow> sync_reachable (w_sync w))"

lemma wallet_ok_unloaded: "\<not> fst (loader_view W) \<Longrightarrow> wallet_ok W"
  by (simp add: loader_view_def wallet_ok_def)

lemma keeps_wallet_rest: "keeps rest m \<Longrightarrow> keeps (\<lambda>W. f (ldr W)) m"
  by (simp add: keeps_def)

lemma keeps_wallet_CreateNewWallet:
  "keeps (\<lambda>W. l_wallet (ldr W)) (CreateNewWallet E S pubPass privPass seed bday order now)"
proof -
  have assign: "keeps (\<lambda>W. l_wallet (ldr W)) (assign_db (create_db S p nfs t))" for p nfs t
    by (auto simp: assign_db_def with_ldr_def intro!: keeps_intros keeps_modify intro: keeps_wallet_rest)
  show ?thesis
    unfolding CreateNewWallet_def createNewWallet_def make_database_def create_and_open_def OpenWallet_def CreateWithCallback_def
      CreateWatchingOnlyWithCallback_def
    by (intro assign keeps_intros keeps_wallet_rest)
qed

lemma keeps_local_CreateNewWallet:
  "keeps (\<lambda>W. localDB (ldr W)) (CreateNewWallet E S pubPass privPass seed bday order now)"
proof -
  have assign: "keeps (\<lambda>W. localDB (ldr W)) (assign_db (create_db S p nfs t))" for p nfs t
    by (auto simp: assign_db_def with_ldr_def intro!: keeps_intros keeps_modify intro: keeps_wallet_rest)
  show ?thesis
    unfolding CreateNewWallet_def createNewWallet_def make_database_def create_and_open_def OpenWallet_def CreateWithCallback_def
      CreateWatchingOnlyWithCallback_def
    by (intro assign keeps_intros keeps_wallet_rest)
qed

lemma catch_err_Ok: "(\<And>e s. \<not> is_Ok (fst (h e s))) \<Longrightarrow> catch_err m h s = (Ok a, t) \<longleftrightarrow> m s = (Ok a, t)"
  by (auto simp: catch_err_def is_Ok_iff split: prod.splits res.splits) (metis fst_conv)+

lemma open_failed_not_Ok: "\<not> is_Ok (fst (open_failed S err W))"
  by (simp add: open_failed_def go_simps split: res.split)

lemma OpenExisting_Ok:
  assumes "OpenExistingWallet E S pubPass W = (Ok w, W')"
  shows "l_wallet (ldr W') = Some w \<and> sync_reachable (w_sync w)"
proof -
  from assms obtain w0 W1 W2 where "OpenWallet E S pubPass W1 = (Ok w0, W2)" "wallet_call CallStart w0 = Ok w"
      "onLoaded w W2 = (Ok (), W')"
    by (auto simp: OpenExistingWallet_def bnd_eq_Ok raise_simps reads_simps lift_simps ret_simps catch_err_Ok [OF open_failed_not_Ok] split: if_splits)
  then show ?thesis
    using OpenWallet_sync [of E S pubPass W1 w0 W2] wallet_call_reachable [of w0 CallStart w] sync_init
    by (auto simp: onLoaded_eq)
qed

lemma keeps_ldr_close: "ldr (snd (close_db S dbh (W :: ('k, 'pk, 'a, 'n, 'd, 'h, 's) app))) = ldr W"
  using keepsD [OF keeps_rest_db(2) [of S dbh], of W] by simp

lemma Unload_wallet_ok:
  assumes "wallet_ok W"
  shows "wallet_ok (snd (UnloadWallet S W))"
proof (cases "l_wallet (ldr W)")
  case (Some w)
  then have "sync_reachable (w_sync w)" using assms by (simp add: wallet_ok_def)
  with Some show ?thesis
    by (auto simp: UnloadWallet_def bnd_reads go_simps with_ldr_def keeps_ldr_close wallet_ok_def
        intro: wallet_call_reachable split: res.splits)
qed (simp add: UnloadWallet_def bnd_reads go_simps assms)

text \<open>
  The states of a loader: the calls of its methods that come back, what the rest of the program does to
  the disk, and what happens to the wallet it holds, whose goroutines and manager run on their own.
\<close>

inductive loader_runs ::
  "('k, 'sk, 'pk, 'a, 'n, 's) env \<Rightarrow> ('k, 'n, 'd, 'h, 's) sys \<Rightarrow> nat list
   \<Rightarrow> ('k, 'pk, 'a, 'n, 'd, 'h, 's) app \<Rightarrow> bool"
  for E S where
  new_local: "ldr W = NewLoader params dir nfs t rw \<Longrightarrow> called W = [] \<Longrightarrow> loader_runs E S [] W"
| new_with_db: "NewLoaderWithDB params rw dbh exists = Ok (ldr W) \<Longrightarrow> called W = [] \<Longrightarrow> loader_runs E S [] W"
| create: "loader_runs E S fns W \<Longrightarrow>
    loader_runs E S fns (snd (CreateNewWallet E S pubPass privPass seed bday order now W))"
| opens: "loader_runs E S fns W \<Longrightarrow> loader_runs E S fns (snd (OpenExistingWallet E S pubPass W))"
| unload: "loader_runs E S fns W \<Longrightarrow> loader_runs E S fns (snd (UnloadWallet S W))"
| register: "loader_runs E S fns W \<Longrightarrow> loader_runs E S (fns @ [fn]) (snd (RunAfterLoad fn W))"
| outside: "loader_runs E S fns W \<Longrightarrow> loader_runs E S fns (W\<lparr>disk := d, entropy := r\<rparr>)"
| wallet: "loader_runs E S fns W \<Longrightarrow> l_wallet (ldr W) = Some w \<Longrightarrow> sync_step e (w_sync w) = Some (Ok s) \<Longrightarrow>
    loader_runs E S fns (W\<lparr>ldr := (ldr W)\<lparr>l_wallet := Some (w\<lparr>w_sync := s, w_Manager := m, w_heap := h\<rparr>)\<rparr>\<rparr>)"

fun delivered_in_order :: "nat list \<Rightarrow> bool \<times> nat list \<times> nat list \<Rightarrow> bool" where
  "delivered_in_order fns (b, ps, cs) \<longleftrightarrow> cs @ ps = fns \<and> (b \<longrightarrow> ps = [])"

lemma delivered_steps:
  "delivered_in_order fns v \<Longrightarrow> delivered_in_order fns (spec_open v)"
  "delivered_in_order fns v \<Longrightarrow> delivered_in_order fns (spec_unload v)"
  "delivered_in_order fns v \<Longrightarrow> delivered_in_order (fns @ [fn]) (spec_run fn v)"
  by (cases v; auto)+

lemma does_delivered:
  "does (loader_view W) v' m \<Longrightarrow> delivered_in_order fns (loader_view W) \<Longrightarrow> delivered_in_order fns v'
   \<Longrightarrow> delivered_in_order fns (loader_view (snd (m W)))"
  by (simp add: does_def)

lemma OpenExisting_wallet_ok: "wallet_ok W \<Longrightarrow> wallet_ok (snd (OpenExistingWallet E S pubPass W))"
proof (cases "l_wallet (ldr W)")
  case (Some w)
  assume "wallet_ok W"
  then show ?thesis by (simp add: OpenExistingWallet_def bnd_reads go_simps Some)
next
  case None
  then have "\<not> fst (loader_view W)" by (simp add: loader_view_def)
  show ?thesis
  proof (cases "fst (OpenExistingWallet E S pubPass W)")
    case (Ok w)
    then show ?thesis using OpenExisting_Ok [of E S pubPass W w] by (cases "OpenExistingWallet E S pubPass W") (auto simp: wallet_ok_def)
  qed (use \<open>\<not> fst (loader_view W)\<close> OpenExisting_refines [of "loader_view W" E S pubPass] in
      \<open>auto simp: does_def intro!: wallet_ok_unloaded\<close>)
qed

lemma loader_runs_inv: "loader_runs E S fns W \<Longrightarrow> delivered_in_order fns (loader_view W) \<and> wallet_ok W"
proof (induction rule: loader_runs.induct)
  case (new_local W params dir nfs t rw)
  then show ?case by (simp add: loader_view_def NewLoader_def wallet_ok_def)
next
  case (new_with_db params rw dbh exists W)
  then have "l_wallet (ldr W) = None" "callbacks (ldr W) = []"
    by (auto simp: NewLoaderWithDB_def split: if_splits option.splits dest!: sym [of _ "ldr W"])
  with new_with_db show ?case by (simp add: loader_view_def wallet_ok_def)
next
  case (create fns W pubPass privPass seed bday order now)
  then show ?case
    using keepsD [OF keeps_view_CreateNewWallet, of E S pubPass privPass seed bday order now W]
      keepsD [OF keeps_wallet_CreateNewWallet, of E S pubPass privPass seed bday order now W]
    by (simp add: wallet_ok_def)
next
  case (opens fns W pubPass)
  then show ?case
    using does_delivered [OF OpenExisting_refines] delivered_steps OpenExisting_wallet_ok by blast
next
  case (unload fns W)
  then show ?case using does_delivered [OF Unload_refines] delivered_steps Unload_wallet_ok by blast
next
  case (register fns W fn)
  have "l_wallet (ldr (snd (RunAfterLoad fn W))) = l_wallet (ldr W)"
    by (simp add: RunAfterLoad_def bnd_reads go_simps with_ldr_def)
  with register show ?case using RunAfterLoad_refines [of fn W] delivered_steps(3) by (simp add: wallet_ok_def)
next
  case (outside fns W d r)
  then show ?case by (simp add: loader_view_def wallet_ok_def)
next
  case (wallet fns W w e s m h)
  then show ?case using sync_next [of "w_sync w" e s] by (auto simp: loader_view_def wallet_ok_def)
qed

section \<open>Files\<close>

lemma WalletExists_state: "snd (WalletExists S W) = W"
  by (auto simp: WalletExists_def bnd_def go_simps deref_def split: option.split res.split prod.split)

lemma make_database_path: "db_path (ldr (snd (make_database S W))) = db_path (ldr W)"
proof -
  have "keeps (\<lambda>W. db_path (ldr W)) (make_database S)"
    unfolding make_database_def assign_db_def with_ldr_def
    by (auto simp: db_path_def intro!: keeps_intros keeps_modify intro: keeps_wallet_rest)
  then show ?thesis by (rule keepsD)
qed

text \<open>A seed \<^verbatim>\<open>CreateNewWallet\<close> goes on with: none, or one of a good length that has a master key.\<close>

definition usable_seed :: "('k, 'n, 'd, 'h, 's) sys \<Rightarrow> 'n option \<Rightarrow> bytes option \<Rightarrow> bool" where
  "usable_seed S net seed = (case seed of
      None \<Rightarrow> True
    | Some b \<Rightarrow> 16 \<le> length b \<and> length b \<le> 64 \<and> is_Ok (hd_NewMaster S b net))"

lemma CreateNewWallet_usable:
  assumes "usable_seed S (l_chainParams (ldr W)) seed"
  shows "\<exists>k. CreateNewWallet E S pubPass privPass seed bday order now W
    = createNewWallet E S pubPass privPass k bday False order now W"
  using assms by (auto simp: usable_seed_def CreateNewWallet_def bnd_reads MinSeedBytes_def MaxSeedBytes_def is_Ok_iff
      bnd_def wrap_err_def go_simps split: option.splits)

lemma CreateNewWallet_loaded:
  assumes "l_wallet (ldr W) \<noteq> None" and "usable_seed S (l_chainParams (ldr W)) seed"
  shows "CreateNewWallet E S pubPass privPass seed bday order now W = (Err (LoaderError ErrLoaded), W)"
  using CreateNewWallet_usable [OF assms(2), of E pubPass privPass bday order now] assms(1)
  by (auto simp: createNewWallet_def bnd_reads go_simps)

lemma CreateNewWallet_exists:
  assumes "l_wallet (ldr W) = None" and "usable_seed S (l_chainParams (ldr W)) seed" and "fst (WalletExists S W) = Ok True"
  shows "CreateNewWallet E S pubPass privPass seed bday order now W = (Err (LoaderError ErrExists), W)"
proof -
  have "WalletExists S W = (Ok True, W)" using assms(3) WalletExists_state [of S W] by (cases "WalletExists S W") auto
  then show ?thesis
    using CreateNewWallet_usable [OF assms(2), of E pubPass privPass bday order now] assms(1)
    by (auto simp: createNewWallet_def bnd_reads bnd_def go_simps)
qed

text \<open>The states a creation can leave: untouched, with the database made, or after the work in it.\<close>

lemma CreateNewWallet_states:
  assumes "CreateNewWallet E S pubPass privPass seed bday order now W = (r, W')"
  shows "W' = W \<or> W' = snd (make_database S W)
    \<or> (\<exists>k. W' = snd (create_and_open E S pubPass privPass k bday False order now (snd (make_database S W))))"
proof -
  have inner: "snd (createNewWallet E S pubPass privPass k bday False order now W) \<in> {W, snd (make_database S W),
      snd (create_and_open E S pubPass privPass k bday False order now (snd (make_database S W)))}" for k
    by (auto simp: createNewWallet_def bnd_reads go_simps WalletExists_state split: res.split)
  have "W' = snd (CreateNewWallet E S pubPass privPass seed bday order now W)" using assms by simp
  then show ?thesis using inner
    by (auto simp: CreateNewWallet_def bnd_reads go_simps split: option.splits res.splits if_splits)
qed

text \<open>Opening a database leaves its file on the disk, and transactions do not remove or create files.\<close>

locale wallet_files =
  fixes S :: "('k, 'n, 'd, 'h, 's) sys"
  assumes open_leaves_file: "bbolt_Open S p nfs t d = (Inr h, d') \<Longrightarrow> \<exists>isDir. os_Stat S p d' = Inr isDir"
    and commit_keeps_files: "os_Stat S p (snd (bolt_Commit (bbolt_DB S h) tx d)) = os_Stat S p d"
    and rollback_keeps_files: "os_Stat S p (snd (bolt_Rollback (bbolt_DB S h) tx d)) = os_Stat S p d"
begin

lemma Update_files:
  "os_Stat S p (disk (snd (db_Update (proc_boltdb (bbolt_DB S h)) f W))) = os_Stat S p (disk W)"
proof -
  have c: "os_Stat S p d' = os_Stat S p d" if "bolt_Commit (bbolt_DB S h) tx d = (e, d')" for tx d e d'
    using commit_keeps_files [of p h tx d] that by simp
  have r: "os_Stat S p d' = os_Stat S p d" if "bolt_Rollback (bbolt_DB S h) tx d = (e, d')" for tx d e d'
    using rollback_keeps_files [of p h tx d] that by simp
  show ?thesis
    by (auto simp: db_Update_def db_rollback_def proc_boltdb_def c r rollback_keeps_files
        split: sum.splits prod.splits res.splits option.splits)
qed

lemma keeps_files:
  "keeps (\<lambda>W. os_Stat S p (disk W)) (walletdb_Update S dbh f)"
  "keeps (\<lambda>W. os_Stat S p (disk W)) (new_root S params)"
  by (auto simp: walletdb_Update_def new_root_def intro!: keeps_intros)
    (auto simp: keeps_def Update_files go_simps)

lemma keeps_files_steps:
  "keeps (\<lambda>W. os_Stat S p (disk W)) (CreateWithCallback E S dbh pubPass privPass rootKey params bday cb order now)"
  "keeps (\<lambda>W. os_Stat S p (disk W)) (CreateWatchingOnlyWithCallback E S dbh pubPass params bday cb order now)"
  "keeps (\<lambda>W. os_Stat S p (disk W)) (OpenWallet E S pubPass)"
  unfolding CreateWithCallback_def CreateWatchingOnlyWithCallback_def wallet_create_def OpenWallet_def OpenWithRetry_def
  by (intro keeps_intros keeps_files)+

lemma create_db_leaves_file:
  assumes "create_db S p nfs t W = (Ok h, W')"
  shows "\<exists>isDir. os_Stat S p (disk W') = Inr isDir"
proof -
  have "fst (bbolt_Open S p nfs t (disk W)) = Inr h"
    using assms by (auto simp: create_db_def registered_def bdb_init_def RegisterDriver_def walletdb_Create_def
        createDBDriver_def parseArgs_def bdb_args_def openDB_def bnd_def catch_err_def go_simps split: sum.splits)
  then show ?thesis
    using assms open_leaves_file [of p nfs t "disk W" h] by (cases "bbolt_Open S p nfs t (disk W)") (auto simp: create_db_def)
qed

lemma make_database_leaves_file:
  assumes "localDB (ldr W)" and "l_db (ldr W) = None" and "l_db (ldr (snd (make_database S W))) = Some h"
  shows "\<exists>isDir. os_Stat S (db_path (ldr W)) (disk (snd (make_database S W))) = Inr isDir"
proof -
  let ?c = "create_db S (db_path (ldr W)) (noFreelistSync (ldr W)) (l_timeout (ldr W))"
  obtain r W1 where mk: "MkdirAll S (dbDirPath (ldr W)) W = (r, W1)" by fastforce
  obtain r2 W2 where cr: "?c W1 = (r2, W2)" by fastforce
  have "ldr W1 = ldr W" using keepsD [OF keeps_rest_db(5), of S "dbDirPath (ldr W)" W] mk by simp
  moreover have "ldr W2 = ldr W1" using cr by (auto simp: create_db_def)
  ultimately have r: "r = Ok ()" and r2: "\<exists>h. r2 = Ok h"
      and "disk (snd (make_database S W)) = disk W2"
    using assms by (cases r; cases r2; simp add: make_database_def bnd_reads bnd_def mk cr assign_db_def attempt_def
        with_ldr_def go_simps)+
  then show ?thesis using create_db_leaves_file [of "db_path (ldr W)"] cr by (metis (no_types))
qed

lemma create_and_open_keeps:
  "ldr (snd (create_and_open E S pubPass privPass rootKey bday wo order now W)) = ldr W"
  "os_Stat S p (disk (snd (create_and_open E S pubPass privPass rootKey bday wo order now W))) = os_Stat S p (disk W)"
proof -
  have "keeps rest (create_and_open E S pubPass privPass rootKey bday wo order now)"
    unfolding create_and_open_def CreateWithCallback_def CreateWatchingOnlyWithCallback_def OpenWallet_def
    by (intro keeps_intros)
  then show "ldr (snd (create_and_open E S pubPass privPass rootKey bday wo order now W)) = ldr W"
    using keepsD [of rest "create_and_open E S pubPass privPass rootKey bday wo order now" W] by simp
  have "keeps (\<lambda>W. os_Stat S p (disk W)) (create_and_open E S pubPass privPass rootKey bday wo order now)"
    unfolding create_and_open_def by (intro keeps_intros keeps_files_steps)
  then show "os_Stat S p (disk (snd (create_and_open E S pubPass privPass rootKey bday wo order now W))) = os_Stat S p (disk W)"
    by (rule keepsD)
qed

lemma create_leaves_file:
  assumes "localDB (ldr W)" and "l_db (ldr W) = None"
    and "CreateNewWallet E S pubPass privPass seed bday order now W = (r, W')" and "l_db (ldr W') = Some h"
  shows "\<exists>isDir. os_Stat S (db_path (ldr W')) (disk W') = Inr isDir"
proof -
  let ?md = "make_database S W"
  have "W' = W \<or> W' = snd ?md \<or> (\<exists>k. W' = snd (create_and_open E S pubPass privPass k bday False order now (snd ?md)))"
    using assms(3) by (rule CreateNewWallet_states)
  with assms(2,4) have "W' \<noteq> W" and ldr: "ldr W' = ldr (snd ?md)"
      and stat: "\<And>p. os_Stat S p (disk W') = os_Stat S p (disk (snd ?md))"
    by (auto simp: create_and_open_keeps)
  with assms make_database_leaves_file [of W h] show ?thesis by (simp add: make_database_path)
qed

end

section \<open>A reference system\<close>

text \<open>The disk is the databases by their paths and the directories; a handle is the path of its file.\<close>

type_synonym mem_disk = "(gostring \<times> ((bkt \<times> bytes) \<times> entry) list) list \<times> gostring list"

definition path_db :: "gostring \<Rightarrow> (mem_disk, mem) boltdb" where
  "path_db p =
     \<lparr>bolt_Begin = (\<lambda>rw d. case map_of (fst d) p of None \<Rightarrow> Inl BoltDatabaseNotOpen | Some l \<Rightarrow> Inr (rw, l)),
      bolt_Commit = (\<lambda>tx d. if \<not> fst tx then (Some BoltTxNotWritable, d)
         else if map_of (fst d) p = None then (Some BoltDatabaseNotOpen, d)
         else (None, (AList.update p (snd tx) (fst d), snd d))),
      bolt_Rollback = (\<lambda>tx d. (None, d)),
      bolt_Close = (\<lambda>d. (None, d))\<rparr>"

definition mem_stat :: "gostring \<Rightarrow> mem_disk \<Rightarrow> io_error + bool" where
  "mem_stat p d = (if map_of (fst d) p \<noteq> None then Inr False else if p \<in> set (snd d) then Inr True else Inl OsNotExist)"

definition ref_sys :: "(nat, nat, mem_disk, gostring, mem) sys" where
  "ref_sys =
     \<lparr>os_Stat = mem_stat,
      os_MkdirAll = (\<lambda>p d. (None, (fst d, p # snd d))),
      bbolt_Open = (\<lambda>p nfs t d. case mem_stat p d of
         Inr True \<Rightarrow> (Inl (BoltOther 0), d)
       | Inr False \<Rightarrow> (Inr p, d)
       | Inl e \<Rightarrow> (Inr p, ((p, []) # fst d, snd d))),
      bbolt_DB = path_db,
      hd_NewMaster = (\<lambda>seed net. Ok (length seed)),
      hd_GenerateSeed = read_random\<rparr>"

interpretation ref_files: wallet_files ref_sys
  by unfold_locales
    (auto simp: ref_sys_def path_db_def mem_stat_def update_conv' split: if_splits)

definition example_app :: "(nat, nat, nat, nat, mem_disk, gostring, mem) app" where
  "example_app = \<lparr>disk = ([], []), entropy = replicate 8 1, ldr = NewLoader (Some 0) (go_string ''/w'') False 60 250,
     called = []\<rparr>"

text \<open>The same process with a wallet file on its disk.\<close>

definition example_full :: "(nat, nat, nat, nat, mem_disk, gostring, mem) app" where
  "example_full = example_app\<lparr>disk := ([(db_path (ldr example_app), [])], [go_string ''/w''])\<rparr>"

section \<open>Properties\<close>

text \<open>C13: the loader refines the state machine \<open>(loaded, waiting callbacks, called callbacks)\<close>. A creation,
  successful or not, changes none of the three; opening loads the wallet and calls the waiting
  callbacks in the order of their registration; unloading forgets the wallet; a callback registered while
  a wallet is loaded is called at once, otherwise it waits. A method that fails changes nothing of this.\<close>

theorem loader_refines_spec:
  "loader_view (snd (CreateNewWallet E S pubPass privPass seed bday order now W)) = loader_view W
   \<and> loader_view (snd (OpenExistingWallet E S pubPass W))
       = (if is_Ok (fst (OpenExistingWallet E S pubPass W)) then spec_open (loader_view W) else loader_view W)
   \<and> loader_view (snd (UnloadWallet S W))
       = (if is_Ok (fst (UnloadWallet S W)) then spec_unload (loader_view W) else loader_view W)
   \<and> fst (RunAfterLoad fn W) = Ok () \<and> loader_view (snd (RunAfterLoad fn W)) = spec_run fn (loader_view W)"
  using keepsD [OF keeps_view_CreateNewWallet, of E S pubPass privPass seed bday order now W]
    doesD [OF OpenExisting_refines refl, of E S pubPass W] doesD [OF Unload_refines refl, of S W]
    RunAfterLoad_refines [of fn W]
  by blast

text \<open>C23: in every state of a loader, each callback registered with \<^verbatim>\<open>RunAfterLoad\<close> has been called exactly once
  or still waits, in the order of registration, and none waits while a wallet is loaded; the wallet it
  holds was started by it, so its goroutines are in a state they reach from a new wallet.\<close>

theorem loader_callbacks_once:
  assumes "loader_runs E S fns W"
  shows "called W @ callbacks (ldr W) = fns \<and> (l_wallet (ldr W) \<noteq> None \<longrightarrow> callbacks (ldr W) = [])
    \<and> (\<forall>w. l_wallet (ldr W) = Some w \<longrightarrow> sync_reachable (w_sync w))"
  using loader_runs_inv [OF assms] by (simp add: loader_view_def wallet_ok_def)

theorem loader_callbacks_once_witness:
  "callbacks (ldr (snd (RunAfterLoad 8 (snd (RunAfterLoad 7 example_app))))) = [7, 8]
   \<and> called (snd (RunAfterLoad 8 (snd (RunAfterLoad 7 example_app)))) @ [7, 8] = [] @ [7] @ [8]"
proof -
  have "loader_runs example_hd ref_sys [] example_app"
    by (rule new_local [of _ "Some 0" "go_string ''/w''" False 60 250]) (simp_all add: example_app_def)
  from loader_callbacks_once [OF register [OF register [OF this, of 7], of 8]]
  have "called (snd (RunAfterLoad 8 (snd (RunAfterLoad 7 example_app))))
      @ callbacks (ldr (snd (RunAfterLoad 8 (snd (RunAfterLoad 7 example_app))))) = [] @ [7] @ [8]" by simp
  moreover have "callbacks (ldr (snd (RunAfterLoad 8 (snd (RunAfterLoad 7 example_app))))) = [7, 8]"
    by (simp add: RunAfterLoad_def bnd_def go_simps with_ldr_def example_app_def NewLoader_def)
  ultimately show ?thesis by simp
qed

text \<open>C28: the guards of the loader, each leaving everything as it was: a seed shorter than 16 or longer than
  64 bytes is refused before anything else, and one without a master key next; with no seed or a usable one,
  creating refuses when a wallet is loaded and when one exists; opening refuses when a wallet is loaded,
  unloading when none is loaded.\<close>

theorem loader_guards:
  "(length b < 16 \<or> 64 < length b \<longrightarrow>
      CreateNewWallet E S pubPass privPass (Some b) bday order now W = (Err (HdError ErrInvalidSeedLen), W))
   \<and> (16 \<le> length b \<and> length b \<le> 64 \<and> hd_NewMaster S b (l_chainParams (ldr W)) = Err e \<longrightarrow>
      CreateNewWallet E S pubPass privPass (Some b) bday order now W
        = (Err (Errorf ''failed to derive master extended key''), W))
   \<and> (\<forall>seed. seed = None \<or> seed = Some b \<and> 16 \<le> length b \<and> length b \<le> 64
        \<and> (\<exists>k. hd_NewMaster S b (l_chainParams (ldr W)) = Ok k) \<longrightarrow>
      (l_wallet (ldr W) \<noteq> None \<longrightarrow>
        CreateNewWallet E S pubPass privPass seed bday order now W = (Err (LoaderError ErrLoaded), W))
      \<and> (l_wallet (ldr W) = None \<and> fst (WalletExists S W) = Ok True \<longrightarrow>
        CreateNewWallet E S pubPass privPass seed bday order now W = (Err (LoaderError ErrExists), W)))
   \<and> (l_wallet (ldr W) \<noteq> None \<longrightarrow> OpenExistingWallet E S pubPass W = (Err (LoaderError ErrLoaded), W))
   \<and> (l_wallet (ldr W) = None \<longrightarrow> UnloadWallet S W = (Err (LoaderError ErrNotLoaded), W))"
proof (intro conjI allI impI)
  fix seed
  assume "seed = None \<or> seed = Some b \<and> 16 \<le> length b \<and> length b \<le> 64
        \<and> (\<exists>k. hd_NewMaster S b (l_chainParams (ldr W)) = Ok k)"
  then have u: "usable_seed S (l_chainParams (ldr W)) seed" by (auto simp: usable_seed_def)
  show "CreateNewWallet E S pubPass privPass seed bday order now W = (Err (LoaderError ErrLoaded), W)"
    if "l_wallet (ldr W) \<noteq> None" using that u by (rule CreateNewWallet_loaded)
  show "CreateNewWallet E S pubPass privPass seed bday order now W = (Err (LoaderError ErrExists), W)"
    if "l_wallet (ldr W) = None \<and> fst (WalletExists S W) = Ok True"
    using that u by (intro CreateNewWallet_exists) auto
qed (auto simp: CreateNewWallet_def OpenExistingWallet_def UnloadWallet_def bnd_reads MinSeedBytes_def MaxSeedBytes_def
    bnd_def wrap_err_def go_simps)

theorem loader_guards_witness:
  "CreateNewWallet example_hd ref_sys [1] [2] (Some [1, 2, 3]) 0 [] 0 example_app
     = (Err (HdError ErrInvalidSeedLen), example_app)
   \<and> CreateNewWallet example_hd ref_sys [1] [2] (Some (replicate 16 3)) 0 [] 0 example_full
     = (Err (LoaderError ErrExists), example_full)
   \<and> UnloadWallet ref_sys example_app = (Err (LoaderError ErrNotLoaded), example_app)"
proof -
  have none: "l_wallet (ldr example_app) = None" "l_wallet (ldr example_full) = None"
    by (simp_all add: example_app_def example_full_def NewLoader_def)
  moreover have "fst (WalletExists ref_sys example_full) = Ok True" by code_simp
  moreover have "hd_NewMaster ref_sys b net = Ok (length b)" for b net by (simp add: ref_sys_def)
  ultimately show ?thesis
    using loader_guards [of "[1, 2, 3]" example_hd ref_sys "[1]" "[2]" 0 "[]" 0 example_app]
      loader_guards [of "replicate 16 3" example_hd ref_sys "[1]" "[2]" 0 "[]" 0 example_full]
    by simp
qed

text \<open>C38: a wallet that \<^verbatim>\<open>CreateNewWallet\<close> made is not the loader's: it cannot be unloaded, and creating
  again, with no seed or any usable one, finds it there. The same holds when the creation failed after the file was made: the file stays,
  so a second attempt is refused although there is no wallet in it.\<close>

theorem loader_create_leaves_file:
  assumes "wallet_files S" and "localDB (ldr W)" and "l_wallet (ldr W) = None" and "l_db (ldr W) = None"
    and "CreateNewWallet E S pubPass privPass seed bday order now W = (r, W')" and "l_db (ldr W') \<noteq> None"
  shows "UnloadWallet S W' = (Err (LoaderError ErrNotLoaded), W')
    \<and> (\<forall>seed'. seed' = None \<or> (\<exists>b k. seed' = Some b \<and> 16 \<le> length b \<and> length b \<le> 64
          \<and> hd_NewMaster S b (l_chainParams (ldr W')) = Ok k) \<longrightarrow>
        CreateNewWallet E S pubPass' privPass' seed' bday' order' now' W' = (Err (LoaderError ErrExists), W'))"
proof -
  have none: "l_wallet (ldr W') = None"
    using keepsD [OF keeps_wallet_CreateNewWallet, of E S pubPass privPass seed bday order now W] assms(3,5) by simp
  have "localDB (ldr W') = localDB (ldr W)"
    using keepsD [OF keeps_local_CreateNewWallet, of E S pubPass privPass seed bday order now W] assms(5) by simp
  moreover obtain isDir where "os_Stat S (db_path (ldr W')) (disk W') = Inr isDir"
    using wallet_files.create_leaves_file [OF assms(1,2,4,5)] assms(6) by blast
  ultimately have "fst (WalletExists S W') = Ok True"
    using assms(2) by (simp add: WalletExists_def bnd_reads fileExists_def go_simps)
  with none show ?thesis
    by (auto simp: UnloadWallet_def bnd_reads go_simps usable_seed_def intro!: CreateNewWallet_exists)
qed

theorem loader_create_leaves_file_witness:
  "\<exists>W'. CreateNewWallet example_hd ref_sys [1] [] (Some (replicate 16 3)) 0 [] 0 example_app
       = (Err (managerError ErrEmptyPassphrase None), W')
     \<and> CreateNewWallet example_hd ref_sys [1] [2] (Some (replicate 16 3)) 0 [] 0 W' = (Err (LoaderError ErrExists), W')"
proof -
  let ?c = "CreateNewWallet example_hd ref_sys [1] [] (Some (replicate 16 3)) 0 [] 0 example_app"
  obtain r W' where c: "?c = (r, W')" by fastforce
  have "fst ?c = Err (managerError ErrEmptyPassphrase None)" by code_simp
  moreover have "l_db (ldr (snd ?c)) \<noteq> None" by code_simp
  moreover have "localDB (ldr example_app)" "l_wallet (ldr example_app) = None" "l_db (ldr example_app) = None"
    by (simp_all add: example_app_def NewLoader_def)
  moreover have "hd_NewMaster ref_sys b net = Ok (length b)" for b net by (simp add: ref_sys_def)
  ultimately show ?thesis
    using loader_create_leaves_file [OF ref_files.wallet_files_axioms _ _ _ c, of "[1]" "[2]" 0 "[]" 0] c by auto
qed

text \<open>Unloading, step by step: the wallet is stopped, its goroutines end, the database is closed.\<close>

lemma Unload_eq:
  assumes "l_wallet (ldr W) = Some w" and "l_db (ldr W) = Some h"
    and "sync_call CallStop (w_sync w) = Ok s1" and "sync_call CallWait s1 = Ok s2"
  shows "UnloadWallet S W = (case if localDB (ldr W) then bolt_Close (bbolt_DB S h) (disk W) else (None, disk W) of
       (None, d) \<Rightarrow> (Ok (), W\<lparr>disk := d, ldr := (ldr W)\<lparr>l_wallet := None, l_db := None\<rparr>\<rparr>)
     | (Some e, d) \<Rightarrow> (Err (convertErr (BoltError e)),
         W\<lparr>disk := d, ldr := (ldr W)\<lparr>l_wallet := Some (w\<lparr>w_sync := s2\<rparr>)\<rparr>\<rparr>))"
proof -
  let ?W = "W\<lparr>ldr := (ldr W)\<lparr>l_wallet := Some (w\<lparr>w_sync := s2\<rparr>)\<rparr>\<rparr>"
  have stopped: "UnloadWallet S W = bnd (if localDB (ldr W) then close_db S (Some h) else ret ())
      (\<lambda>_. with_ldr (\<lambda>l. l\<lparr>l_wallet := None, l_db := None\<rparr>)) ?W"
    using assms by (simp add: UnloadWallet_def bnd_reads wallet_call_def bnd_def with_ldr_def go_simps)
  show ?thesis
  proof (cases "localDB (ldr W)")
    case True
    obtain e d where "bolt_Close (bbolt_DB S h) (disk W) = (e, d)" by fastforce
    with True stopped show ?thesis
      by (cases e) (simp_all add: close_db_def db_Close_def bolt_result_def proc_boltdb_def bnd_def with_ldr_def go_simps)
  next
    case False
    with stopped show ?thesis by (simp add: bnd_def with_ldr_def go_simps)
  qed
qed

lemma Unload_calls:
  assumes "idle s"
  shows "\<exists>s1 s2. sync_call CallStop s = Ok s1 \<and> quit s1 \<in> set (shut s1)
    \<and> sync_call CallWait s1 = Ok s2 \<and> quit s2 \<in> set (shut s2) \<and> wg s2 = 0 \<and> set (threads s2) \<subseteq> {Finished}"
  using call_Stop [OF assms] call_Wait idle_ended by blast

lemma Unload_idle:
  assumes "l_wallet (ldr W) = Some w" and "idle (w_sync w)" and "l_db (ldr W) = Some h"
  shows "fst (UnloadWallet S W) = Ok () \<or> (\<exists>e. fst (UnloadWallet S W) = Err e)"
  using Unload_calls [OF assms(2)] Unload_eq [OF assms(1,3), of _ _ S] by (auto split: prod.split option.split)

lemma Open_without_db:
  "\<not> localDB (ldr W) \<Longrightarrow> l_wallet (ldr W) = None \<Longrightarrow> l_db (ldr W) = None \<Longrightarrow> fst (OpenExistingWallet E S pubPass W) = Panic"
  by (simp add: bnd_def go_simps OpenExistingWallet_def OpenWallet_def OpenWithRetry_def walletdb_Update_def catch_err_def)

text \<open>The wallet that was just opened runs and no call on it is under way.\<close>

lemma OpenExisting_idle:
  assumes "OpenExistingWallet E S pubPass W = (Ok w, W')"
  shows "l_wallet (ldr W') = Some w \<and> idle (w_sync w) \<and> l_db (ldr W') \<noteq> None"
proof -
  from assms obtain w0 W1 W2 where o: "OpenWallet E S pubPass W1 = (Ok w0, W2)" "wallet_call CallStart w0 = Ok w"
      "onLoaded w W2 = (Ok (), W')"
    by (auto simp: OpenExistingWallet_def bnd_eq_Ok raise_simps reads_simps lift_simps ret_simps
        catch_err_Ok [OF open_failed_not_Ok] split: if_splits)
  have "l_db (ldr W1) \<noteq> None"
    using o(1) by (auto simp: OpenWallet_def OpenWithRetry_def walletdb_Update_def bnd_reads bnd_eq_Ok deref_def
        panic_simps split: option.splits)
  moreover have "ldr W2 = ldr W1"
    using keepsD [OF keeps_rest_OpenWallet, of E S pubPass W1] o(1) by simp
  moreover have "w_sync w = started_sync"
    using o(2) OpenWallet_sync [OF o(1)] by (simp add: wallet_call_def call_Start_new) auto
  ultimately show ?thesis using o(3) idle_started by (auto simp: onLoaded_eq)
qed

text \<open>C22: unloading stops the wallet, waits for its goroutines and closes the database. It comes back whenever
  no other call on the wallet is under way: the \<^verbatim>\<open>quit\<close> channel is then closed and no goroutine is left,
  the disk is what \<^verbatim>\<open>Close\<close> left of it when the database is the loader's own, and the loader is empty
  again, or the error of \<^verbatim>\<open>Close\<close> is returned and the stopped wallet stays loaded. It does not come back
  when \<^verbatim>\<open>WaitForShutdown\<close> does not. The handle is dropped also when it was given to \<^verbatim>\<open>NewLoaderWithDB\<close>:
  opening again panics.\<close>

theorem loader_unload_returns:
  assumes "l_wallet (ldr W) = Some w" and "l_db (ldr W) = Some h"
  shows "(idle (w_sync w) \<longrightarrow> (\<exists>s1 s2.
       sync_call CallStop (w_sync w) = Ok s1 \<and> sync_call CallWait s1 = Ok s2
       \<and> quit s2 \<in> set (shut s2) \<and> wg s2 = 0 \<and> set (threads s2) \<subseteq> {Finished}
       \<and> UnloadWallet S W = (case if localDB (ldr W) then bolt_Close (bbolt_DB S h) (disk W) else (None, disk W) of
           (None, d) \<Rightarrow> (Ok (), W\<lparr>disk := d, ldr := (ldr W)\<lparr>l_wallet := None, l_db := None\<rparr>\<rparr>)
         | (Some e, d) \<Rightarrow> (Err (convertErr (BoltError e)),
             W\<lparr>disk := d, ldr := (ldr W)\<lparr>l_wallet := Some (w\<lparr>w_sync := s2\<rparr>)\<rparr>\<rparr>))
       \<and> (\<not> localDB (ldr W) \<longrightarrow> fst (OpenExistingWallet E S pubPass (snd (UnloadWallet S W))) = Panic)))
    \<and> (\<forall>s1. sync_call CallStop (w_sync w) = Ok s1 \<and> sync_call CallWait s1 = Hang \<longrightarrow> fst (UnloadWallet S W) = Hang)"
proof (intro conjI allI impI)
  assume "idle (w_sync w)"
  then obtain s1 s2 where s: "sync_call CallStop (w_sync w) = Ok s1" "sync_call CallWait s1 = Ok s2"
      "quit s2 \<in> set (shut s2)" "wg s2 = 0" "set (threads s2) \<subseteq> {Finished}"
    using Unload_calls by blast
  note eq = Unload_eq [OF assms s(1,2), of S]
  have "fst (OpenExistingWallet E S pubPass (snd (UnloadWallet S W))) = Panic" if "\<not> localDB (ldr W)"
    unfolding eq using that by (simp add: Open_without_db)
  with s eq show "\<exists>s1 s2.
       sync_call CallStop (w_sync w) = Ok s1 \<and> sync_call CallWait s1 = Ok s2
       \<and> quit s2 \<in> set (shut s2) \<and> wg s2 = 0 \<and> set (threads s2) \<subseteq> {Finished}
       \<and> UnloadWallet S W = (case if localDB (ldr W) then bolt_Close (bbolt_DB S h) (disk W) else (None, disk W) of
           (None, d) \<Rightarrow> (Ok (), W\<lparr>disk := d, ldr := (ldr W)\<lparr>l_wallet := None, l_db := None\<rparr>\<rparr>)
         | (Some e, d) \<Rightarrow> (Err (convertErr (BoltError e)),
             W\<lparr>disk := d, ldr := (ldr W)\<lparr>l_wallet := Some (w\<lparr>w_sync := s2\<rparr>)\<rparr>\<rparr>))
       \<and> (\<not> localDB (ldr W) \<longrightarrow> fst (OpenExistingWallet E S pubPass (snd (UnloadWallet S W))) = Panic)"
    by blast
next
  fix s1
  assume "sync_call CallStop (w_sync w) = Ok s1 \<and> sync_call CallWait s1 = Hang"
  then show "fst (UnloadWallet S W) = Hang"
    using assms by (simp add: UnloadWallet_def bnd_reads wallet_call_def bnd_def with_ldr_def go_simps)
qed

text \<open>A loader that was given its database and has loaded a wallet.\<close>

definition example_wallet :: "(gostring, nat, nat, nat, nat) Wallet" where
  "example_wallet = \<lparr>w_db = Some [7], w_Manager = example_mgr, w_heap = [], w_TxStore = \<lparr>st_chainParams = None\<rparr>,
     w_sync = started_sync\<rparr>"

definition example_loaded :: "(nat, nat, nat, nat, mem_disk, gostring, mem) app" where
  "example_loaded = example_app\<lparr>ldr := (ldr example_app)\<lparr>localDB := False, l_wallet := Some example_wallet, l_db := Some [7]\<rparr>\<rparr>"

theorem loader_unload_returns_witness:
  "fst (UnloadWallet ref_sys example_loaded) = Ok ()
   \<and> fst (OpenExistingWallet example_hd ref_sys [1] (snd (UnloadWallet ref_sys example_loaded))) = Panic"
proof -
  have "l_wallet (ldr example_loaded) = Some example_wallet" "l_db (ldr example_loaded) = Some [7]"
      "\<not> localDB (ldr example_loaded)"
    by (simp_all add: example_loaded_def)
  moreover have "idle (w_sync example_wallet)" using idle_started by (simp add: example_wallet_def)
  ultimately show ?thesis
    using loader_unload_returns [of example_loaded example_wallet "[7]" ref_sys example_hd "[1]"]
    by auto
qed

end
