(* ===== verification/Keystore.thy ===== *)
theory Keystore
  imports Loader
begin

text \<open>
  The legacy key store (\<^verbatim>\<open>internal/legacy/keystore\<close>): the reader and writer of its variable-length entries
  and the opening of its file. Reading or writing an address, a script or the store itself is not
  implemented in the sources and fails; the code around it is modelled as it is. A reader is the list of
  the bytes it will still give; a writer is a function of the sources' parameter \<^verbatim>\<open>io.Writer\<close>. Every
  operation returns the count and the error, as \<^verbatim>\<open>io.ReaderFrom\<close> and \<^verbatim>\<open>io.WriterTo\<close> do.
\<close>

type_synonym 's counted = "'s \<Rightarrow> (nat \<times> go_error option) \<times> 's"

definition not_implemented :: go_error where
  "not_implemented = Errorf ''not yet implemented''"

section \<open>Reading and writing\<close>

text \<open>\<^verbatim>\<open>io.ReadFull\<close>: no byte at all is \<^verbatim>\<open>EOF\<close>, too few are \<^verbatim>\<open>ErrUnexpectedEOF\<close>; the bytes are consumed.\<close>

definition ReadFull :: "nat \<Rightarrow> bytes \<Rightarrow> (bytes \<times> go_error option) \<times> bytes" where
  "ReadFull n r =
     ((take n r, if n \<le> length r then None
                 else if r = [] then Some (IoError EOF) else Some (IoError ErrUnexpectedEOF)), drop n r)"

text \<open>\<^verbatim>\<open>binaryRead\<close> of a value of \<open>n\<close> bytes; also the bytes read.\<close>

definition binaryRead :: "nat \<Rightarrow> bytes \<Rightarrow> (bytes \<times> nat \<times> go_error option) \<times> bytes" where
  "binaryRead n r = (case ReadFull n r of ((buf, err), r') \<Rightarrow> ((buf, length buf, err), r'))"

text \<open>\<^verbatim>\<open>binaryWrite\<close> of a value with the encoding \<open>buf\<close>.\<close>

definition binaryWrite :: "(bytes \<Rightarrow> 's counted) \<Rightarrow> bytes \<Rightarrow> 's counted" where
  "binaryWrite wr buf = wr buf"

definition addrHeader :: byte where "addrHeader = 0"
definition scriptHeader :: byte where "scriptHeader = 8"

section \<open>Addresses and scripts\<close>

text \<open>The structs as declared; nothing in the sources sets most of the fields. \<open>'st\<close> is a pointer to the store,
  \<open>'a\<close> an address of btcutil, \<open>'pk\<close> a public key.\<close>

record ks_addrFlags =
  af_hasPrivKey :: bool
  af_hasPubkey :: bool
  af_encrypted :: bool
  af_createPrivKeyNextUnlock :: bool
  af_compressed :: bool
  af_change :: bool
  af_unsynced :: bool
  af_partialSync :: bool

record ('st, 'pk, 'a) ks_btcAddress =
  ba_store :: "'st option"
  ba_address :: "'a option"
  ba_flags :: ks_addrFlags
  ba_chaincode :: bytes
  ba_chainIndex :: u64
  ba_chainDepth :: u64
  ba_initVector :: bytes
  ba_privKey :: bytes
  ba_pubKey :: "'pk option"
  ba_firstSeen :: u64
  ba_lastSeen :: u64
  ba_firstBlock :: u32
  ba_partialSyncHeight :: u32
  ba_privKeyCT :: bytes

record ('st, 'pk, 'a) addrEntry =
  ae_pubKeyHash160 :: bytes
  ae_addr :: "('st, 'pk, 'a) ks_btcAddress"

record ks_scriptFlags =
  sf_hasScript :: bool
  sf_change :: bool
  sf_unsynced :: bool
  sf_partialSync :: bool

type_synonym p2SHScript = bytes

record ('st, 'a) ks_scriptAddress =
  sc_store :: "'st option"
  sc_address :: "'a option"
  sc_class :: byte
  sc_addresses :: "'a option list"
  sc_reqSigs :: u64
  sc_flags :: ks_scriptFlags
  sc_script :: p2SHScript
  sc_firstSeen :: u64
  sc_lastSeen :: u64
  sc_firstBlock :: u32
  sc_partialSyncHeight :: u32

record ('st, 'a) scriptEntry =
  se_scriptHash160 :: bytes
  se_script :: "('st, 'a) ks_scriptAddress"

text \<open>\<^verbatim>\<open>var entry addrEntry\<close> and \<^verbatim>\<open>var entry scriptEntry\<close>, with the pointer to the store set.\<close>

definition new_addrEntry :: "'st option \<Rightarrow> ('st, 'pk, 'a) addrEntry" where
  "new_addrEntry st =
     \<lparr>ae_pubKeyHash160 = make_bytes 20, ae_addr =
       \<lparr>ba_store = st, ba_address = None, ba_flags = \<lparr>af_hasPrivKey = False, af_hasPubkey = False, af_encrypted = False,
          af_createPrivKeyNextUnlock = False, af_compressed = False, af_change = False, af_unsynced = False, af_partialSync = False\<rparr>,
        ba_chaincode = make_bytes 32, ba_chainIndex = 0, ba_chainDepth = 0, ba_initVector = make_bytes 16, ba_privKey = make_bytes 32,
        ba_pubKey = None, ba_firstSeen = 0, ba_lastSeen = 0, ba_firstBlock = 0, ba_partialSyncHeight = 0, ba_privKeyCT = []\<rparr>\<rparr>"

definition new_scriptEntry :: "'st option \<Rightarrow> ('st, 'a) scriptEntry" where
  "new_scriptEntry st =
     \<lparr>se_scriptHash160 = make_bytes 20, se_script =
       \<lparr>sc_store = st, sc_address = None, sc_class = 0, sc_addresses = [], sc_reqSigs = 0,
        sc_flags = \<lparr>sf_hasScript = False, sf_change = False, sf_unsynced = False, sf_partialSync = False\<rparr>,
        sc_script = [], sc_firstSeen = 0, sc_lastSeen = 0, sc_firstBlock = 0, sc_partialSyncHeight = 0\<rparr>\<rparr>"

definition btcAddress_WriteTo :: "('st, 'pk, 'a) ks_btcAddress \<Rightarrow> (bytes \<Rightarrow> 's counted) \<Rightarrow> 's counted" where
  "btcAddress_WriteTo a wr = (\<lambda>s. ((0, Some not_implemented), s))"

text \<open>A reader also gives the value it was called on.\<close>

definition btcAddress_ReadFrom ::
  "('st, 'pk, 'a) ks_btcAddress \<Rightarrow> bytes \<Rightarrow> (('st, 'pk, 'a) ks_btcAddress \<times> nat \<times> go_error option) \<times> bytes" where
  "btcAddress_ReadFrom a r = ((a, 0, Some not_implemented), r)"

definition addrEntry_WriteTo :: "(bytes \<Rightarrow> 's counted) \<Rightarrow> ('st, 'pk, 'a) addrEntry \<Rightarrow> 's counted" where
  "addrEntry_WriteTo wr e = (\<lambda>s0.
     case binaryWrite wr [addrHeader] s0 of
       ((written, Some err), s1) \<Rightarrow> ((written, Some err), s1)
     | ((n, None), s1) \<Rightarrow>
         (case binaryWrite wr (ae_pubKeyHash160 e) s1 of
            ((written, Some err), s2) \<Rightarrow> ((n + written, Some err), s2)
          | ((written, None), s2) \<Rightarrow>
              (case btcAddress_WriteTo (ae_addr e) wr s2 of ((written', err), s3) \<Rightarrow> ((n + written + written', err), s3))))"

text \<open>The hash is read into the entry; its 20 bytes are not counted when the address follows.\<close>

definition addrEntry_ReadFrom ::
  "('st, 'pk, 'a) addrEntry \<Rightarrow> bytes \<Rightarrow> (('st, 'pk, 'a) addrEntry \<times> nat \<times> go_error option) \<times> bytes" where
  "addrEntry_ReadFrom e r = (case binaryRead 20 r of
      ((hash, read, Some err), r') \<Rightarrow> ((e, read, Some err), r')
    | ((hash, read, None), r') \<Rightarrow>
        (case btcAddress_ReadFrom (ae_addr e) r' of
           ((addr, read', err), r'') \<Rightarrow> ((\<lparr>ae_pubKeyHash160 = hash, ae_addr = addr\<rparr>, read', err), r'')))"

definition scriptEntry_WriteTo :: "(bytes \<Rightarrow> 's counted) \<Rightarrow> ('st, 'a) scriptEntry \<Rightarrow> 's counted" where
  "scriptEntry_WriteTo wr e = (\<lambda>s. ((0, Some not_implemented), s))"

definition scriptEntry_ReadFrom ::
  "('st, 'a) scriptEntry \<Rightarrow> bytes \<Rightarrow> (('st, 'a) scriptEntry \<times> nat \<times> go_error option) \<times> bytes" where
  "scriptEntry_ReadFrom e r = ((e, 0, Some not_implemented), r)"

section \<open>Variable-length entries\<close>

text \<open>The values of \<^verbatim>\<open>io.WriterTo\<close> that the entries are.\<close>

datatype ('st, 'pk, 'a) keystore_entry = AddrEntry "('st, 'pk, 'a) addrEntry" | ScriptEntry "('st, 'a) scriptEntry"

record ('st, 'pk, 'a) varEntries =
  ve_store :: "'st option"
  ve_entries :: "('st, 'pk, 'a) keystore_entry list"

definition entry_WriteTo :: "(bytes \<Rightarrow> 's counted) \<Rightarrow> ('st, 'pk, 'a) keystore_entry \<Rightarrow> 's counted" where
  "entry_WriteTo wr e = (case e of AddrEntry e \<Rightarrow> addrEntry_WriteTo wr e | ScriptEntry e \<Rightarrow> scriptEntry_WriteTo wr e)"

fun write_entries :: "(bytes \<Rightarrow> 's counted) \<Rightarrow> ('st, 'pk, 'a) keystore_entry list \<Rightarrow> nat \<Rightarrow> 's counted" where
  "write_entries wr [] n s = ((n, None), s)"
| "write_entries wr (e # es) n s = (case entry_WriteTo wr e s of
      ((written, Some err), s') \<Rightarrow> ((n + written, Some err), s')
    | ((written, None), s') \<Rightarrow> write_entries wr es (n + written) s')"

definition varEntries_WriteTo :: "(bytes \<Rightarrow> 's counted) \<Rightarrow> ('st, 'pk, 'a) varEntries \<Rightarrow> 's counted" where
  "varEntries_WriteTo wr v = write_entries wr (ve_entries v) 0"

lemma binaryRead_shrinks: "binaryRead 1 r = ((buf, k, None), r') \<Longrightarrow> length r' < length r"
  by (auto simp: binaryRead_def ReadFull_def split: if_splits)

lemma entry_ReadFrom_length:
  "addrEntry_ReadFrom e r = (x, r') \<Longrightarrow> length r' \<le> length r"
  "scriptEntry_ReadFrom e' r = (y, r') \<Longrightarrow> length r' \<le> length r"
  by (auto simp: addrEntry_ReadFrom_def binaryRead_def ReadFull_def btcAddress_ReadFrom_def scriptEntry_ReadFrom_def
      split: if_splits)

text \<open>The loop of \<^verbatim>\<open>ReadFrom\<close>: each round takes one header from the reader.\<close>

function read_entries ::
  "'st option \<Rightarrow> nat \<Rightarrow> ('st, 'pk, 'a) keystore_entry list \<Rightarrow> bytes
   \<Rightarrow> (nat \<times> go_error option) \<times> ('st, 'pk, 'a) keystore_entry list \<times> bytes" where
  "read_entries st n wts r = (case binaryRead 1 r of
      ((buf, read, Some err), r1) \<Rightarrow>
        (if err = IoError EOF then ((n + read, None), wts, r1) else ((n + read, Some err), wts, r1))
    | ((buf, read, None), r1) \<Rightarrow>
        let header = hd buf in
        if header = addrHeader then
          (case addrEntry_ReadFrom (new_addrEntry st) r1 of
             ((e, read', Some err), r2) \<Rightarrow> ((n + read + read', Some err), wts, r2)
           | ((e, read', None), r2) \<Rightarrow> read_entries st (n + read + read') (wts @ [AddrEntry e]) r2)
        else if header = scriptHeader then
          (case scriptEntry_ReadFrom (new_scriptEntry st) r1 of
             ((e, read', Some err), r2) \<Rightarrow> ((n + read + read', Some err), wts, r2)
           | ((e, read', None), r2) \<Rightarrow> read_entries st (n + read + read') (wts @ [ScriptEntry e]) r2)
        else ((n + read, Some (Errorf ''unknown entry header'')), wts, r1))"
  by pat_completeness auto

termination
proof (relation "measure (\<lambda>(st, n, wts, r). length r)", goal_cases)
  case (2 st n wts r x r1 buf y read z header w r2 e v read' u)
  then have "length r1 < length r" "length r2 \<le> length r1"
    using binaryRead_shrinks [of r buf read r1] entry_ReadFrom_length(1) [of "new_addrEntry st" r1 w r2] by simp_all
  then show ?case by simp
next
  case (3 st n wts r x r1 buf y read z header w r2 e v read' u)
  then have "length r1 < length r" "length r2 \<le> length r1"
    using binaryRead_shrinks [of r buf read r1] entry_ReadFrom_length(2) [of "new_scriptEntry st" r1 w r2] by simp_all
  then show ?case by simp
qed simp

declare read_entries.simps [simp del]

text \<open>The old entries are dropped first.\<close>

definition varEntries_ReadFrom ::
  "('st, 'pk, 'a) varEntries \<Rightarrow> bytes \<Rightarrow> (('st, 'pk, 'a) varEntries \<times> nat \<times> go_error option) \<times> bytes" where
  "varEntries_ReadFrom v r = (case read_entries (ve_store v) 0 [] r of
     ((n, err), wts, r') \<Rightarrow> ((v\<lparr>ve_entries := wts\<rparr>, n, err), r'))"

section \<open>The store\<close>

record keystore_version =
  kv_major :: byte
  kv_minor :: byte
  kv_bugfix :: byte
  kv_autoincrement :: byte

record walletFlags =
  wf_useEncryption :: bool
  wf_watchingOnly :: bool

type_synonym addressKey = gostring

text \<open>A value of the interface \<^verbatim>\<open>WalletAddress\<close> is its method table, as is one of \<^verbatim>\<open>walletAddress\<close>, which adds reading
  and writing; \<^verbatim>\<open>SyncStatus\<close> has one method without a result. No type of the package implements them.\<close>

record 'a WalletAddress =
  kw_Address :: "'a option"
  kw_AddrHash :: gostring
  kw_FirstBlock :: u32
  kw_Imported :: bool
  kw_Change :: bool
  kw_Compressed :: bool
  kw_SyncStatus :: unit

record ('a, 's) walletAddress = "'a WalletAddress" +
  kw_ReadFrom :: "bytes counted"
  kw_WriteTo :: "(bytes \<Rightarrow> 's counted) \<Rightarrow> 's counted"

text \<open>The mutex is left out: the store is not shared before it is returned.\<close>

record ('n, 'a, 's) keystore_Store =
  ks_dirty :: bool
  ks_path :: gostring
  ks_dir :: gostring
  ks_file :: gostring
  ks_vers :: keystore_version
  ks_net :: "'n option"
  ks_flags :: walletFlags
  ks_addrMap :: "addressKey \<Rightarrow> ('a, 's) walletAddress option"
  ks_chainIdxMap :: "u64 \<Rightarrow> 'a option"

definition new_Store :: "('n, 'a, 's) keystore_Store" where
  "new_Store = \<lparr>ks_dirty = False, ks_path = [], ks_dir = [], ks_file = [],
     ks_vers = \<lparr>kv_major = 0, kv_minor = 0, kv_bugfix = 0, kv_autoincrement = 0\<rparr>, ks_net = None,
     ks_flags = \<lparr>wf_useEncryption = False, wf_watchingOnly = False\<rparr>, ks_addrMap = (\<lambda>_. None), ks_chainIdxMap = (\<lambda>_. None)\<rparr>"

definition Filename :: gostring where "Filename = go_string ''wallet.bin''"

definition Store_ReadFrom ::
  "('n, 'a, 's) keystore_Store \<Rightarrow> bytes \<Rightarrow> (('n, 'a, 's) keystore_Store \<times> nat \<times> go_error option) \<times> bytes" where
  "Store_ReadFrom st r = ((st, 0, Some not_implemented), r)"

definition Store_WriteTo :: "('n, 'a, 's) keystore_Store \<Rightarrow> (bytes \<Rightarrow> 'w counted) \<Rightarrow> 'w counted" where
  "Store_WriteTo st wr = (\<lambda>s. ((0, Some not_implemented), s))"

text \<open>\<^verbatim>\<open>openFile\<close> is \<^verbatim>\<open>os.OpenFile\<close> for reading: the error or the contents.\<close>

definition OpenDir :: "(gostring \<Rightarrow> io_error + bytes) \<Rightarrow> gostring \<Rightarrow> ('n, 'a, 's) keystore_Store result" where
  "OpenDir openFile dir =
     (let path = filepath_Join [dir, Filename] in
      case openFile path of
        Inl err \<Rightarrow> Err (IoError err)
      | Inr contents \<Rightarrow>
          (case Store_ReadFrom new_Store contents of
             ((st, n, Some err), _) \<Rightarrow> Err err
           | ((st, n, None), _) \<Rightarrow> Ok (st\<lparr>ks_path := path, ks_dir := dir, ks_file := Filename\<rparr>)))"

section \<open>Properties\<close>

lemma OpenDir_fails: "OpenDir openFile dir = (case openFile (filepath_Join [dir, Filename]) of
    Inl err \<Rightarrow> Err (IoError err) | Inr contents \<Rightarrow> Err not_implemented)"
  by (simp add: OpenDir_def Store_ReadFrom_def Let_def split: sum.split)

text \<open>Reading the entries of a legacy store ends on every input. It succeeds only on an empty reader and
  then yields no entry; any other input is an error that leaves no entry, and opening the store's
  directory fails whether its file is there or not.\<close>

lemma keystore_unreadable:
  fixes v :: "('st, 'pk, 'a) varEntries"
  shows "(\<exists>n err r'. varEntries_ReadFrom v r = ((v\<lparr>ve_entries := []\<rparr>, n, err), r') \<and> (err = None \<longleftrightarrow> r = []) \<and> n \<le> length r)
   \<and> \<not> is_Ok (OpenDir openFile dir)"
proof -
  have "\<exists>n err r'. read_entries (ve_store v) 0 ([] :: ('st, 'pk, 'a) keystore_entry list) r = ((n, err), [], r') \<and> (err = None \<longleftrightarrow> r = []) \<and> n \<le> length r"
  proof (cases r)
    case Nil
    then show ?thesis
      by (subst read_entries.simps) (simp add: binaryRead_def ReadFull_def)
  next
    case (Cons b bs)
    then show ?thesis
      by (subst read_entries.simps)
        (auto simp: binaryRead_def ReadFull_def addrEntry_ReadFrom_def btcAddress_ReadFrom_def scriptEntry_ReadFrom_def
          not_implemented_def Let_def)
  qed
  then show ?thesis by (auto simp: varEntries_ReadFrom_def OpenDir_fails split: sum.split)
qed

end
