(* ===== verification/App.thy ===== *)
theory App
  imports Keystore
begin

text \<open>
  The program around the library: \<^verbatim>\<open>version.go\<close>, \<^verbatim>\<open>signal.go\<close>, \<^verbatim>\<open>config.go\<close>, \<^verbatim>\<open>walletsetup.go\<close>,
  \<^verbatim>\<open>rpcserver.go\<close>, \<^verbatim>\<open>btc-wallet.go\<close>, \<^verbatim>\<open>netparams/params.go\<close>, \<^verbatim>\<open>internal/cfgutil\<close>, \<^verbatim>\<open>internal/prompt\<close>,
  \<^verbatim>\<open>chain/btcd.go\<close> and the service stubs of \<^verbatim>\<open>rpc/rpcserver\<close>. What is printed is left out.
\<close>

section \<open>Version\<close>

definition semanticAlphabet :: gostring where
  "semanticAlphabet = go_string ''0123456789ABCDEFGHIJKLMNOPQRSTUVWXYZabcdefghijklmnopqrstuvwxyz-''"

text \<open>A rune of several bytes has no byte below 128, so none of the alphabet: dropping the rune drops its bytes.\<close>

fun normalizeVerString :: "gostring \<Rightarrow> gostring" where
  "normalizeVerString [] = []"
| "normalizeVerString (r # str) =
     (if r \<in> set semanticAlphabet then r # normalizeVerString str else normalizeVerString str)"

definition appMajor :: nat where "appMajor = 0"
definition appMinor :: nat where "appMinor = 15"
definition appPatch :: nat where "appPatch = 1"
definition appPreRelease :: gostring where "appPreRelease = go_string ''alpha''"

text \<open>\<^verbatim>\<open>appBuild\<close> is set when the program is linked.\<close>

definition version_of :: "gostring \<Rightarrow> gostring \<Rightarrow> gostring" where
  "version_of pre appBuild =
     (let version = go_string (show_nat appMajor @ ''.'' @ show_nat appMinor @ ''.'' @ show_nat appPatch);
          preRelease = normalizeVerString pre;
          version = (if preRelease \<noteq> [] then version @ go_string ''-'' @ preRelease else version);
          build = normalizeVerString appBuild
      in if build \<noteq> [] then version @ go_string ''+'' @ build else version)"

definition app_version :: "gostring \<Rightarrow> gostring" where
  "app_version appBuild = version_of appPreRelease appBuild"

lemma normalizeVerString_eq: "normalizeVerString s = filter (\<lambda>r. r \<in> set semanticAlphabet) s"
  by (induction s) simp_all

lemma normalizeVerString_idem: "normalizeVerString (normalizeVerString s) = normalizeVerString s"
  by (simp add: normalizeVerString_eq)

section \<open>Interrupt handlers\<close>

text \<open>
  \<^verbatim>\<open>signal.go\<close>. A handler is a name; the state is whether the goroutine was started, whether it has
  returned, its list of handlers and the handlers that ran. \<^verbatim>\<open>interruptHandlersDone\<close> is closed when it returns.
\<close>

record signals =
  interruptChannel :: bool
  interruptCallbacks :: "nat list"
  interruptHandlersDone :: bool
  invoked :: "nat list"

definition no_signals :: signals where
  "no_signals = \<lparr>interruptChannel = False, interruptCallbacks = [], interruptHandlersDone = False, invoked = []\<rparr>"

text \<open>The index loop of \<^verbatim>\<open>invokeCallbacks\<close>.\<close>

function invoke_from :: "nat list \<Rightarrow> nat \<Rightarrow> nat list" where
  "invoke_from cbs i =
     (if i < length cbs then (cbs ! (length cbs - 1 - i)) # invoke_from cbs (Suc i) else [])"
  by pat_completeness auto

termination
  by (relation "measure (\<lambda>(cbs, i). length cbs - i)") auto

declare invoke_from.simps [simp del]

definition invokeCallbacks :: "(signals, unit) go" where
  "invokeCallbacks = modify (\<lambda>s. s\<lparr>invoked := invoked s @ invoke_from (interruptCallbacks s) 0, interruptHandlersDone := True\<rparr>)"

text \<open>The goroutine receives a handler, or a signal, after which it is gone.\<close>

definition mainInterruptHandler :: "nat option \<Rightarrow> (signals, unit) go" where
  "mainInterruptHandler received =
     bnd (reads id) (\<lambda>s.
     if \<not> interruptChannel s \<or> interruptHandlersDone s then hang
     else case received of
       Some handler \<Rightarrow> modify (\<lambda>s. s\<lparr>interruptCallbacks := interruptCallbacks s @ [handler]\<rparr>)
     | None \<Rightarrow> invokeCallbacks)"

definition addInterruptHandler :: "nat \<Rightarrow> (signals, unit) go" where
  "addInterruptHandler handler =
     bnd (modify (\<lambda>s. if \<not> interruptChannel s then s\<lparr>interruptChannel := True\<rparr> else s)) (\<lambda>_.
     mainInterruptHandler (Some handler))"

lemma invoke_from_eq: "invoke_from cbs i = drop i (rev cbs)"
proof (induction cbs i rule: invoke_from.induct)
  case (1 cbs i)
  show ?case
  proof (cases "i < length cbs")
    case True
    then have "rev cbs ! i = cbs ! (length cbs - 1 - i)" by (simp add: rev_nth)
    with True 1 show ?thesis by (simp add: invoke_from.simps [of cbs i] Cons_nth_drop_Suc [symmetric])
  qed (simp add: invoke_from.simps)
qed

text \<open>The handlers added before the signal.\<close>

fun add_handlers :: "nat list \<Rightarrow> (signals, unit) go" where
  "add_handlers [] = ret ()"
| "add_handlers (h # hs) = bnd (addInterruptHandler h) (\<lambda>_. add_handlers hs)"

lemma add_handlers_eq:
  "\<not> interruptHandlersDone s \<Longrightarrow> add_handlers hs s = (Ok (), if hs = [] then s else
     s\<lparr>interruptChannel := True, interruptCallbacks := interruptCallbacks s @ hs\<rparr>)"
  by (induction hs arbitrary: s)
    (simp_all add: go_simps bnd_def addInterruptHandler_def mainInterruptHandler_def)

text \<open>C34: on an interrupt every handler that was added runs exactly once, the last added first, and the
  channel that \<^verbatim>\<open>main\<close> waits on is closed; adding a handler afterwards never returns.\<close>

theorem interrupt_handlers_lifo:
  assumes "hs \<noteq> []"
  shows "\<exists>s s'. add_handlers hs no_signals = (Ok (), s) \<and> mainInterruptHandler None s = (Ok (), s')
    \<and> invoked s' = rev hs \<and> interruptHandlersDone s' \<and> fst (addInterruptHandler h s') = Hang"
  using assms
  by (simp add: add_handlers_eq no_signals_def mainInterruptHandler_def invokeCallbacks_def bnd_def go_simps
      invoke_from_eq addInterruptHandler_def)

theorem interrupt_handlers_lifo_witness:
  "\<exists>s s'. add_handlers [1, 2, 3] no_signals = (Ok (), s) \<and> mainInterruptHandler None s = (Ok (), s')
    \<and> invoked s' = [3, 2, 1]"
proof -
  have "rev [1, 2, 3] = [3, 2, 1 :: nat]" by simp
  then show ?thesis using interrupt_handlers_lifo [of "[1, 2, 3]" 4] by (metis list.distinct(1))
qed

section \<open>Configuration\<close>

record config =
  c_ConfigFile :: gostring
  c_ShowVersion :: bool
  c_Create :: bool
  c_CreateTemp :: bool
  c_AppDataDir :: gostring
  c_TestNet3 :: bool
  c_SimNet :: bool
  c_SigNet :: bool
  c_SigNetChallenge :: gostring
  c_SigNetSeedNode :: "gostring list"
  c_NoInitialLoad :: bool
  c_DebugLevel :: gostring
  c_LogDir :: gostring
  c_Profile :: gostring
  c_DBTimeout :: duration
  c_WalletPass :: gostring
  c_RPCConnect :: gostring
  c_CAFile :: gostring
  c_DisableClientTLS :: bool
  c_BtcdUsername :: gostring
  c_BtcdPassword :: gostring
  c_Proxy :: gostring
  c_ProxyUser :: gostring
  c_ProxyPass :: gostring
  c_UseSPV :: bool
  c_AddPeers :: "gostring list"
  c_ConnectPeers :: "gostring list"
  c_MaxPeers :: int
  c_BanDuration :: duration
  c_BanThreshold :: u32
  c_RPCCert :: gostring
  c_RPCKey :: gostring
  c_OneTimeTLSKey :: bool
  c_DisableServerTLS :: bool
  c_LegacyRPCListeners :: "gostring list"
  c_LegacyRPCMaxClients :: int
  c_LegacyRPCMaxWebsockets :: int
  c_Username :: gostring
  c_Password :: gostring
  c_ExperimentalRPCListeners :: "gostring list"
  c_DataDir :: gostring

definition support_dir :: string where
  "support_dir = ''/Users/zhihongcai/Library/Application Support/''"

definition default_config :: config where
  "default_config =
     \<lparr>c_ConfigFile = go_string (support_dir @ ''Btcwallet/btc-wallet.conf''), c_ShowVersion = False, c_Create = False,
      c_CreateTemp = False, c_AppDataDir = go_string (support_dir @ ''Btcwallet''), c_TestNet3 = False,
      c_SimNet = False, c_SigNet = False, c_SigNetChallenge = [], c_SigNetSeedNode = [], c_NoInitialLoad = False,
      c_DebugLevel = go_string ''info'', c_LogDir = go_string (support_dir @ ''Btcwallet/logs/mainnet''),
      c_Profile = [], c_DBTimeout = 60000000000, c_WalletPass = go_string ''public'', c_RPCConnect = [],
      c_CAFile = go_string (support_dir @ ''Btcd/rpc.cert''), c_DisableClientTLS = False, c_BtcdUsername = [],
      c_BtcdPassword = [], c_Proxy = [], c_ProxyUser = [], c_ProxyPass = [], c_UseSPV = False, c_AddPeers = [],
      c_ConnectPeers = [], c_MaxPeers = 125, c_BanDuration = 86400000000000, c_BanThreshold = 100,
      c_RPCCert = go_string (support_dir @ ''Btcwallet/rpc.cert''),
      c_RPCKey = go_string (support_dir @ ''Btcwallet/rpc.key''), c_OneTimeTLSKey = False,
      c_DisableServerTLS = False, c_LegacyRPCListeners = [], c_LegacyRPCMaxClients = 10,
      c_LegacyRPCMaxWebsockets = 25, c_Username = [], c_Password = [], c_ExperimentalRPCListeners = [],
      c_DataDir = go_string (support_dir @ ''Btcwallet'')\<rparr>"

text \<open>
  The libraries the program calls: the rest of \<^verbatim>\<open>os\<close>, \<^verbatim>\<open>go-flags\<close>, \<^verbatim>\<open>crypto/tls\<close>, \<^verbatim>\<open>net\<close>, and the two
  fields of \<^verbatim>\<open>chaincfg.Params\<close>. \<^verbatim>\<open>net.ParseIP\<close> gives whether the address has four bytes. The ini parser
  fills the configuration also when it fails. \<^verbatim>\<open>RegisterService\<close> of a gRPC server is given whether the server
  is serving, the names of its services and the name of the new one.
\<close>

record ('n, 'd, 'cert, 'lis) libs =
  os_OpenFile :: "gostring \<Rightarrow> 'd \<Rightarrow> io_error + bytes"
  os_WriteFile :: "gostring \<Rightarrow> bytes \<Rightarrow> 'd \<Rightarrow> io_error option \<times> 'd"
  os_Remove :: "gostring \<Rightarrow> 'd \<Rightarrow> io_error option \<times> 'd"
  flags_Parse :: "config \<Rightarrow> config result"
  ini_ParseFile :: "gostring \<Rightarrow> 'd \<Rightarrow> config \<Rightarrow> go_error option \<times> config"
  tls_LoadX509KeyPair :: "gostring \<Rightarrow> gostring \<Rightarrow> 'd \<Rightarrow> 'cert result"
  tls_X509KeyPair :: "bytes \<Rightarrow> bytes \<Rightarrow> 'cert result"
  btcutil_NewTLSCertPair :: "string \<Rightarrow> u64 \<Rightarrow> (bytes, bytes \<times> bytes) go"
  net_SplitHostPort :: "gostring \<Rightarrow> (gostring \<times> gostring) result"
  net_ParseIP :: "gostring \<Rightarrow> bool option"
  net_Listen :: "gostring \<Rightarrow> gostring \<Rightarrow> 'd \<Rightarrow> (io_error + 'lis) \<times> 'd"
  grpc_RegisterService :: "bool \<Rightarrow> string list \<Rightarrow> string \<Rightarrow> string list result"
  params_Name :: "'n \<Rightarrow> gostring"
  params_Net :: "'n \<Rightarrow> u32"

text \<open>
  What \<^verbatim>\<open>google.golang.org/grpc\<close> documents: \<^verbatim>\<open>RegisterService\<close> adds a service that is not there yet, and must be called
  before \<^verbatim>\<open>Serve\<close>; afterwards it ends the process with a fatal log entry.
\<close>

locale grpc_server =
  fixes X :: "('n, 'd, 'cert, 'lis) libs"
  assumes registers: "name \<notin> set names \<Longrightarrow> grpc_RegisterService X False names name = Ok (names @ [name])"
    and register_after_serve: "\<exists>msg. grpc_RegisterService X True names name = Err (Fatal msg)"

text \<open>\<^verbatim>\<open>netparams.Params\<close>.\<close>

record 'n netparams =
  np_Params :: 'n
  RPCClientPort :: gostring
  RPCServerPort :: gostring

definition MainNetParams :: "'n \<Rightarrow> 'n netparams" where
  "MainNetParams main = \<lparr>np_Params = main, RPCClientPort = go_string ''8334'', RPCServerPort = go_string ''8332''\<rparr>"

definition TestNetParams :: "'n \<Rightarrow> 'n netparams" where
  "TestNetParams test3 = \<lparr>np_Params = test3, RPCClientPort = go_string ''18334'', RPCServerPort = go_string ''18332''\<rparr>"

definition activeNet :: "'n \<Rightarrow> 'n netparams" where
  "activeNet main = MainNetParams main"

text \<open>\<^verbatim>\<open>wire.TestNet3\<close>.\<close>

definition TestNet3 :: u32 where "TestNet3 = 0x0709110b"

section \<open>Setting up a wallet\<close>

definition networkDir :: "('n, 'd, 'cert, 'lis) libs \<Rightarrow> gostring \<Rightarrow> 'n \<Rightarrow> gostring" where
  "networkDir X dataDir params =
     (let netname = (if params_Net X params = TestNet3 then go_string ''testnet'' else params_Name X params)
      in filepath_Join [dataDir, netname])"

definition cfgutil_FileExists :: "('k, 'n, 'd, 'h, 's) sys \<Rightarrow> gostring \<Rightarrow> (('d, 'z) proc_scheme, bool) go" where
  "cfgutil_FileExists S path =
     bnd (reads (\<lambda>w. os_Stat S path (disk w))) (\<lambda>fi. case fi of
       Inl err \<Rightarrow> if err = OsNotExist then ret False else raise (IoError err)
     | Inr _ \<Rightarrow> ret True)"

text \<open>\<^verbatim>\<open>internal/prompt\<close> asks nothing: the passphrases are constants.\<close>

definition PrivatePass :: bytes where "PrivatePass = go_string ''abc123''"
definition PublicPass :: bytes where "PublicPass = go_string ''public''"

definition prompt_Seed :: "('k, 'n, 'd, 'h, 's) sys \<Rightarrow> (('d, 'z) proc_scheme, bytes) go" where
  "prompt_Seed S = zoom entropy (\<lambda>r w. w\<lparr>entropy := r\<rparr>) (hd_GenerateSeed S RecommendedSeedLen)"

text \<open>A loader that only lives in one call.\<close>

definition with_loader ::
  "('k, 'pk, 'a, 'n, 'd, 'h, 's) Loader \<Rightarrow> (('k, 'pk, 'a, 'n, 'd, 'h, 's) app, 'x) go \<Rightarrow> ('d proc, 'x) go" where
  "with_loader l m = (\<lambda>w. case m \<lparr>disk = disk w, entropy = entropy w, ldr = l, called = []\<rparr> of
      (r, W) \<Rightarrow> (r, \<lparr>disk = disk W, entropy = entropy W\<rparr>))"

text \<open>\<^verbatim>\<open>w.Manager.Close()\<close>.\<close>

definition close_manager :: "('h, 'k, 'pk, 'a, 'n) Wallet \<Rightarrow> ('h, 'k, 'pk, 'a, 'n) Wallet" where
  "close_manager w = w\<lparr>w_Manager := (w_Manager w)\<lparr>closed := True\<rparr>\<rparr>"

text \<open>
  The errors of the prompts are dropped: without a seed the wallet makes its own. The time of the call is
  the birthday. \<open>main\<close> is the network of \<^verbatim>\<open>activeNet\<close>.
\<close>

definition createWallet ::
  "('k, 'sk, 'pk, 'a, 'n, 's) env \<Rightarrow> ('k, 'n, 'd, 'h, 's) sys \<Rightarrow> ('n, 'd, 'cert, 'lis) libs \<Rightarrow> 'n \<Rightarrow> config
   \<Rightarrow> (KeyScope \<times> ScopeAddrSchema) list \<Rightarrow> u64 \<Rightarrow> ('d proc, unit) go" where
  "createWallet E S X main conf order now =
     (let params = np_Params (activeNet main);
          netDir = networkDir X (c_AppDataDir conf) params;
          loader = NewLoader (Some params) netDir True (c_DBTimeout conf) 250;
          keystorePath = filepath_Join [netDir, go_string ''wallet.bin'']
      in
      bnd (reads disk) (\<lambda>d.
      bnd (case os_Stat S keystorePath d of
             Inl err \<Rightarrow> if err \<noteq> OsNotExist then raise (IoError err) else ret ()
           | Inr _ \<Rightarrow> bnd (lift (OpenDir (\<lambda>p. os_OpenFile X p d) netDir :: ('n, 'a, 'd) keystore_Store result)) (\<lambda>_. ret ())) (\<lambda>_.
      bnd (attempt (prompt_Seed S)) (\<lambda>seed.
      bnd (with_loader (loader :: ('k, 'pk, 'a, 'n, 'd, 'h, 's) Loader)
             (CreateNewWallet E S PublicPass PrivatePass (case seed of Inl _ \<Rightarrow> None | Inr s \<Rightarrow> Some s) now order now))
        (\<lambda>w. let w = close_manager w in ret ())))))"

text \<open>\<^verbatim>\<open>os.Exit(0)\<close> ends the process: \<open>None\<close>.\<close>

definition loadConfig ::
  "('k, 'sk, 'pk, 'a, 'n, 's) env \<Rightarrow> ('k, 'n, 'd, 'h, 's) sys \<Rightarrow> ('n, 'd, 'cert, 'lis) libs \<Rightarrow> 'n
   \<Rightarrow> (KeyScope \<times> ScopeAddrSchema) list \<Rightarrow> u64 \<Rightarrow> ('d proc, config option) go" where
  "loadConfig E S X main order now =
     bnd (lift (flags_Parse X default_config)) (\<lambda>preCfg.
     bnd (reads disk) (\<lambda>d.
     let (iniErr, conf) = ini_ParseFile X (c_ConfigFile preCfg) d default_config in
     bnd (lift (flags_Parse X conf)) (\<lambda>conf.
     let netDir = networkDir X (c_AppDataDir conf) (np_Params (activeNet main));
         dbPath = filepath_Join [netDir, go_string ''wallet.db'']
     in
     bnd (cfgutil_FileExists S dbPath) (\<lambda>dbFileExists.
     if c_Create conf then
       (if dbFileExists then raise (Errorf ''the wallet database file already exists'')
        else bnd (CheckCreateDir S netDir) (\<lambda>_.
             bnd (createWallet E S X main conf order now) (\<lambda>_. ret None)))
     else if \<not> dbFileExists \<and> \<not> c_NoInitialLoad conf then
       bnd (cfgutil_FileExists S (filepath_Join [netDir, go_string ''wallet.bin''])) (\<lambda>keystoreExists.
       if \<not> keystoreExists
       then raise (Errorf ''the wallet does not exist, run with --create option to initialize and create it'')
       else raise (Errorf ''the wallet is in legacy format, run with --create option to import it''))
     else ret (Some conf)))))"

section \<open>The RPC server\<close>

text \<open>\<^verbatim>\<open>strings.Index(host, "%")\<close> and the slice before it.\<close>

definition strip_zone :: "gostring \<Rightarrow> gostring" where
  "strip_zone host = takeWhile (\<lambda>b. b \<noteq> 37) host"

text \<open>The first loop of \<^verbatim>\<open>makeListeners\<close>: the addresses for \<^verbatim>\<open>tcp4\<close> and \<^verbatim>\<open>tcp6\<close>. \<open>plan9\<close> is \<^verbatim>\<open>runtime.GOOS == "plan9"\<close>.\<close>

fun listen_addrs ::
  "('n, 'd, 'cert, 'lis) libs \<Rightarrow> bool \<Rightarrow> gostring list \<Rightarrow> gostring list \<times> gostring list
   \<Rightarrow> gostring list \<times> gostring list" where
  "listen_addrs X plan9 [] (v4, v6) = (v4, v6)"
| "listen_addrs X plan9 (addr # addrs) (v4, v6) = (case net_SplitHostPort X addr of
      Ok (host, _) \<Rightarrow>
        if host = [] \<or> host = go_string ''*'' \<and> plan9 then listen_addrs X plan9 addrs (v4 @ [addr], v6 @ [addr])
        else (case net_ParseIP X (strip_zone host) of
            None \<Rightarrow> listen_addrs X plan9 addrs (v4, v6)
          | Some is4 \<Rightarrow> if \<not> is4 then listen_addrs X plan9 addrs (v4, v6 @ [addr])
              else listen_addrs X plan9 addrs (v4 @ [addr], v6))
    | _ \<Rightarrow> listen_addrs X plan9 addrs (v4, v6))"

text \<open>The other loops: an address that cannot be listened on is skipped.\<close>

fun listen_all ::
  "('n, 'd, 'cert, 'lis) libs \<Rightarrow> gostring \<Rightarrow> gostring list \<Rightarrow> (('d, 'z) proc_scheme, 'lis list) go" where
  "listen_all X net [] = ret []"
| "listen_all X net (addr # addrs) = (\<lambda>w. case net_Listen X net addr (disk w) of
      (Inl err, d) \<Rightarrow> listen_all X net addrs (w\<lparr>disk := d\<rparr>)
    | (Inr listener, d) \<Rightarrow> bnd (listen_all X net addrs) (\<lambda>ls. ret (listener # ls)) (w\<lparr>disk := d\<rparr>))"

definition makeListeners ::
  "('n, 'd, 'cert, 'lis) libs \<Rightarrow> bool \<Rightarrow> gostring list \<Rightarrow> (('d, 'z) proc_scheme, 'lis list) go" where
  "makeListeners X plan9 addrs =
     (let (v4, v6) = listen_addrs X plan9 addrs ([], []) in
      bnd (listen_all X (go_string ''tcp4'') v4) (\<lambda>l4.
      bnd (listen_all X (go_string ''tcp6'') v6) (\<lambda>l6.
      ret (l4 @ l6))))"

definition WriteFile :: "('n, 'd, 'cert, 'lis) libs \<Rightarrow> gostring \<Rightarrow> bytes \<Rightarrow> (('d, 'z) proc_scheme, unit) go" where
  "WriteFile X path contents = (\<lambda>w. case os_WriteFile X path contents (disk w) of
      (None, d) \<Rightarrow> (Ok (), w\<lparr>disk := d\<rparr>)
    | (Some e, d) \<Rightarrow> (Err (IoError e), w\<lparr>disk := d\<rparr>))"

definition Remove :: "('n, 'd, 'cert, 'lis) libs \<Rightarrow> gostring \<Rightarrow> (('d, 'z) proc_scheme, unit) go" where
  "Remove X path = (\<lambda>w. case os_Remove X path (disk w) of
      (None, d) \<Rightarrow> (Ok (), w\<lparr>disk := d\<rparr>)
    | (Some e, d) \<Rightarrow> (Err (IoError e), w\<lparr>disk := d\<rparr>))"

text \<open>The directory of \<^verbatim>\<open>filepath.Split\<close>: everything up to the last separator.\<close>

definition split_dir :: "gostring \<Rightarrow> gostring" where
  "split_dir path = rev (dropWhile (\<lambda>b. b \<noteq> slash) (rev path))"

definition ten_years :: u64 where "ten_years = 10 * 365 * 24 * 60 * 60"

definition generateRPCKeyPair ::
  "('k, 'n, 'd, 'h, 's) sys \<Rightarrow> ('n, 'd, 'cert, 'lis) libs \<Rightarrow> config \<Rightarrow> u64 \<Rightarrow> bool
   \<Rightarrow> (('d, 'z) proc_scheme, 'cert) go" where
  "generateRPCKeyPair S X conf now writeKey =
     bnd (MkdirAll S (split_dir (c_RPCCert conf))) (\<lambda>_.
     bnd (MkdirAll S (split_dir (c_RPCKey conf))) (\<lambda>_.
     bnd (zoom entropy (\<lambda>r w. w\<lparr>entropy := r\<rparr>)
            (btcutil_NewTLSCertPair X ''btc-wallet autogenerated cert'' (now + ten_years))) (\<lambda>(cert, key).
     bnd (lift (tls_X509KeyPair X cert key)) (\<lambda>keyPair.
     bnd (WriteFile X (c_RPCCert conf) cert) (\<lambda>_.
     bnd (if writeKey
          then catch_err (WriteFile X (c_RPCKey conf) key) (\<lambda>err.
                 bnd (attempt (Remove X (c_RPCKey conf))) (\<lambda>_. raise err))
          else ret ()) (\<lambda>_.
     ret keyPair))))))"

definition openRPCKeyPair ::
  "('k, 'n, 'd, 'h, 's) sys \<Rightarrow> ('n, 'd, 'cert, 'lis) libs \<Rightarrow> config \<Rightarrow> u64
   \<Rightarrow> (('d, 'z) proc_scheme, 'cert) go" where
  "openRPCKeyPair S X conf now =
     bnd (reads (\<lambda>w. os_Stat S (c_RPCKey conf) (disk w))) (\<lambda>fi.
     let keyExists = (fi \<noteq> Inl OsNotExist) in
     if c_OneTimeTLSKey conf \<and> keyExists
     then raise (Errorf ''one time TLS keys are enabled, but TLS key already exists'')
     else if c_OneTimeTLSKey conf then generateRPCKeyPair S X conf now False
     else if \<not> keyExists then generateRPCKeyPair S X conf now True
     else bnd (reads disk) (\<lambda>d. lift (tls_LoadX509KeyPair X (c_RPCCert conf) (c_RPCKey conf) d)))"

text \<open>
  A gRPC server: its certificate, its listeners, the names of its services, and whether one of the goroutines that call
  \<^verbatim>\<open>Serve\<close> has done so. These are started by \<^verbatim>\<open>startRPCServers\<close>, one for each listener, and run when they are scheduled.
\<close>

record ('cert, 'lis) server =
  sv_cert :: 'cert
  sv_listeners :: "'lis list"
  sv_services :: "string list"
  sv_serving :: bool

definition grpc_NewServer :: "'cert \<Rightarrow> ('cert, 'lis) server" where
  "grpc_NewServer cert = \<lparr>sv_cert = cert, sv_listeners = [], sv_services = [], sv_serving = False\<rparr>"

definition register_service ::
  "('n, 'd, 'cert, 'lis) libs \<Rightarrow> string \<Rightarrow> ('cert, 'lis) server \<Rightarrow> ('cert, 'lis) server result" where
  "register_service X name sv =
     rbind (grpc_RegisterService X (sv_serving sv) (sv_services sv) name) (\<lambda>names. Ok (sv\<lparr>sv_services := names\<rparr>))"

definition StartWalletLoaderService ::
  "('n, 'd, 'cert, 'lis) libs \<Rightarrow> ('cert, 'lis) server \<Rightarrow> ('cert, 'lis) server result" where
  "StartWalletLoaderService X sv = register_service X ''walletrpc.WalletLoaderService'' sv"

definition StartWalletService ::
  "('n, 'd, 'cert, 'lis) libs \<Rightarrow> ('cert, 'lis) server \<Rightarrow> ('cert, 'lis) server result" where
  "StartWalletService X sv = register_service X ''walletrpc.WalletService'' sv"

definition startWalletRPCServices ::
  "('n, 'd, 'cert, 'lis) libs \<Rightarrow> ('cert, 'lis) server option \<Rightarrow> ('cert, 'lis) server option result" where
  "startWalletRPCServices X server = (case server of
      None \<Rightarrow> Ok None
    | Some sv \<Rightarrow> rbind (StartWalletService X sv) (\<lambda>sv. Ok (Some sv)))"

definition startRPCServers ::
  "('k, 'n, 'd, 'h, 's) sys \<Rightarrow> ('n, 'd, 'cert, 'lis) libs \<Rightarrow> bool \<Rightarrow> config \<Rightarrow> u64
   \<Rightarrow> (('d, 'z) proc_scheme, ('cert, 'lis) server option) go" where
  "startRPCServers S X plan9 conf now =
     (if c_DisableServerTLS conf then raise (Errorf ''Server TLS disabled. Only legacy RPC may be used'')
      else
        bnd (openRPCKeyPair S X conf now) (\<lambda>keyPair.
        if c_ExperimentalRPCListeners conf \<noteq> [] then
          bnd (makeListeners X plan9 (c_ExperimentalRPCListeners conf)) (\<lambda>listeners.
          if listeners = [] then raise (Errorf ''failed to create listeners for RPC server'')
          else bnd (lift (StartWalletLoaderService X (grpc_NewServer keyPair))) (\<lambda>sv.
            ret (Some (sv\<lparr>sv_listeners := listeners\<rparr>))))
        else ret None))"

text \<open>The services themselves (\<^verbatim>\<open>rpc/rpcserver/server.go\<close>).\<close>

definition loaderServer_CreateWallet :: "'x result" where
  "loaderServer_CreateWallet = Err (Errorf ''CreateWallet is not implemented yet'')"

definition loaderServer_OpenWallet :: "'x result" where
  "loaderServer_OpenWallet = Err (Errorf ''OpenWallet is not implemented yet'')"

definition loaderServer_WalletExists :: "'x result" where
  "loaderServer_WalletExists = Err (Errorf ''WalletExists is not implemented yet'')"

section \<open>The chain client\<close>

text \<open>\<^verbatim>\<open>chain/btcd.go\<close>: \<open>rpcNew\<close> is \<^verbatim>\<open>rpcclient.New\<close>, given the configuration of the connection.\<close>

record ConnConfig =
  Host :: gostring
  Endpoint :: gostring
  User :: gostring
  Pass :: gostring
  Certificates :: bytes
  DisableAutoReconnect :: bool
  DisableConnectOnNew :: bool
  DisableTLS :: bool

record ('n, 'c) RPCClient =
  rc_Client :: 'c
  rc_connConfig :: ConnConfig
  rc_chainParams :: "'n option"

definition NewRPCClient ::
  "(ConnConfig \<Rightarrow> 'c result) \<Rightarrow> 'n option \<Rightarrow> gostring \<Rightarrow> gostring \<Rightarrow> gostring \<Rightarrow> bytes \<Rightarrow> bool \<Rightarrow> int
   \<Rightarrow> ('n, 'c) RPCClient result" where
  "NewRPCClient rpcNew params connect user pass certs disableTLS reconnectAttempts =
     (if reconnectAttempts \<le> 0 then Err (Errorf ''reconnectAttempts must be a positive'')
      else
        let conn = \<lparr>Host = connect, Endpoint = go_string ''ws'', User = user, Pass = pass, Certificates = certs,
          DisableAutoReconnect = False, DisableConnectOnNew = True, DisableTLS = disableTLS\<rparr>
        in rbind (rpcNew conn) (\<lambda>c. Ok \<lparr>rc_Client = c, rc_connConfig = conn, rc_chainParams = params\<rparr>))"

section \<open>The main function\<close>

text \<open>
  \<^verbatim>\<open>walletMain\<close>, with the interrupt that ends it. The callback of \<^verbatim>\<open>RunAfterLoad\<close> is named 0; the interrupt
  handler unloads the wallet and drops the error. \<open>served\<close> is the schedule of the goroutines that serve: whether one of
  them has called \<^verbatim>\<open>Serve\<close> when the callback registers the wallet's service.
\<close>

definition main_handler ::
  "('k, 'n, 'd, 'h, 's) sys \<Rightarrow> (('k, 'pk, 'a, 'n, 'd, 'h, 's) app, unit) go" where
  "main_handler S = bnd (attempt (UnloadWallet S)) (\<lambda>_. ret ())"

definition serve_scheduled :: "bool \<Rightarrow> ('cert, 'lis) server \<Rightarrow> ('cert, 'lis) server" where
  "serve_scheduled served sv = sv\<lparr>sv_serving := served \<and> sv_listeners sv \<noteq> []\<rparr>"

definition main_callback ::
  "('n, 'd, 'cert, 'lis) libs \<Rightarrow> bool \<Rightarrow> ('cert, 'lis) server option \<Rightarrow> nat
   \<Rightarrow> (('k, 'pk, 'a, 'n, 'd, 'h, 's) app, unit) go" where
  "main_callback X served rpcs fn =
     (if fn = 0 then bnd (lift (startWalletRPCServices X (map_option (serve_scheduled served) rpcs))) (\<lambda>_. ret ())
      else ret ())"

text \<open>
  The loader records the callbacks it calls; they run here, as the last part of \<^verbatim>\<open>OpenExistingWallet\<close>, whose
  \<^verbatim>\<open>onLoaded\<close> calls them when nothing can fail any more.
\<close>

definition main_loaded ::
  "('k, 'sk, 'pk, 'a, 'n, 's) env \<Rightarrow> ('k, 'n, 'd, 'h, 's) sys \<Rightarrow> ('n, 'd, 'cert, 'lis) libs \<Rightarrow> bool \<Rightarrow> bool \<Rightarrow> config
   \<Rightarrow> u64 \<Rightarrow> (('k, 'pk, 'a, 'n, 'd, 'h, 's) app, unit) go" where
  "main_loaded E S X plan9 served conf now =
     bnd (startRPCServers S X plan9 conf now) (\<lambda>rpcs.
     bnd (RunAfterLoad 0) (\<lambda>_.
     bnd (if \<not> c_NoInitialLoad conf then bnd (OpenExistingWallet E S (c_WalletPass conf)) (\<lambda>_. ret ()) else ret ()) (\<lambda>_.
     bnd (reads called) (\<lambda>fns.
     bnd (for_each (main_callback X served rpcs) fns) (\<lambda>_.
     main_handler S)))))"

definition walletMain ::
  "('k, 'sk, 'pk, 'a, 'n, 's) env \<Rightarrow> ('k, 'n, 'd, 'h, 's) sys \<Rightarrow> ('n, 'd, 'cert, 'lis) libs \<Rightarrow> bool \<Rightarrow> bool \<Rightarrow> 'n
   \<Rightarrow> (KeyScope \<times> ScopeAddrSchema) list \<Rightarrow> u64 \<Rightarrow> ('d proc, unit) go" where
  "walletMain E S X plan9 served main order now =
     bnd (loadConfig E S X main order now) (\<lambda>tcfg. case tcfg of
       None \<Rightarrow> ret ()
     | Some conf \<Rightarrow>
         let params = np_Params (activeNet main) in
         with_loader (NewLoader (Some params) (networkDir X (c_AppDataDir conf) params) True (c_DBTimeout conf) 250
             :: ('k, 'pk, 'a, 'n, 'd, 'h, 's) Loader)
           (main_loaded E S X plan9 served conf now))"

text \<open>
  \<^verbatim>\<open>main\<close>: the status with which the process ends, if it does; a panic is status 2, and a process that a library ended
  has status 1 as well.
\<close>

definition exit_status :: "'a result \<Rightarrow> nat option" where
  "exit_status r = (case r of Ok _ \<Rightarrow> Some 0 | Err _ \<Rightarrow> Some 1 | Panic \<Rightarrow> Some 2 | Hang \<Rightarrow> None)"

definition program_main ::
  "('k, 'sk, 'pk, 'a, 'n, 's) env \<Rightarrow> ('k, 'n, 'd, 'h, 's) sys \<Rightarrow> ('n, 'd, 'cert, 'lis) libs \<Rightarrow> bool \<Rightarrow> bool \<Rightarrow> 'n
   \<Rightarrow> (KeyScope \<times> ScopeAddrSchema) list \<Rightarrow> u64 \<Rightarrow> 'd proc \<Rightarrow> nat option" where
  "program_main E S X plan9 served main order now w = exit_status (fst (walletMain E S X plan9 served main order now w))"

section \<open>Properties\<close>

text \<open>The addresses that ask for an IPv4 and for an IPv6 listener.\<close>

definition wants :: "('n, 'd, 'cert, 'lis) libs \<Rightarrow> bool \<Rightarrow> bool \<Rightarrow> gostring \<Rightarrow> bool" where
  "wants X plan9 is4 addr = (case net_SplitHostPort X addr of
      Ok (host, _) \<Rightarrow> host = [] \<or> host = go_string ''*'' \<and> plan9 \<or> net_ParseIP X (strip_zone host) = Some is4
    | _ \<Rightarrow> False)"

lemma listen_addrs_wildcard:
  "wants X plan9 True addr \<and> wants X plan9 False addr \<longleftrightarrow>
    (\<exists>host port. net_SplitHostPort X addr = Ok (host, port) \<and> (host = [] \<or> host = go_string ''*'' \<and> plan9))"
  by (auto simp: wants_def split: res.splits)

lemma listen_addrs_eq:
  "listen_addrs X plan9 addrs (v4, v6)
     = (v4 @ filter (wants X plan9 True) addrs, v6 @ filter (wants X plan9 False) addrs)"
proof (induction addrs arbitrary: v4 v6)
  case (Cons addr addrs)
  consider h p where "net_SplitHostPort X addr = Ok (h, p)" "h = [] \<or> h = go_string ''*'' \<and> plan9"
    | h p where "net_SplitHostPort X addr = Ok (h, p)" "\<not> (h = [] \<or> h = go_string ''*'' \<and> plan9)"
    | "\<not> is_Ok (net_SplitHostPort X addr)"
    by (cases "net_SplitHostPort X addr") auto
  then show ?case
  proof cases
    case 1
    then show ?thesis by (auto simp: Cons.IH wants_def)
  next
    case 2
    then show ?thesis by (auto simp: Cons.IH wants_def split: option.split)
  next
    case 3
    then show ?thesis by (cases "net_SplitHostPort X addr") (simp_all add: Cons.IH wants_def)
  qed
qed simp

lemma cfgutil_FileExists_state: "snd (cfgutil_FileExists S p w) = w"
  by (simp add: cfgutil_FileExists_def bnd_reads go_simps split: sum.split)

text \<open>What the command line and the configuration file decide. With \<^verbatim>\<open>--create\<close> an existing database is
  refused; without it an existing database, or \<^verbatim>\<open>--noinitialload\<close>, lets the program go on with the
  parsed configuration and everything as it was; otherwise the wallet is reported missing.\<close>

lemma config_decisions:
  assumes "flags_Parse X default_config = Ok pre"
    and "ini_ParseFile X (c_ConfigFile pre) (disk w) default_config = (iniErr, fileConf)"
    and "flags_Parse X fileConf = Ok conf"
    and "p = filepath_Join [networkDir X (c_AppDataDir conf) main, go_string ''wallet.db'']"
    and "fst (cfgutil_FileExists S p w) = Ok present"
  shows "(c_Create conf \<and> present \<longrightarrow>
      loadConfig E S X main order now w = (Err (Errorf ''the wallet database file already exists''), w))
    \<and> (\<not> c_Create conf \<and> (present \<or> c_NoInitialLoad conf) \<longrightarrow>
      loadConfig E S X main order now w = (Ok (Some conf), w))
    \<and> (\<not> c_Create conf \<and> \<not> present \<and> \<not> c_NoInitialLoad conf \<longrightarrow>
      \<not> is_Ok (fst (loadConfig E S X main order now w)) \<and> snd (loadConfig E S X main order now w) = w)"
proof -
  have exists: "cfgutil_FileExists S p w = (Ok present, w)"
    using assms(5) cfgutil_FileExists_state [of S p w] by (cases "cfgutil_FileExists S p w") simp
  let ?q = "filepath_Join [networkDir X (c_AppDataDir conf) main, go_string ''wallet.bin'']"
  obtain r where legacy: "cfgutil_FileExists S ?q w = (r, w)"
    using cfgutil_FileExists_state [of S ?q w] by (cases "cfgutil_FileExists S ?q w") simp
  show ?thesis
    using assms(1-3) exists [unfolded assms(4)] legacy
    by (cases r) (auto simp: loadConfig_def Let_def bnd_def go_simps activeNet_def MainNetParams_def)
qed

text \<open>The reference libraries: no flags, a file system that can be written, and no network.\<close>

definition ref_libs :: "(nat, mem_disk, nat, nat) libs" where
  "ref_libs =
     \<lparr>os_OpenFile = (\<lambda>p d. case mem_stat p d of Inl e \<Rightarrow> Inl e | Inr _ \<Rightarrow> Inr []),
      os_WriteFile = (\<lambda>p b d. (None, ((p, []) # fst d, snd d))),
      os_Remove = (\<lambda>p d. (None, d)),
      flags_Parse = Ok, ini_ParseFile = (\<lambda>p d c. (Some (IoError OsNotExist), c)),
      tls_LoadX509KeyPair = (\<lambda>c k d. Ok 0), tls_X509KeyPair = (\<lambda>c k. Ok 0),
      btcutil_NewTLSCertPair = (\<lambda>org t. ret ([], [])),
      net_SplitHostPort = (\<lambda>a. Ok (a, [])), net_ParseIP = (\<lambda>h. Some True),
      net_Listen = (\<lambda>n a d. (Inr 0, d)),
      grpc_RegisterService = (\<lambda>serving names name.
        if serving \<or> name \<in> set names then Err (Fatal ''RegisterService'') else Ok (names @ [name])),
      params_Name = (\<lambda>n. go_string ''mainnet''), params_Net = (\<lambda>n. 0)\<rparr>"

definition ref_proc :: "mem_disk proc" where
  "ref_proc = \<lparr>disk = ([], []), entropy = replicate 40 1\<rparr>"

lemma config_decisions_example:
  "\<not> is_Ok (fst (loadConfig example_hd ref_sys ref_libs 0 [] 0 ref_proc))"
proof -
  let ?p = "filepath_Join [networkDir ref_libs (c_AppDataDir default_config) 0, go_string ''wallet.db'']"
  have "flags_Parse ref_libs default_config = Ok default_config"
      "ini_ParseFile ref_libs (c_ConfigFile default_config) (disk ref_proc) default_config = (Some (IoError OsNotExist), default_config)"
      "\<not> c_Create default_config" "\<not> c_NoInitialLoad default_config"
    by (simp_all add: ref_libs_def default_config_def)
  moreover have "fst (cfgutil_FileExists ref_sys ?p ref_proc) = Ok False"
    by (simp add: cfgutil_FileExists_def bnd_reads ref_sys_def mem_stat_def ref_proc_def go_simps)
  ultimately show ?thesis using config_decisions [where main = 0 and p = ?p] by blast
qed

text \<open>A legacy key store cannot be imported: when its file is there, creating a wallet fails and leaves the
  disk alone, although the error for a missing wallet says to run with \<^verbatim>\<open>--create\<close> to import it.\<close>

lemma legacy_import_fails:
  assumes "os_Stat S (filepath_Join [networkDir X (c_AppDataDir conf) main, go_string ''wallet.bin'']) (disk w) = Inr isDir"
  shows "\<exists>err. createWallet E S X main conf order now w = (Err err, w)"
  using assms
  by (cases "os_OpenFile X (filepath_Join [networkDir X (c_AppDataDir conf) main, Filename]) (disk w)")
    (simp_all add: createWallet_def Let_def bnd_def go_simps activeNet_def MainNetParams_def OpenDir_fails)

definition legacy_proc :: "mem_disk proc" where
  "legacy_proc = ref_proc\<lparr>disk := ([(filepath_Join [networkDir ref_libs (c_AppDataDir default_config) 0, go_string ''wallet.bin''], [])], [])\<rparr>"

lemma legacy_import_fails_example:
  "\<exists>err. createWallet example_hd ref_sys ref_libs 0 default_config [] 0 legacy_proc = (Err err, legacy_proc)"
  by (rule legacy_import_fails [of ref_sys ref_libs default_config 0 legacy_proc False])
    (simp add: legacy_proc_def ref_sys_def mem_stat_def)

lemma listen_all_Ok: "\<exists>ls v'. listen_all X net as v = (Ok ls, v') \<and> length ls \<le> length as"
proof (induction "as" arbitrary: v)
  case (Cons a "as")
  obtain r d where l: "net_Listen X net a (disk v) = (r, d)" by fastforce
  obtain ls v' where "listen_all X net as (v\<lparr>disk := d\<rparr>) = (Ok ls, v')" "length ls \<le> length as"
    using Cons.IH by blast
  then show ?case by (cases r) (simp_all add: l bnd_def go_simps)
qed (simp add: go_simps)

lemma makeListeners_eq:
  "makeListeners X plan9 addrs w =
     bnd (listen_all X (go_string ''tcp4'') (filter (wants X plan9 True) addrs)) (\<lambda>l4.
     bnd (listen_all X (go_string ''tcp6'') (filter (wants X plan9 False) addrs)) (\<lambda>l6. ret (l4 @ l6))) w"
  by (simp add: makeListeners_def listen_addrs_eq)

lemma makeListeners_Ok: "\<exists>ls w'. makeListeners X plan9 addrs w = (Ok ls, w') \<and> length ls \<le> 2 * length addrs"
proof -
  obtain l4 w1 where l4: "listen_all X (go_string ''tcp4'') (filter (wants X plan9 True) addrs) w = (Ok l4, w1)"
      "length l4 \<le> length (filter (wants X plan9 True) addrs)" using listen_all_Ok by blast
  obtain l6 w2 where l6: "listen_all X (go_string ''tcp6'') (filter (wants X plan9 False) addrs) w1 = (Ok l6, w2)"
      "length l6 \<le> length (filter (wants X plan9 False) addrs)" using listen_all_Ok by blast
  have "length l4 \<le> length addrs" "length l6 \<le> length addrs"
    using l4(2) l6(2) length_filter_le order_trans by blast+
  then show ?thesis using l4(1) l6(1) by (simp add: makeListeners_eq bnd_Ok [of _ w] bnd_Ok [of _ w1] ret_simps)
qed

text \<open>A server that was started has its certificate, a listener, and the loader's service.\<close>

lemma startRPCServers_Some:
  assumes "startRPCServers S X plan9 conf now w = (Ok (Some sv), w')"
  shows "\<exists>cert names listeners. sv = \<lparr>sv_cert = cert, sv_listeners = listeners, sv_services = names, sv_serving = False\<rparr>
    \<and> listeners \<noteq> [] \<and> length listeners \<le> 2 * length (c_ExperimentalRPCListeners conf)
    \<and> grpc_RegisterService X False [] ''walletrpc.WalletLoaderService'' = Ok names"
proof -
  from assms obtain cert w1 listeners names where "makeListeners X plan9 (c_ExperimentalRPCListeners conf) w1 = (Ok listeners, w')"
      "sv = \<lparr>sv_cert = cert, sv_listeners = listeners, sv_services = names, sv_serving = False\<rparr>" "listeners \<noteq> []"
      "grpc_RegisterService X False [] ''walletrpc.WalletLoaderService'' = Ok names"
    by (auto simp: startRPCServers_def bnd_eq_Ok raise_simps lift_simps ret_simps StartWalletLoaderService_def
      register_service_def grpc_NewServer_def rbind_eq_Ok split: if_splits)
  with makeListeners_Ok [of X plan9 "c_ExperimentalRPCListeners conf" w1] show ?thesis by auto
qed

text \<open>C33: the addresses the server listens on are those of the list that can be parsed, in their order: first
  the IPv4 ones on \<^verbatim>\<open>tcp4\<close>, then the IPv6 ones on \<^verbatim>\<open>tcp6\<close>, an address without a host on both. A server that
  is started has a listener, at most two for each address that was configured; when none of them can be
  listened on, the start fails.\<close>

theorem listeners_by_family:
  "makeListeners X plan9 addrs w =
     bnd (listen_all X (go_string ''tcp4'') (filter (wants X plan9 True) addrs)) (\<lambda>l4.
     bnd (listen_all X (go_string ''tcp6'') (filter (wants X plan9 False) addrs)) (\<lambda>l6. ret (l4 @ l6))) w
   \<and> (\<exists>ls w'. makeListeners X plan9 addrs w = (Ok ls, w') \<and> length ls \<le> 2 * length addrs)
   \<and> (startRPCServers S X plan9 conf now v = (Ok (Some sv), v1) \<longrightarrow>
        sv_listeners sv \<noteq> [] \<and> length (sv_listeners sv) \<le> 2 * length (c_ExperimentalRPCListeners conf))
   \<and> (\<not> c_DisableServerTLS conf \<and> c_ExperimentalRPCListeners conf \<noteq> []
        \<and> openRPCKeyPair S X conf now v = (Ok keyPair, v2)
        \<and> makeListeners X plan9 (c_ExperimentalRPCListeners conf) v2 = (Ok [], v3) \<longrightarrow>
      startRPCServers S X plan9 conf now v = (Err (Errorf ''failed to create listeners for RPC server''), v3))"
proof (intro conjI)
  show "startRPCServers S X plan9 conf now v = (Ok (Some sv), v1) \<longrightarrow>
        sv_listeners sv \<noteq> [] \<and> length (sv_listeners sv) \<le> 2 * length (c_ExperimentalRPCListeners conf)"
    using startRPCServers_Some [of S X plan9 conf now v sv v1] by auto
  show "\<not> c_DisableServerTLS conf \<and> c_ExperimentalRPCListeners conf \<noteq> []
        \<and> openRPCKeyPair S X conf now v = (Ok keyPair, v2)
        \<and> makeListeners X plan9 (c_ExperimentalRPCListeners conf) v2 = (Ok [], v3) \<longrightarrow>
      startRPCServers S X plan9 conf now v = (Err (Errorf ''failed to create listeners for RPC server''), v3)"
    by (simp add: startRPCServers_def bnd_def raise_simps)
qed (rule makeListeners_eq makeListeners_Ok)+

definition deaf_libs :: "(nat, mem_disk, nat, nat) libs" where
  "deaf_libs = ref_libs\<lparr>net_Listen := \<lambda>n a d. (Inl (OsOther 13), d)\<rparr>"

definition listening :: config where
  "listening = default_config\<lparr>c_ExperimentalRPCListeners := [[]]\<rparr>"

theorem listeners_by_family_witness:
  "\<exists>v. startRPCServers ref_sys deaf_libs False listening 0 ref_proc
      = (Err (Errorf ''failed to create listeners for RPC server''), v)"
proof -
  have conf: "\<not> c_DisableServerTLS listening" "c_ExperimentalRPCListeners listening = [[]]" "\<not> c_OneTimeTLSKey listening"
    by (simp_all add: listening_def default_config_def)
  obtain v where v: "openRPCKeyPair ref_sys deaf_libs listening 0 ref_proc = (Ok 0, v)"
    by (simp add: openRPCKeyPair_def generateRPCKeyPair_def MkdirAll_def WriteFile_def ref_sys_def ref_proc_def
        ref_libs_def deaf_libs_def mem_stat_def bnd_def go_simps zoom_def catch_err_def conf)
  have "makeListeners deaf_libs False [[]] v = (Ok [], v)"
    by (simp add: makeListeners_def deaf_libs_def ref_libs_def bnd_def go_simps)
  with v conf listeners_by_family [where S = ref_sys and X = deaf_libs and ?plan9.0 = False and conf = listening
      and now = 0 and v = ref_proc and keyPair = 0 and ?v2.0 = v and ?v3.0 = v]
  show ?thesis by simp blast
qed

interpretation ref_grpc: grpc_server ref_libs
  by unfold_locales (simp_all add: ref_libs_def)

lemma main_handler_returns:
  assumes "l_wallet (ldr V) = None \<or> (\<exists>w. l_wallet (ldr V) = Some w \<and> idle (w_sync w) \<and> l_db (ldr V) \<noteq> None)"
  shows "fst (main_handler S V) = Ok ()"
proof (cases "l_wallet (ldr V)")
  case None
  then show ?thesis by (simp add: main_handler_def UnloadWallet_def bnd_reads attempt_def bnd_def go_simps)
next
  case (Some w)
  then obtain h where "idle (w_sync w)" "l_db (ldr V) = Some h" using assms by auto
  with Some have "fst (UnloadWallet S V) = Ok () \<or> (\<exists>e. fst (UnloadWallet S V) = Err e)"
    using Unload_idle [of V w h S] by blast
  then show ?thesis by (auto simp: main_handler_def go_simps)
qed

text \<open>The callback that registers the wallet's service: it comes back unless the server is serving already.\<close>

lemma main_callback_runs:
  assumes "grpc_server X" and "startRPCServers S X plan9 conf now W = (Ok rpcs, W1)"
  shows "if served \<and> rpcs \<noteq> None then \<exists>msg. main_callback X served rpcs 0 V = (Err (Fatal msg), V)
    else main_callback X served rpcs 0 V = (Ok (), V)"
proof (cases rpcs)
  case None
  then show ?thesis by (simp add: main_callback_def startWalletRPCServices_def bnd_def go_simps)
next
  case (Some sv)
  from startRPCServers_Some [OF assms(2) [unfolded Some]] obtain cert names listeners where
    sv: "sv = \<lparr>sv_cert = cert, sv_listeners = listeners, sv_services = names, sv_serving = False\<rparr>" "listeners \<noteq> []"
      "grpc_RegisterService X False [] ''walletrpc.WalletLoaderService'' = Ok names" by blast
  have names: "names = [''walletrpc.WalletLoaderService'']"
    using grpc_server.registers [OF assms(1), of "''walletrpc.WalletLoaderService''" "[]"] sv(3) by simp
  obtain msg where msg: "grpc_RegisterService X True names ''walletrpc.WalletService'' = Err (Fatal msg)"
    using grpc_server.register_after_serve [OF assms(1)] by blast
  have ok: "grpc_RegisterService X False names ''walletrpc.WalletService'' = Ok (names @ [''walletrpc.WalletService''])"
    by (rule grpc_server.registers [OF assms(1)]) (simp add: names)
  show ?thesis
    by (cases served) (simp_all add: Some sv(1,2) main_callback_def serve_scheduled_def startWalletRPCServices_def
        StartWalletService_def register_service_def msg ok bnd_def go_simps)
qed

text \<open>
  The program ends on an interrupt. Once the server was started and the wallet was opened, or is not to be
  opened at the start, the main function returns without an error: the handler's unloading comes back,
  whether or not there is a wallet to unload and whether or not closing its database fails. The exception is
  a wallet opened when the server is serving already: registering its service ends the process.
\<close>

lemma main_returns_on_interrupt:
  fixes W W1 :: "('k, 'pk, 'a, 'n, 'd, 'h, 's) app"
  assumes grpc: "grpc_server X" and server: "startRPCServers S X plan9 conf now W = (Ok rpcs, W1)"
    and new: "l_wallet (ldr W1) = None" "callbacks (ldr W1) = []" "called W1 = []"
    and "c_NoInitialLoad conf \<or> is_Ok (fst (OpenExistingWallet E S (c_WalletPass conf) (snd (RunAfterLoad 0 W1))))"
  shows "if \<not> c_NoInitialLoad conf \<and> served \<and> rpcs \<noteq> None
    then \<exists>msg. fst (main_loaded E S X plan9 served conf now W) = Err (Fatal msg)
    else fst (main_loaded E S X plan9 served conf now W) = Ok ()"
proof -
  obtain V where run: "RunAfterLoad 0 W1 = (Ok (), V)" and V: "l_wallet (ldr V) = None" "callbacks (ldr V) = [0]" "called V = []"
    using new by (simp add: RunAfterLoad_def bnd_reads go_simps with_ldr_def)
  show ?thesis
  proof (cases "c_NoInitialLoad conf")
    case True
    then show ?thesis
      using V main_handler_returns [of V S] by (simp add: main_loaded_def server run bnd_def go_simps)
  next
    case False
    then obtain w W2 where o: "OpenExistingWallet E S (c_WalletPass conf) V = (Ok w, W2)"
      using assms(6) run by (cases "OpenExistingWallet E S (c_WalletPass conf) V") (auto simp: is_Ok_iff)
    have "called W2 = [0]"
      using doesD [OF OpenExisting_refines refl, of E S "c_WalletPass conf" V] o V by (simp add: loader_view_def)
    with False main_callback_runs [OF grpc server, of served W2] show ?thesis
      using OpenExisting_idle [OF o] main_handler_returns [of W2 S]
      by (auto simp: main_loaded_def server run o bnd_def go_simps split: if_splits)
  qed
qed

lemma main_returns_on_interrupt_example:
  "fst (main_loaded example_hd ref_sys ref_libs False True (default_config\<lparr>c_NoInitialLoad := True\<rparr>) 0 example_app) = Ok ()"
proof -
  let ?conf = "default_config\<lparr>c_NoInitialLoad := True\<rparr>"
  obtain rpcs W1 where s: "startRPCServers ref_sys ref_libs False ?conf 0 example_app = (Ok rpcs, W1)"
      and "ldr W1 = ldr example_app" "called W1 = []"
    by (simp add: startRPCServers_def openRPCKeyPair_def generateRPCKeyPair_def MkdirAll_def WriteFile_def ref_sys_def
        ref_libs_def default_config_def example_app_def mem_stat_def bnd_def go_simps zoom_def catch_err_def)
  then have "l_wallet (ldr W1) = None" "callbacks (ldr W1) = []" by (simp_all add: example_app_def NewLoader_def)
  then show ?thesis
    using main_returns_on_interrupt [OF ref_grpc.grpc_server_axioms s, of example_hd True] \<open>called W1 = []\<close> by simp
qed

end
