(* ===== verification/MgrCreate.thy ===== *)
theory MgrCreate
  imports MgrLock
begin

text \<open>
  What \<^verbatim>\<open>Create\<close> leaves in the database and what \<^verbatim>\<open>Open\<close> and \<^verbatim>\<open>Unlock\<close> make of it
  (\<^verbatim>\<open>waddrmgr/manager.go\<close>): total correctness of the three calls in sequence, over every database
  driver and every set of cryptographic primitives that meet their contracts.
\<close>

section \<open>Total correctness\<close>

text \<open>A call returns a value, and the value with the state it leaves is as described.\<close>

definition gives :: "('s, 'e, 'a) prog \<Rightarrow> ('a \<Rightarrow> 's \<Rightarrow> bool) \<Rightarrow> 's \<Rightarrow> bool" where
  "gives m Q s \<longleftrightarrow> (\<exists>a t. m s = (Ok a, t) \<and> Q a t)"

lemma givesI: "fst (m s) = Ok a \<Longrightarrow> Q a (snd (m s)) \<Longrightarrow> gives m Q s"
  unfolding gives_def by (metis prod.collapse)

lemma givesE:
  assumes "gives m Q s"
  obtains a t where "m s = (Ok a, t)" "Q a t"
  using assms by (auto simp: gives_def)

lemma gives_bnd: "gives m (\<lambda>a. gives (f a) Q) s \<Longrightarrow> gives (bnd m f) Q s"
  by (auto simp: gives_def bnd_def)

lemma gives_step: "gives m Q s \<Longrightarrow> (\<And>a t. Q a t \<Longrightarrow> gives (f a) Q' t) \<Longrightarrow> gives (bnd m f) Q' s"
  by (auto simp: gives_def bnd_def)

lemma gives_mono: "gives m Q s \<Longrightarrow> (\<And>a t. Q a t \<Longrightarrow> Q' a t) \<Longrightarrow> gives m Q' s"
  by (auto simp: gives_def)

lemma gives_ret: "Q a s \<Longrightarrow> gives (ret a) Q s"
  by (simp add: gives_def go_simps)

lemma gives_lift: "r = Ok a \<Longrightarrow> Q a s \<Longrightarrow> gives (lift r) Q s"
  by (simp add: gives_def go_simps)

lemma gives_wrap:
  "gives m Q s \<Longrightarrow> gives (wrap_err h m) Q s" "gives m Q s \<Longrightarrow> gives (as_error c m) Q s"
  by (auto simp: gives_def wrap_err_def as_error_def)

text \<open>Steps that cannot fail on a given value.\<close>

lemma bnd_done:
  "bnd (ret a) f = f a" "lift (Ok a) = ret a" "wrap_err h (ret a) = ret a" "as_error c (ret a) = ret a"
  by (simp_all add: fun_eq_iff bnd_def wrap_err_def as_error_def ret_def lift_def)

text \<open>A loop: the invariant speaks of the elements already ds.\<close>

lemma gives_for_each:
  assumes "I [] s" and "\<And>ds x rest t. xs = ds @ x # rest \<Longrightarrow> I ds t \<Longrightarrow> gives (f x) (\<lambda>_. I (ds @ [x])) t"
  shows "gives (for_each f xs) (\<lambda>_. I xs) s"
proof -
  have "gives (for_each f rest) (\<lambda>_. I xs) t" if "xs = ds @ rest" "I ds t" for ds rest t
    using that
  proof (induction rest arbitrary: ds t)
    case (Cons x rest)
    have "gives (f x) (\<lambda>_. I (ds @ [x])) t" by (rule assms(2) [OF Cons.prems])
    then have "gives (f x) (\<lambda>_. gives (for_each f rest) (\<lambda>_. I xs)) t"
      by (rule gives_mono) (rule Cons.IH, simp_all add: Cons.prems(1))
    then show ?case by (simp add: gives_bnd)
  qed (simp add: gives_ret)
  from this [of "[]" xs s] assms(1) show ?thesis by simp
qed

section \<open>States by what the calls see of them\<close>

text \<open>The view of the open transaction, which can be written, and how many random bytes are left.\<close>

definition sees :: "('k, 'sk, 'pk, 'a, 'n, 's) env \<Rightarrow> view \<Rightarrow> nat \<Rightarrow> ('s, 'z) base_scheme \<Rightarrow> bool" where
  "sees E V n w \<longleftrightarrow> bolt_Writable (env_bolt E) (db w) \<and> view (env_bolt E) (db w) = V \<and> n \<le> length (rng w)"

lemma sees_weaken: "sees E V n w \<Longrightarrow> m \<le> n \<Longrightarrow> sees E V m w"
  by (simp add: sees_def)

lemma only_db_rng:
  assumes "only_db m"
  shows "rng (snd (m w)) = rng w"
proof -
  obtain s where "snd (m w) = w\<lparr>db := s\<rparr>" using assms by (auto simp: only_db_def)
  then show ?thesis by simp
qed

lemma gives_db:
  assumes "sees E V n w" and "only_db m" and "fst (m w) = Ok ()"
    and "view (env_bolt E) (db (snd (m w))) = V'" and "bolt_Writable (env_bolt E) (db (snd (m w)))"
  shows "gives m (\<lambda>_. sees E V' n) w"
  using assms only_db_rng [OF assms(2), of w] by (intro givesI) (simp_all add: sees_def)

text \<open>A call that takes \<open>j\<close> random bytes, with the error handling around it and the rest of the function
  after it.\<close>

lemma step_random:
  assumes "\<And>r. j \<le> length r \<Longrightarrow> \<exists>a. m r = (Ok a, drop j r) \<and> S a" and "sees E V n w" and "j \<le> n"
    and "\<And>a t. S a \<Longrightarrow> sees E V (n - j) t \<Longrightarrow> gives (f a) Q t"
  shows "gives (bnd (wrap_err h (random m)) f) Q w"
proof -
  have len: "j \<le> length (rng w)" using assms(2,3) by (auto simp: sees_def)
  with assms(1) obtain a where a: "m (rng w) = (Ok a, drop j (rng w))" "S a" by blast
  have "gives (random m) (\<lambda>a w'. S a \<and> sees E V (n - j) w') w"
    using a assms(2) by (intro givesI [where a = a]) (auto simp: random_def go_simps sees_def)
  then show ?thesis by (rule gives_step [OF gives_wrap(1)]) (blast intro: assms(4))
qed

lemma step_encrypt:
  assumes "crypto_contract (env_crypto E)" and "length key = 32" and "sees E V n w" and "24 \<le> n"
    and "\<And>c t. decrypt E key c = Ok inp \<and> length c = length inp + 40 \<Longrightarrow> sees E V (n - 24) t \<Longrightarrow> gives (f c) Q t"
  shows "gives (bnd (wrap_err h (encrypt E key inp)) f) Q w"
  unfolding encrypt_def
proof (rule step_random [OF _ assms(3,4)])
  fix r :: bytes
  assume "24 \<le> length r"
  then obtain c where "CryptoKey_Encrypt (env_crypto E) key inp r = (Ok c, drop 24 r)"
    by (simp add: Encrypt_Ok)
  with crypto_contract.Decrypt_Encrypt [OF assms(1,2) this] crypto_contract.length_Encrypt [OF assms(1,2) this]
  show "\<exists>c. CryptoKey_Encrypt (env_crypto E) key inp r = (Ok c, drop 24 r)
    \<and> decrypt E key c = Ok inp \<and> length c = length inp + 40" by (auto simp: decrypt_def)
qed (rule assms(5))

lemma step_newCryptoKey:
  assumes "sees E V n w" and "32 \<le> n" and "\<And>key t. length key = 32 \<Longrightarrow> sees E V (n - 32) t \<Longrightarrow> gives (f key) Q t"
  shows "gives (bnd (wrap_err h newCryptoKey) f) Q w"
  unfolding newCryptoKey_def
  by (rule step_random [OF _ assms])
    (simp_all add: defaultNewCryptoKey_def GenerateCryptoKey_def bnd_def read_random_def go_simps size_defs)

lemma step_salt:
  assumes "sees E V n w" and "32 \<le> n" and "\<And>salt t. length salt = 32 \<Longrightarrow> sees E V (n - 32) t \<Longrightarrow> gives (f salt) Q t"
  shows "gives (bnd (wrap_err h (random (read_random saltSize))) f) Q w"
  by (rule step_random [OF _ assms]) (simp_all add: read_random_def saltSize_def)

text \<open>The derivation succeeds for a passphrase whatever the salt.\<close>

definition scrypt_works :: "crypto \<Rightarrow> ScryptOptions \<Rightarrow> bytes \<Rightarrow> bool" where
  "scrypt_works C opt pw \<longleftrightarrow> (\<forall>salt. \<exists>k. scrypt_Key C pw salt (opt_N opt) (opt_R opt) (opt_P opt) 32 = Ok k)"

text \<open>A key that was made from a passphrase.\<close>

definition made_from :: "crypto \<Rightarrow> bytes \<Rightarrow> SecretKey \<Rightarrow> bytes \<Rightarrow> bool" where
  "made_from C pw sk k \<longleftrightarrow> Key sk = Some k \<and> length k = 32 \<and> wf_SecretKey sk
   \<and> (let ps = Params sk in scrypt_Key C pw (Salt ps) (N ps) (R ps) (P ps) 32 = Ok k \<and> Digest ps = sha256_Sum256 C k)"

lemma NewSecretKey_works:
  assumes "crypto_contract C" and "scrypt_works C opt pw" and "32 \<le> length rnd"
  shows "\<exists>sk k. NewSecretKey C pw (opt_N opt) (opt_R opt) (opt_P opt) rnd = (Ok sk, drop 32 rnd) \<and> made_from C pw sk k"
proof -
  obtain k where k: "scrypt_Key C pw (take 32 rnd) (opt_N opt) (opt_R opt) (opt_P opt) 32 = Ok k"
    using assms(2) by (auto simp: scrypt_works_def)
  let ?sk = "\<lparr>Key = Some (make_bytes 32), Params = \<lparr>Salt = take 32 rnd, Digest = make_bytes 32,
    N = opt_N opt, R = opt_R opt, P = opt_P opt\<rparr>\<rparr>"
  have derive: "SecretKey_deriveKey C pw ?sk = (Ok (), ?sk\<lparr>Key := Some k\<rparr>)"
    by (rule crypto_contract.deriveKey_eq [OF assms(1), where ck = "make_bytes 32"]) (simp_all add: k)
  have run: "\<exists>sk. NewSecretKey C pw (opt_N opt) (opt_R opt) (opt_P opt) rnd = (Ok sk, drop 32 rnd)"
    using assms(3) derive
    by (simp add: NewSecretKey_def bnd_def read_random_def go_simps size_defs Let_def)
  then obtain sk where sk: "NewSecretKey C pw (opt_N opt) (opt_R opt) (opt_P opt) rnd = (Ok sk, drop 32 rnd)" by blast
  have "made_from C pw sk k"
    using crypto_contract.NewSecretKey_Ok [OF assms(1) sk] crypto_contract.NewSecretKey_wf [OF assms(1) sk] k
      crypto_contract.scrypt_length [OF assms(1) k]
    by (fastforce simp: made_from_def)
  with sk show ?thesis by blast
qed

lemma step_newSecretKey:
  assumes "crypto_contract (env_crypto E)" and "scrypt_works (env_crypto E) opt pw" and "sees E V n w" and "32 \<le> n"
    and "\<And>sk k t. made_from (env_crypto E) pw sk k \<Longrightarrow> sees E V (n - 32) t \<Longrightarrow> gives (f sk) Q t"
  shows "gives (bnd (wrap_err h (newSecretKey E pw opt)) f) Q w"
  unfolding newSecretKey_def
  by (rule step_random [OF _ assms(3,4), where S = "\<lambda>sk. \<exists>k. made_from (env_crypto E) pw sk k"])
    (use NewSecretKey_works [OF assms(1,2)] assms(5) in blast)+

lemma step_secret_encrypt:
  assumes "crypto_contract (env_crypto E)" and "made_from C pw sk key" and "sees E V n w" and "24 \<le> n"
    and "\<And>c t. decrypt E key c = Ok inp \<and> length c = length inp + 40 \<Longrightarrow> sees E V (n - 24) t \<Longrightarrow> gives (f c) Q t"
  shows "gives (bnd (wrap_err h (secret_encrypt E sk inp)) f) Q w"
proof -
  have key: "Key sk = Some key" "length key = 32" using assms(2) by (simp_all add: made_from_def)
  then have same: "secret_encrypt E sk inp = encrypt E key inp"
    by (simp add: secret_encrypt_def SecretKey_Encrypt_def encrypt_def deref_def bnd_done)
  show ?thesis unfolding same by (rule step_encrypt [OF assms(1) key(2) assms(3,4)]) (rule assms(5))
qed

section \<open>The keys of a scope\<close>

text \<open>What the library has to make of a root key for the wallet to use it: every key on the way to the
  default account of the scope exists. A serialised key is a base58 string of 111 characters.\<close>

definition usable_root :: "('k, 'sk, 'pk, 'a, 'n, 's) env \<Rightarrow> 'k \<Rightarrow> KeyScope \<Rightarrow> 'k \<Rightarrow> 'k \<Rightarrow> 'k \<Rightarrow> 'k \<Rightarrow> bool" where
  "usable_root E root scope ct ctPub acct acctPub \<longleftrightarrow>
     deriveCoinTypeKey E root scope = Ok ct \<and> deriveAccountKey E ct 0 = Ok acct \<and> checkBranchKeys E acct = Ok ()
   \<and> hd_Neuter E acct = Ok acctPub \<and> hd_Neuter E ct = Ok ctPub"

definition short_keys :: "('k, 'sk, 'pk, 'a, 'n, 's) env \<Rightarrow> bool" where
  "short_keys E \<longleftrightarrow> (\<forall>k. length (hd_String E k) \<le> 111)"

text \<open>The paths that belong to a scope.\<close>

definition in_scope :: "bkt \<Rightarrow> KeyScope \<Rightarrow> bkt \<Rightarrow> bool" where
  "in_scope ns scope p \<longleftrightarrow> (\<exists>q. p = scope_path ns scope @ q)"

lemma in_scope_simps [simp]:
  "in_scope ns scope (ns @ scopeBucketName # scopeToBytes scope' # q) \<longleftrightarrow> scope' = scope"
  "\<not> in_scope ns scope ns" "\<not> in_scope ns scope (ns @ [k])"
  by (auto simp: in_scope_def)

text \<open>The slots of a scope into which its keys and its two first accounts go.\<close>

definition scope_slots :: "view \<Rightarrow> bkt \<Rightarrow> KeyScope \<Rightarrow> bool" where
  "scope_slots V ns scope \<longleftrightarrow> scope_ready V ns scope
   \<and> account_slots V ns scope DefaultAccountNum defaultAccountName
   \<and> account_slots V ns scope ImportedAddrAccount ImportedAddrAccountName
   \<and> V (scope_path ns scope) coinTypePubKeyName \<noteq> Some Sub \<and> V (scope_path ns scope) coinTypePrivKeyName \<noteq> Some Sub
   \<and> (\<forall>p \<in> {acct_path ns scope, acct_id_path ns scope, acct_name_path ns scope}. \<forall>k. V p k = None)"

text \<open>The accounts of a new scope: the default one and the one reserved for imported keys.\<close>

definition two_accounts :: "view \<Rightarrow> bkt \<Rightarrow> KeyScope \<Rightarrow> bool" where
  "two_accounts V ns scope \<longleftrightarrow>
     V (acct_name_path ns scope) (stringToBytes ImportedAddrAccountName) = Some (Val (uint32ToBytes ImportedAddrAccount))
   \<and> (\<forall>name. name \<notin> {defaultAccountName, ImportedAddrAccountName} \<longrightarrow> V (acct_name_path ns scope) (stringToBytes name) = None)
   \<and> (\<forall>n. n \<notin> {DefaultAccountNum, ImportedAddrAccount} \<longrightarrow> V (acct_path ns scope) (uint32ToBytes n) = None)
   \<and> (\<forall>k. V (acct_path ns scope) k \<noteq> Some Sub \<and> V (acct_id_path ns scope) k \<noteq> Some Sub)"

text \<open>A scope with its coin type keys and its default account, whose keys are sealed.\<close>

definition default_raw :: "bytes \<Rightarrow> bytes \<Rightarrow> bytes" where
  "default_raw pub priv = field pub @ field priv @ le32 0 @ le32 0 @ field defaultAccountName"

definition stored_scope ::
  "('k, 'sk, 'pk, 'a, 'n, 's) env \<Rightarrow> bytes \<Rightarrow> bytes \<Rightarrow> 'k \<Rightarrow> view \<Rightarrow> bkt \<Rightarrow> KeyScope \<Rightarrow> bool" where
  "stored_scope E keyPub keyPriv root V ns scope \<longleftrightarrow> scope_ready V ns scope \<and> two_accounts V ns scope
   \<and> V (meta_path ns scope) lastAccountName = Some (Val (uint32ToBytes DefaultAccountNum))
   \<and> V (acct_name_path ns scope) (stringToBytes defaultAccountName) = Some (Val (uint32ToBytes DefaultAccountNum))
   \<and> (\<exists>ct ctPub acct acctPub pub priv cPub cPriv. usable_root E root scope ct ctPub acct acctPub
      \<and> V (acct_path ns scope) (uint32ToBytes DefaultAccountNum) = Some (Val (accountDefault # field (default_raw pub priv)))
      \<and> V (scope_path ns scope) coinTypePubKeyName = Some (Val cPub)
      \<and> V (scope_path ns scope) coinTypePrivKeyName = Some (Val cPriv)
      \<and> length pub \<le> 151 \<and> length priv \<le> 151
      \<and> decrypt E keyPub pub = Ok (hd_String E acctPub) \<and> decrypt E keyPriv priv = Ok (hd_String E acct)
      \<and> decrypt E keyPub cPub = Ok (hd_String E ctPub) \<and> decrypt E keyPriv cPriv = Ok (hd_String E ct))"

lemma stored_scope_cong:
  assumes "V ns scopeBucketName = V' ns scopeBucketName"
    and "V (ns @ [scopeBucketName]) (scopeToBytes scope) = V' (ns @ [scopeBucketName]) (scopeToBytes scope)"
    and "\<And>q k. V (scope_path ns scope @ q) k = V' (scope_path ns scope @ q) k"
  shows "stored_scope E keyPub keyPriv root V ns scope \<longleftrightarrow> stored_scope E keyPub keyPriv root V' ns scope"
proof -
  note q = assms(3) [of "[]"] assms(3) [of "[metaBucketName]"] assms(3) [of "[acctNameIdxBucketName]"]
    assms(3) [of "[acctBucketName]"] assms(3) [of "[acctIDIdxBucketName]"]
  show ?thesis
    using assms(1,2) q by (simp add: stored_scope_def two_accounts_def scope_ready_def scope_there_def has_buckets_def)
qed

lemma scope_slots_cong:
  assumes "V ns scopeBucketName = V' ns scopeBucketName"
    and "V (ns @ [scopeBucketName]) (scopeToBytes scope) = V' (ns @ [scopeBucketName]) (scopeToBytes scope)"
    and "\<And>q k. V (scope_path ns scope @ q) k = V' (scope_path ns scope @ q) k"
  shows "scope_slots V ns scope \<longleftrightarrow> scope_slots V' ns scope"
proof -
  note q = assms(3) [of "[]"] assms(3) [of "[acctIDIdxBucketName]"] assms(3) [of "[acctNameIdxBucketName]"]
    assms(3) [of "[acctBucketName]"]
  show ?thesis
    using assms(1,2) q by (simp add: scope_slots_def account_slots_def scope_ready_def scope_there_def has_buckets_def)
qed

text \<open>The writes of \<^verbatim>\<open>createManagerKeyScope\<close> on views.\<close>

lemma account_view_frame:
  "\<not> in_scope ns scope p \<Longrightarrow> account_view ns scope acct row name V p k = V p k"
  by (auto simp: account_view_def)

context walletdb_bucket
begin

lemma putCoinTypeKeys_effect:
  assumes "rw s" and "scope_ready (vw s) ns scope" and "length pub \<le> MaxValueSize" and "length priv \<le> MaxValueSize"
    and "vw s (scope_path ns scope) coinTypePubKeyName \<noteq> Some Sub" and "vw s (scope_path ns scope) coinTypePrivKeyName \<noteq> Some Sub"
  shows "fst (putCoinTypeKeys W ns scope (Some pub) (Some priv) s) = Ok ()"
    and "vw (snd (putCoinTypeKeys W ns scope (Some pub) (Some priv) s))
      = vput (vput (vw s) (scope_path ns scope) coinTypePubKeyName (Val pub)) (scope_path ns scope) coinTypePrivKeyName (Val priv)"
    and "rw (snd (putCoinTypeKeys W ns scope (Some pub) (Some priv) s))"
  using assms by (simp_all add: putCoinTypeKeys_def put_if_def go_simps db_simps limits scope_ready_def scope_there_def)

lemma putDefaultAccountInfo_effect:
  fixes ext itn :: u32
  assumes "rw s" and "scope_ready (vw s) ns scope" and "account_slots (vw s) ns scope acct name"
    and "length pub + length priv + length name + 25 \<le> MaxValueSize" and "length name + 4 \<le> MaxKeySize"
  defines "row \<equiv> \<lparr>acctType = accountDefault, rawData = field pub @ field priv @ le32 ext @ le32 itn @ field name\<rparr>"
    and "m \<equiv> putDefaultAccountInfo W ns scope acct pub priv ext itn name"
  shows "fst (m s) = Ok ()" and "vw (snd (m s)) = account_view ns scope acct row name (vw s)" and "rw (snd (m s))"
proof -
  have small: "length pub + length priv + length name + 25 < 2 ^ 32" using assms(4) by (simp add: limits)
  then have m: "m s = putAccountInfo W ns scope acct row name s"
    by (simp add: m_def row_def putDefaultAccountInfo_def serializeDefaultAccountRow_bytes bnd_def go_simps)
  have "length (rawData row) + 5 \<le> MaxValueSize" using assms(4) by (simp add: row_def)
  note eff = putAccountInfo_effect [OF assms(1-3) this assms(5), folded m]
  show "fst (m s) = Ok ()" "vw (snd (m s)) = account_view ns scope acct row name (vw s)" "rw (snd (m s))"
    by (fact eff)+
qed

end

lemma gives_putCoinTypeKeys:
  assumes "bolt_contract (env_bolt E)" and "sees E V n w" and "scope_slots V ns scope"
    and "length pub \<le> MaxValueSize" and "length priv \<le> MaxValueSize"
  shows "gives (putCoinTypeKeys (dbw E) ns scope (Some pub) (Some priv))
    (\<lambda>_. sees E (vput (vput V (scope_path ns scope) coinTypePubKeyName (Val pub)) (scope_path ns scope) coinTypePrivKeyName (Val priv)) n) w"
  using walletdb_bucket.putCoinTypeKeys_effect [OF dbw_contract [OF assms(1)], of w ns scope pub priv] assms(2-5)
  by (intro gives_db [OF assms(2)] frame_intros) (simp_all add: sees_def scope_slots_def)

lemma gives_putDefaultAccountInfo:
  assumes "bolt_contract (env_bolt E)" and "sees E V n w" and "scope_ready V ns scope" and "account_slots V ns scope acct name"
    and "length pub + length priv + length name + 25 \<le> MaxValueSize" and "length name + 4 \<le> MaxKeySize"
  shows "gives (putDefaultAccountInfo (dbw E) ns scope acct pub priv 0 0 name)
    (\<lambda>_. sees E (account_view ns scope acct \<lparr>acctType = accountDefault,
       rawData = field pub @ field priv @ le32 0 @ le32 0 @ field name\<rparr> name V) n) w"
  using walletdb_bucket.putDefaultAccountInfo_effect [OF dbw_contract [OF assms(1)], of w ns scope acct name pub priv 0 0] assms(2-6)
  by (intro gives_db [OF assms(2)] frame_intros) (simp_all add: sees_def)

lemma account_slots_keep:
  assumes "account_slots V ns scope acct name" and "\<And>p k. V' p k = Some Sub \<Longrightarrow> V p k = Some Sub"
  shows "account_slots V' ns scope acct name"
  using assms unfolding account_slots_def by blast

lemma account_view_Sub:
  "account_slots V ns scope acct name \<Longrightarrow> account_view ns scope acct row name V p k = Some Sub \<longleftrightarrow> V p k = Some Sub"
  by (auto simp: account_view_def account_slots_def)

lemma scope_ready_Sub: "(\<And>p k. V' p k = Some Sub \<longleftrightarrow> V p k = Some Sub) \<Longrightarrow> scope_ready V' ns scope = scope_ready V ns scope"
  by (simp add: scope_ready_def scope_there_def has_buckets_def)

text \<open>The writes of \<^verbatim>\<open>createManagerKeyScope\<close>, in their order.\<close>

definition scope_view :: "bkt \<Rightarrow> KeyScope \<Rightarrow> bytes \<Rightarrow> bytes \<Rightarrow> bytes \<Rightarrow> bytes \<Rightarrow> view \<Rightarrow> view" where
  "scope_view ns scope cPub cPriv pub priv V =
     account_view ns scope ImportedAddrAccount
       \<lparr>acctType = accountDefault, rawData = field [] @ field [] @ le32 0 @ le32 0 @ field ImportedAddrAccountName\<rparr>
       ImportedAddrAccountName
     (account_view ns scope DefaultAccountNum \<lparr>acctType = accountDefault, rawData = default_raw pub priv\<rparr> defaultAccountName
     (vput (vput V (scope_path ns scope) coinTypePubKeyName (Val cPub)) (scope_path ns scope) coinTypePrivKeyName (Val cPriv)))"

lemma account_names [simp]:
  "ImportedAddrAccountName \<noteq> defaultAccountName" "ImportedAddrAccount \<noteq> DefaultAccountNum"
  "defaultAccountName \<noteq> ImportedAddrAccountName" "DefaultAccountNum \<noteq> ImportedAddrAccount"
  "length defaultAccountName = 7" "length ImportedAddrAccountName = 8"
  by (simp_all add: ImportedAddrAccountName_def defaultAccountName_def DefaultAccountNum_def key_limits)

lemma stored_scope_view:
  assumes "scope_slots V ns scope" and "usable_root E root scope ct ctPub acct acctPub"
    and "V (meta_path ns scope) lastAccountName = Some (Val (uint32ToBytes DefaultAccountNum))"
    and "length pub \<le> 151" and "length priv \<le> 151"
    and "decrypt E keyPub pub = Ok (hd_String E acctPub)" and "decrypt E keyPriv priv = Ok (hd_String E acct)"
    and "decrypt E keyPub cPub = Ok (hd_String E ctPub)" and "decrypt E keyPriv cPriv = Ok (hd_String E ct)"
  shows "stored_scope E keyPub keyPriv root (scope_view ns scope cPub cPriv pub priv V) ns scope"
proof -
  let ?V = "scope_view ns scope cPub cPriv pub priv V"
  have ready: "scope_ready ?V ns scope"
    using assms(1) by (simp add: scope_view_def account_view_def scope_slots_def account_slots_def)
  have "?V (acct_path ns scope) (uint32ToBytes DefaultAccountNum) = Some (Val (accountDefault # field (default_raw pub priv)))"
      "?V (scope_path ns scope) coinTypePubKeyName = Some (Val cPub)" "?V (scope_path ns scope) coinTypePrivKeyName = Some (Val cPriv)"
      "?V (acct_name_path ns scope) (stringToBytes defaultAccountName) = Some (Val (uint32ToBytes DefaultAccountNum))"
      "?V (meta_path ns scope) lastAccountName = V (meta_path ns scope) lastAccountName"
    by (simp_all add: scope_view_def account_view_def)
  moreover have "two_accounts ?V ns scope"
    using assms(1) by (simp add: scope_view_def account_view_def scope_slots_def two_accounts_def)
  ultimately show ?thesis
    using ready assms(2-) unfolding stored_scope_def by metis
qed

lemma scope_view_frame: "\<not> in_scope ns scope p \<Longrightarrow> scope_view ns scope cPub cPriv pub priv V p k = V p k"
  by (auto simp: scope_view_def account_view_frame)

lemma gives_store_scope:
  assumes bolt: "bolt_contract (env_bolt E)" and "sees E V n w" and slots: "scope_slots V ns scope"
    and len: "length cPub \<le> 151" "length cPriv \<le> 151" "length pub \<le> 151" "length priv \<le> 151"
  shows "gives (bnd (putCoinTypeKeys (dbw E) ns scope (Some cPub) (Some cPriv)) (\<lambda>_.
       bnd (putDefaultAccountInfo (dbw E) ns scope DefaultAccountNum pub priv 0 0 defaultAccountName) (\<lambda>_.
       putDefaultAccountInfo (dbw E) ns scope ImportedAddrAccount [] [] 0 0 ImportedAddrAccountName)))
     (\<lambda>_. sees E (scope_view ns scope cPub cPriv pub priv V) n) w"
proof (rule gives_step, rule gives_putCoinTypeKeys [OF bolt assms(2) slots])
  let ?V1 = "vput (vput V (scope_path ns scope) coinTypePubKeyName (Val cPub)) (scope_path ns scope) coinTypePrivKeyName (Val cPriv)"
  let ?V2 = "account_view ns scope DefaultAccountNum \<lparr>acctType = accountDefault, rawData = default_raw pub priv\<rparr> defaultAccountName ?V1"
  have sub1: "?V1 p k = Some Sub \<longleftrightarrow> V p k = Some Sub" for p k
    using slots by (auto simp: scope_slots_def)
  have slots1: "account_slots ?V1 ns scope acct name" if "account_slots V ns scope acct name" for acct name
    using account_slots_keep [OF that, of ?V1] sub1 by blast
  have sub2: "?V2 p k = Some Sub \<longleftrightarrow> ?V1 p k = Some Sub" for p k
    using slots by (intro account_view_Sub slots1) (simp add: scope_slots_def)
  have slots2: "account_slots ?V2 ns scope acct name" if "account_slots V ns scope acct name" for acct name
    using account_slots_keep [OF slots1 [OF that], of ?V2] sub2 by blast
  have ready: "scope_ready ?V1 ns scope" "scope_ready ?V2 ns scope"
    using slots scope_ready_Sub [of ?V1 V] scope_ready_Sub [of ?V2 ?V1] sub1 sub2 by (auto simp: scope_slots_def)
  show "length cPub \<le> MaxValueSize" "length cPriv \<le> MaxValueSize" using len by (simp_all add: limits)
  fix u t
  assume "sees E ?V1 n t"
  moreover have "length pub + length priv + length defaultAccountName + 25 \<le> MaxValueSize"
      "length defaultAccountName + 4 \<le> MaxKeySize" using len by (simp_all add: limits)
  ultimately show "gives (bnd (putDefaultAccountInfo (dbw E) ns scope DefaultAccountNum pub priv 0 0 defaultAccountName) (\<lambda>_.
       putDefaultAccountInfo (dbw E) ns scope ImportedAddrAccount [] [] 0 0 ImportedAddrAccountName))
     (\<lambda>_. sees E (scope_view ns scope cPub cPriv pub priv V) n) t"
  proof (intro gives_step [OF gives_putDefaultAccountInfo [OF bolt _ ready(1) slots1]])
    show "account_slots V ns scope DefaultAccountNum defaultAccountName" using slots by (simp add: scope_slots_def)
    fix u t
    assume "sees E (account_view ns scope DefaultAccountNum \<lparr>acctType = accountDefault,
       rawData = field pub @ field priv @ le32 0 @ le32 0 @ field defaultAccountName\<rparr> defaultAccountName ?V1) n t"
    then have t: "sees E ?V2 n t" by (simp add: default_raw_def)
    have "account_slots ?V2 ns scope ImportedAddrAccount ImportedAddrAccountName"
      using slots by (intro slots2) (simp add: scope_slots_def)
    from gives_putDefaultAccountInfo [OF bolt t ready(2) this, of "[]" "[]"]
    show "gives (putDefaultAccountInfo (dbw E) ns scope ImportedAddrAccount [] [] 0 0 ImportedAddrAccountName)
       (\<lambda>_. sees E (scope_view ns scope cPub cPriv pub priv V) n) t"
      by (simp add: scope_view_def limits)
  qed
qed

lemma gives_createManagerKeyScope:
  fixes E :: "('k, 'sk, 'pk, 'a, 'n, 's) env"
  assumes bolt: "bolt_contract (env_bolt E)" and crypto: "crypto_contract (env_crypto E)" and "short_keys E"
    and "usable_root E root scope ct ctPub acct acctPub" and key: "length keyPub = 32" "length keyPriv = 32"
    and "sees E V (n + 96) w" and slots: "scope_slots V ns scope"
    and last: "V (meta_path ns scope) lastAccountName = Some (Val (uint32ToBytes DefaultAccountNum))"
  shows "gives (createManagerKeyScope E ns scope root keyPub keyPriv)
    (\<lambda>_ w'. \<exists>V'. sees E V' n w' \<and> stored_scope E keyPub keyPriv root V' ns scope
       \<and> (\<forall>p k. \<not> in_scope ns scope p \<longrightarrow> V' p k = V p k)) w"
proof -
  have keys: "deriveCoinTypeKey E root scope = Ok ct" "deriveAccountKey E ct 0 = Ok acct" "checkBranchKeys E acct = Ok ()"
      "hd_Neuter E acct = Ok acctPub" "hd_Neuter E ct = Ok ctPub"
    using assms(4) by (simp_all add: usable_root_def)
  have short: "length (hd_String E k) \<le> 111" for k using assms(3) by (simp add: short_keys_def)
  let ?sealed = "\<lambda>key k c. decrypt E key c = Ok (hd_String E k) \<and> length c = length (hd_String E k) + 40"
  let ?store = "\<lambda>cPub cPriv pub priv. bnd (putCoinTypeKeys (dbw E) ns scope (Some cPub) (Some cPriv)) (\<lambda>_.
       bnd (putDefaultAccountInfo (dbw E) ns scope DefaultAccountNum pub priv 0 0 defaultAccountName) (\<lambda>_.
       putDefaultAccountInfo (dbw E) ns scope ImportedAddrAccount [] [] 0 0 ImportedAddrAccountName))"
  let ?post = "\<lambda>_ w'. \<exists>V'. sees E V' n w' \<and> stored_scope E keyPub keyPriv root V' ns scope
       \<and> (\<forall>p k. \<not> in_scope ns scope p \<longrightarrow> V' p k = V p k)"
  have stored: "gives (?store cPub cPriv pub priv) ?post u"
    if "?sealed keyPub ctPub cPub" "?sealed keyPriv ct cPriv" "?sealed keyPub acctPub pub" "?sealed keyPriv acct priv"
      "sees E V n u"
    for cPub cPriv pub priv and u :: "('s, 'z) base_scheme"
  proof -
    have "gives (?store cPub cPriv pub priv) (\<lambda>_. sees E (scope_view ns scope cPub cPriv pub priv V) n) u"
      using that short [of ctPub] short [of ct] short [of acctPub] short [of acct]
      by (intro gives_store_scope [OF bolt _ slots]) simp_all
    moreover have "stored_scope E keyPub keyPriv root (scope_view ns scope cPub cPriv pub priv V) ns scope"
      using that short [of acctPub] short [of acct] by (intro stored_scope_view [OF slots assms(4) last]) simp_all
    ultimately show ?thesis by (elim gives_mono) (blast intro: scope_view_frame)
  qed
  have "gives (bnd (as_error ErrCrypto (encrypt E keyPub (hd_String E ctPub))) (\<lambda>cPub.
      bnd (as_error ErrCrypto (encrypt E keyPriv (hd_String E ct))) (\<lambda>cPriv.
      bnd (as_error ErrCrypto (encrypt E keyPub (hd_String E acctPub))) (\<lambda>pub.
      bnd (as_error ErrCrypto (encrypt E keyPriv (hd_String E acct))) (\<lambda>priv. ?store cPub cPriv pub priv)))))
    ?post w"
    unfolding as_error_def
    by (rule step_encrypt [OF crypto key(1) assms(7)], simp, rule step_encrypt [OF crypto key(2)], assumption, simp,
      rule step_encrypt [OF crypto key(1)], assumption, simp, rule step_encrypt [OF crypto key(2)], assumption, simp,
      rule stored) simp_all
  then show ?thesis
    by (simp add: createManagerKeyScope_def keys bnd_done unusable_seed_def)
qed

text \<open>The loop over the default scopes: the scopes done are stored, all other paths are as before.\<close>

definition scopes_done ::
  "('k, 'sk, 'pk, 'a, 'n, 's) env \<Rightarrow> bytes \<Rightarrow> bytes \<Rightarrow> 'k \<Rightarrow> bkt \<Rightarrow> view \<Rightarrow> KeyScope list \<Rightarrow> view \<Rightarrow> bool" where
  "scopes_done E keyPub keyPriv root ns V0 ds V \<longleftrightarrow> (\<forall>scope \<in> set ds. stored_scope E keyPub keyPriv root V ns scope)
   \<and> (\<forall>p k. (\<forall>scope \<in> set ds. \<not> in_scope ns scope p) \<longrightarrow> V p k = V0 p k)"

lemma scopes_done_untouched:
  assumes "scopes_done E keyPub keyPriv root ns V0 ds V" and "scope \<notin> set ds"
  shows "V ns scopeBucketName = V0 ns scopeBucketName"
    and "V (ns @ [scopeBucketName]) (scopeToBytes scope) = V0 (ns @ [scopeBucketName]) (scopeToBytes scope)"
    and "V (scope_path ns scope @ q) k = V0 (scope_path ns scope @ q) k"
proof -
  have same: "V p k = V0 p k" if "\<And>scope. scope \<in> set ds \<Longrightarrow> \<not> in_scope ns scope p" for p k
    using assms(1) that by (simp add: scopes_done_def)
  show "V ns scopeBucketName = V0 ns scopeBucketName"
      "V (ns @ [scopeBucketName]) (scopeToBytes scope) = V0 (ns @ [scopeBucketName]) (scopeToBytes scope)"
      "V (scope_path ns scope @ q) k = V0 (scope_path ns scope @ q) k"
    using assms(2) by (auto intro!: same)
qed

lemma scopes_done_step:
  assumes "scopes_done E keyPub keyPriv root ns V0 ds V" and "scope \<notin> set ds"
    and "stored_scope E keyPub keyPriv root V' ns scope" and same: "\<And>p k. \<not> in_scope ns scope p \<Longrightarrow> V' p k = V p k"
  shows "scopes_done E keyPub keyPriv root ns V0 (ds @ [scope]) V'"
proof -
  have "stored_scope E keyPub keyPriv root V' ns scope'" if "scope' \<in> set ds" for scope'
  proof -
    have "scope' \<noteq> scope" using that assms(2) by auto
    then have "stored_scope E keyPub keyPriv root V' ns scope' = stored_scope E keyPub keyPriv root V ns scope'"
      by (intro stored_scope_cong same) simp_all
    with that assms(1) show ?thesis by (simp add: scopes_done_def)
  qed
  with assms show ?thesis by (auto simp: scopes_done_def)
qed

lemma gives_create_scopes:
  fixes E :: "('k, 'sk, 'pk, 'a, 'n, 's) env" and w :: "('s, 'z) base_scheme"
  assumes "bolt_contract (env_bolt E)" and "crypto_contract (env_crypto E)" and "short_keys E"
    and "length keyPub = 32" "length keyPriv = 32" and "distinct xs" and "sees E V (n + 96 * length xs) w"
    and ok: "\<And>scope. scope \<in> set xs \<Longrightarrow> scope_slots V ns scope
       \<and> V (meta_path ns scope) lastAccountName = Some (Val (uint32ToBytes DefaultAccountNum))
       \<and> (\<exists>ct ctPub acct acctPub. usable_root E root scope ct ctPub acct acctPub)"
  shows "gives (for_each (\<lambda>scope. wrap_err maybeConvertDbError (createManagerKeyScope E ns scope root keyPub keyPriv)) xs)
    (\<lambda>_ w'. \<exists>V'. sees E V' n w' \<and> scopes_done E keyPub keyPriv root ns V xs V') w"
proof -
  define I where "I ds t \<longleftrightarrow> (\<exists>V'. sees E V' (n + 96 * (length xs - length ds)) t \<and> scopes_done E keyPub keyPriv root ns V ds V')"
    for ds and t :: "('s, 'z) base_scheme"
  have "gives (for_each (\<lambda>scope. wrap_err maybeConvertDbError (createManagerKeyScope E ns scope root keyPub keyPriv)) xs) (\<lambda>_. I xs) w"
  proof (rule gives_for_each)
    fix ds scope rest and t :: "('s, 'z) base_scheme"
    assume xs: "xs = ds @ scope # rest" and "I ds t"
    moreover have len: "n + 96 * (length xs - length ds) = n + 96 * length rest + 96" using xs by simp
    ultimately obtain V' where V': "sees E V' (n + 96 * length rest + 96) t" "scopes_done E keyPub keyPriv root ns V ds V'"
      unfolding I_def by metis
    have new: "scope \<notin> set ds" and "scope \<in> set xs" using assms(6) xs by auto
    note ok = ok [OF this(2)] and same = scopes_done_untouched [OF V'(2) new]
    obtain ct ctPub acct acctPub where usable: "usable_root E root scope ct ctPub acct acctPub" using ok by auto
    have slots: "scope_slots V' ns scope" using ok scope_slots_cong [OF same] by simp
    have last: "V' (meta_path ns scope) lastAccountName = Some (Val (uint32ToBytes DefaultAccountNum))"
      using ok same(3) [of "[metaBucketName]"] by simp
    have "n + 96 * length rest = n + 96 * (length xs - length (ds @ [scope]))" using xs by simp
    with gives_createManagerKeyScope [OF assms(1-3) usable assms(4,5) V'(1) slots last]
    show "gives (wrap_err maybeConvertDbError (createManagerKeyScope E ns scope root keyPub keyPriv)) (\<lambda>_. I (ds @ [scope])) t"
      unfolding I_def by (intro gives_wrap(1)) (elim gives_mono, metis scopes_done_step [OF V'(2) new])
  next
    show "I [] w" using assms(7) by (auto simp: I_def scopes_done_def)
  qed
  then show ?thesis by (rule gives_mono) (simp add: I_def)
qed

section \<open>The new namespace\<close>

text \<open>Every place a record of the manager goes to is free.\<close>

definition new_namespace :: "bkt \<Rightarrow> (KeyScope \<times> ScopeAddrSchema) list \<Rightarrow> view \<Rightarrow> bool" where
  "new_namespace ns xs V \<longleftrightarrow> has_buckets V ns mgrBuckets \<and> main_ready V ns
   \<and> V (ns @ [mainBucketName]) mgrVersionName = Some (Val (uint32ToBytes latestMgrVersion))
   \<and> V (ns @ [syncBucketName]) birthdayName \<noteq> Some Sub
   \<and> (\<forall>(scope, sch) \<in> set xs. scope_slots V ns scope
       \<and> V (meta_path ns scope) lastAccountName = Some (Val (uint32ToBytes DefaultAccountNum))
       \<and> V (ns @ [scopeSchemaBucketName]) (scopeToBytes scope) = Some (Val (scopeSchemaToBytes sch)))
   \<and> (\<forall>scope. V (ns @ [scopeBucketName]) (scopeToBytes scope) \<noteq> None \<longleftrightarrow> scope \<in> fst ` set xs)"

context walletdb_bucket
begin

lemma missing_deep: "vw s p k \<noteq> Some Sub \<Longrightarrow> vw s (p @ k # q) l = None"
proof (induction q arbitrary: l rule: rev_induct)
  case (snoc x q)
  then have "vw s (p @ k # q) x \<noteq> Some Sub" by simp
  from missing_bucket [OF this, of l] show ?case by simp
qed (simp add: missing_bucket)

lemma createManagerNS_new_namespace:
  assumes "rw s" and "live (vw s) ns" and "\<forall>k \<in> set mgrBuckets. vw s ns k = None" and "distinct (map fst xs)"
  shows "new_namespace ns xs (vw (snd (createManagerNS W ns xs now s)))"
proof -
  let ?s = "snd (createManagerNS W ns xs now s)"
  have vw: "vw ?s = create_ns_view ns xs now (vw s)" using createManagerNS_effect [OF assms] by simp
  note ns = create_namespace [OF assms, where now = now]
  have old: "vw s (ns @ k # q) l = None" if "k \<in> set mgrBuckets" for k q l
    using that assms(3) by (intro missing_deep) simp
  have empty: "vw ?s (scope_path ns scope @ [k]) l = None" if "k \<noteq> metaBucketName" for scope k l
    unfolding vw create_ns_view_def using that old [of scopeBucketName]
    by (subst vput_apply, simp)+ (subst fold_frame, auto simp: create_default_view_apply fold_vput_apply mgrBuckets_def)
  have keys: "vw ?s (scope_path ns scope) k = None" if "k \<notin> set scopeSubBuckets" for scope k
    unfolding vw create_ns_view_def using that old [of scopeBucketName]
    by (subst vput_apply, simp)+ (subst fold_frame, auto simp: create_default_view_apply fold_vput_apply mgrBuckets_def)
  have slots: "scope_slots (vw ?s) ns scope" if "(scope, sch) \<in> set xs" for scope sch
    using ns(1) [OF that] empty [of acctBucketName scope] empty [of acctIDIdxBucketName scope] empty [of acctNameIdxBucketName scope]
      keys [of coinTypePubKeyName scope] keys [of coinTypePrivKeyName scope]
    by (simp add: scope_slots_def account_slots_def scopeSubBuckets_def)
  have schema: "vw ?s (ns @ [scopeSchemaBucketName]) (scopeToBytes scope) = Some (Val (scopeSchemaToBytes sch))"
    if "(scope, sch) \<in> set xs" for scope sch
    by (simp add: fold_default_scope [OF assms(4) that] vw create_ns_view_def)
  have there: "vw ?s (ns @ [scopeBucketName]) (scopeToBytes scope) \<noteq> None \<longleftrightarrow> scope \<in> fst ` set xs" for scope
  proof (cases "scope \<in> fst ` set xs")
    case True
    then obtain sch where "(scope, sch) \<in> set xs" by auto
    with fold_default_scope(1) [OF assms(4) this] True show ?thesis by (simp add: vw create_ns_view_def)
  next
    case False
    with old [of scopeBucketName "[]"] show ?thesis
      by (simp add: vw create_ns_view_def fold_default_other [OF False] fold_vput_apply mgrBuckets_def)
  qed
  have version: "vw ?s (ns @ [mainBucketName]) mgrVersionName = Some (Val (uint32ToBytes latestMgrVersion))"
    by (simp add: vw create_ns_view_def)
  have "vw ?s (ns @ [syncBucketName]) birthdayName = None"
    unfolding vw create_ns_view_def using old [of syncBucketName "[]"]
    by (subst vput_apply, simp)+ (subst fold_frame, auto simp: create_default_view_apply fold_vput_apply mgrBuckets_def)
  with version there schema slots ns(5,6,7) show ?thesis
    unfolding new_namespace_def by auto
qed

end

section \<open>Creating\<close>

text \<open>What a created manager has in its namespace: the parameters of both master keys, the crypto keys
  sealed under them, the root key sealed under the private crypto key, and every scope.\<close>

definition master_record :: "('k, 'sk, 'pk, 'a, 'n, 's) env \<Rightarrow> view \<Rightarrow> bkt \<Rightarrow> bytes \<Rightarrow> bytes \<Rightarrow> bytes \<Rightarrow> bytes \<Rightarrow> bool" where
  "master_record E V ns paramsName sealedName pw key \<longleftrightarrow> length key = 32 \<and> (\<exists>sk k c.
     made_from (env_crypto E) pw sk k \<and> V (ns @ [mainBucketName]) paramsName = Some (Val (SecretKey_Marshal sk))
   \<and> V (ns @ [mainBucketName]) sealedName = Some (Val c) \<and> decrypt E k c = Ok key)"

definition stored_manager ::
  "('k, 'sk, 'pk, 'a, 'n, 's) env \<Rightarrow> view \<Rightarrow> bkt \<Rightarrow> 'k \<Rightarrow> bytes \<Rightarrow> bytes \<Rightarrow> bytes \<Rightarrow> bytes
   \<Rightarrow> (KeyScope \<times> ScopeAddrSchema) list \<Rightarrow> bool" where
  "stored_manager E V ns root pubPass privPass keyPub keyPriv xs \<longleftrightarrow> has_buckets V ns mgrBuckets
   \<and> V (ns @ [mainBucketName]) mgrVersionName = Some (Val (uint32ToBytes latestMgrVersion))
   \<and> V (ns @ [mainBucketName]) watchingOnlyName = Some (Val [0])
   \<and> (\<exists>t. V (ns @ [syncBucketName]) birthdayName = Some (Val (le64 t)))
   \<and> master_record E V ns masterPubKeyName cryptoPubKeyName pubPass keyPub
   \<and> master_record E V ns masterPrivKeyName cryptoPrivKeyName privPass keyPriv
   \<and> (\<exists>c. V (ns @ [mainBucketName]) masterHDPrivName = Some (Val c) \<and> decrypt E keyPriv c = Ok (hd_String E root))
   \<and> (\<forall>(scope, sch) \<in> set xs. stored_scope E keyPub keyPriv root V ns scope
       \<and> V (ns @ [scopeSchemaBucketName]) (scopeToBytes scope) = Some (Val (scopeSchemaToBytes sch)))
   \<and> (\<forall>scope. V (ns @ [scopeBucketName]) (scopeToBytes scope) \<noteq> None \<longleftrightarrow> scope \<in> fst ` set xs)"

text \<open>What opening and unlocking need of it: not what is in the scopes.\<close>

definition stored_records ::
  "('k, 'sk, 'pk, 'a, 'n, 's) env \<Rightarrow> view \<Rightarrow> bkt \<Rightarrow> bytes \<Rightarrow> bytes \<Rightarrow> bytes \<Rightarrow> bytes
   \<Rightarrow> (KeyScope \<times> ScopeAddrSchema) list \<Rightarrow> bool" where
  "stored_records E V ns pubPass privPass keyPub keyPriv xs \<longleftrightarrow> has_buckets V ns mgrBuckets
   \<and> V (ns @ [mainBucketName]) mgrVersionName = Some (Val (uint32ToBytes latestMgrVersion))
   \<and> V (ns @ [mainBucketName]) watchingOnlyName = Some (Val [0])
   \<and> (\<exists>t. V (ns @ [syncBucketName]) birthdayName = Some (Val (le64 t)))
   \<and> master_record E V ns masterPubKeyName cryptoPubKeyName pubPass keyPub
   \<and> master_record E V ns masterPrivKeyName cryptoPrivKeyName privPass keyPriv
   \<and> (\<forall>(scope, sch) \<in> set xs. V (ns @ [scopeSchemaBucketName]) (scopeToBytes scope) = Some (Val (scopeSchemaToBytes sch)))
   \<and> (\<forall>scope. V (ns @ [scopeBucketName]) (scopeToBytes scope) \<noteq> None \<longleftrightarrow> scope \<in> fst ` set xs)"

lemma stored_manager_records:
  "stored_manager E V ns root pubPass privPass keyPub keyPriv xs \<Longrightarrow> stored_records E V ns pubPass privPass keyPub keyPriv xs"
  by (auto simp: stored_manager_def stored_records_def)

lemma stored_records_cong:
  assumes "stored_records E V ns pubPass privPass keyPub keyPriv xs"
    and "\<And>k. V' ns k = V ns k" and "\<And>b k. V' (ns @ [b]) k = V (ns @ [b]) k"
  shows "stored_records E V' ns pubPass privPass keyPub keyPriv xs"
  using assms(1) by (simp add: stored_records_def master_record_def has_buckets_def assms(2,3))

text \<open>After the loop over the scopes: the scopes are stored, everything else is as in a new namespace.\<close>

definition scopes_created ::
  "('k, 'sk, 'pk, 'a, 'n, 's) env \<Rightarrow> view \<Rightarrow> bkt \<Rightarrow> 'k \<Rightarrow> bytes \<Rightarrow> bytes \<Rightarrow> (KeyScope \<times> ScopeAddrSchema) list \<Rightarrow> bool" where
  "scopes_created E V ns root keyPub keyPriv xs \<longleftrightarrow> has_buckets V ns mgrBuckets \<and> main_ready V ns
   \<and> V (ns @ [mainBucketName]) mgrVersionName = Some (Val (uint32ToBytes latestMgrVersion))
   \<and> V (ns @ [syncBucketName]) birthdayName \<noteq> Some Sub
   \<and> (\<forall>(scope, sch) \<in> set xs. stored_scope E keyPub keyPriv root V ns scope
       \<and> V (ns @ [scopeSchemaBucketName]) (scopeToBytes scope) = Some (Val (scopeSchemaToBytes sch)))
   \<and> (\<forall>scope. V (ns @ [scopeBucketName]) (scopeToBytes scope) \<noteq> None \<longleftrightarrow> scope \<in> fst ` set xs)"

text \<open>What is not below a bucket is as before.\<close>

definition outside :: "bkt \<Rightarrow> view \<Rightarrow> view \<Rightarrow> bool" where
  "outside ns V V' \<longleftrightarrow> (\<forall>p k. \<not> prefix ns p \<longrightarrow> V' p k = V p k)"

lemma outside_refl [simp]: "outside ns V V"
  by (simp add: outside_def)

lemma outside_trans: "outside ns V V' \<Longrightarrow> outside ns V' V'' \<Longrightarrow> outside ns V V''"
  by (simp add: outside_def)

lemma outside_vput [simp]: "outside ns V V' \<Longrightarrow> outside ns V (vput V' (ns @ q) k e)"
  by (auto simp: outside_def)

lemma outside_scopes_done: "scopes_done E keyPub keyPriv root ns V ds V' \<Longrightarrow> outside ns V V'"
proof -
  have "\<not> in_scope ns scope p" if "\<not> prefix ns p" for scope p
    using that by (auto simp: in_scope_def)
  then show "outside ns V V'" if "scopes_done E keyPub keyPriv root ns V ds V'"
    using that by (simp add: outside_def scopes_done_def)
qed

lemma outside_create_ns_view: "outside ns V (create_ns_view ns xs now V)"
proof -
  have "fold (create_default_view ns) xs V' p k = V' p k" if "\<not> prefix ns p" for V' p k
    using that by (intro fold_frame) (auto simp: create_default_view_apply)
  moreover have "fold (\<lambda>k V. vput V ns k Sub) ks V p k = V p k" if "\<not> prefix ns p" for ks p k
    using that by (intro fold_frame) auto
  ultimately show ?thesis by (auto simp: outside_def create_ns_view_def)
qed

lemma scopes_createdI:
  assumes "new_namespace ns xs V0" and "\<And>scope sch. (scope, sch) \<in> set xs \<Longrightarrow> stored_scope E keyPub keyPriv root V ns scope"
    and same: "\<And>p k. (\<And>scope. \<not> in_scope ns scope p) \<Longrightarrow> V p k = V0 p k"
  shows "scopes_created E V ns root keyPub keyPriv xs"
proof -
  have ns: "V ns k = V0 ns k" "V (ns @ [b]) k = V0 (ns @ [b]) k" for b k by (rule same, simp)+
  show ?thesis
    using assms(1,2) unfolding scopes_created_def new_namespace_def has_buckets_def main_ready_def ns by fastforce
qed

context walletdb_bucket
begin

lemma putBirthday_rw: "rw s \<Longrightarrow> rw (snd (putBirthday W ns t s))"
  by (simp add: putBirthday_def go_simps db_simps)

end

text \<open>A record of the main bucket does not disturb the scopes.\<close>

lemma stored_scope_main:
  "stored_scope E keyPub keyPriv root (vput V (ns @ [b]) k (Val v)) ns scope \<longleftrightarrow> stored_scope E keyPub keyPriv root V ns scope"
  if "b \<noteq> scopeBucketName"
  using that by (intro stored_scope_cong) auto

lemma scopes_created_main:
  assumes "scopes_created E V ns root keyPub keyPriv xs" and "k \<in> set mgrKeys" and "k \<noteq> mgrVersionName"
  shows "scopes_created E (vput V (ns @ [mainBucketName]) k (Val v)) ns root keyPub keyPriv xs"
  using assms unfolding scopes_created_def
  by (auto simp: stored_scope_main main_ready_def)

lemma only_db_create [frame_intros]:
  "only_db (createManagerNS (dbw E) ns xs now)" "only_db (putMasterHDKeys (dbw E) ns a b)"
  "only_db (putMasterKeyParams (dbw E) ns a b)" "only_db (putCryptoKeys (dbw E) ns a b c)"
  "only_db (putWatchingOnly (dbw E) ns wo)" "only_db (putBirthday (dbw E) ns t)"
  unfolding createManagerNS_def create_default_scope_def putManagerVersion_def putMasterHDKeys_def put_main_def
    putMasterKeyParams_def putCryptoKeys_def putWatchingOnly_def putBirthday_def
  by (intro frame_intros)+

lemma managerExists_eq:
  assumes "bolt_contract (env_bolt E)"
  shows "managerExists E (Some ns) w = (Ok (view (env_bolt E) (db w) ns mainBucketName = Some Sub), w)"
  by (simp add: managerExists_def bnd_def walletdb_bucket.NestedR_sem [OF dbw_contract [OF assms]] go_simps)

abbreviation main_put :: "bkt \<Rightarrow> bytes \<Rightarrow> bytes \<Rightarrow> view \<Rightarrow> view" where
  "main_put ns k v V \<equiv> vput V (ns @ [mainBucketName]) k (Val v)"

lemma gives_main_records:
  assumes "bolt_contract (env_bolt E)" and "sees E V n w" and "main_ready V ns"
    and "\<forall>v \<in> {a, b, c}. length v \<le> MaxValueSize"
  shows "gives (putMasterHDKeys (dbw E) ns (Some a) (Some b))
      (\<lambda>_. sees E (main_put ns masterHDPubName b (main_put ns masterHDPrivName a V)) n) w"
    and "gives (putMasterKeyParams (dbw E) ns (Some a) (Some b))
      (\<lambda>_. sees E (main_put ns masterPubKeyName a (main_put ns masterPrivKeyName b V)) n) w"
    and "gives (putCryptoKeys (dbw E) ns (Some a) (Some b) (Some c))
      (\<lambda>_. sees E (main_put ns cryptoScriptKeyName c (main_put ns cryptoPrivKeyName b (main_put ns cryptoPubKeyName a V))) n) w"
    and "gives (putWatchingOnly (dbw E) ns False) (\<lambda>_. sees E (main_put ns watchingOnlyName [0] V) n) w"
  using assms(2-) walletdb_bucket.main_records_effect [OF dbw_contract [OF assms(1)], of w ns]
  by (intro gives_db [OF assms(2)] frame_intros; simp add: sees_def vput_opt_def)+

lemma gives_putBirthday:
  assumes "bolt_contract (env_bolt E)" and "sees E V n w" and "V ns syncBucketName = Some Sub"
    and "V (ns @ [syncBucketName]) birthdayName \<noteq> Some Sub"
  shows "gives (putBirthday (dbw E) ns t) (\<lambda>_. sees E (vput V (ns @ [syncBucketName]) birthdayName (Val (le64 t))) n) w"
  using assms(2-) walletdb_bucket.birthday_effect [OF dbw_contract [OF assms(1)], of w ns t]
    walletdb_bucket.putBirthday_rw [OF dbw_contract [OF assms(1)], of w ns t]
  by (intro gives_db [OF assms(2)] frame_intros) (simp_all add: sees_def)

text \<open>The private side of \<^verbatim>\<open>Create\<close>: what it leaves and what it returns.\<close>

definition private_created ::
  "('k, 'sk, 'pk, 'a, 'n, 's) env \<Rightarrow> bkt \<Rightarrow> 'k \<Rightarrow> bytes \<Rightarrow> bytes \<Rightarrow> (KeyScope \<times> ScopeAddrSchema) list \<Rightarrow> nat
   \<Rightarrow> view \<Rightarrow> bytes \<times> bytes \<times> bytes \<Rightarrow> ('s, 'z) base_scheme \<Rightarrow> bool" where
  "private_created E ns root keyPub privPass xs n V0 = (\<lambda>(privParams, privEnc, scriptEnc) w. \<exists>V mk k keyPriv.
     sees E V n w \<and> outside ns V0 V \<and> length keyPriv = 32 \<and> scopes_created E V ns root keyPub keyPriv xs
   \<and> (\<exists>c. V (ns @ [mainBucketName]) masterHDPrivName = Some (Val c) \<and> decrypt E keyPriv c = Ok (hd_String E root))
   \<and> made_from (env_crypto E) privPass mk k \<and> privParams = SecretKey_Marshal mk
   \<and> decrypt E k privEnc = Ok keyPriv \<and> length privEnc = 72 \<and> length scriptEnc = 72)"

lemma gives_store_root:
  assumes bolt: "bolt_contract (env_bolt E)" and crypto: "crypto_contract (env_crypto E)" and short: "\<And>k. length (hd_String E k) \<le> 111"
    and key: "length keyPub = 32" "length keyPriv = 32" and sees: "sees E V (n + 48) w"
    and scopes: "scopes_created E V ns root keyPub keyPriv xs"
    and mk: "made_from (env_crypto E) privPass mk k" "decrypt E k privEnc = Ok keyPriv" "length privEnc = 72" "length scriptEnc = 72"
    and out: "outside ns V0 V"
  shows "gives (bnd (wrap_err h (encrypt E keyPriv (hd_String E root))) (\<lambda>hdPrivEnc.
     bnd (wrap_err h (encrypt E keyPub (hd_String E rootPub))) (\<lambda>hdPubEnc.
     bnd (wrap_err h (putMasterHDKeys (dbw E) ns (Some hdPrivEnc) (Some hdPubEnc))) (\<lambda>_.
     ret (SecretKey_Marshal mk, privEnc, scriptEnc)))))
    (private_created E ns root keyPub privPass xs n V0) w"
proof (rule step_encrypt [OF crypto key(2) sees], simp, rule step_encrypt [OF crypto key(1)], assumption, simp)
  fix hdPriv hdPub t t2
  assume hd: "decrypt E keyPriv hdPriv = Ok (hd_String E root) \<and> length hdPriv = length (hd_String E root) + 40"
    "decrypt E keyPub hdPub = Ok (hd_String E rootPub) \<and> length hdPub = length (hd_String E rootPub) + 40"
    "sees E V (n + 48 - 24 - 24) t2"
  let ?V = "main_put ns masterHDPubName hdPub (main_put ns masterHDPrivName hdPriv V)"
  have created: "scopes_created E ?V ns root keyPub keyPriv xs"
    by (intro scopes_created_main scopes) (simp_all add: mgrKeys_def)
  have "gives (wrap_err h (putMasterHDKeys (dbw E) ns (Some hdPriv) (Some hdPub))) (\<lambda>_. sees E ?V n) t2"
    using hd scopes short [of root] short [of rootPub]
    by (intro gives_wrap(1) gives_main_records(1) [OF bolt, where c = "[]"]) (simp_all add: scopes_created_def limits)
  then show "gives (bnd (wrap_err h (putMasterHDKeys (dbw E) ns (Some hdPriv) (Some hdPub))) (\<lambda>_.
      ret (SecretKey_Marshal mk, privEnc, scriptEnc))) (private_created E ns root keyPub privPass xs n V0) t2"
  proof (rule gives_step)
    fix u t3
    assume "sees E ?V n t3"
    moreover have "?V (ns @ [mainBucketName]) masterHDPrivName = Some (Val hdPriv)" by simp
    moreover have "outside ns V0 ?V" using out by simp
    ultimately show "gives (ret (SecretKey_Marshal mk, privEnc, scriptEnc)) (private_created E ns root keyPub privPass xs n V0) t3"
      using created hd(1) key(2) mk unfolding private_created_def by (intro gives_ret) blast
  qed
qed

lemma gives_default_scopes:
  assumes bolt: "bolt_contract (env_bolt E)" and crypto: "crypto_contract (env_crypto E)" and short: "short_keys E"
    and key: "length keyPub = 32" "length keyPriv = 32"
    and new: "new_namespace ns xs V" and scopes: "fst ` set xs = set DefaultKeyScopes"
    and root: "\<And>scope. scope \<in> set DefaultKeyScopes \<Longrightarrow> \<exists>ct ctPub acct acctPub. usable_root E root scope ct ctPub acct acctPub"
    and sees: "sees E V (n + 384) w"
  shows "gives (for_each (\<lambda>scope. wrap_err maybeConvertDbError (createManagerKeyScope E ns scope root keyPub keyPriv)) DefaultKeyScopes)
      (\<lambda>_ w'. \<exists>V'. sees E V' n w' \<and> outside ns V V' \<and> scopes_created E V' ns root keyPub keyPriv xs) w"
proof -
  have ok: "scope_slots V ns scope \<and> V (meta_path ns scope) lastAccountName = Some (Val (uint32ToBytes DefaultAccountNum))
      \<and> (\<exists>ct ctPub acct acctPub. usable_root E root scope ct ctPub acct acctPub)" if "scope \<in> set DefaultKeyScopes" for scope
    using new root [OF that] that unfolding scopes [symmetric] new_namespace_def by fastforce
  have four: "distinct DefaultKeyScopes" "sees E V (n + 96 * length DefaultKeyScopes) w"
    using sees by (simp_all add: DefaultKeyScopes_def bip_scopes)
  have created: "scopes_created E V' ns root keyPub keyPriv xs"
    if "scopes_done E keyPub keyPriv root ns V DefaultKeyScopes V'" for V'
  proof (rule scopes_createdI [OF new])
    show "stored_scope E keyPub keyPriv root V' ns scope" if "(scope, sch) \<in> set xs" for scope sch
      using that \<open>scopes_done E keyPub keyPriv root ns V DefaultKeyScopes V'\<close> scopes
      unfolding scopes_done_def by (metis fst_conv imageI)
  qed (use that in \<open>simp add: scopes_done_def\<close>)
  show ?thesis
    by (rule gives_mono, rule gives_create_scopes [OF bolt crypto short key four ok]) (blast intro: created outside_scopes_done)+
qed

lemma gives_create_private:
  assumes bolt: "bolt_contract (env_bolt E)" and crypto: "crypto_contract (env_crypto E)" and short: "short_keys E"
    and scrypt: "scrypt_works (env_crypto E) config privPass" and keyPub: "length keyPub = 32"
    and new: "new_namespace ns xs V" "outside ns V0 V" and scopes: "fst ` set xs = set DefaultKeyScopes"
    and root: "hd_Neuter E root = Ok rootPub"
      "\<And>scope. scope \<in> set DefaultKeyScopes \<Longrightarrow> \<exists>ct ctPub acct acctPub. usable_root E root scope ct ctPub acct acctPub"
    and sees: "sees E V (n + 608) w"
  shows "gives (create_private E ns root privPass config keyPub) (private_created E ns root keyPub privPass xs n V0) w"
proof -
  have S: "\<And>k. length (hd_String E k) \<le> 111" using short by (simp add: short_keys_def)
  have rest: "gives (bnd (for_each (\<lambda>scope. wrap_err maybeConvertDbError (createManagerKeyScope E ns scope root keyPub keyPriv)) DefaultKeyScopes) (\<lambda>_.
     bnd (wrap_err maybeConvertDbError (encrypt E keyPriv (hd_String E root))) (\<lambda>hdPrivEnc.
     bnd (wrap_err maybeConvertDbError (encrypt E keyPub (hd_String E rootPub))) (\<lambda>hdPubEnc.
     bnd (wrap_err maybeConvertDbError (putMasterHDKeys (dbw E) ns (Some hdPrivEnc) (Some hdPubEnc))) (\<lambda>_.
     ret (SecretKey_Marshal mk, privEnc, scriptEnc))))))
     (private_created E ns root keyPub privPass xs n V0) t"
    if "length keyPriv = 32" "sees E V (n + 432) t" "made_from (env_crypto E) privPass mk k"
      "decrypt E k privEnc = Ok keyPriv" "length privEnc = 72" "length scriptEnc = 72" for keyPriv mk k privEnc scriptEnc t
  proof (rule gives_step, rule gives_default_scopes [OF bolt crypto short keyPub that(1) new(1) scopes root(2), of "n + 48"])
    show "sees E V (n + 48 + 384) t" using that(2) by (simp add: add.commute)
  qed (use gives_store_root [OF bolt crypto S keyPub that(1) _ _ that(3-6)] outside_trans [OF new(2)] in blast)+
  show ?thesis
    unfolding create_private_def as_error_def root(1) bnd_done cryptoKey_Bytes_def
    by (rule step_newSecretKey [OF crypto scrypt sees], simp, rule step_salt, assumption, simp,
        rule step_newCryptoKey, assumption, simp, rule step_newCryptoKey, assumption, simp,
        rule step_secret_encrypt [OF crypto], assumption, assumption, simp,
        rule step_secret_encrypt [OF crypto], assumption, assumption, simp, rule rest, assumption)
      (auto simp: add.commute)
qed

text \<open>The whole of \<^verbatim>\<open>Create\<close>. The budget is what the sources draw: 88 bytes for the public side, 608 for
  the private one.\<close>

lemma scopes_created_simps:
  "scopes_created E V ns root keyPub keyPriv xs \<Longrightarrow> main_ready V ns"
  "scopes_created E V ns root keyPub keyPriv xs \<Longrightarrow> V ns syncBucketName = Some Sub"
  "scopes_created E V ns root keyPub keyPriv xs \<Longrightarrow> V (ns @ [syncBucketName]) birthdayName \<noteq> Some Sub"
  by (simp_all add: scopes_created_def has_buckets_def mgrBuckets_def)

lemma length_Marshal_fits: "length (SecretKey_Marshal sk) \<le> MaxValueSize"
  by (simp add: length_Marshal limits)

lemma gives_store_records:
  assumes bolt: "bolt_contract (env_bolt E)" and pvt: "private_created E ns root keyPub privPass xs n V0 (privParams, privEnc, scriptEnc) w"
    and mk: "made_from (env_crypto E) pubPass mkPub k" "decrypt E k pubEnc = Ok keyPub" "length pubEnc = 72" "length keyPub = 32"
  shows "gives (bnd (wrap_err h (putMasterKeyParams (dbw E) ns (Some (SecretKey_Marshal mkPub)) (Some privParams))) (\<lambda>_.
     bnd (wrap_err h (putCryptoKeys (dbw E) ns (Some pubEnc) (Some privEnc) (Some scriptEnc))) (\<lambda>_.
     bnd (wrap_err h (putWatchingOnly (dbw E) ns False)) (\<lambda>_. putBirthday (dbw E) ns t))))
    (\<lambda>_ w'. \<exists>V keyPriv. sees E V n w' \<and> outside ns V0 V \<and> stored_manager E V ns root pubPass privPass keyPub keyPriv xs) w"
proof -
  obtain V mk kp keyPriv c where V: "sees E V n w" "length keyPriv = 32" "scopes_created E V ns root keyPub keyPriv xs"
      "V (ns @ [mainBucketName]) masterHDPrivName = Some (Val c)" "decrypt E keyPriv c = Ok (hd_String E root)"
      "made_from (env_crypto E) privPass mk kp" "privParams = SecretKey_Marshal mk"
      "decrypt E kp privEnc = Ok keyPriv" "length privEnc = 72" "length scriptEnc = 72" "outside ns V0 V"
    using pvt by (auto simp: private_created_def)
  define V1 where "V1 = main_put ns masterPubKeyName (SecretKey_Marshal mkPub) (main_put ns masterPrivKeyName privParams V)"
  define V2 where "V2 = main_put ns cryptoScriptKeyName scriptEnc (main_put ns cryptoPrivKeyName privEnc (main_put ns cryptoPubKeyName pubEnc V1))"
  define V3 where "V3 = main_put ns watchingOnlyName [0] V2"
  define V4 where "V4 = vput V3 (ns @ [syncBucketName]) birthdayName (Val (le64 t))"
  note defs = V1_def V2_def V3_def V4_def
  have c1: "scopes_created E V1 ns root keyPub keyPriv xs"
    unfolding V1_def by (intro scopes_created_main V(3)) (simp_all add: mgrKeys_def)
  have c2: "scopes_created E V2 ns root keyPub keyPriv xs"
    unfolding V2_def by (intro scopes_created_main c1) (simp_all add: mgrKeys_def)
  have c3: "scopes_created E V3 ns root keyPub keyPriv xs"
    unfolding V3_def by (intro scopes_created_main c2) (simp_all add: mgrKeys_def)
  have outside: "outside ns V0 V4" using V(11) by (simp add: defs)
  have fits: "length privEnc \<le> MaxValueSize" "length scriptEnc \<le> MaxValueSize" "length pubEnc \<le> MaxValueSize"
    using V mk by (simp_all add: limits)
  have main: "V4 (ns @ [mainBucketName]) masterPubKeyName = Some (Val (SecretKey_Marshal mkPub))"
      "V4 (ns @ [mainBucketName]) masterPrivKeyName = Some (Val (SecretKey_Marshal mk))"
      "V4 (ns @ [mainBucketName]) cryptoPubKeyName = Some (Val pubEnc)"
      "V4 (ns @ [mainBucketName]) cryptoPrivKeyName = Some (Val privEnc)"
      "V4 (ns @ [mainBucketName]) masterHDPrivName = Some (Val c)"
      "V4 (ns @ [mainBucketName]) watchingOnlyName = Some (Val [0])"
      "V4 (ns @ [syncBucketName]) birthdayName = Some (Val (le64 t))"
    by (simp_all add: defs V(4,7))
  have "master_record E V4 ns masterPubKeyName cryptoPubKeyName pubPass keyPub"
      "master_record E V4 ns masterPrivKeyName cryptoPrivKeyName privPass keyPriv"
    using main(1-4) mk V(2,6,8) unfolding master_record_def by blast+
  moreover have "has_buckets V4 ns mgrBuckets"
      "V4 (ns @ [mainBucketName]) mgrVersionName = Some (Val (uint32ToBytes latestMgrVersion))"
      "\<forall>(scope, sch) \<in> set xs. stored_scope E keyPub keyPriv root V4 ns scope
       \<and> V4 (ns @ [scopeSchemaBucketName]) (scopeToBytes scope) = Some (Val (scopeSchemaToBytes sch))"
      "\<forall>scope. V4 (ns @ [scopeBucketName]) (scopeToBytes scope) \<noteq> None \<longleftrightarrow> scope \<in> fst ` set xs"
    using c3 by (simp_all add: V4_def scopes_created_def stored_scope_main)
  ultimately have stored: "stored_manager E V4 ns root pubPass privPass keyPub keyPriv xs"
    using main(5-7) V(5) unfolding stored_manager_def by blast
  have s1: "gives (wrap_err h (putMasterKeyParams (dbw E) ns (Some (SecretKey_Marshal mkPub)) (Some privParams))) (\<lambda>_. sees E V1 n) w"
    unfolding V1_def using scopes_created_simps(1) [OF V(3)]
    by (intro gives_wrap(1) gives_main_records(2) [OF bolt V(1), where c = "[]"]) (simp_all add: V(7) length_Marshal_fits)
  have s2: "gives (wrap_err h (putCryptoKeys (dbw E) ns (Some pubEnc) (Some privEnc) (Some scriptEnc))) (\<lambda>_. sees E V2 n) u"
    if "sees E V1 n u" for u
    unfolding V2_def using scopes_created_simps(1) [OF c1] fits
    by (intro gives_wrap(1) gives_main_records(3) [OF bolt that]) simp_all
  have s3: "gives (wrap_err h (putWatchingOnly (dbw E) ns False)) (\<lambda>_. sees E V3 n) u" if "sees E V2 n u" for u
    unfolding V3_def using scopes_created_simps(1) [OF c2]
    by (intro gives_wrap(1) gives_main_records(4) [OF bolt that, where a = "[]" and b = "[]" and c = "[]"]) simp_all
  have s4: "gives (putBirthday (dbw E) ns t) (\<lambda>_. sees E V4 n) u" if "sees E V3 n u" for u
    unfolding V4_def by (rule gives_putBirthday [OF bolt that]) (rule scopes_created_simps [OF c3])+
  show ?thesis
    by (rule gives_step [OF s1], rule gives_step [OF s2], assumption, rule gives_step [OF s3], assumption,
        rule gives_mono [OF s4], assumption) (use stored outside in blast)
qed

text \<open>What the library makes of a root key when it has every key the wallet asks for, and of the
  passphrases.\<close>

definition wallet_root :: "('k, 'sk, 'pk, 'a, 'n, 's) env \<Rightarrow> 'k \<Rightarrow> bool" where
  "wallet_root E root \<longleftrightarrow> (\<exists>rootPub. hd_Neuter E root = Ok rootPub)
   \<and> (\<forall>scope \<in> set DefaultKeyScopes. \<exists>ct ctPub acct acctPub. usable_root E root scope ct ctPub acct acctPub)"

definition options :: "ScryptOptions option \<Rightarrow> ScryptOptions" where
  "options config = (case config of None \<Rightarrow> DefaultScryptOptions | Some c \<Rightarrow> c)"

lemma gives_createManagerNS:
  assumes "bolt_contract (env_bolt E)" and "sees E V n w" and "live V ns" and "\<forall>k \<in> set mgrBuckets. V ns k = None"
    and "distinct (map fst xs)"
  shows "gives (createManagerNS (dbw E) ns xs now) (\<lambda>_ w'. \<exists>V'. sees E V' n w' \<and> outside ns V V' \<and> new_namespace ns xs V') w"
proof -
  note eff = walletdb_bucket.createManagerNS_effect [OF dbw_contract [OF assms(1)], of w ns xs now]
  note new = walletdb_bucket.createManagerNS_new_namespace [OF dbw_contract [OF assms(1)], of w ns xs now]
  have "gives (createManagerNS (dbw E) ns xs now) (\<lambda>_. sees E (view (env_bolt E) (db (snd (createManagerNS (dbw E) ns xs now w)))) n) w"
    using assms(2-) eff by (intro gives_db [OF assms(2)] frame_intros) (simp_all add: sees_def)
  moreover have "new_namespace ns xs (view (env_bolt E) (db (snd (createManagerNS (dbw E) ns xs now w))))"
    using assms(2-) by (intro new) (simp_all add: sees_def)
  moreover have "outside ns V (view (env_bolt E) (db (snd (createManagerNS (dbw E) ns xs now w))))"
    using assms(2-) eff outside_create_ns_view [of ns V xs now] by (simp add: sees_def)
  ultimately show ?thesis by (elim gives_mono) blast
qed

lemma gives_Create:
  assumes bolt: "bolt_contract (env_bolt E)" and crypto: "crypto_contract (env_crypto E)" and short: "short_keys E"
    and root: "wallet_root E root"
    and scrypt: "scrypt_works (env_crypto E) (options config) pubPass" "scrypt_works (env_crypto E) (options config) privPass"
    and pass: "privPass \<noteq> []" and xs: "distinct (map fst xs)" "fst ` set xs = set DefaultKeyScopes"
    and sees: "sees E V (n + 696) w" and ns: "live V ns" "\<forall>k \<in> set mgrBuckets. V ns k = None"
  shows "gives (Create E ns (Some root) pubPass privPass config birthday xs now)
    (\<lambda>_ w'. \<exists>V' keyPub keyPriv. sees E V' n w' \<and> outside ns V V' \<and> stored_manager E V' ns root pubPass privPass keyPub keyPriv xs) w"
proof -
  obtain rootPub where rootPub: "hd_Neuter E root = Ok rootPub" using root by (auto simp: wallet_root_def)
  have usable: "\<exists>ct ctPub acct acctPub. usable_root E root scope ct ctPub acct acctPub" if "scope \<in> set DefaultKeyScopes" for scope
    using root that by (simp add: wallet_root_def)
  have none: "managerExists E (Some ns) w = (Ok False, w)"
    using ns(2) sees by (simp add: managerExists_eq [OF bolt] sees_def mgrBuckets_def)
  have rest: "gives (bnd (create_private E ns root privPass (options config) keyPub) (\<lambda>(privParams, privEnc, scriptEnc).
       bnd (wrap_err maybeConvertDbError (putMasterKeyParams (dbw E) ns (Some (SecretKey_Marshal mkPub)) (Some privParams))) (\<lambda>_.
       bnd (wrap_err maybeConvertDbError (putCryptoKeys (dbw E) ns (Some pubEnc) (Some privEnc) (Some scriptEnc))) (\<lambda>_.
       bnd (wrap_err maybeConvertDbError (putWatchingOnly (dbw E) ns False)) (\<lambda>_.
       putBirthday (dbw E) ns (birthday - 48 * 60 * 60))))))
     (\<lambda>_ w'. \<exists>V' keyPub keyPriv. sees E V' n w' \<and> outside ns V V' \<and> stored_manager E V' ns root pubPass privPass keyPub keyPriv xs) t"
    if "made_from (env_crypto E) pubPass mkPub k" "length keyPub = 32" "decrypt E k pubEnc = Ok keyPub \<and> length pubEnc = 72"
      "sees E V' (n + 608) t" "new_namespace ns xs V'" "outside ns V V'" for mkPub k keyPub pubEnc V' t
    by (rule gives_step, rule gives_create_private [OF bolt crypto short scrypt(2) that(2) that(5,6) xs(2) rootPub usable that(4)],
        assumption, simp split: prod.split, intro allI impI)
      (rule gives_mono, rule gives_store_records [OF bolt], use that in auto)
  let ?body = "bnd (wrap_err maybeConvertDbError (createManagerNS (dbw E) ns xs now)) (\<lambda>_.
      bnd (as_error ErrCrypto (newSecretKey E pubPass (options config))) (\<lambda>mkPub.
      bnd (as_error ErrCrypto newCryptoKey) (\<lambda>keyPub.
      bnd (as_error ErrCrypto (secret_encrypt E mkPub (cryptoKey_Bytes keyPub))) (\<lambda>pubEnc.
      bnd (create_private E ns root privPass (options config) keyPub) (\<lambda>(privParams, privEnc, scriptEnc).
       bnd (wrap_err maybeConvertDbError (putMasterKeyParams (dbw E) ns (Some (SecretKey_Marshal mkPub)) (Some privParams))) (\<lambda>_.
       bnd (wrap_err maybeConvertDbError (putCryptoKeys (dbw E) ns (Some pubEnc) (Some privEnc) (Some scriptEnc))) (\<lambda>_.
       bnd (wrap_err maybeConvertDbError (putWatchingOnly (dbw E) ns False)) (\<lambda>_.
       putBirthday (dbw E) ns (birthday - 48 * 60 * 60)))))))))"
  have same: "Create E ns (Some root) pubPass privPass config birthday xs now w = ?body w"
    unfolding Create_def Let_def by (subst bnd_Ok [where m = "managerExists E (Some ns)", OF none]) (simp add: pass options_def bnd_assoc bnd_done split_def)
  have "gives ?body
     (\<lambda>_ w'. \<exists>V' keyPub keyPriv. sees E V' n w' \<and> outside ns V V' \<and> stored_manager E V' ns root pubPass privPass keyPub keyPriv xs) w"
    unfolding as_error_def cryptoKey_Bytes_def
    by (rule gives_step, rule gives_wrap(1) [OF gives_createManagerNS [OF bolt sees ns xs(1)]], elim exE conjE,
        rule step_newSecretKey [OF crypto scrypt(1)], assumption, simp, rule step_newCryptoKey, assumption, simp,
        rule step_secret_encrypt [OF crypto], assumption, assumption, simp, rule rest)
      (auto simp: add.commute)
  then show ?thesis
    by (simp only: gives_def same)
qed

section \<open>Opening\<close>

text \<open>\<^verbatim>\<open>newManager\<close> fills its two maps of schemas and keeps the rest of its arguments.\<close>

lemma newManager_simps:
  fixes params :: "'n option" and scoped :: "(KeyScope \<times> 'k ScopedKeyManager) list" and mkPub mkPriv :: SecretKey
    and keyPub privEnc scriptEnc salt :: bytes and birthday :: u64 and wo :: bool
  defines "m \<equiv> newManager params mkPub mkPriv keyPub privEnc scriptEnc birthday salt scoped wo"
  shows "locked m" "watchingOnly m = wo" "\<not> closed m" "scopedManagers m = scoped" "masterKeyPriv m = mkPriv"
    "cryptoKeyPub m = keyPub" "cryptoKeyPriv m = make_bytes 32" "cryptoKeyPrivEncrypted m = privEnc"
    "privPassphraseSalt m = salt" "chainParams m = None"
proof -
  let ?f = "\<lambda>(_, sMgr) m. m\<lparr>externalAddrSchemas := append_schema (ExternalAddrType (sm_addrSchema sMgr)) (sm_scope sMgr)
             (externalAddrSchemas m),
           internalAddrSchemas := append_schema (InternalAddrType (sm_addrSchema sMgr)) (sm_scope sMgr)
             (internalAddrSchemas m)\<rparr>"
  have keep: "g (fold ?f xs m) = g m" if "\<And>m a b. g (m\<lparr>externalAddrSchemas := a, internalAddrSchemas := b\<rparr>) = g m" for g xs m
    using that by (induction xs arbitrary: m) auto
  show "locked m" "watchingOnly m = wo" "\<not> closed m" "scopedManagers m = scoped" "masterKeyPriv m = mkPriv"
    "cryptoKeyPub m = keyPub" "cryptoKeyPriv m = make_bytes 32" "cryptoKeyPrivEncrypted m = privEnc"
    "privPassphraseSalt m = salt" "chainParams m = None"
    by (simp_all add: m_def newManager_def keep KeySize_def)
qed

text \<open>What loading finds of the scopes.\<close>

definition loads :: "(KeyScope \<times> ScopeAddrSchema) list \<Rightarrow> (KeyScope \<times> 'k ScopedKeyManager) list \<Rightarrow> bool" where
  "loads xs ls \<longleftrightarrow> (\<forall>scope. map_of ls scope = map_option (new_scoped scope) (map_of xs scope))
   \<and> (\<forall>(scope, sm) \<in> set ls. sm_acctInfo sm = [] \<and> sm_deriveOnUnlock sm = [])"

lemma load_scope_eq:
  assumes "bolt_contract (env_bolt E)" and "view (env_bolt E) (db l) ns scopeSchemaBucketName = Some Sub"
    and "view (env_bolt E) (db l) (ns @ [scopeSchemaBucketName]) (scopeToBytes scope) = Some (Val (scopeSchemaToBytes sch))"
  shows "load_scope E ns scope l = (Ok (), l\<lparr>loaded := AList.update scope (new_scoped scope sch) (loaded l)\<rparr>)"
  using walletdb_bucket.fetchScopeAddrSchema_effect(1) [OF dbw_contract [OF assms(1)] assms(2,3)]
  by (simp add: load_scope_def bnd_def go_simps)

lemma gives_load_scopes:
  fixes E :: "('k, 'sk, 'pk, 'a, 'n, 's) env" and w :: "('s, 'z) base_scheme"
  assumes bolt: "bolt_contract (env_bolt E)" and V: "view (env_bolt E) (db w) = V" and schemas: "V ns scopeSchemaBucketName = Some Sub"
    and scopes: "V ns scopeBucketName = Some Sub" and xs: "distinct (map fst xs)"
    and stored: "\<And>scope sch. (scope, sch) \<in> set xs \<Longrightarrow> V (ns @ [scopeSchemaBucketName]) (scopeToBytes scope) = Some (Val (scopeSchemaToBytes sch))"
    and there: "\<And>scope. V (ns @ [scopeBucketName]) (scopeToBytes scope) \<noteq> None \<longleftrightarrow> scope \<in> fst ` set xs"
  shows "gives (load_scopes E ns) (\<lambda>ls w'. loads xs ls \<and> w' = w) w"
proof -
  let ?l = "\<lparr>db = db w, rng = rng w, loaded = []\<rparr> :: ('k, 's) loading"
  let ?scopes = "key_scopes (bolt_ForEach (env_bolt E) (db w) (ns @ [scopeBucketName]))"
  have set: "set ?scopes = fst ` set xs"
    using walletdb_bucket.key_scopes_set [OF dbw_contract [OF bolt], of ?l ns] there V by auto
  define I where "I ds l \<longleftrightarrow> db l = db w \<and> rng l = rng w
      \<and> (\<forall>scope. map_of (loaded l) scope = (if scope \<in> set ds then map_option (new_scoped scope) (map_of xs scope) else None))
      \<and> (\<forall>(scope, sm) \<in> set (loaded l). sm_acctInfo sm = [] \<and> sm_deriveOnUnlock sm = [])" for ds and l :: "('k, 's) loading"
  have "gives (for_each (load_scope E ns) ?scopes) (\<lambda>_. I ?scopes) ?l"
  proof (rule gives_for_each)
    fix ds scope rest and l :: "('k, 's) loading"
    assume split: "?scopes = ds @ scope # rest" and "I ds l"
    then obtain sch where sch: "(scope, sch) \<in> set xs" using set by force
    then have look: "map_of xs scope = Some sch" using xs by simp
    have l: "db l = db w" using \<open>I ds l\<close> by (simp add: I_def)
    have "I (ds @ [scope]) (l\<lparr>loaded := AList.update scope (new_scoped scope sch) (loaded l)\<rparr>)"
      using \<open>I ds l\<close> look update_set [of scope "new_scoped scope sch" "loaded l"]
      by (auto simp: I_def update_conv' new_scoped_def)
    with load_scope_eq [OF bolt, of l ns scope sch] schemas stored [OF sch] l V
    show "gives (load_scope E ns scope) (\<lambda>_. I (ds @ [scope])) l" by (simp add: gives_def)
  qed (simp add: I_def)
  then obtain l where run: "for_each (load_scope E ns) ?scopes ?l = (Ok (), l)" and l: "I ?scopes l"
    by (auto elim: givesE)
  have "forEachKeyScope (dbw E) ns (load_scope E ns) ?l = (Ok (), l)"
    using walletdb_bucket.forEachKeyScope_effect [OF dbw_contract [OF bolt], of ?l ns "load_scope E ns"] V scopes run
    by (simp add: wrap_err_def)
  moreover have "loads xs (loaded l)"
  proof -
    have "map_of (loaded l) scope = map_option (new_scoped scope) (map_of xs scope)" for scope
      using l set by (cases "scope \<in> fst ` set xs") (simp_all add: I_def map_of_eq_None_iff [THEN iffD2])
    with l show ?thesis by (simp add: loads_def I_def)
  qed
  ultimately show ?thesis
    using l by (simp add: gives_def load_scopes_def I_def)
qed

text \<open>A passphrase that the digest tells apart from another one.\<close>

definition differs :: "crypto \<Rightarrow> bytes \<Rightarrow> bytes \<Rightarrow> bool" where
  "differs C pw pw' \<longleftrightarrow> (\<forall>salt n r p k. scrypt_Key C pw salt n r p 32 = Ok k \<longrightarrow>
     (\<exists>k'. scrypt_Key C pw' salt n r p 32 = Ok k' \<and> sha256_Sum256 C k' \<noteq> sha256_Sum256 C k))"

text \<open>The key that \<^verbatim>\<open>loadManager\<close> unmarshals, and what a passphrase makes of it.\<close>

definition blank :: "SecretKey \<Rightarrow> SecretKey" where
  "blank sk = \<lparr>Key = Some (make_bytes 32), Params = Params sk\<rparr>"

lemma unmarshal_Marshal: "made_from C pw sk k \<Longrightarrow> unmarshal (SecretKey_Marshal sk) = Ok (blank sk)"
  by (simp add: unmarshal_def made_from_def Unmarshal_Marshal zero_SecretKey_def blank_def)

lemma DeriveKey_blank:
  assumes "crypto_contract C" and "made_from C pw sk k"
  shows "SecretKey_DeriveKey C pw (blank sk) = (Ok (), (blank sk)\<lparr>Key := Some k\<rparr>)"
    and "differs C pw pw' \<Longrightarrow> \<exists>k'. SecretKey_DeriveKey C pw' (blank sk)
      = (Err (SnaclError ErrInvalidPassword), (blank sk)\<lparr>Key := Some k'\<rparr>)"
proof -
  have blank: "Key (blank sk) = Some (make_bytes 32)" "length (make_bytes 32) = 32" "Params (blank sk) = Params sk"
    by (simp_all add: blank_def)
  note derive = crypto_contract.DeriveKey_eq [OF assms(1) blank(1,2), unfolded blank(3)]
  show "SecretKey_DeriveKey C pw (blank sk) = (Ok (), (blank sk)\<lparr>Key := Some k\<rparr>)"
    using assms(2) derive [of pw k] by (simp add: made_from_def Let_def)
  show "\<exists>k'. SecretKey_DeriveKey C pw' (blank sk) = (Err (SnaclError ErrInvalidPassword), (blank sk)\<lparr>Key := Some k'\<rparr>)"
    if "differs C pw pw'"
  proof -
    have k: "scrypt_Key C pw (Salt (Params sk)) (N (Params sk)) (R (Params sk)) (P (Params sk)) 32 = Ok k"
        "Digest (Params sk) = sha256_Sum256 C k"
      using assms(2) by (simp_all add: made_from_def Let_def)
    from that k(1) obtain k' where k': "scrypt_Key C pw' (Salt (Params sk)) (N (Params sk)) (R (Params sk)) (P (Params sk)) 32 = Ok k'"
        "sha256_Sum256 C k' \<noteq> sha256_Sum256 C k"
      unfolding differs_def by blast
    from derive [OF k'(1)] k'(2) k(2) show ?thesis by auto
  qed
qed

text \<open>The manager that \<^verbatim>\<open>Open\<close> returns.\<close>

definition opened ::
  "('k, 'sk, 'pk, 'a, 'n, 's) env \<Rightarrow> bytes \<Rightarrow> bytes \<Rightarrow> bytes \<Rightarrow> (KeyScope \<times> ScopeAddrSchema) list \<Rightarrow> ('k, 'n) Manager \<Rightarrow> bool" where
  "opened E privPass keyPub keyPriv xs m \<longleftrightarrow> locked m \<and> \<not> watchingOnly m \<and> \<not> closed m
   \<and> cryptoKeyPub m = keyPub \<and> cryptoKeyPriv m = make_bytes 32 \<and> length keyPriv = 32 \<and> loads xs (scopedManagers m)
   \<and> (\<exists>mk k. made_from (env_crypto E) privPass mk k \<and> masterKeyPriv m = blank mk
      \<and> decrypt E k (cryptoKeyPrivEncrypted m) = Ok keyPriv)"

lemma fetchBirthday_stored:
  assumes "bolt_contract (env_bolt E)" and "view (env_bolt E) (db w) ns syncBucketName = Some Sub"
    and "view (env_bolt E) (db w) (ns @ [syncBucketName]) birthdayName = Some (Val (le64 t))"
  shows "fetchBirthday (dbw E) ns w = (Ok (le_word (rev (le64 t))), w)"
  using assms(2,3)
  by (intro prog_eqI) (simp_all add: fetchBirthday_def go_simps go_len_def uint64_be_def
      walletdb_bucket.nested_simps [OF dbw_contract [OF assms(1)]] walletdb_bucket.Get_sem [OF dbw_contract [OF assms(1)]])

text \<open>The end of \<^verbatim>\<open>loadManager\<close>, from the derivation of the public master key on.\<close>

definition finish_open ::
  "('k, 'sk, 'pk, 'a, 'n, 's) env \<Rightarrow> bkt \<Rightarrow> 'n option \<Rightarrow> SecretKey \<Rightarrow> SecretKey \<Rightarrow> bytes \<Rightarrow> bytes \<Rightarrow> bytes \<Rightarrow> u64
   \<Rightarrow> unit result \<Rightarrow> (('s, 'z) base_scheme, ('k, 'n) Manager) go" where
  "finish_open E ns params mkPub mkPriv pubEnc privEnc scriptEnc birthday derived =
     bnd (as_error ErrWrongPassphrase (lift derived)) (\<lambda>_.
     bnd (as_error ErrCrypto (lift (SecretKey_Decrypt (env_crypto E) mkPub pubEnc))) (\<lambda>keyPubCT.
     bnd (as_error ErrCrypto (random (read_random saltSize))) (\<lambda>salt.
     bnd (load_scopes E ns) (\<lambda>scoped.
     ret (newManager params mkPub mkPriv (cryptoKey_CopyBytes (make_bytes KeySize) keyPubCT) privEnc scriptEnc
       birthday salt scoped False)))))"

text \<open>What \<^verbatim>\<open>Open\<close> reads from a stored manager.\<close>

lemma Open_reads:
  assumes bolt: "bolt_contract (env_bolt E)" and V: "view (env_bolt E) (db w) = V"
    and stored: "stored_records E V ns pubPass privPass keyPub keyPriv xs"
  obtains mkPub kPub pubEnc mkPriv kPriv privEnc script birthday where
    "made_from (env_crypto E) pubPass mkPub kPub" "decrypt E kPub pubEnc = Ok keyPub" "length keyPub = 32"
    "made_from (env_crypto E) privPass mkPriv kPriv" "decrypt E kPriv privEnc = Ok keyPriv" "length keyPriv = 32"
    "\<And>pw mkPub' derived. SecretKey_DeriveKey (env_crypto E) pw (blank mkPub) = (derived, mkPub') \<Longrightarrow>
      Open E (Some ns) pw params w
        = finish_open E ns params mkPub' (blank mkPriv) pubEnc privEnc (opt_bytes script) birthday derived w"
proof -
  have buckets: "V ns mainBucketName = Some Sub" "V ns syncBucketName = Some Sub"
    using stored by (simp_all add: stored_records_def has_buckets_def mgrBuckets_def)
  obtain mkPub kPub pubEnc where pub: "made_from (env_crypto E) pubPass mkPub kPub"
      "V (ns @ [mainBucketName]) masterPubKeyName = Some (Val (SecretKey_Marshal mkPub))"
      "V (ns @ [mainBucketName]) cryptoPubKeyName = Some (Val pubEnc)" "decrypt E kPub pubEnc = Ok keyPub" "length keyPub = 32"
    using stored by (auto simp: stored_records_def master_record_def)
  obtain mkPriv kPriv privEnc where priv: "made_from (env_crypto E) privPass mkPriv kPriv"
      "V (ns @ [mainBucketName]) masterPrivKeyName = Some (Val (SecretKey_Marshal mkPriv))"
      "V (ns @ [mainBucketName]) cryptoPrivKeyName = Some (Val privEnc)" "decrypt E kPriv privEnc = Ok keyPriv" "length keyPriv = 32"
    using stored by (auto simp: stored_records_def master_record_def)
  obtain t where t: "V (ns @ [syncBucketName]) birthdayName = Some (Val (le64 t))" using stored by (auto simp: stored_records_def)
  note fetch = walletdb_bucket.main_fetch [OF dbw_contract [OF bolt], of w ns, unfolded V, OF buckets(1)]
  have reads: "fetchManagerVersion (dbw E) ns w = (Ok latestMgrVersion, w)" "fetchWatchingOnly (dbw E) ns w = (Ok False, w)"
      "fetchMasterKeyParams (dbw E) ns w = (Ok (SecretKey_Marshal mkPub, Some (SecretKey_Marshal mkPriv)), w)"
      "\<exists>script. fetchCryptoKeys (dbw E) ns w = (Ok (pubEnc, Some privEnc, script), w)"
      "fetchBirthday (dbw E) ns w = (Ok (le_word (rev (le64 t))), w)"
    using stored pub priv fetch fetchBirthday_stored [OF bolt, of w ns t] V buckets t
    by (simp_all add: stored_records_def)
  from reads(4) obtain script where script: "fetchCryptoKeys (dbw E) ns w = (Ok (pubEnc, Some privEnc, script), w)" by blast
  have exists: "managerExists E (Some ns) w = (Ok True, w)" using buckets V by (simp add: managerExists_eq [OF bolt])
  have run: "Open E (Some ns) pw params w
      = finish_open E ns params mkPub' (blank mkPriv) pubEnc privEnc (opt_bytes script) (le_word (rev (le64 t))) derived w"
    if "SecretKey_DeriveKey (env_crypto E) pw (blank mkPub) = (derived, mkPub')" for pw mkPub' derived
    by (simp add: Open_def loadManager_def finish_open_def bnd_def exists reads(1-3) reads(5) script that wrap_err_def as_error_def
        lift_def ret_def deref_def unmarshal_Marshal [OF pub(1)] unmarshal_Marshal [OF priv(1)] opt_bytes_def Let_def split: res.split prod.split)
  show ?thesis by (rule that [OF pub(1,4,5) priv(1,4,5) run])
qed

lemma Open_records:
  assumes bolt: "bolt_contract (env_bolt E)" and crypto: "crypto_contract (env_crypto E)"
    and sees: "sees E V (n + 32) w" and stored: "stored_records E V ns pubPass privPass keyPub keyPriv xs"
    and xs: "distinct (map fst xs)"
  shows "gives (Open E (Some ns) pubPass params) (\<lambda>m w'. opened E privPass keyPub keyPriv xs m \<and> sees E V n w') w"
    and "differs (env_crypto E) pubPass pw \<Longrightarrow> fst (Open E (Some ns) pw params w)
      = Err (managerError ErrWrongPassphrase (Some (SnaclError ErrInvalidPassword)))"
proof -
  have V: "view (env_bolt E) (db w) = V" using sees by (simp add: sees_def)
  obtain mkPub kPub pubEnc mkPriv kPriv privEnc script birthday where
    pub: "made_from (env_crypto E) pubPass mkPub kPub" "decrypt E kPub pubEnc = Ok keyPub" "length keyPub = 32"
    and priv: "made_from (env_crypto E) privPass mkPriv kPriv" "decrypt E kPriv privEnc = Ok keyPriv" "length keyPriv = 32"
    and run: "\<And>pw mkPub' derived. SecretKey_DeriveKey (env_crypto E) pw (blank mkPub) = (derived, mkPub') \<Longrightarrow>
      Open E (Some ns) pw params w
        = finish_open E ns params mkPub' (blank mkPriv) pubEnc privEnc (opt_bytes script) birthday derived w"
    using Open_reads [OF bolt V stored, where params = params] by blast
  note derive = DeriveKey_blank [OF crypto pub(1)]
  show "fst (Open E (Some ns) pw params w) = Err (managerError ErrWrongPassphrase (Some (SnaclError ErrInvalidPassword)))"
    if "differs (env_crypto E) pubPass pw"
    using derive(2) [OF that] run by (auto simp: finish_open_def bnd_def as_error_def wrap_err_def lift_def)
  have dec: "SecretKey_Decrypt (env_crypto E) ((blank mkPub)\<lparr>Key := Some kPub\<rparr>) pubEnc = Ok keyPub"
    using pub(2) by (simp add: SecretKey_Decrypt_def decrypt_def)
  have loaded: "gives (load_scopes E ns) (\<lambda>ls w'. loads xs ls \<and> w' = u) u" if "sees E V n u" for u
    using that stored
    by (intro gives_load_scopes [OF bolt _ _ _ xs, of u V])
      (auto simp: sees_def stored_records_def has_buckets_def mgrBuckets_def)
  have "gives (finish_open E ns params ((blank mkPub)\<lparr>Key := Some kPub\<rparr>) (blank mkPriv) pubEnc privEnc (opt_bytes script)
      birthday (Ok ())) (\<lambda>m w'. opened E privPass keyPub keyPriv xs m \<and> sees E V n w') w"
    unfolding finish_open_def dec bnd_done as_error_def
    by (rule step_salt [OF sees], simp, rule gives_step, rule loaded, simp, rule gives_ret)
      (use pub priv in \<open>auto simp: opened_def newManager_simps cryptoKey_CopyBytes_def KeySize_def\<close>)
  then show "gives (Open E (Some ns) pubPass params) (\<lambda>m w'. opened E privPass keyPub keyPriv xs m \<and> sees E V n w') w"
    by (simp add: gives_def run [OF derive(1)])
qed

lemma Open_stored:
  assumes "bolt_contract (env_bolt E)" and "crypto_contract (env_crypto E)"
    and "sees E V (n + 32) w" and "stored_manager E V ns root pubPass privPass keyPub keyPriv xs" and "distinct (map fst xs)"
  shows "gives (Open E (Some ns) pubPass params) (\<lambda>m w'. opened E privPass keyPub keyPriv xs m \<and> sees E V n w') w"
    and "differs (env_crypto E) pubPass pw \<Longrightarrow> fst (Open E (Some ns) pw params w)
      = Err (managerError ErrWrongPassphrase (Some (SnaclError ErrInvalidPassword)))"
  by (rule Open_records [OF assms(1-3) stored_manager_records [OF assms(4)] assms(5)])+

section \<open>Unlocking what was opened\<close>

lemma Unlock_opened_states:
  assumes crypto: "crypto_contract (env_crypto E)" and opened: "opened E privPass keyPub keyPriv xs (mgr w)" and "privPass \<noteq> []"
  shows "\<exists>k. Unlock E ns privPass w = (Ok (), w\<lparr>mgr := (mgr w)\<lparr>masterKeyPriv := (masterKeyPriv (mgr w))\<lparr>Key := Some k\<rparr>,
      cryptoKeyPriv := keyPriv, locked := False,
      hashedPrivPassphrase := sha512_Sum512 (env_crypto E) (privPassphraseSalt (mgr w) @ privPass)\<rparr>\<rparr>)"
    and "differs (env_crypto E) privPass pw \<Longrightarrow> Unlock E ns pw w = (Err (managerError ErrWrongPassphrase None),
      w\<lparr>heap := lock_addresses (cached_addresses (mgr w)) (heap w), mgr := locked_manager (mgr w)\<rparr>)"
proof -
  obtain mk k where mk: "made_from (env_crypto E) privPass mk k" "masterKeyPriv (mgr w) = blank mk"
      "decrypt E k (cryptoKeyPrivEncrypted (mgr w)) = Ok keyPriv"
    using opened by (auto simp: opened_def)
  have key: "Key (masterKeyPriv (mgr w)) = Some (make_bytes 32)" "length (make_bytes 32) = 32" "Params (masterKeyPriv (mgr w)) = Params mk"
    using mk(2) by (simp_all add: blank_def)
  have right: "scrypt_Key (env_crypto E) privPass (Salt (Params mk)) (N (Params mk)) (R (Params mk)) (P (Params mk)) 32 = Ok k"
      "sha256_Sum256 (env_crypto E) k = Digest (Params mk)"
    using mk(1) by (simp_all add: made_from_def Let_def)
  note keys = unlock_keys_right [OF crypto key right mk(3) [unfolded decrypt_def]]
  show "\<exists>k. Unlock E ns privPass w = (Ok (), w\<lparr>mgr := (mgr w)\<lparr>masterKeyPriv := (masterKeyPriv (mgr w))\<lparr>Key := Some k\<rparr>,
      cryptoKeyPriv := keyPriv, locked := False,
      hashedPrivPassphrase := sha512_Sum512 (env_crypto E) (privPassphraseSalt (mgr w) @ privPass)\<rparr>\<rparr>)"
    using opened assms(3) by (subst Unlock_fresh [OF _ _ _ keys]) (auto simp: opened_def loads_def)
  show "Unlock E ns pw w = (Err (managerError ErrWrongPassphrase None),
      w\<lparr>heap := lock_addresses (cached_addresses (mgr w)) (heap w), mgr := locked_manager (mgr w)\<rparr>)"
    if "differs (env_crypto E) privPass pw"
  proof -
    obtain k' where k': "scrypt_Key (env_crypto E) pw (Salt (Params mk)) (N (Params mk)) (R (Params mk)) (P (Params mk)) 32 = Ok k'"
        "sha256_Sum256 (env_crypto E) k' \<noteq> sha256_Sum256 (env_crypto E) k"
      using \<open>differs (env_crypto E) privPass pw\<close> right(1) unfolding differs_def by blast
    then have "sha256_Sum256 (env_crypto E) k' \<noteq> Digest (Params mk)" using right(2) by simp
    from unlock_keys_wrong [OF crypto key k'(1) this] show ?thesis
      using opened by (simp add: Unlock_def bnd_def reads_def opened_def)
  qed
qed

lemma Unlock_opened:
  assumes "crypto_contract (env_crypto E)" and "opened E privPass keyPub keyPriv xs (mgr w)" and "privPass \<noteq> []"
  shows "\<exists>w'. Unlock E ns privPass w = (Ok (), w') \<and> \<not> locked (mgr w') \<and> db w' = db w
      \<and> cryptoKeyPub (mgr w') = keyPub \<and> cryptoKeyPriv (mgr w') = keyPriv"
    and "differs (env_crypto E) privPass pw \<Longrightarrow> \<exists>w'. Unlock E ns pw w = (Err (managerError ErrWrongPassphrase None), w')
      \<and> locked (mgr w') \<and> db w' = db w"
  using Unlock_opened_states(1) [OF assms, where ns = ns] Unlock_opened_states(2) [OF assms, where pw = pw and ns = ns] assms(2)
  by (auto simp: opened_def)

text \<open>The keys of the default account, once the crypto keys are known.\<close>

lemma stored_scope_account:
  assumes bolt: "bolt_contract (env_bolt E)" and "stored_scope E keyPub keyPriv root (view (env_bolt E) (db w)) ns scope"
  shows "fst (fetchAccountByName (dbw E) ns scope defaultAccountName w) = Ok DefaultAccountNum"
    and "\<exists>ct ctPub acct acctPub row. usable_root E root scope ct ctPub acct acctPub
      \<and> fst (fetchAccountInfo (dbw E) ns scope DefaultAccountNum w) = Ok (DefaultRow row)
      \<and> decrypt E keyPub (dar_pubKeyEncrypted row) = Ok (hd_String E acctPub)
      \<and> decrypt E keyPriv (dar_privKeyEncrypted row) = Ok (hd_String E acct)"
proof -
  note contract = dbw_contract [OF bolt]
  obtain ct ctPub acct acctPub pub priv where
    ready: "scope_ready (view (env_bolt E) (db w)) ns scope"
    and name: "view (env_bolt E) (db w) (acct_name_path ns scope) (stringToBytes defaultAccountName) = Some (Val (uint32ToBytes DefaultAccountNum))"
    and usable: "usable_root E root scope ct ctPub acct acctPub"
    and row: "view (env_bolt E) (db w) (acct_path ns scope) (uint32ToBytes DefaultAccountNum)
      = Some (Val (accountDefault # field (default_raw pub priv)))"
    and len: "length pub \<le> 151" "length priv \<le> 151"
    and dec: "decrypt E keyPub pub = Ok (hd_String E acctPub)" "decrypt E keyPriv priv = Ok (hd_String E acct)"
    using assms(2) unfolding stored_scope_def by blast
  show "fst (fetchAccountByName (dbw E) ns scope defaultAccountName w) = Ok DefaultAccountNum"
    using walletdb_bucket.fetchAccountByName_effect(1) [OF contract ready name] by simp
  have "length pub + length priv + length defaultAccountName + 25 < 2 ^ 32" using len by simp
  from walletdb_bucket.fetchAccountInfo_default [OF contract ready this default_raw_def row] usable dec
  show "\<exists>ct ctPub acct acctPub row. usable_root E root scope ct ctPub acct acctPub
      \<and> fst (fetchAccountInfo (dbw E) ns scope DefaultAccountNum w) = Ok (DefaultRow row)
      \<and> decrypt E keyPub (dar_pubKeyEncrypted row) = Ok (hd_String E acctPub)
      \<and> decrypt E keyPriv (dar_privKeyEncrypted row) = Ok (hd_String E acct)" by fastforce
qed

text \<open>The root key comes back out of the database.\<close>

lemma root_private_key_stored:
  assumes bolt: "bolt_contract (env_bolt E)" and "\<not> locked m" and "cryptoKeyPriv m = keyPriv"
    and "stored_manager E (view (env_bolt E) (db w)) ns root pubPass privPass keyPub keyPriv xs"
  shows "fst (root_private_key E ns m w)
    = map_err (\<lambda>err. managerError ErrCrypto (Some err)) (hd_NewKeyFromString E (hd_String E root))"
proof -
  have main: "view (env_bolt E) (db w) ns mainBucketName = Some Sub"
    using assms(4) by (simp add: stored_manager_def has_buckets_def mgrBuckets_def)
  obtain c where "view (env_bolt E) (db w) (ns @ [mainBucketName]) masterHDPrivName = Some (Val c)"
      "decrypt E keyPriv c = Ok (hd_String E root)"
    using assms(4) by (auto simp: stored_manager_def)
  with assms(2,3) walletdb_bucket.main_fetch(2) [OF dbw_contract [OF bolt] main] show ?thesis
    by (simp add: root_private_key_def bnd_def as_error_def wrap_err_def lift_def)
qed

text \<open>What an unlocked manager can read.\<close>

lemma stored_manager_unlocked:
  assumes bolt: "bolt_contract (env_bolt E)" and "\<not> locked (mgr u)" and keys: "cryptoKeyPub (mgr u) = keyPub" "cryptoKeyPriv (mgr u) = keyPriv"
    and stored: "stored_manager E (view (env_bolt E) (db u)) ns root pubPass privPass keyPub keyPriv xs"
    and xs: "fst ` set xs = set DefaultKeyScopes"
  shows "fst (root_private_key E ns (mgr u) u)
      = map_err (\<lambda>err. managerError ErrCrypto (Some err)) (hd_NewKeyFromString E (hd_String E root))
    \<and> (\<forall>scope \<in> set DefaultKeyScopes. fst (fetchAccountByName (dbw E) ns scope defaultAccountName u) = Ok 0
        \<and> (\<exists>ct ctPub acct acctPub row. usable_root E root scope ct ctPub acct acctPub
            \<and> fst (fetchAccountInfo (dbw E) ns scope 0 u) = Ok (DefaultRow row)
            \<and> decrypt E (cryptoKeyPub (mgr u)) (dar_pubKeyEncrypted row) = Ok (hd_String E acctPub)
            \<and> decrypt E (cryptoKeyPriv (mgr u)) (dar_privKeyEncrypted row) = Ok (hd_String E acct)))"
proof (intro conjI ballI)
  show "fst (root_private_key E ns (mgr u) u)
      = map_err (\<lambda>err. managerError ErrCrypto (Some err)) (hd_NewKeyFromString E (hd_String E root))"
    by (rule root_private_key_stored [OF bolt assms(2) keys(2) stored])
  fix scope
  assume "scope \<in> set DefaultKeyScopes"
  then have "scope \<in> fst ` set xs" using xs by simp
  then have scope: "stored_scope E keyPub keyPriv root (view (env_bolt E) (db u)) ns scope"
    using stored by (auto simp: stored_manager_def)
  note account = stored_scope_account [OF bolt scope, unfolded DefaultAccountNum_def]
  show "fst (fetchAccountByName (dbw E) ns scope defaultAccountName u) = Ok 0" by (rule account(1))
  show "\<exists>ct ctPub acct acctPub row. usable_root E root scope ct ctPub acct acctPub
      \<and> fst (fetchAccountInfo (dbw E) ns scope 0 u) = Ok (DefaultRow row)
      \<and> decrypt E (cryptoKeyPub (mgr u)) (dar_pubKeyEncrypted row) = Ok (hd_String E acctPub)
      \<and> decrypt E (cryptoKeyPriv (mgr u)) (dar_privKeyEncrypted row) = Ok (hd_String E acct)"
    unfolding keys by (rule account(2))
qed

text \<open>\<^verbatim>\<open>Create\<close> as both properties below use it.\<close>

lemma Create_stores:
  fixes E :: "('k, 'sk, 'pk, 'a, 'n, 's) env" and w :: "('s, 'z) base_scheme"
  assumes "bolt_contract (env_bolt E)" and "crypto_contract (env_crypto E)" and "short_keys E" and "wallet_root E root"
    and "scrypt_works (env_crypto E) (options config) pubPass" and "scrypt_works (env_crypto E) (options config) privPass"
    and "privPass \<noteq> []" and "distinct (map fst xs)" and "fst ` set xs = set DefaultKeyScopes"
    and "bolt_Writable (env_bolt E) (db w)" and "728 \<le> length (rng w)" and "live (view (env_bolt E) (db w)) ns"
    and "\<forall>k \<in> set mgrBuckets. view (env_bolt E) (db w) ns k = None"
  obtains w1 V keyPub keyPriv where "Create E ns (Some root) pubPass privPass config birthday xs now w = (Ok (), w1)"
    and "sees E V (0 + 32) w1" and "stored_manager E V ns root pubPass privPass keyPub keyPriv xs"
proof -
  have "sees E (view (env_bolt E) (db w)) (32 + 696) w" using assms(10,11) by (simp add: sees_def)
  from gives_Create [OF assms(1-9) this assms(12,13), of birthday now] that show ?thesis
    by (auto simp: gives_def)
qed

section \<open>Properties\<close>

text \<open>C7: creating a manager in an empty namespace and opening it. \<^verbatim>\<open>Create\<close> succeeds whatever the order in
  which the map of scopes is iterated, if the random source has 728 bytes left for the two calls.
  \<^verbatim>\<open>Open\<close> with the public passphrase then returns a locked manager that has exactly the default
  scopes, each with its address schema and with nothing cached. Any passphrase with another digest
  is refused as wrong.\<close>

theorem mgr_create_open:
  fixes E :: "('k, 'sk, 'pk, 'a, 'n, 's) env" and w :: "('s, 'z) base_scheme" and params :: "'n option"
  assumes "bolt_contract (env_bolt E)" and "crypto_contract (env_crypto E)" and "short_keys E" and "wallet_root E root"
    and "scrypt_works (env_crypto E) (options config) pubPass" and "scrypt_works (env_crypto E) (options config) privPass"
    and "privPass \<noteq> []" and "distinct (map fst xs)" and "fst ` set xs = set DefaultKeyScopes"
    and "bolt_Writable (env_bolt E) (db w)" and "728 \<le> length (rng w)" and "live (view (env_bolt E) (db w)) ns"
    and "\<forall>k \<in> set mgrBuckets. view (env_bolt E) (db w) ns k = None"
    and "w1 = snd (Create E ns (Some root) pubPass privPass config birthday xs now w)"
  shows "fst (Create E ns (Some root) pubPass privPass config birthday xs now w) = Ok ()
    \<and> (\<exists>m w2. Open E (Some ns) pubPass params w1 = (Ok m, w2) \<and> locked m \<and> \<not> watchingOnly m \<and> \<not> closed m
         \<and> (\<forall>scope. map_of (scopedManagers m) scope = map_option (new_scoped scope) (map_of xs scope)))
    \<and> (\<forall>pw. differs (env_crypto E) pubPass pw \<longrightarrow>
         fst (Open E (Some ns) pw params w1) = Err (managerError ErrWrongPassphrase (Some (SnaclError ErrInvalidPassword))))"
proof -
  obtain w1' V keyPub keyPriv where run: "Create E ns (Some root) pubPass privPass config birthday xs now w = (Ok (), w1')"
    and stored: "sees E V (0 + 32) w1'" "stored_manager E V ns root pubPass privPass keyPub keyPriv xs"
    by (rule Create_stores [OF assms(1-13)])
  note opens = Open_stored [OF assms(1,2) stored assms(8), where params = params]
  have "w1' = w1" using run assms(14) by simp
  with run opens show ?thesis
    unfolding gives_def opened_def loads_def by auto
qed

text \<open>C3: creating, opening and unlocking. The private passphrase unlocks the manager that \<^verbatim>\<open>Open\<close> returned;
  then the root key is read back as it was given, and in every default scope the account named
  \<open>default\<close> has number 0 and its sealed keys open to the keys derived from the root key. A passphrase
  with another digest gives \<^verbatim>\<open>ErrWrongPassphrase\<close> and leaves the manager locked. The database is
  untouched by either.\<close>

theorem mgr_create_unlock:
  fixes E :: "('k, 'sk, 'pk, 'a, 'n, 's) env" and w :: "('s, 'z) base_scheme" and u :: "('k, 'pk, 'a, 'n, 's) world"
  assumes "bolt_contract (env_bolt E)" and "crypto_contract (env_crypto E)" and "short_keys E" and "wallet_root E root"
    and "scrypt_works (env_crypto E) (options config) pubPass" and "scrypt_works (env_crypto E) (options config) privPass"
    and "privPass \<noteq> []" and "distinct (map fst xs)" and "fst ` set xs = set DefaultKeyScopes"
    and "bolt_Writable (env_bolt E) (db w)" and "728 \<le> length (rng w)" and "live (view (env_bolt E) (db w)) ns"
    and "\<forall>k \<in> set mgrBuckets. view (env_bolt E) (db w) ns k = None"
    and "w1 = snd (Create E ns (Some root) pubPass privPass config birthday xs now w)"
    and "fst (Open E (Some ns) pubPass params w1) = Ok (mgr u)" and "db u = db w1" and "u' = snd (Unlock E ns privPass u)"
  shows "fst (Unlock E ns privPass u) = Ok () \<and> \<not> locked (mgr u')
    \<and> fst (root_private_key E ns (mgr u') u')
        = map_err (\<lambda>err. managerError ErrCrypto (Some err)) (hd_NewKeyFromString E (hd_String E root))
    \<and> (\<forall>scope \<in> set DefaultKeyScopes. fst (fetchAccountByName (dbw E) ns scope defaultAccountName u') = Ok 0
        \<and> (\<exists>ct ctPub acct acctPub row. usable_root E root scope ct ctPub acct acctPub
            \<and> fst (fetchAccountInfo (dbw E) ns scope 0 u') = Ok (DefaultRow row)
            \<and> decrypt E (cryptoKeyPub (mgr u')) (dar_pubKeyEncrypted row) = Ok (hd_String E acctPub)
            \<and> decrypt E (cryptoKeyPriv (mgr u')) (dar_privKeyEncrypted row) = Ok (hd_String E acct)))
    \<and> (\<forall>pw. differs (env_crypto E) privPass pw \<longrightarrow>
         fst (Unlock E ns pw u) = Err (managerError ErrWrongPassphrase None) \<and> locked (mgr (snd (Unlock E ns pw u)))
         \<and> db (snd (Unlock E ns pw u)) = db u)
    \<and> db u' = db u"
proof -
  obtain w1' V keyPub keyPriv where run: "Create E ns (Some root) pubPass privPass config birthday xs now w = (Ok (), w1')"
    and stored: "sees E V (0 + 32) w1'" "stored_manager E V ns root pubPass privPass keyPub keyPriv xs"
    by (rule Create_stores [OF assms(1-13)])
  have "w1' = w1" using run assms(14) by simp
  then have V: "view (env_bolt E) (db u) = V" using stored(1) assms(16) by (simp add: sees_def)
  have opened: "opened E privPass keyPub keyPriv xs (mgr u)"
    using Open_stored(1) [OF assms(1,2) stored assms(8), where params = params] assms(15) \<open>w1' = w1\<close> by (auto simp: gives_def)
  note unlock = Unlock_opened [OF assms(2) opened assms(7), where ns = ns]
  obtain u'' where u'': "Unlock E ns privPass u = (Ok (), u'')" "\<not> locked (mgr u'')" "db u'' = db u"
      "cryptoKeyPub (mgr u'') = keyPub" "cryptoKeyPriv (mgr u'') = keyPriv"
    using unlock(1) by blast
  have "u'' = u'" using u''(1) assms(17) by simp
  note u' = u'' [unfolded this]
  have "stored_manager E (view (env_bolt E) (db u')) ns root pubPass privPass keyPub keyPriv xs"
    using stored(2) V u'(3) by simp
  note secrets = stored_manager_unlocked [OF assms(1) u'(2,4,5) this assms(9)]
  have "fst (Unlock E ns pw u) = Err (managerError ErrWrongPassphrase None) \<and> locked (mgr (snd (Unlock E ns pw u)))
         \<and> db (snd (Unlock E ns pw u)) = db u" if "differs (env_crypto E) privPass pw" for pw
    using unlock(2) [OF that] by auto
  with secrets u'(1-3) show ?thesis by simp
qed

text \<open>A store with one empty bucket and enough random bytes; the library of the other examples.\<close>

definition example_base :: "mem base" where
  "example_base = \<lparr>db = example_store, rng = replicate 728 0\<rparr>"

lemma example_wallet:
  "bolt_contract (env_bolt example_hd)" "crypto_contract (env_crypto example_hd)"
  "short_keys example_hd" "wallet_root example_hd 1" "scrypt_works (env_crypto example_hd) (options opt) pw"
  "scrypt_works (env_crypto example_hd) (options opt) pw'" "[2 :: byte] \<noteq> []"
  "distinct (map fst ScopeAddrMap)" "fst ` set ScopeAddrMap = set DefaultKeyScopes"
  "bolt_Writable (env_bolt example_hd) (db example_base)" "728 \<le> length (rng example_base)"
  "live (view (env_bolt example_hd) (db example_base)) example_ns"
  "\<forall>k \<in> set mgrBuckets. view (env_bolt example_hd) (db example_base) example_ns k = None"
proof -
  show "bolt_contract (env_bolt example_hd)" "crypto_contract (env_crypto example_hd)"
    using mem.bolt_contract_axioms ref_crypto.crypto_contract_axioms by simp_all
  show "short_keys example_hd" by (simp add: short_keys_def example_hd_def)
  show "wallet_root example_hd 1"
    by (auto simp: wallet_root_def usable_root_def deriveCoinTypeKey_def deriveAccountKey_def checkBranchKeys_def
        example_hd_def key_limits DefaultKeyScopes_def bip_scopes)
  show "scrypt_works (env_crypto example_hd) (options opt) pw" "scrypt_works (env_crypto example_hd) (options opt) pw'"
    by (simp_all add: scrypt_works_def ref_crypto_def)
qed (simp_all add: ScopeAddrMap_def DefaultKeyScopes_def bip_scopes example_base_def)

theorem mgr_create_open_witness:
  "\<exists>m w2. Open example_hd (Some example_ns) [1] (None :: nat option)
     (snd (Create example_hd example_ns (Some 1) [1] [2] None 0 ScopeAddrMap 0 example_base)) = (Ok m, w2) \<and> locked m"
  using mgr_create_open [OF example_wallet refl] by blast

theorem mgr_create_unlock_witness:
  "\<exists>u :: (nat, nat, nat, nat, mem) world. locked (mgr u) \<and> fst (Unlock example_hd example_ns [2] u) = Ok ()
     \<and> \<not> locked (mgr (snd (Unlock example_hd example_ns [2] u)))"
proof -
  let ?create = "Create example_hd example_ns (Some 1) [1] [2] None 0 ScopeAddrMap 0 example_base"
  obtain w1 V keyPub keyPriv where run: "?create = (Ok (), w1)"
    and stored: "sees example_hd V (0 + 32) w1" "stored_manager example_hd V example_ns 1 [1] [2] keyPub keyPriv ScopeAddrMap"
    by (rule Create_stores [OF example_wallet])
  from Open_stored(1) [OF example_wallet(1,2) stored example_wallet(8), of "None :: nat option"] obtain m
    where m: "fst (Open example_hd (Some example_ns) [1] (None :: nat option) w1) = Ok m" "locked m"
    by (auto simp: gives_def opened_def)
  let ?u = "\<lparr>db = db w1, rng = [], mgr = m, heap = [], hooks = []\<rparr> :: (nat, nat, nat, nat, mem) world"
  have "fst (Open example_hd (Some example_ns) [1] (None :: nat option) (snd ?create)) = Ok (mgr ?u)" "db ?u = db (snd ?create)"
    using run m by simp_all
  from mgr_create_unlock [OF example_wallet refl this refl] m(2) show ?thesis by (intro exI [of _ ?u]) simp
qed

end
