(* ===== verification/WalletLife.thy ===== *)
theory WalletLife
  imports Loader MgrCreate
begin

text \<open>
  The life of a wallet across two runs of the program: \<^verbatim>\<open>CreateNewWallet\<close> in one process,
  \<^verbatim>\<open>OpenExistingWallet\<close> in another (\<^verbatim>\<open>wallet/loader.go\<close>, \<^verbatim>\<open>wallet/wallet.go\<close>), and unlocking the
  address manager of the opened wallet. Nothing connects the two runs but the file.
\<close>

section \<open>The disk\<close>

text \<open>What the wallet relies on of bbolt's files: a handle names the file it was opened on, a new file is
  empty, an old one shows what was committed to it. \<open>ready h d\<close> says that the database of \<open>h\<close> is open on
  \<open>d\<close> and the disk has room: its transactions begin and commit.\<close>

locale wallet_disk = wallet_files S
  for S :: "('k, 'n, 'd, 'h, 's) sys" +
  fixes B :: "'s bolt" and contents :: "gostring \<Rightarrow> 'd \<Rightarrow> view" and file_of :: "'h \<Rightarrow> gostring"
    and ready :: "'h \<Rightarrow> 'd \<Rightarrow> bool"
  assumes database: "boltdb_contract B (bbolt_DB S h) (contents (file_of h))"
    and opens_new: "os_Stat S p d = Inl OsNotExist \<Longrightarrow> bbolt_Open S p nfs t d = (Inr h, d') \<Longrightarrow>
      file_of h = p \<and> contents p d' = (\<lambda>_ _. None) \<and> ready h d'"
    and opens_old: "os_Stat S p d = Inr isDir \<Longrightarrow> bbolt_Open S p nfs t d = (Inr h, d') \<Longrightarrow>
      file_of h = p \<and> contents p d' = contents p d \<and> ready h d'"
    and ready_begins: "ready h d \<Longrightarrow> \<exists>tx. bolt_Begin (bbolt_DB S h) rw d = Inr tx"
    and ready_commits: "ready h d \<Longrightarrow> bolt_Writable B tx \<Longrightarrow>
      \<exists>d'. bolt_Commit (bbolt_DB S h) tx d = (None, d') \<and> ready h d'"
    and ready_rollback: "ready h d \<Longrightarrow> ready h (snd (bolt_Rollback (bbolt_DB S h) tx d))"
begin

text \<open>A transaction whose closure succeeds is committed.\<close>

lemma Update_gives:
  fixes W :: "('d, 'z) proc_scheme"
  assumes "ready h (disk W)"
    and "\<And>b. view B (db b) = contents (file_of h) (disk W) \<Longrightarrow> bolt_Writable B (db b) \<Longrightarrow> rng b = entropy W \<Longrightarrow>
      gives f (\<lambda>a b'. Q a b' \<and> bolt_Writable B (db b')) b"
  shows "gives (db_Update (proc_boltdb (bbolt_DB S h)) f)
    (\<lambda>a W'. \<exists>b'. Q a b' \<and> contents (file_of h) (disk W') = view B (db b') \<and> entropy W' = rng b' \<and> ready h (disk W')) W"
proof -
  note begins = boltdb_contract.begin_view [OF database] and commits = boltdb_contract.commit_ok [OF database]
    and rollbacks = boltdb_contract.rollback_view [OF database]
  obtain tx where tx: "bolt_Begin (bbolt_DB S h) True (disk W) = Inr tx" using ready_begins [OF assms(1)] by blast
  let ?b = "\<lparr>db = tx, rng = entropy W\<rparr> :: 's base"
  obtain a b' where run: "f ?b = (Ok a, b')" "Q a b'" "bolt_Writable B (db b')"
    using assms(2) [of ?b] begins [OF tx] by (auto simp: gives_def)
  obtain d' where d': "bolt_Commit (bbolt_DB S h) (db b') (disk W) = (None, d')" "ready h d'"
    using ready_commits [OF assms(1) run(3)] by blast
  have "db_Update (proc_boltdb (bbolt_DB S h)) f W
      = (Ok a, W\<lparr>disk := snd (bolt_Rollback (bbolt_DB S h) (db b') d'), entropy := rng b'\<rparr>)"
    using tx run(1) d'(1)
    by (simp add: db_Update_def proc_boltdb_def db_rollback_def split: prod.split)
  with run(2) d' commits [OF d'(1)] rollbacks [of h "db b'" d'] ready_rollback [OF d'(2), of "db b'"]
  show ?thesis by (auto simp: gives_def)
qed

end

section \<open>The transaction that creates a wallet\<close>

abbreviation mgr_ns :: bkt where "mgr_ns \<equiv> [waddrmgrNamespaceKey]"

lemma namespace_keys [simp]:
  "waddrmgrNamespaceKey \<noteq> []" "wtxmgrNamespaceKey \<noteq> []" "waddrmgrNamespaceKey \<noteq> wtxmgrNamespaceKey"
  "wtxmgrNamespaceKey \<noteq> waddrmgrNamespaceKey"
  "length waddrmgrNamespaceKey \<le> MaxKeySize" "length wtxmgrNamespaceKey \<le> MaxKeySize"
  by (simp_all add: waddrmgrNamespaceKey_def wtxmgrNamespaceKey_def go_string_def MaxKeySize_def)

lemma CreateTopLevel_eq: "tx_CreateTopLevelBucket B key = CreateBucketIfNotExists (bdb_bucket B) [] key"
  by (simp add: tx_CreateTopLevelBucket_def bucket_CreateBucketIfNotExists_def)

lemma gives_CreateTopLevel:
  fixes E :: "('k, 'sk, 'pk, 'a, 'n, 's) env" and w :: "('s, 'z) base_scheme"
  assumes "bolt_contract (env_bolt E)" and "sees E V n w" and "V [] key = None" and "key \<noteq> []" and "length key \<le> MaxKeySize"
  shows "gives (tx_CreateTopLevelBucket (world_bolt (env_bolt E)) key) (\<lambda>b w'. b = [key] \<and> sees E (vput V [] key Sub) n w') w"
proof -
  note contract = dbw_contract [OF assms(1), where 'z = 'z]
  note creates = walletdb_bucket.fst_Create [OF contract, of w "[]" key] walletdb_bucket.view_Create [OF contract, of w "[]" key]
    walletdb_bucket.rw_Create [OF contract, of "[]" key w]
  have same: "tx_CreateTopLevelBucket (world_bolt (env_bolt E)) key w = CreateBucket (dbw E) [] key w"
    using assms(2,3) walletdb_bucket.CreateIfNotExists_sem [OF contract, of "[]" key w]
    by (simp add: CreateTopLevel_eq dbw_def sees_def)
  have "only_db (CreateBucket (dbw E) [] key :: (('s, 'z) base_scheme, bkt) go)" by (intro frame_intros)
  then have rng: "rng (snd (CreateBucket (dbw E) [] key w)) = rng w" by (rule only_db_rng)
  show ?thesis
    using assms(2-) rng creates
    by (intro givesI [where a = "[key]"]) (simp_all add: same sees_def create_error_def)
qed

lemma ReadWriteBucket_eq:
  "tx_ReadWriteBucket (world_bolt (env_bolt E)) key w
     = (Ok (if view (env_bolt E) (db w) [] key = Some Sub then Some [key] else None), w)"
  by (simp add: tx_ReadWriteBucket_def bnd_def go_simps Bucket_view)

text \<open>A wallet in the database: both namespaces, and a manager in the first one.\<close>

definition stored_wallet ::
  "('k, 'sk, 'pk, 'a, 'n, 's) env \<Rightarrow> view \<Rightarrow> 'k \<Rightarrow> bytes \<Rightarrow> bytes \<Rightarrow> bytes \<Rightarrow> bytes
   \<Rightarrow> (KeyScope \<times> ScopeAddrSchema) list \<Rightarrow> bool" where
  "stored_wallet E V root pubPass privPass keyPub keyPriv xs \<longleftrightarrow>
     V [] waddrmgrNamespaceKey = Some Sub \<and> V [] wtxmgrNamespaceKey = Some Sub
   \<and> stored_manager E V mgr_ns root pubPass privPass keyPub keyPriv xs"

lemma gives_create_tx:
  fixes E :: "('k, 'sk, 'pk, 'a, 'n, 's) env" and w :: "'s base"
  assumes bolt: "bolt_contract (env_bolt E)" and crypto: "crypto_contract (env_crypto E)" and short: "short_keys E"
    and root: "wallet_root E root"
    and scrypt: "scrypt_works (env_crypto E) DefaultScryptOptions pubPass" "scrypt_works (env_crypto E) DefaultScryptOptions privPass"
    and pass: "privPass \<noteq> []" and xs: "distinct (map fst xs)" "fst ` set xs = set DefaultKeyScopes"
    and sees: "sees E (\<lambda>_ _. None) (n + 696) w"
  shows "gives (create_tx E (Some root) pubPass privPass birthday None xs now)
    (\<lambda>_ w'. \<exists>V keyPub keyPriv. sees E V n w' \<and> stored_wallet E V root pubPass privPass keyPub keyPriv xs) w"
proof -
  let ?V1 = "vput (\<lambda>_ _. None) [] waddrmgrNamespaceKey Sub"
  let ?V2 = "vput ?V1 [] wtxmgrNamespaceKey Sub"
  have top: "gives (tx_CreateTopLevelBucket (world_bolt (env_bolt E)) waddrmgrNamespaceKey)
      (\<lambda>b w'. b = mgr_ns \<and> sees E ?V1 (n + 696) w') w"
    by (rule gives_CreateTopLevel [OF bolt sees]) simp_all
  have top2: "gives (tx_CreateTopLevelBucket (world_bolt (env_bolt E)) wtxmgrNamespaceKey)
      (\<lambda>b w'. b = [wtxmgrNamespaceKey] \<and> sees E ?V2 (n + 696) w') t" if "sees E ?V1 (n + 696) t" for t :: "'s base"
    by (rule gives_CreateTopLevel [OF bolt that]) simp_all
  have scrypt': "scrypt_works (env_crypto E) (options None) pubPass" "scrypt_works (env_crypto E) (options None) privPass"
    using scrypt by (simp_all add: options_def)
  have create: "gives (Create E mgr_ns (Some root) pubPass privPass None birthday xs now)
      (\<lambda>_ w'. \<exists>V keyPub keyPriv. sees E V n w' \<and> stored_wallet E V root pubPass privPass keyPub keyPriv xs) t"
    if "sees E ?V2 (n + 696) t" for t :: "'s base"
  proof (rule gives_mono, rule gives_Create [OF bolt crypto short root scrypt' pass xs that])
    fix u and t' :: "'s base"
    assume "\<exists>V' keyPub keyPriv. sees E V' n t' \<and> outside mgr_ns ?V2 V' \<and> stored_manager E V' mgr_ns root pubPass privPass keyPub keyPriv xs"
    moreover have "V' [] k = ?V2 [] k" if "outside mgr_ns ?V2 V'" for V' k using that by (simp add: outside_def)
    ultimately show "\<exists>V keyPub keyPriv. sees E V n t' \<and> stored_wallet E V root pubPass privPass keyPub keyPriv xs"
      by (force simp: stored_wallet_def)
  qed (auto simp: live_def mgrBuckets_def)
  show ?thesis
    unfolding create_tx_def wtxmgr_Create_def option.case
    by (rule gives_step [OF top], elim conjE, hypsubst, rule gives_step [OF top2], assumption, elim conjE, hypsubst,
        rule gives_step [OF create], assumption) (simp add: bnd_done gives_ret)
qed

lemma gives_open_tx:
  fixes E :: "('k, 'sk, 'pk, 'a, 'n, 's) env" and w :: "'s base"
  assumes bolt: "bolt_contract (env_bolt E)" and crypto: "crypto_contract (env_crypto E)"
    and sees: "sees E V (n + 32) w" and stored: "stored_wallet E V root pubPass privPass keyPub keyPriv xs"
    and xs: "distinct (map fst xs)"
  shows "gives (open_tx E pubPass params) (\<lambda>(m, st) w'. opened E privPass keyPub keyPriv xs m \<and> sees E V n w') w"
    and "differs (env_crypto E) pubPass pw \<Longrightarrow> fst (open_tx E pw params w)
      = Err (managerError ErrWrongPassphrase (Some (SnaclError ErrInvalidPassword)))"
proof -
  have buckets: "view (env_bolt E) (db w) [] waddrmgrNamespaceKey = Some Sub" "view (env_bolt E) (db w) [] wtxmgrNamespaceKey = Some Sub"
    and manager: "stored_manager E V mgr_ns root pubPass privPass keyPub keyPriv xs"
    using sees stored by (simp_all add: sees_def stored_wallet_def)
  have run: "open_tx E pw params w = bnd (Open E (Some mgr_ns) pw params) (\<lambda>m. ret (m, \<lparr>st_chainParams = None\<rparr>)) w" for pw
    unfolding open_tx_def wtxmgr_Open_def bnd_done
    by (subst bnd_Ok [OF ReadWriteBucket_eq], simp only: buckets if_True simp_thms option.case,
        subst bnd_Ok [OF ReadWriteBucket_eq], simp only: buckets if_True simp_thms option.case)
  note opens = Open_stored [OF bolt crypto sees manager xs, where params = params]
  show "gives (open_tx E pubPass params) (\<lambda>(m, st) w'. opened E privPass keyPub keyPriv xs m \<and> sees E V n w') w"
    using opens(1) by (auto simp: gives_def run bnd_def ret_def)
  show "fst (open_tx E pw params w) = Err (managerError ErrWrongPassphrase (Some (SnaclError ErrInvalidPassword)))"
    if "differs (env_crypto E) pubPass pw"
    using opens(2) [OF that] by (simp add: run fst_bnd)
qed

section \<open>Creating and opening in a process\<close>

lemma create_db_eq:
  "create_db S p nfs t W = (case bbolt_Open S p nfs t (disk W) of
     (Inl e, d) \<Rightarrow> (Err (convertErr (BoltError e)), W\<lparr>disk := d\<rparr>) | (Inr h, d) \<Rightarrow> (Ok h, W\<lparr>disk := d\<rparr>))"
  using bdb_driver_registered [OF refl, of "stat_error S (disk W)" "\<lambda>path nfs t. fst (bbolt_Open S path nfs t (disk W))"
      "go_string ''bdb''" "[]" p nfs t]
  by (simp add: create_db_def registered_def bdb_args_def split: prod.split sum.split)

lemma open_db_eq:
  assumes "os_Stat S p (disk W) = Inr isDir"
  shows "open_db S p nfs t W = (case bbolt_Open S p nfs t (disk W) of
     (Inl e, d) \<Rightarrow> (Err (convertErr (BoltError e)), W\<lparr>disk := d\<rparr>) | (Inr h, d) \<Rightarrow> (Ok h, W\<lparr>disk := d\<rparr>))"
  using assms bdb_driver_registered [OF refl, of "stat_error S (disk W)" "\<lambda>path nfs t. fst (bbolt_Open S path nfs t (disk W))"
      "go_string ''bdb''" "[]" p nfs t]
  by (simp add: open_db_def registered_def bdb_args_def stat_error_def bdb_fileExists_def split: prod.split sum.split)

lemma gives_keeps: "gives m Q s \<Longrightarrow> keeps f m \<Longrightarrow> gives m (\<lambda>a t. Q a t \<and> f t = f s) s"
  by (auto simp: gives_def keeps_def) (metis snd_conv)

lemma open_failed_Err:
  assumes "l_db (ldr W) = Some h"
  shows "fst (open_failed S err W) = Err err"
  using assms
  by (simp add: open_failed_def bnd_reads fst_bnd close_db_def db_Close_def bolt_result_def deref_simps attempt_simps
      bnd_done raise_simps ret_simps split: prod.split option.split)

lemma gives_reads: "gives (f (g s)) Q s \<Longrightarrow> gives (bnd (reads g) f) Q s"
  by (simp add: gives_def bnd_reads)

lemma gives_OpenWallet:
  "gives (OpenWithRetry E S (l_db (ldr W)) pubPass (l_chainParams (ldr W)) (recoveryWindow (ldr W))
     (walletSyncRetryInterval (cfg (ldr W)))) Q W \<Longrightarrow> gives (OpenWallet E S pubPass) Q W"
  by (simp add: OpenWallet_def bnd_reads gives_def)

text \<open>What is in a wallet's file, and the state of a process that has it open.\<close>

definition wallet_file ::
  "('k, 'sk, 'pk, 'a, 'n, 's) env \<Rightarrow> view \<Rightarrow> 'k \<Rightarrow> bytes \<Rightarrow> bytes \<Rightarrow> (KeyScope \<times> ScopeAddrSchema) list \<Rightarrow> bool" where
  "wallet_file E V root pubPass privPass xs \<longleftrightarrow>
     (\<exists>keyPub keyPriv. stored_wallet E V root pubPass privPass keyPub keyPriv xs)"

text \<open>A manager opened from such a file: locked, with the public key unsealed.\<close>

definition opened_from ::
  "('k, 'sk, 'pk, 'a, 'n, 's) env \<Rightarrow> view \<Rightarrow> 'k \<Rightarrow> bytes \<Rightarrow> bytes \<Rightarrow> (KeyScope \<times> ScopeAddrSchema) list
   \<Rightarrow> ('k, 'n) Manager \<Rightarrow> bool" where
  "opened_from E V root pubPass privPass xs m \<longleftrightarrow> (\<exists>keyPub keyPriv.
     stored_wallet E V root pubPass privPass keyPub keyPriv xs \<and> opened E privPass keyPub keyPriv xs m)"

locale wallet_process = wallet_disk S "env_bolt E" contents file_of ready
  for S :: "('k, 'n, 'd, 'h, 's) sys" and E :: "('k, 'sk, 'pk, 'a, 'n, 's) env"
    and contents :: "gostring \<Rightarrow> 'd \<Rightarrow> view" and file_of :: "'h \<Rightarrow> gostring" and ready :: "'h \<Rightarrow> 'd \<Rightarrow> bool" +
  assumes crypto: "crypto_contract (env_crypto E)"
begin

lemma bolt: "bolt_contract (env_bolt E)"
  using database [unfolded boltdb_contract_def] by blast

lemma gives_CreateWithCallback:
  fixes W :: "('d, 'z) proc_scheme"
  assumes "ready h (disk W)" and "contents (file_of h) (disk W) = (\<lambda>_ _. None)" and "n + 696 \<le> length (entropy W)"
    and short: "short_keys E" and root: "wallet_root E root" "hd_IsPrivate E root"
    and scrypt: "scrypt_works (env_crypto E) DefaultScryptOptions pubPass" "scrypt_works (env_crypto E) DefaultScryptOptions privPass"
    and pass: "privPass \<noteq> []" and xs: "distinct (map fst xs)" "fst ` set xs = set DefaultKeyScopes"
  shows "gives (CreateWithCallback E S (Some h) pubPass privPass (Some root) params birthday None xs now)
    (\<lambda>_ W'. wallet_file E (contents (file_of h) (disk W')) root pubPass privPass xs
       \<and> n \<le> length (entropy W') \<and> ready h (disk W')) W"
proof -
  have "gives (db_Update (proc_boltdb (bbolt_DB S h)) (create_tx E (Some root) pubPass privPass birthday None xs now))
    (\<lambda>a W'. \<exists>b' :: 's base. (\<exists>V keyPub keyPriv. sees E V n b' \<and> stored_wallet E V root pubPass privPass keyPub keyPriv xs)
       \<and> contents (file_of h) (disk W') = view (env_bolt E) (db b') \<and> entropy W' = rng b' \<and> ready h (disk W')) W"
  proof (rule Update_gives [OF assms(1)])
    fix b :: "'s base"
    assume b: "view (env_bolt E) (db b) = contents (file_of h) (disk W)" "bolt_Writable (env_bolt E) (db b)" "rng b = entropy W"
    then have "sees E (\<lambda>_ _. None) (n + 696) b" using assms(2,3) by (simp add: sees_def)
    from gives_create_tx [OF bolt crypto short root(1) scrypt pass xs this]
    show "gives (create_tx E (Some root) pubPass privPass birthday None xs now)
        (\<lambda>a b'. (\<exists>V keyPub keyPriv. sees E V n b' \<and> stored_wallet E V root pubPass privPass keyPub keyPriv xs)
          \<and> bolt_Writable (env_bolt E) (db b')) b"
      by (rule gives_mono) (auto simp: sees_def)
  qed
  then have "gives (walletdb_Update S (Some h) (create_tx E (Some root) pubPass privPass birthday None xs now))
    (\<lambda>_ W'. wallet_file E (contents (file_of h) (disk W')) root pubPass privPass xs
       \<and> n \<le> length (entropy W') \<and> ready h (disk W')) W"
    unfolding walletdb_Update_def deref_simps bnd_done by (rule gives_mono) (auto simp: sees_def wallet_file_def, blast)
  then show ?thesis
    by (simp add: CreateWithCallback_def wallet_create_def root(2) bnd_done)
qed

lemma gives_OpenWithRetry:
  fixes W :: "('d, 'z) proc_scheme"
  assumes "ready h (disk W)" and wf: "wallet_file E (contents (file_of h) (disk W)) root pubPass privPass xs"
    and rng: "32 \<le> length (entropy W)" and xs: "distinct (map fst xs)"
  shows "gives (OpenWithRetry E S (Some h) pubPass params rw t :: (('d, 'z) proc_scheme, ('h, 'k, 'pk, 'a, 'n) Wallet) go)
    (\<lambda>w W'. opened_from E (contents (file_of h) (disk W)) root pubPass privPass xs (w_Manager w)
       \<and> w_sync w = new_sync \<and> w_db w = Some h
       \<and> contents (file_of h) (disk W') = contents (file_of h) (disk W) \<and> ready h (disk W')) W"
    and "differs (env_crypto E) pubPass pw \<Longrightarrow>
      fst (OpenWithRetry E S (Some h) pw params rw t W :: ('h, 'k, 'pk, 'a, 'n) Wallet result \<times> ('d, 'z) proc_scheme)
        = Err (managerError ErrWrongPassphrase (Some (SnaclError ErrInvalidPassword)))"
proof -
  let ?V = "contents (file_of h) (disk W)"
  obtain keyPub keyPriv where stored: "stored_wallet E ?V root pubPass privPass keyPub keyPriv xs"
    using wf by (auto simp: wallet_file_def)
  have sees: "sees E ?V (0 + 32) b" if "view (env_bolt E) (db b) = ?V" "bolt_Writable (env_bolt E) (db b)" "rng b = entropy W"
    for b :: "'s base" using that rng by (simp add: sees_def)
  have "gives (db_Update (proc_boltdb (bbolt_DB S h)) (open_tx E pubPass params))
    (\<lambda>(m, st) W'. \<exists>b' :: 's base. (opened E privPass keyPub keyPriv xs m \<and> sees E ?V 0 b')
       \<and> contents (file_of h) (disk W') = view (env_bolt E) (db b') \<and> entropy W' = rng b' \<and> ready h (disk W')) W"
    by (rule gives_mono, rule Update_gives [OF assms(1), where Q = "\<lambda>(m, st) b'. opened E privPass keyPub keyPriv xs m \<and> sees E ?V 0 b'"],
        rule gives_mono, rule gives_open_tx(1) [OF bolt crypto sees stored xs]) (auto simp: sees_def)
  then show "gives (OpenWithRetry E S (Some h) pubPass params rw t :: (('d, 'z) proc_scheme, ('h, 'k, 'pk, 'a, 'n) Wallet) go)
    (\<lambda>w W'. opened_from E ?V root pubPass privPass xs (w_Manager w) \<and> w_sync w = new_sync \<and> w_db w = Some h
       \<and> contents (file_of h) (disk W') = ?V \<and> ready h (disk W')) W"
    unfolding OpenWithRetry_def walletdb_Update_def deref_simps bnd_done
    by (rule gives_step) (use stored in \<open>auto simp: opened_from_def sees_def intro!: gives_ret, blast\<close>)
  assume pw: "differs (env_crypto E) pubPass pw"
  obtain tx where tx: "bolt_Begin (bbolt_DB S h) True (disk W) = Inr tx" using ready_begins [OF assms(1)] by blast
  then have "view (env_bolt E) tx = ?V" "bolt_Writable (env_bolt E) tx" using boltdb_contract.begin_view [OF database tx] by simp_all
  with gives_open_tx(2) [OF bolt crypto sees stored xs pw, of "\<lparr>db = tx, rng = entropy W\<rparr>" params]
  obtain b' where "open_tx E pw params \<lparr>db = tx, rng = entropy W\<rparr> = (Err (managerError ErrWrongPassphrase (Some (SnaclError ErrInvalidPassword))), b')"
    by (cases "open_tx E pw params \<lparr>db = tx, rng = entropy W\<rparr>") simp
  with tx show "fst (OpenWithRetry E S (Some h) pw params rw t W :: ('h, 'k, 'pk, 'a, 'n) Wallet result \<times> ('d, 'z) proc_scheme)
        = Err (managerError ErrWrongPassphrase (Some (SnaclError ErrInvalidPassword)))"
    by (simp add: OpenWithRetry_def walletdb_Update_def deref_simps bnd_done fst_bnd db_Update_def proc_boltdb_def
        split: prod.split)
qed

text \<open>The two calls of the loader. The file is at \<open>path\<close>.\<close>

lemma gives_createNewWallet:
  fixes W :: "('k, 'pk, 'a, 'n, 'd, 'h, 's) app"
  assumes loader: "localDB (ldr W)" "l_wallet (ldr W) = None" "walletCreated (ldr W) = None" "db_path (ldr W) = path"
    and disk: "os_Stat S path (disk W) = Inl OsNotExist" "os_MkdirAll S (dbDirPath (ldr W)) (disk W) = (None, d1)"
      "os_Stat S path d1 = Inl OsNotExist" "bbolt_Open S path (noFreelistSync (ldr W)) (l_timeout (ldr W)) d1 = (Inr h, d2)"
    and rng: "728 \<le> length (entropy W)"
    and env: "short_keys E" "wallet_root E root" "hd_IsPrivate E root"
      "scrypt_works (env_crypto E) DefaultScryptOptions pubPass" "scrypt_works (env_crypto E) DefaultScryptOptions privPass"
      "privPass \<noteq> []" "distinct (map fst xs)" "fst ` set xs = set DefaultKeyScopes"
  shows "gives (createNewWallet E S pubPass privPass (Some root) bday False xs now)
    (\<lambda>w W'. wallet_file E (contents path (disk W')) root pubPass privPass xs
       \<and> opened_from E (contents path (disk W')) root pubPass privPass xs (w_Manager w)) W"
proof -
  define W2 where "W2 = W\<lparr>disk := d2, ldr := (ldr W)\<lparr>l_db := Some h\<rparr>\<rparr>"
  have opened: "file_of h = path" "contents path d2 = (\<lambda>_ _. None)" "ready h d2"
    using opens_new [OF disk(3,4)] by simp_all
  have exists: "WalletExists S W = (Ok False, W)"
    using loader disk(1) by (simp add: WalletExists_def bnd_reads fileExists_def bnd_def go_simps)
  have made: "make_database S W = (Ok (), W2)"
    using loader disk(2,4)
    by (simp add: make_database_def bnd_reads bnd_def MkdirAll_def assign_db_def attempt_def create_db_eq with_ldr_def go_simps W2_def)
  have create: "gives (CreateWithCallback E S (Some h) pubPass privPass (Some root) (l_chainParams (ldr W2)) bday None xs now)
      (\<lambda>_ W'. (wallet_file E (contents path (disk W')) root pubPass privPass xs \<and> 32 \<le> length (entropy W') \<and> ready h (disk W'))
         \<and> ldr W' = ldr W2) W2"
    using gives_CreateWithCallback [where W = W2 and h = h and n = 32, OF _ _ _ env, of "l_chainParams (ldr W2)" bday now] opened rng
    by (intro gives_keeps keeps_wallet_rest keeps_intros) (simp_all add: W2_def CreateWithCallback_def keeps_intros)
  have created_with: "walletCreated (ldr W2) = None" "l_db (ldr W2) = Some h" using loader by (simp_all add: W2_def)
  have rest: "gives (bnd (OpenWallet E S pubPass) (\<lambda>w. lift (wallet_call CallStart w)))
      (\<lambda>w W'. wallet_file E (contents path (disk W')) root pubPass privPass xs
       \<and> opened_from E (contents path (disk W')) root pubPass privPass xs (w_Manager w)) W3"
    if W3: "wallet_file E (contents path (disk W3)) root pubPass privPass xs \<and> 32 \<le> length (entropy W3) \<and> ready h (disk W3)"
      "ldr W3 = ldr W2" for W3 :: "('k, 'pk, 'a, 'n, 'd, 'h, 's) app"
  proof -
    have db: "l_db (ldr W3) = Some h" using W3(2) by (simp add: W2_def)
    have "gives (OpenWallet E S pubPass) (\<lambda>w W'. opened_from E (contents path (disk W3)) root pubPass privPass xs (w_Manager w)
         \<and> w_sync w = new_sync \<and> contents path (disk W') = contents path (disk W3)) W3"
      by (rule gives_OpenWallet, unfold db, rule gives_mono, rule gives_OpenWithRetry(1) [where h = h]) (use W3 opened env in auto)
    then show ?thesis
      by (rule gives_step) (use W3(1) in \<open>auto simp: wallet_call_def call_Start_new gives_def lift_def\<close>)
  qed
  have "gives (create_and_open E S pubPass privPass (Some root) bday False xs now)
      (\<lambda>w W'. wallet_file E (contents path (disk W')) root pubPass privPass xs
       \<and> opened_from E (contents path (disk W')) root pubPass privPass xs (w_Manager w)) W2"
    unfolding create_and_open_def
    by (rule gives_reads) (simp add: created_with, rule gives_step [OF create], rule rest, simp_all)
  then show ?thesis
    by (simp add: createNewWallet_def gives_def bnd_reads loader bnd_Ok [where m = "WalletExists S", OF exists]
        bnd_Ok [where m = "make_database S", OF made])
qed

lemma gives_OpenExistingWallet:
  fixes W :: "('k, 'pk, 'a, 'n, 'd, 'h, 's) app"
  assumes loader: "localDB (ldr W)" "l_wallet (ldr W) = None" "db_path (ldr W) = path"
    and disk: "os_Stat S (dbDirPath (ldr W)) (disk W) = Inr True" "os_Stat S path (disk W) = Inr False"
      "bbolt_Open S path (noFreelistSync (ldr W)) (l_timeout (ldr W)) (disk W) = (Inr h, d2)"
    and wf: "wallet_file E (contents path (disk W)) root pubPass privPass xs"
    and rng: "32 \<le> length (entropy W)" and xs: "distinct (map fst xs)"
  shows "gives (OpenExistingWallet E S pubPass)
    (\<lambda>w W'. opened_from E (contents path (disk W)) root pubPass privPass xs (w_Manager w)
       \<and> l_wallet (ldr W') = Some w \<and> callbacks (ldr W') = [] \<and> called W' = called W @ callbacks (ldr W)
       \<and> l_db (ldr W') = Some h \<and> file_of h = path
       \<and> contents path (disk W') = contents path (disk W) \<and> ready h (disk W')) W"
    and "differs (env_crypto E) pubPass pw \<Longrightarrow> fst (OpenExistingWallet E S pw W)
      = Err (managerError ErrWrongPassphrase (Some (SnaclError ErrInvalidPassword)))"
proof -
  define W2 where "W2 = W\<lparr>disk := d2, ldr := (ldr W)\<lparr>l_db := Some h\<rparr>\<rparr>"
  have opened: "file_of h = path" "contents path d2 = contents path (disk W)" "ready h d2"
    using opens_old [OF disk(2,3)] by simp_all
  let ?make = "bnd (CheckCreateDir S (dbDirPath (ldr W))) (\<lambda>_.
       assign_db (open_db S path (noFreelistSync (ldr W)) (l_timeout (ldr W))))"
  have made: "?make W = (Ok (), W2)"
    using disk by (simp add: CheckCreateDir_def bnd_reads bnd_def assign_db_def attempt_def open_db_eq [OF disk(2)] with_ldr_def go_simps W2_def)
  let ?rest = "\<lambda>pw. bnd (catch_err (OpenWallet E S pw) (open_failed S)) (\<lambda>w.
       bnd (lift (wallet_call CallStart w)) (\<lambda>w. bnd (onLoaded w) (\<lambda>_. ret w)))"
  have run: "OpenExistingWallet E S pw W = ?rest pw W2" for pw
    by (simp add: OpenExistingWallet_def bnd_reads loader bnd_Ok [where m = ?make, OF made])
  have db: "l_db (ldr W2) = Some h" by (simp add: W2_def)
  have file2: "wallet_file E (contents (file_of h) (disk W2)) root pubPass privPass xs" "ready h (disk W2)" "32 \<le> length (entropy W2)"
    using wf opened rng by (simp_all add: W2_def)
  note retry = gives_OpenWithRetry [OF file2(2,1,3) xs]
  have "gives (OpenWallet E S pubPass) (\<lambda>w W'. opened_from E (contents path (disk W)) root pubPass privPass xs (w_Manager w)
         \<and> w_sync w = new_sync \<and> contents path (disk W') = contents path (disk W) \<and> ready h (disk W')) W2"
    by (rule gives_OpenWallet, unfold db, rule gives_mono, rule retry(1)) (use opened in \<open>auto simp: W2_def\<close>)
  then have "gives (catch_err (OpenWallet E S pubPass) (open_failed S))
      (\<lambda>w W'. (opened_from E (contents path (disk W)) root pubPass privPass xs (w_Manager w)
         \<and> w_sync w = new_sync \<and> contents path (disk W') = contents path (disk W) \<and> ready h (disk W')) \<and> rest W' = rest W2) W2"
    using keepsD [OF keeps_rest_OpenWallet, of E S pubPass W2] by (auto simp: gives_def catch_err_def)
  then have "gives (?rest pubPass) (\<lambda>w W'. opened_from E (contents path (disk W)) root pubPass privPass xs (w_Manager w)
       \<and> l_wallet (ldr W') = Some w \<and> callbacks (ldr W') = [] \<and> called W' = called W @ callbacks (ldr W)
       \<and> l_db (ldr W') = Some h \<and> file_of h = path
       \<and> contents path (disk W') = contents path (disk W) \<and> ready h (disk W')) W2"
    by (rule gives_step)
      (auto simp: gives_def bnd_def lift_def wallet_call_def call_Start_new onLoaded_eq ret_def W2_def opened(1))
  then show "gives (OpenExistingWallet E S pubPass)
    (\<lambda>w W'. opened_from E (contents path (disk W)) root pubPass privPass xs (w_Manager w)
       \<and> l_wallet (ldr W') = Some w \<and> callbacks (ldr W') = [] \<and> called W' = called W @ callbacks (ldr W)
       \<and> l_db (ldr W') = Some h \<and> file_of h = path
       \<and> contents path (disk W') = contents path (disk W) \<and> ready h (disk W')) W"
    by (simp add: gives_def run)
  assume "differs (env_crypto E) pubPass pw"
  from retry(2) [OF this] have "fst (OpenWallet E S pw W2) = Err (managerError ErrWrongPassphrase (Some (SnaclError ErrInvalidPassword)))"
    by (simp add: OpenWallet_def bnd_reads db)
  then obtain W3 where "OpenWallet E S pw W2 = (Err (managerError ErrWrongPassphrase (Some (SnaclError ErrInvalidPassword))), W3)"
    by (cases "OpenWallet E S pw W2") simp
  moreover from this have "ldr W3 = ldr W2" using keepsD [OF keeps_rest_OpenWallet, of E S pw W2] by simp
  ultimately show "fst (OpenExistingWallet E S pw W) = Err (managerError ErrWrongPassphrase (Some (SnaclError ErrInvalidPassword)))"
    by (simp add: run fst_bnd catch_err_simps db open_failed_Err)
qed

end

text \<open>What unlocking makes of the manager of an opened wallet, on any transaction of its database.\<close>

lemma Unlock_opened_from:
  assumes "bolt_contract (env_bolt E)" and "crypto_contract (env_crypto E)"
    and "opened_from E (view (env_bolt E) (db u)) root pubPass privPass xs (mgr u)" and "privPass \<noteq> []"
    and "fst ` set xs = set DefaultKeyScopes"
  obtains u' where "Unlock E mgr_ns privPass u = (Ok (), u')" "\<not> locked (mgr u')"
    "fst (root_private_key E mgr_ns (mgr u') u')
      = map_err (\<lambda>err. managerError ErrCrypto (Some err)) (hd_NewKeyFromString E (hd_String E root))"
    "\<forall>scope \<in> set DefaultKeyScopes. fst (fetchAccountByName (dbw E) mgr_ns scope defaultAccountName u') = Ok 0"
proof -
  obtain keyPub keyPriv where stored: "stored_manager E (view (env_bolt E) (db u)) mgr_ns root pubPass privPass keyPub keyPriv xs"
      and opened: "opened E privPass keyPub keyPriv xs (mgr u)"
    using assms(3) by (auto simp: opened_from_def stored_wallet_def)
  obtain u' where u': "Unlock E mgr_ns privPass u = (Ok (), u')" "\<not> locked (mgr u')" "db u' = db u"
      "cryptoKeyPub (mgr u') = keyPub" "cryptoKeyPriv (mgr u') = keyPriv"
    using Unlock_opened(1) [OF assms(2) opened assms(4)] by blast
  from stored_manager_unlocked [OF assms(1) u'(2,4,5) _ assms(5)] stored u'(3) u'(1,2) that show ?thesis by simp
qed

section \<open>Properties\<close>

text \<open>C1: a wallet survives the program. \<^verbatim>\<open>CreateNewWallet\<close> on a disk without the wallet file succeeds and hands
  out a locked wallet. A second process with a new loader on what the first one left in the file opens
  it with the public passphrase: the wallet is loaded, the callbacks that wait are called, its manager is locked and
  has exactly the default scopes. The private passphrase unlocks that manager on a transaction of the
  opened database, and then the root key made from the seed is read back and every default scope has its
  account named \<open>default\<close>. Any passphrase with another digest is refused as wrong, and no wallet is
  loaded then.\<close>

theorem wallet_create_reopen:
  fixes E :: "('k, 'sk, 'pk, 'a, 'n, 's) env" and S :: "('k, 'n, 'd, 'h, 's) sys"
    and W W1 W2 :: "('k, 'pk, 'a, 'n, 'd, 'h, 's) app"
  assumes "wallet_process S E contents file_of ready" and "short_keys E" and "wallet_root E root" and "hd_IsPrivate E root"
    and "scrypt_works (env_crypto E) DefaultScryptOptions pubPass" and "scrypt_works (env_crypto E) DefaultScryptOptions privPass"
    and "privPass \<noteq> []" and "distinct (map fst xs)" and "fst ` set xs = set DefaultKeyScopes"
    and "16 \<le> length seed" and "length seed \<le> 64" and "hd_NewMaster S seed params = Ok root"
    and "ldr W = NewLoader params dir nfs t rw" and "path = filepath_Join [dir, WalletDBName]"
    and "os_Stat S path (disk W) = Inl OsNotExist" and "os_MkdirAll S dir (disk W) = (None, d1)"
    and "os_Stat S path d1 = Inl OsNotExist" and "bbolt_Open S path nfs t d1 = (Inr h1, d2)" and "728 \<le> length (entropy W)"
    and "W1 = snd (CreateNewWallet E S pubPass privPass (Some seed) bday xs now W)"
    and "ldr W2 = (NewLoader params dir nfs t rw)\<lparr>callbacks := fns\<rparr>" and "contents path (disk W2) = contents path (disk W1)"
    and "os_Stat S dir (disk W2) = Inr True" and "os_Stat S path (disk W2) = Inr False"
    and "bbolt_Open S path nfs t (disk W2) = (Inr h2, d3)" and "32 \<le> length (entropy W2)"
  shows "(\<exists>w. fst (CreateNewWallet E S pubPass privPass (Some seed) bday xs now W) = Ok w \<and> locked (w_Manager w))
    \<and> (\<exists>w W3. OpenExistingWallet E S pubPass W2 = (Ok w, W3) \<and> l_wallet (ldr W3) = Some w \<and> called W3 = called W2 @ fns
        \<and> locked (w_Manager w)
        \<and> (\<forall>scope. map_of (scopedManagers (w_Manager w)) scope = map_option (new_scoped scope) (map_of xs scope))
        \<and> (\<forall>u. bolt_Begin (bbolt_DB S h2) False (disk W3) = Inr (db u) \<and> mgr u = w_Manager w \<longrightarrow>
            (\<exists>u'. Unlock E mgr_ns privPass u = (Ok (), u') \<and> \<not> locked (mgr u')
               \<and> fst (root_private_key E mgr_ns (mgr u') u')
                   = map_err (\<lambda>err. managerError ErrCrypto (Some err)) (hd_NewKeyFromString E (hd_String E root))
               \<and> (\<forall>scope \<in> set DefaultKeyScopes. fst (fetchAccountByName (dbw E) mgr_ns scope defaultAccountName u') = Ok 0))))
    \<and> (\<forall>pw. differs (env_crypto E) pubPass pw \<longrightarrow>
        fst (OpenExistingWallet E S pw W2) = Err (managerError ErrWrongPassphrase (Some (SnaclError ErrInvalidPassword)))
        \<and> l_wallet (ldr (snd (OpenExistingWallet E S pw W2))) = None)"
proof -
  note bolt = wallet_process.bolt [OF assms(1)] and crypto = wallet_process.crypto [OF assms(1)]
  have disk: "wallet_disk S (env_bolt E) contents file_of ready" using assms(1) by (simp add: wallet_process_def)
  have new: "localDB (ldr W)" "l_wallet (ldr W) = None" "walletCreated (ldr W) = None" "db_path (ldr W) = path"
      "dbDirPath (ldr W) = dir" "noFreelistSync (ldr W) = nfs" "l_timeout (ldr W) = t" "l_chainParams (ldr W) = params"
    by (simp_all add: assms(13,14) NewLoader_def db_path_def)
  have new2: "localDB (ldr W2)" "l_wallet (ldr W2) = None" "db_path (ldr W2) = path"
      "dbDirPath (ldr W2) = dir" "noFreelistSync (ldr W2) = nfs" "l_timeout (ldr W2) = t" "callbacks (ldr W2) = fns"
    by (simp_all add: assms(14,21) NewLoader_def db_path_def)
  have run: "CreateNewWallet E S pubPass privPass (Some seed) bday xs now W
      = createNewWallet E S pubPass privPass (Some root) bday False xs now W"
    using assms(10-12) new(8)
    by (simp add: CreateNewWallet_def bnd_reads MinSeedBytes_def MaxSeedBytes_def bnd_done)
  from wallet_process.gives_createNewWallet [OF assms(1) new(1-4), unfolded new, OF assms(15-19) assms(2-9), of bday now]
  obtain w where create: "fst (CreateNewWallet E S pubPass privPass (Some seed) bday xs now W) = Ok w"
      "wallet_file E (contents path (disk W1)) root pubPass privPass xs"
      "opened_from E (contents path (disk W1)) root pubPass privPass xs (w_Manager w)"
    by (auto simp: gives_def run assms(20))
  have "wallet_file E (contents path (disk W2)) root pubPass privPass xs" using create(2) assms(22) by simp
  note opens = wallet_process.gives_OpenExistingWallet [OF assms(1) new2(1-3), unfolded new2, OF assms(23-25) this assms(26,8)]
  from opens(1) obtain w2 W3 where W3: "OpenExistingWallet E S pubPass W2 = (Ok w2, W3)"
      "opened_from E (contents path (disk W2)) root pubPass privPass xs (w_Manager w2)"
      "l_wallet (ldr W3) = Some w2" "called W3 = called W2 @ fns" "file_of h2 = path"
      "contents path (disk W3) = contents path (disk W2)"
    by (auto simp: gives_def)
  have "\<exists>u'. Unlock E mgr_ns privPass u = (Ok (), u') \<and> \<not> locked (mgr u')
         \<and> fst (root_private_key E mgr_ns (mgr u') u')
             = map_err (\<lambda>err. managerError ErrCrypto (Some err)) (hd_NewKeyFromString E (hd_String E root))
         \<and> (\<forall>scope \<in> set DefaultKeyScopes. fst (fetchAccountByName (dbw E) mgr_ns scope defaultAccountName u') = Ok 0)"
    if "bolt_Begin (bbolt_DB S h2) False (disk W3) = Inr (db u)" "mgr u = w_Manager w2" for u :: "('k, 'pk, 'a, 'n, 's) world"
  proof -
    have "view (env_bolt E) (db u) = contents path (disk W2)"
      using boltdb_contract.begin_view [OF wallet_disk.database [OF disk] that(1)] W3(5,6) by simp
    with W3(2) that(2) have "opened_from E (view (env_bolt E) (db u)) root pubPass privPass xs (mgr u)" by simp
    from Unlock_opened_from [OF bolt crypto this assms(7,9)] show ?thesis by metis
  qed
  moreover have "locked (w_Manager w)" using create(3) by (auto simp: opened_from_def opened_def)
  moreover have "locked (w_Manager w2)"
      "map_of (scopedManagers (w_Manager w2)) scope = map_option (new_scoped scope) (map_of xs scope)" for scope
    using W3(2) by (auto simp: opened_from_def opened_def loads_def)
  moreover have "l_wallet (ldr (snd (OpenExistingWallet E S pw W2))) = None" if "differs (env_crypto E) pubPass pw" for pw
    using doesD [OF OpenExisting_refines refl, of E S pw W2] opens(2) [OF that] new2(2) by (simp add: loader_view_def)
  ultimately show ?thesis using create(1) W3(1,3,4) opens(2) by blast
qed

text \<open>The reference disk works.\<close>

lemma path_db_contract: "boltdb_contract memB (path_db p) (\<lambda>d. mem_stored (map_of (fst d) p))"
  by (intro boltdb_contract.intro mem.bolt_contract_axioms, unfold_locales)
    (auto simp: path_db_def mem_stored_def update_conv' split: option.splits if_splits)

lemma ref_process:
  "wallet_process ref_sys example_hd (\<lambda>p d. mem_stored (map_of (fst d) p)) id (\<lambda>h d. map_of (fst d) h \<noteq> None)"
proof (intro wallet_process.intro wallet_process_axioms.intro wallet_disk.intro wallet_disk_axioms.intro ref_files.wallet_files_axioms)
  show "boltdb_contract (env_bolt example_hd) (bbolt_DB ref_sys h) (\<lambda>d. mem_stored (map_of (fst d) (id h)))" for h
    using path_db_contract [of h] by (simp add: ref_sys_def)
  show "crypto_contract (env_crypto example_hd)" by (rule example_wallet(2))
qed (auto simp: ref_sys_def path_db_def mem_stat_def mem_stored_def mem_view_def fun_eq_iff update_conv' split: if_splits option.splits)

interpretation ref_wallet: wallet_process ref_sys example_hd "\<lambda>p d. mem_stored (map_of (fst d) p)" id
    "\<lambda>h d. map_of (fst d) h \<noteq> None"
  by (rule ref_process)


text \<open>A first process on an empty disk, and a second one on a disk that holds the file of the first.\<close>

definition example_dir :: gostring where "example_dir = go_string ''/w''"
definition example_file :: gostring where "example_file = filepath_Join [example_dir, WalletDBName]"

definition example_first :: "(nat, nat, nat, nat, mem_disk, gostring, mem) app" where
  "example_first = example_app\<lparr>entropy := replicate 728 1\<rparr>"

definition example_created_app :: "(nat, nat, nat, nat, mem_disk, gostring, mem) app" where
  "example_created_app = snd (CreateNewWallet example_hd ref_sys [1] [2] (Some (replicate 16 3)) 0 ScopeAddrMap 0 example_first)"

definition example_second :: "(nat, nat, nat, nat, mem_disk, gostring, mem) app" where
  "example_second = example_app\<lparr>disk := ([(example_file, case map_of (fst (disk example_created_app)) example_file of None \<Rightarrow> [] | Some l \<Rightarrow> l)],
       [example_dir]), entropy := replicate 32 5, ldr := (NewLoader (Some 0) example_dir False 60 250)\<lparr>callbacks := [7]\<rparr>\<rparr>"

theorem wallet_create_reopen_witness:
  "\<exists>w W3. OpenExistingWallet example_hd ref_sys [1] example_second = (Ok w, W3) \<and> l_wallet (ldr W3) = Some w \<and> called W3 = [7]"
proof -
  have path: "example_file \<noteq> example_dir" by code_simp
  have root: "wallet_root example_hd 16"
    by (auto simp: wallet_root_def usable_root_def deriveCoinTypeKey_def deriveAccountKey_def checkBranchKeys_def
        example_hd_def key_limits DefaultKeyScopes_def bip_scopes)
  have hd: "hd_IsPrivate example_hd 16" "hd_NewMaster ref_sys (replicate 16 3) (Some 0) = Ok 16"
    by (simp_all add: example_hd_def ref_sys_def)
  have first: "ldr example_first = NewLoader (Some 0) example_dir False 60 250" "728 \<le> length (entropy example_first)"
      "os_Stat ref_sys example_file (disk example_first) = Inl OsNotExist"
      "os_MkdirAll ref_sys example_dir (disk example_first) = (None, ([], [example_dir]))"
      "os_Stat ref_sys example_file ([], [example_dir]) = Inl OsNotExist"
      "bbolt_Open ref_sys example_file False 60 ([], [example_dir]) = (Inr example_file, ([(example_file, [])], [example_dir]))"
    by (simp_all add: example_first_def example_app_def example_dir_def ref_sys_def mem_stat_def path [unfolded example_dir_def])
  have second: "ldr example_second = (NewLoader (Some 0) example_dir False 60 250)\<lparr>callbacks := [7]\<rparr>"
      "mem_stored (map_of (fst (disk example_second)) example_file) = mem_stored (map_of (fst (disk example_created_app)) example_file)"
      "os_Stat ref_sys example_dir (disk example_second) = Inr True" "os_Stat ref_sys example_file (disk example_second) = Inr False"
      "\<exists>d3. bbolt_Open ref_sys example_file False 60 (disk example_second) = (Inr example_file, d3)"
      "32 \<le> length (entropy example_second)" "called example_second = []"
    using path by (auto simp: example_second_def example_app_def ref_sys_def mem_stat_def mem_stored_def mem_view_def fun_eq_iff split: option.split)
  from second(5) obtain d3 where d3: "bbolt_Open ref_sys example_file False 60 (disk example_second) = (Inr example_file, d3)" by blast
  have passes: "scrypt_works (env_crypto example_hd) DefaultScryptOptions [1]" "scrypt_works (env_crypto example_hd) DefaultScryptOptions [2]"
    by (simp_all add: example_hd_def scrypt_works_def ref_crypto_def)
  from wallet_create_reopen [OF ref_process example_wallet(3) root hd(1) passes example_wallet(7-9) _ _ hd(2) first(1) example_file_def
      first(3-6,2) refl second(1) _ second(3,4) d3 second(6), of 0 0] second(2,7)
  show ?thesis by (auto simp: example_created_app_def)
qed

end
