(* ===== verification/Program.thy ===== *)
theory Program
  imports App WalletLife
begin

text \<open>
  Two runs of the whole program (\<^verbatim>\<open>btc-wallet.go\<close>): one with \<^verbatim>\<open>--create\<close> that makes the wallet, and one that starts the
  RPC server, opens the wallet, waits for the interrupt and unloads it. Each run has a command line and libraries of its
  own; what connects them is the wallet's file.
\<close>

section \<open>The run that creates the wallet\<close>

context wallet_process
begin

text \<open>\<^verbatim>\<open>createWallet\<close> on a disk that has the directory and neither a wallet nor a legacy key store.\<close>

lemma createWallet_gives:
  fixes w :: "'d proc" and X :: "('n, 'd, 'cert, 'lis) libs"
  assumes dir: "dir = networkDir X (c_AppDataDir conf) main" "path = filepath_Join [dir, WalletDBName]"
    and legacy: "os_Stat S (filepath_Join [dir, Filename]) (disk w) = Inl OsNotExist"
    and disk: "os_Stat S path (disk w) = Inl OsNotExist" "os_MkdirAll S dir (disk w) = (None, d1)"
      "os_Stat S path d1 = Inl OsNotExist" "bbolt_Open S path True (c_DBTimeout conf) d1 = (Inr h, d2)"
    and seed: "hd_GenerateSeed S RecommendedSeedLen (entropy w) = (Ok seed, rnd)" "16 \<le> length seed" "length seed \<le> 64"
      "728 \<le> length rnd" "hd_NewMaster S seed (Some main) = Ok root"
    and env: "short_keys E" "wallet_root E root" "hd_IsPrivate E root"
      "scrypt_works (env_crypto E) DefaultScryptOptions PublicPass" "scrypt_works (env_crypto E) DefaultScryptOptions PrivatePass"
      "distinct (map fst xs)" "fst ` set xs = set DefaultKeyScopes"
  shows "gives (createWallet E S X main conf xs now)
    (\<lambda>_ w'. wallet_file E (contents path (disk w')) root PublicPass PrivatePass xs) w"
proof -
  define L :: "('k, 'pk, 'a, 'n, 'd, 'h, 's) Loader" where "L = NewLoader (Some main) dir True (c_DBTimeout conf) 250"
  define W :: "('k, 'pk, 'a, 'n, 'd, 'h, 's) app" where "W = \<lparr>disk = disk w, entropy = rnd, ldr = L, called = []\<rparr>"
  have new: "localDB L" "l_wallet L = None" "walletCreated L = None" "db_path L = path" "dbDirPath L = dir"
      "noFreelistSync L = True" "l_timeout L = c_DBTimeout conf" "l_chainParams L = Some main"
    by (simp_all add: L_def NewLoader_def db_path_def dir)
  have pass: "PrivatePass \<noteq> []" by (simp add: PrivatePass_def)
  have "gives (createNewWallet E S PublicPass PrivatePass (Some root) now False xs now)
      (\<lambda>w W'. wallet_file E (contents path (disk W')) root PublicPass PrivatePass xs) W"
    by (rule gives_mono, rule gives_createNewWallet [where path = path and h = h and ?d2.0 = d2 and ?d1.0 = d1])
      (use new disk seed env pass in \<open>auto simp: W_def\<close>)
  moreover have "CreateNewWallet E S PublicPass PrivatePass (Some seed) now xs now W
      = createNewWallet E S PublicPass PrivatePass (Some root) now False xs now W"
    using seed new(8) by (simp add: CreateNewWallet_def bnd_reads W_def MinSeedBytes_def MaxSeedBytes_def bnd_def wrap_err_def go_simps)
  ultimately obtain wa W' where run: "CreateNewWallet E S PublicPass PrivatePass (Some seed) now xs now W = (Ok wa, W')"
      "wallet_file E (contents path (disk W')) root PublicPass PrivatePass xs"
    by (auto simp: gives_def)
  have "createWallet E S X main conf xs now w = (Ok (), \<lparr>disk = disk W', entropy = entropy W'\<rparr>)"
    using legacy seed(1) run(1)
    by (simp add: createWallet_def Let_def activeNet_def MainNetParams_def dir(1) [symmetric] Filename_def [symmetric] bnd_reads
        bnd_def prompt_Seed_def zoom_def attempt_def go_simps with_loader_def L_def W_def Let_def)
  then show ?thesis using run(2) by (simp add: gives_def)
qed

end

section \<open>The run that serves the wallet\<close>

text \<open>What the program relies on of the other calls that write: making a directory, writing or removing another file and
  listening leave the wallet's file and its directory alone.\<close>

locale program_files = wallet_process S E contents file_of ready
  for S :: "('k, 'n, 'd, 'h, 's) sys" and E :: "('k, 'sk, 'pk, 'a, 'n, 's) env"
    and contents :: "gostring \<Rightarrow> 'd \<Rightarrow> view" and file_of :: "'h \<Rightarrow> gostring" and ready :: "'h \<Rightarrow> 'd \<Rightarrow> bool" +
  fixes X :: "('n, 'd, 'cert, 'lis) libs"
  assumes mkdir_keeps: "os_MkdirAll S p d = (x, d') \<Longrightarrow> os_Stat S q d = Inr isDir \<Longrightarrow>
      contents q d' = contents q d \<and> os_Stat S q d' = Inr isDir"
    and write_keeps: "os_WriteFile X p b d = (x, d') \<Longrightarrow> filepath_Clean q \<noteq> filepath_Clean p \<Longrightarrow>
      contents q d' = contents q d \<and> os_Stat S q d' = os_Stat S q d"
    and remove_keeps: "os_Remove X p d = (x, d') \<Longrightarrow> filepath_Clean q \<noteq> filepath_Clean p \<Longrightarrow>
      contents q d' = contents q d \<and> os_Stat S q d' = os_Stat S q d"
    and listen_keeps: "net_Listen X net addr d = (y, d') \<Longrightarrow> contents q d' = contents q d \<and> os_Stat S q d' = os_Stat S q d"

text \<open>A program that keeps a property of the disk.\<close>

definition preserves :: "('d \<Rightarrow> bool) \<Rightarrow> (('d, 'z) proc_scheme, 'x) go \<Rightarrow> bool" where
  "preserves K m \<longleftrightarrow> (\<forall>w. K (disk w) \<longrightarrow> K (disk (snd (m w))))"

named_theorems preserve_intros \<open>programs that keep a property of the disk\<close>

lemma preserves_bnd [preserve_intros]:
  "preserves K m \<Longrightarrow> (\<And>a. preserves K (f a)) \<Longrightarrow> preserves K (bnd m f)"
  unfolding preserves_def by (auto simp: snd_bnd split: res.split)

lemma preserves_simple [preserve_intros]:
  "preserves K (ret a)" "preserves K (raise e)" "preserves K (lift r)" "preserves K (reads g)"
  by (simp_all add: preserves_def go_simps)

lemma preserves_catch [preserve_intros]:
  fixes m :: "(('d, 'z) proc_scheme, 'x) go"
  assumes m: "preserves K m" and h: "\<And>e. preserves K (h e)"
  shows "preserves K (catch_err m h)"
  unfolding preserves_def
proof (intro allI impI)
  fix w :: "('d, 'z) proc_scheme"
  assume "K (disk w)"
  with m have "K (disk (snd (m w)))" by (simp add: preserves_def)
  with h show "K (disk (snd (catch_err m h w)))"
    by (cases "m w"; cases "fst (m w)") (simp_all add: catch_err_def preserves_def)
qed

lemma preserves_attempt [preserve_intros]: "preserves K m \<Longrightarrow> preserves K (attempt m)"
  unfolding preserves_def attempt_def by (auto split: prod.split res.split)

lemma preserves_cases [preserve_intros]:
  "(b \<Longrightarrow> preserves K m) \<Longrightarrow> (\<not> b \<Longrightarrow> preserves K m') \<Longrightarrow> preserves K (if b then m else m')"
  "(\<And>x y. preserves K (f x y)) \<Longrightarrow> preserves K (case z of (x, y) \<Rightarrow> f x y)"
  by (simp_all split: prod.split)

lemma preserves_entropy [preserve_intros]: "preserves K (zoom entropy (\<lambda>r w. w\<lparr>entropy := r\<rparr>) m)"
  by (simp add: preserves_def zoom_def split: prod.split)

lemma fst_with_loader:
  "fst (with_loader l m w) = fst (m \<lparr>disk = disk w, entropy = entropy w, ldr = l, called = []\<rparr>)"
  by (simp add: with_loader_def split: prod.split)

text \<open>The server's start leaves the loader alone.\<close>

lemma keeps_server:
  "keeps rest (startRPCServers S X plan9 conf now :: (('k, 'pk, 'a, 'n, 'd, 'h, 's) app, ('cert, 'lis) server option) go)"
proof -
  have steps: "keeps rest (zoom entropy (\<lambda>r w. w\<lparr>entropy := r\<rparr>) m :: (('k, 'pk, 'a, 'n, 'd, 'h, 's) app, 'x) go)"
      "keeps rest (WriteFile X p b :: (('k, 'pk, 'a, 'n, 'd, 'h, 's) app, unit) go)"
      "keeps rest (Remove X p :: (('k, 'pk, 'a, 'n, 'd, 'h, 's) app, unit) go)"
      "keeps rest (listen_all X net addrs :: (('k, 'pk, 'a, 'n, 'd, 'h, 's) app, 'lis list) go)"
    for m :: "(bytes, 'x) go" and p b net addrs
  proof -
    show "keeps rest (listen_all X net addrs :: (('k, 'pk, 'a, 'n, 'd, 'h, 's) app, 'lis list) go)"
    proof (induction addrs)
      case (Cons a addrs)
      then show ?case by (auto simp: keeps_def snd_bnd go_simps split: prod.split sum.split res.split)
    qed (simp add: keeps_def go_simps)
  qed (auto simp: keeps_def zoom_def WriteFile_def Remove_def split: prod.split option.split)
  show ?thesis
    unfolding startRPCServers_def openRPCKeyPair_def generateRPCKeyPair_def makeListeners_def Let_def
    by (intro keeps_intros steps)
qed

context program_files
begin

lemma preserves_Mkdir [preserve_intros]: "preserves (\<lambda>d. contents q d = V \<and> os_Stat S q d = Inr isDir) (MkdirAll S p)"
  unfolding preserves_def MkdirAll_def by (auto split: prod.split option.split dest: mkdir_keeps)

lemma preserves_Write [preserve_intros]:
  "filepath_Clean q \<noteq> filepath_Clean p \<Longrightarrow> preserves (\<lambda>d. contents q d = V \<and> os_Stat S q d = Inr isDir) (WriteFile X p b)"
  unfolding preserves_def WriteFile_def by (auto split: prod.split option.split dest: write_keeps)

lemma preserves_Remove [preserve_intros]:
  "filepath_Clean q \<noteq> filepath_Clean p \<Longrightarrow> preserves (\<lambda>d. contents q d = V \<and> os_Stat S q d = Inr isDir) (Remove X p)"
  unfolding preserves_def Remove_def by (auto split: prod.split option.split dest: remove_keeps)

lemma preserves_listen [preserve_intros]:
  "preserves (\<lambda>d. contents q d = V \<and> os_Stat S q d = Inr isDir) (listen_all X net addrs :: (('d, 'z) proc_scheme, 'lis list) go)"
proof (induction addrs)
  case (Cons addr addrs)
  have "preserves (\<lambda>d. contents q d = V \<and> os_Stat S q d = Inr isDir) (bnd (listen_all X net addrs) (\<lambda>ls. ret (l # ls))
      :: (('d, 'z) proc_scheme, 'lis list) go)" for l
    by (intro preserve_intros Cons)
  with Cons show ?case
    unfolding preserves_def by (auto split: prod.split sum.split dest!: listen_keeps [where q = q])
next
  case Nil
  show ?case unfolding listen_all.simps by (rule preserve_intros)
qed

lemma startRPCServers_keeps:
  fixes w :: "('d, 'z) proc_scheme"
  assumes "filepath_Clean q \<noteq> filepath_Clean (c_RPCCert conf)" and "filepath_Clean q \<noteq> filepath_Clean (c_RPCKey conf)"
    and "os_Stat S q (disk w) = Inr isDir"
  shows "contents q (disk (snd (startRPCServers S X plan9 conf now w))) = contents q (disk w)"
    and "os_Stat S q (disk (snd (startRPCServers S X plan9 conf now w))) = Inr isDir"
proof -
  let ?K = "\<lambda>d. contents q d = contents q (disk w) \<and> os_Stat S q d = Inr isDir"
  have "preserves ?K (generateRPCKeyPair S X conf now b :: (('d, 'z) proc_scheme, 'cert) go)" for b
    unfolding generateRPCKeyPair_def by (intro preserve_intros assms(1,2))
  then have "preserves ?K (openRPCKeyPair S X conf now :: (('d, 'z) proc_scheme, 'cert) go)"
    unfolding openRPCKeyPair_def Let_def by (intro preserve_intros)
  then have "preserves ?K (startRPCServers S X plan9 conf now :: (('d, 'z) proc_scheme, _) go)"
    unfolding startRPCServers_def makeListeners_def Let_def by (intro preserve_intros)
  then show "contents q (disk (snd (startRPCServers S X plan9 conf now w))) = contents q (disk w)"
    and "os_Stat S q (disk (snd (startRPCServers S X plan9 conf now w))) = Inr isDir"
    using assms(3) by (simp_all add: preserves_def)
qed

text \<open>A run without \<^verbatim>\<open>--create\<close> on a disk with the wallet's file, which can start its server.\<close>

lemma serving_run:
  fixes w :: "'d proc" and W :: "('k, 'pk, 'a, 'n, 'd, 'h, 's) app"
  assumes grpc: "grpc_server X"
    and flags: "flags_Parse X default_config = Ok pre" "ini_ParseFile X (c_ConfigFile pre) (disk w) default_config = (iniErr, conf0)"
      "flags_Parse X conf0 = Ok conf" "\<not> c_Create conf" "\<not> c_NoInitialLoad conf"
    and dir: "dir = networkDir X (c_AppDataDir conf) main" "path = filepath_Join [dir, WalletDBName]"
    and there: "os_Stat S path (disk w) = Inr False" "os_Stat S dir (disk w) = Inr True"
      "wallet_file E (contents path (disk w)) root PublicPass PrivatePass xs" "distinct (map fst xs)"
    and apart: "\<forall>q \<in> {path, dir}. filepath_Clean q \<noteq> filepath_Clean (c_RPCCert conf) \<and> filepath_Clean q \<noteq> filepath_Clean (c_RPCKey conf)"
    and server: "startRPCServers S X plan9 conf now
        \<lparr>disk = disk w, entropy = entropy w, ldr = NewLoader (Some main) dir True (c_DBTimeout conf) 250, called = []\<rparr> = (Ok rpcs, W)"
    and opens: "bbolt_Open S path True (c_DBTimeout conf) (disk W) = (Inr h, d2)" "32 \<le> length (entropy W)"
  shows "c_WalletPass conf = PublicPass \<Longrightarrow> program_main E S X plan9 served main order now w = Some (if served \<and> rpcs \<noteq> None then 1 else 0)"
    and "differs (env_crypto E) PublicPass (c_WalletPass conf) \<Longrightarrow> program_main E S X plan9 served main order now w = Some 1"
proof -
  have exists: "cfgutil_FileExists S path w = (Ok True, w)"
    using there(1) by (simp add: cfgutil_FileExists_def bnd_reads go_simps)
  have conf: "loadConfig E S X main order now w = (Ok (Some conf), w)"
    using config_decisions [OF flags(1-3), of path main S True E order now] exists flags(4) dir
    by (simp add: WalletDBName_def)
  let ?W0 = "\<lparr>disk = disk w, entropy = entropy w, ldr = NewLoader (Some main) dir True (c_DBTimeout conf) 250, called = []\<rparr>
    :: ('k, 'pk, 'a, 'n, 'd, 'h, 's) app"
  have loader: "ldr W = NewLoader (Some main) dir True (c_DBTimeout conf) 250" and none: "called W = []"
    using keepsD [OF keeps_server, of S X plan9 conf now ?W0] server by simp_all
  let ?l = "(NewLoader (Some main) dir True (c_DBTimeout conf) 250 :: ('k, 'pk, 'a, 'n, 'd, 'h, 's) Loader)\<lparr>callbacks := [0]\<rparr>"
  let ?V = "W\<lparr>ldr := ?l\<rparr>"
  have new: "localDB (ldr ?V)" "l_wallet (ldr ?V) = None" "db_path (ldr ?V) = path" "dbDirPath (ldr ?V) = dir"
      "noFreelistSync (ldr ?V)" "l_timeout (ldr ?V) = c_DBTimeout conf"
    by (simp_all add: NewLoader_def db_path_def dir)
  have kept: "contents path (disk W) = contents path (disk w)" "os_Stat S path (disk W) = Inr False" "os_Stat S dir (disk W) = Inr True"
    using startRPCServers_keeps [of path conf ?W0 False plan9 now] startRPCServers_keeps [of dir conf ?W0 True plan9 now]
      apart there(1,2) server by simp_all
  have registered: "RunAfterLoad 0 W = (Ok (), ?V)"
    using loader by (simp add: RunAfterLoad_def bnd_reads go_simps with_ldr_def NewLoader_def)
  note run = gives_OpenExistingWallet [OF new(1-3), unfolded new(4-6), where h = h and ?d2.0 = d2 and root = root
      and pubPass = PublicPass and privPass = PrivatePass and xs = xs]
  have main: "walletMain E S X plan9 served main order now w
      = with_loader (ldr ?W0) (main_loaded E S X plan9 served conf now) w"
    by (simp add: walletMain_def bnd_Ok [where m = "loadConfig E S X main order now", OF conf] activeNet_def MainNetParams_def dir(1))
  show "program_main E S X plan9 served main order now w = Some (if served \<and> rpcs \<noteq> None then 1 else 0)" if "c_WalletPass conf = PublicPass"
  proof -
    have "is_Ok (fst (OpenExistingWallet E S PublicPass ?V))"
      using run(1) kept opens there(3,4) new by (auto simp: gives_def)
    then have "if served \<and> rpcs \<noteq> None then \<exists>msg. fst (main_loaded E S X plan9 served conf now ?W0) = Err (Fatal msg)
        else fst (main_loaded E S X plan9 served conf now ?W0) = Ok ()"
      using main_returns_on_interrupt [OF grpc server, of E served] loader none flags(5) registered that by (simp add: NewLoader_def)
    then show ?thesis by (auto simp: program_main_def exit_status_def main fst_with_loader)
  qed
  show "program_main E S X plan9 served main order now w = Some 1" if "differs (env_crypto E) PublicPass (c_WalletPass conf)"
  proof -
    have "fst (OpenExistingWallet E S (c_WalletPass conf) ?V)
        = Err (managerError ErrWrongPassphrase (Some (SnaclError ErrInvalidPassword)))"
      using run(2) [of "c_WalletPass conf"] kept opens there(3,4) new that by simp
    then have "fst (main_loaded E S X plan9 served conf now ?W0) = Err (managerError ErrWrongPassphrase (Some (SnaclError ErrInvalidPassword)))"
      using flags(5) by (simp add: main_loaded_def bnd_Ok [where m = "startRPCServers S X plan9 conf now", OF server] bnd_Ok [where m = "RunAfterLoad 0", OF registered] fst_bnd)
    then show ?thesis by (simp add: program_main_def exit_status_def main fst_with_loader)
  qed
qed

end

section \<open>Properties\<close>


text \<open>The reference disk and libraries.\<close>

definition example_flags :: "config \<Rightarrow> config" where
  "example_flags c = c\<lparr>c_AppDataDir := go_string ''/w'', c_RPCCert := go_string ''/c'', c_RPCKey := go_string ''/k''\<rparr>"


text \<open>A command line that serves, with the addresses of the experimental server.\<close>

definition serve_flags :: "gostring list \<Rightarrow> config \<Rightarrow> config" where
  "serve_flags addrs c = (example_flags c)\<lparr>c_ExperimentalRPCListeners := addrs\<rparr>"

definition serve_libs :: "gostring list \<Rightarrow> (nat, mem_disk, nat, nat) libs" where
  "serve_libs addrs = ref_libs\<lparr>flags_Parse := \<lambda>c. Ok (serve_flags addrs c)\<rparr>"

lemma ref_program: "program_files ref_sys example_hd (\<lambda>p d. mem_stored (map_of (fst d) p)) id (\<lambda>h d. map_of (fst d) h \<noteq> None) (serve_libs addrs)"
proof (intro program_files.intro program_files_axioms.intro ref_process)
qed (auto simp: ref_sys_def ref_libs_def serve_libs_def mem_stat_def split: if_splits option.splits)

interpretation ref_files_program: program_files ref_sys example_hd "\<lambda>p d. mem_stored (map_of (fst d) p)" id
    "\<lambda>h d. map_of (fst d) h \<noteq> None" "serve_libs []"
  by (rule ref_program)









end
