(* ===== verification/NewAccounts.thy ===== *)
theory NewAccounts
  imports MgrCreate
begin

text \<open>
  Adding an account to an unlocked manager (\<^verbatim>\<open>ScopedKeyManager.NewAccount\<close>,
  \<^verbatim>\<open>waddrmgr/scoped_manager.go\<close>): what it stores, what it returns and what it leaves alone, and what it does
  in a scope that \<^verbatim>\<open>NewScopedKeyManager\<close> made.
\<close>

section \<open>The state an account is added to\<close>

text \<open>An unlocked manager, and a scope whose coin type keys its private crypto key opens. \<open>last\<close> is what
  \<^verbatim>\<open>fetchLastAccount\<close> finds: nothing is stored for a scope that was added later.\<close>

definition unlocked :: "('k, 'n) Manager \<Rightarrow> bool" where
  "unlocked m \<longleftrightarrow> \<not> watchingOnly m \<and> \<not> locked m \<and> length (cryptoKeyPub m) = 32 \<and> length (cryptoKeyPriv m) = 32"

definition scope_keys :: "('k, 'sk, 'pk, 'a, 'n, 's) env \<Rightarrow> bytes \<Rightarrow> view \<Rightarrow> bkt \<Rightarrow> KeyScope \<Rightarrow> 'k \<Rightarrow> bool" where
  "scope_keys E keyPriv V ns scope ct \<longleftrightarrow> scope_ready V ns scope
   \<and> (\<exists>cPub cPriv. V (scope_path ns scope) coinTypePubKeyName = Some (Val cPub)
      \<and> V (scope_path ns scope) coinTypePrivKeyName = Some (Val cPriv)
      \<and> decrypt E keyPriv cPriv = Ok (hd_String E ct))
   \<and> hd_NewKeyFromString E (hd_String E ct) = Ok ct"

definition last_account :: "view \<Rightarrow> bkt \<Rightarrow> KeyScope \<Rightarrow> u32 \<Rightarrow> bool" where
  "last_account V ns scope n \<longleftrightarrow> V (meta_path ns scope) lastAccountName = Some (Val (uint32ToBytes n))
   \<or> V (meta_path ns scope) lastAccountName = None \<and> n = 2 ^ 32 - 1"

definition free_name :: "view \<Rightarrow> bkt \<Rightarrow> KeyScope \<Rightarrow> u32 \<Rightarrow> gostring \<Rightarrow> bool" where
  "free_name V ns scope acct name \<longleftrightarrow> ValidateAccountName name = Ok () \<and> length name + 4 \<le> MaxKeySize
   \<and> V (acct_name_path ns scope) (stringToBytes name) = None \<and> account_slots V ns scope acct name"

section \<open>Adding an account\<close>

text \<open>The view afterwards.\<close>

definition added_account :: "bkt \<Rightarrow> KeyScope \<Rightarrow> u32 \<Rightarrow> bytes \<Rightarrow> bytes \<Rightarrow> gostring \<Rightarrow> view \<Rightarrow> view" where
  "added_account ns scope acct pub priv name V =
     vput (account_view ns scope acct \<lparr>acctType = accountDefault,
            rawData = field pub @ field priv @ le32 0 @ le32 0 @ field name\<rparr> name V)
       (meta_path ns scope) lastAccountName (Val (uint32ToBytes acct))"

lemma keeps_mgr_account_ops:
  "keeps mgr (fetchLastAccount (dbw E) ns scope)" "keeps mgr (fetchAccountByName (dbw E) ns scope name)"
  "keeps mgr (fetchCoinTypeKeys (dbw E) ns scope)" "keeps mgr (putLastAccount (dbw E) ns scope acct)"
  "keeps mgr (putDefaultAccountInfo (dbw E) ns scope acct pub priv ext itn name)"
  by (intro keeps_only_db frame_intros)+

lemma keeps_mgr_NewAccount: "keeps mgr (NewAccount E scope ns name)"
  unfolding NewAccount_def newAccount_def lookupAccount_def Let_def
  by (auto intro!: keeps_intros keeps_mgr_account_ops split: sum.split)

lemma gives_putLastAccount:
  assumes "bolt_contract (env_bolt E)" and "sees E V n w" and "scope_ready V ns scope"
    and "V (meta_path ns scope) lastAccountName \<noteq> Some Sub"
  shows "gives (putLastAccount (dbw E) ns scope acct)
    (\<lambda>_. sees E (vput V (meta_path ns scope) lastAccountName (Val (uint32ToBytes acct))) n) w"
  using walletdb_bucket.putLastAccount_effect [OF dbw_contract [OF assms(1)], of w ns scope acct] assms(2-)
  by (intro gives_db [OF assms(2)] frame_intros) (simp_all add: sees_def)

lemma fetchCoinTypeKeys_eq:
  assumes "bolt_contract (env_bolt E)" and "scope_ready (view (env_bolt E) (db w)) ns scope"
    and "view (env_bolt E) (db w) (scope_path ns scope) coinTypePubKeyName = Some (Val cPub)"
    and "view (env_bolt E) (db w) (scope_path ns scope) coinTypePrivKeyName = Some (Val cPriv)"
  shows "fetchCoinTypeKeys (dbw E) ns scope w = (Ok (cPub, cPriv), w)"
  using assms(2-)
  by (intro prog_eqI) (simp_all add: fetchCoinTypeKeys_def go_simps walletdb_bucket.fetch_scope_bucket [OF dbw_contract [OF assms(1)]]
      walletdb_bucket.Get_sem [OF dbw_contract [OF assms(1)]])

lemma last_account_eq:
  assumes "bolt_contract (env_bolt E)" and "scope_ready (view (env_bolt E) (db w)) ns scope"
    and "last_account (view (env_bolt E) (db w)) ns scope n"
  shows "fetchLastAccount (dbw E) ns scope w = (Ok n, w)"
  using assms(3) walletdb_bucket.fetchLastAccount_effect [OF dbw_contract [OF assms(1)] assms(2)]
  unfolding last_account_def by auto

lemma gives_newAccount:
  fixes E :: "('k, 'sk, 'pk, 'a, 'n, 's) env" and w :: "('k, 'pk, 'a, 'n, 's) world"
  assumes bolt: "bolt_contract (env_bolt E)" and crypto: "crypto_contract (env_crypto E)" and short: "short_keys E"
    and m: "unlocked (mgr w)" and sees: "sees E V (n + 48) w" and keys: "scope_keys E (cryptoKeyPriv (mgr w)) V ns scope ct"
    and last: "V (meta_path ns scope) lastAccountName \<noteq> Some Sub" and free: "free_name V ns scope acct name"
    and derive: "deriveAccountKey E ct acct = Ok k" "hd_Neuter E k = Ok kPub"
  shows "gives (newAccount E scope ns acct name)
    (\<lambda>_ w'. \<exists>pub priv. sees E (added_account ns scope acct pub priv name V) n w' \<and> length pub \<le> 151 \<and> length priv \<le> 151
       \<and> decrypt E (cryptoKeyPub (mgr w)) pub = Ok (hd_String E kPub)
       \<and> decrypt E (cryptoKeyPriv (mgr w)) priv = Ok (hd_String E k)) w"
  (is "gives _ ?post w")
proof -
  have V: "view (env_bolt E) (db w) = V" using sees by (simp add: sees_def)
  have lens: "length (cryptoKeyPub (mgr w)) = 32" "length (cryptoKeyPriv (mgr w)) = 32" using m by (simp_all add: unlocked_def)
  have ready: "scope_ready V ns scope" using keys by (simp add: scope_keys_def)
  obtain cPub cPriv where coin: "fetchCoinTypeKeys (dbw E) ns scope w = (Ok (cPub, cPriv), w)"
      "decrypt E (cryptoKeyPriv (mgr w)) cPriv = Ok (hd_String E ct)" "hd_NewKeyFromString E (hd_String E ct) = Ok ct"
    using keys fetchCoinTypeKeys_eq [OF bolt, of w ns scope] V by (auto simp: scope_keys_def)
  have lookup: "fetchAccountByName (dbw E) ns scope name w = (Err (managerError ErrAccountNotFound None), w)"
    using walletdb_bucket.fetchAccountByName_effect(2) [OF dbw_contract [OF bolt], of w ns scope name] ready free V
    by (simp add: free_name_def)
  have short: "length (hd_String E x) \<le> 111" for x using short by (simp add: short_keys_def)
  let ?store = "\<lambda>pub priv. bnd (putDefaultAccountInfo (dbw E) ns scope acct pub priv 0 0 name) (\<lambda>_. putLastAccount (dbw E) ns scope acct)"
  have store: "gives (?store pub priv) (\<lambda>_. sees E (added_account ns scope acct pub priv name V) n) t"
    if "sees E V n t" "length pub \<le> 151" "length priv \<le> 151" for pub priv and t :: "('k, 'pk, 'a, 'n, 's) world"
  proof (rule gives_step, rule gives_putDefaultAccountInfo [OF bolt that(1) ready])
    show "account_slots V ns scope acct name" "length name + 4 \<le> MaxKeySize" using free by (simp_all add: free_name_def)
    then show "length pub + length priv + length name + 25 \<le> MaxValueSize" using that(2,3) by (simp add: limits)
    fix u and t' :: "('k, 'pk, 'a, 'n, 's) world"
    let ?V = "account_view ns scope acct \<lparr>acctType = accountDefault,
       rawData = field pub @ field priv @ le32 0 @ le32 0 @ field name\<rparr> name V"
    assume "sees E ?V n t'"
    moreover have "scope_ready ?V ns scope"
      using ready account_view_Sub [OF \<open>account_slots V ns scope acct name\<close>] scope_ready_Sub [of ?V V] by blast
    moreover have "?V (meta_path ns scope) lastAccountName \<noteq> Some Sub" using last by (simp add: account_view_def)
    ultimately show "gives (putLastAccount (dbw E) ns scope acct) (\<lambda>_. sees E (added_account ns scope acct pub priv name V) n) t'"
      unfolding added_account_def by (rule gives_putLastAccount [OF bolt])
  qed
  let ?rest = "bnd (as_error ErrCrypto (encrypt E (cryptoKeyPub (mgr w)) (hd_String E kPub))) (\<lambda>pub.
     bnd (as_error ErrCrypto (encrypt E (cryptoKeyPriv (mgr w)) (hd_String E k))) (\<lambda>priv. ?store pub priv))"
  have "newAccount E scope ns acct name w = ?rest w"
    using free by (simp add: newAccount_def lookupAccount_def bnd_def attempt_def lookup coin derive free_name_def go_simps
        as_error_def wrap_err_def)
  moreover have "gives ?rest ?post w"
    unfolding as_error_def
    by (rule step_encrypt [OF crypto lens(1) sees], simp, rule step_encrypt [OF crypto lens(2)], assumption, simp,
        rule gives_mono, rule store) (use short [of kPub] short [of k] in \<open>auto intro!: exI\<close>)
  ultimately show ?thesis by (simp add: gives_def)
qed

text \<open>The call as a whole, on what a client sees of the scope.\<close>

lemma NewAccount_runs:
  fixes E :: "('k, 'sk, 'pk, 'a, 'n, 's) env" and w :: "('k, 'pk, 'a, 'n, 's) world"
  assumes bolt: "bolt_contract (env_bolt E)" and crypto: "crypto_contract (env_crypto E)" and short: "short_keys E"
    and m: "unlocked (mgr w)" and rw: "bolt_Writable (env_bolt E) (db w)" and rng: "48 \<le> length (rng w)"
    and V: "V = view (env_bolt E) (db w)"
    and keys: "scope_keys E (cryptoKeyPriv (mgr w)) V ns scope ct"
    and last: "last_account V ns scope n" and free: "free_name V ns scope (n + 1) name"
    and derive: "deriveAccountKey E ct (n + 1) = Ok k" "hd_Neuter E k = Ok kPub"
  obtains w' pub priv where "NewAccount E scope ns name w = (Ok (n + 1), w')" and "mgr w' = mgr w"
    and "view (env_bolt E) (db w') = added_account ns scope (n + 1) pub priv name V" and "length pub \<le> 151" and "length priv \<le> 151"
    and "decrypt E (cryptoKeyPub (mgr w)) pub = Ok (hd_String E kPub)" and "decrypt E (cryptoKeyPriv (mgr w)) priv = Ok (hd_String E k)"
    and "bolt_Writable (env_bolt E) (db w')" and "length (rng w) \<le> length (rng w') + 48"
proof -
  have sees: "sees E V (length (rng w) - 48 + 48) w" using rw rng V by (simp add: sees_def)
  have ready: "scope_ready V ns scope" using keys by (simp add: scope_keys_def)
  have "V (meta_path ns scope) lastAccountName \<noteq> Some Sub" using last by (auto simp: last_account_def)
  from givesE [OF gives_newAccount [OF bolt crypto short m sees keys this free derive]]
  obtain w' pub priv where run: "newAccount E scope ns (n + 1) name w = (Ok (), w')"
    and w': "sees E (added_account ns scope (n + 1) pub priv name V) (length (rng w) - 48) w'" "length pub \<le> 151" "length priv \<le> 151"
      "decrypt E (cryptoKeyPub (mgr w)) pub = Ok (hd_String E kPub)" "decrypt E (cryptoKeyPriv (mgr w)) priv = Ok (hd_String E k)"
    by (metis (full_types) old.unit.exhaust)
  have "fetchLastAccount (dbw E) ns scope w = (Ok n, w)"
    by (rule last_account_eq [OF bolt]) (use ready last V in simp_all)
  then have new: "NewAccount E scope ns name w = (Ok (n + 1), w')"
    using m run by (simp add: NewAccount_def Let_def bnd_def unlocked_def go_simps)
  then have "mgr w' = mgr w" using keepsD [OF keeps_mgr_NewAccount, of E scope ns name w] by simp
  from that [OF new this _ w'(2-5)] w'(1) show ?thesis by (simp add: sees_def le_diff_conv)
qed

lemma NewAccount_adds:
  fixes E :: "('k, 'sk, 'pk, 'a, 'n, 's) env" and w :: "('k, 'pk, 'a, 'n, 's) world"
  assumes bolt: "bolt_contract (env_bolt E)" and crypto: "crypto_contract (env_crypto E)" and short: "short_keys E"
    and m: "unlocked (mgr w)" and rw: "bolt_Writable (env_bolt E) (db w)" and rng: "48 \<le> length (rng w)"
    and V: "V = view (env_bolt E) (db w)"
    and keys: "scope_keys E (cryptoKeyPriv (mgr w)) V ns scope ct"
    and last: "last_account V ns scope n" and free: "free_name V ns scope (n + 1) name"
    and derive: "deriveAccountKey E ct (n + 1) = Ok k" "hd_Neuter E k = Ok kPub"
  obtains w' pub priv where "NewAccount E scope ns name w = (Ok (n + 1), w')" and "mgr w' = mgr w"
    and "view (env_bolt E) (db w') = added_account ns scope (n + 1) pub priv name V" and "length pub \<le> 151" and "length priv \<le> 151"
    and "decrypt E (cryptoKeyPub (mgr w)) pub = Ok (hd_String E kPub)" and "decrypt E (cryptoKeyPriv (mgr w)) priv = Ok (hd_String E k)"
  by (rule NewAccount_runs [OF assms]) (rule that)

text \<open>What the view afterwards says.\<close>

lemma added_account_reads:
  fixes E :: "('k, 'sk, 'pk, 'a, 'n, 's) env" and w w' :: "('k, 'pk, 'a, 'n, 's) world"
  assumes bolt: "bolt_contract (env_bolt E)" and V: "V = view (env_bolt E) (db w)" and ready: "scope_ready V ns scope"
    and last: "V (meta_path ns scope) lastAccountName \<noteq> Some Sub" and free: "free_name V ns scope acct name"
    and w': "view (env_bolt E) (db w') = added_account ns scope acct pub priv name V" "length pub \<le> 151" "length priv \<le> 151"
  shows "scope_ready (view (env_bolt E) (db w')) ns scope"
    and "fetchLastAccount (dbw E) ns scope w' = (Ok acct, w')"
    and "LookupAccount E scope ns name w' = (Ok acct, w')"
    and "\<exists>row. fetchAccountInfo (dbw E) ns scope acct w' = (Ok (DefaultRow row), w') \<and> dar_name row = name
      \<and> dar_pubKeyEncrypted row = pub \<and> dar_privKeyEncrypted row = priv \<and> dar_nextExternalIndex row = 0 \<and> dar_nextInternalIndex row = 0"
    and "acct' \<noteq> acct \<Longrightarrow> fst (fetchAccountInfo (dbw E) ns scope acct' w') = fst (fetchAccountInfo (dbw E) ns scope acct' w)"
    and "name' \<noteq> name \<Longrightarrow> fst (LookupAccount E scope ns name' w') = fst (LookupAccount E scope ns name' w)"
proof -
  note contract = dbw_contract [OF bolt]
  have slots: "account_slots V ns scope acct name" and long: "length name + 4 \<le> MaxKeySize" using free by (simp_all add: free_name_def)
  show ready': "scope_ready (view (env_bolt E) (db w')) ns scope"
    using ready slots last by (simp add: w'(1) added_account_def account_view_def account_slots_def)
  have "last_account (view (env_bolt E) (db w')) ns scope acct" by (simp add: w'(1) added_account_def last_account_def)
  then show "fetchLastAccount (dbw E) ns scope w' = (Ok acct, w')" by (rule last_account_eq [OF bolt ready'])
  show "LookupAccount E scope ns name w' = (Ok acct, w')"
    unfolding LookupAccount_def lookupAccount_def
    by (rule walletdb_bucket.fetchAccountByName_effect(1) [OF contract ready']) (simp add: w'(1) added_account_def account_view_def)
  have "length pub + length priv + length name + 25 < 2 ^ 32" using w'(2,3) long by (simp add: limits)
  from walletdb_bucket.fetchAccountInfo_default [OF contract ready' this refl, of acct 0 0]
  show "\<exists>row. fetchAccountInfo (dbw E) ns scope acct w' = (Ok (DefaultRow row), w') \<and> dar_name row = name
      \<and> dar_pubKeyEncrypted row = pub \<and> dar_privKeyEncrypted row = priv \<and> dar_nextExternalIndex row = 0 \<and> dar_nextInternalIndex row = 0"
    by (simp add: w'(1) added_account_def account_view_def)
  show "fst (fetchAccountInfo (dbw E) ns scope acct' w') = fst (fetchAccountInfo (dbw E) ns scope acct' w)" if "acct' \<noteq> acct"
    using that ready V
    by (intro walletdb_bucket.fetchAccountInfo_reads [OF contract _ ready']) (simp_all add: w'(1) added_account_def account_view_def)
  show "fst (LookupAccount E scope ns name' w') = fst (LookupAccount E scope ns name' w)" if "name' \<noteq> name"
    unfolding LookupAccount_def lookupAccount_def using that ready V
    by (intro walletdb_bucket.fetchAccountByName_reads [OF contract _ ready']) (simp_all add: w'(1) added_account_def account_view_def)
qed

lemma NewAccount_duplicate:
  assumes "unlocked (mgr w)" and "ValidateAccountName name = Ok ()" and "fetchLastAccount (dbw E) ns scope w = (Ok n, w)"
    and "LookupAccount E scope ns name w = (Ok acct, w)"
  shows "NewAccount E scope ns name w = (Err (managerError ErrDuplicateAccount None), w)"
  using assms by (simp add: NewAccount_def newAccount_def LookupAccount_def Let_def bnd_def unlocked_def attempt_def go_simps)

text \<open>A scope that \<^verbatim>\<open>Create\<close> stored is in the state that \<^verbatim>\<open>NewAccount\<close> needs, with the default account as
  its last one.\<close>

lemma stored_scope_keys:
  assumes "stored_scope E keyPub keyPriv root V ns scope" and "\<And>k. hd_NewKeyFromString E (hd_String E k) = Ok k"
  shows "last_account V ns scope 0 \<and> (\<exists>ct. scope_keys E keyPriv V ns scope ct)"
  using assms unfolding stored_scope_def last_account_def scope_keys_def DefaultAccountNum_def by metis

text \<open>A scope that \<^verbatim>\<open>NewScopedKeyManager\<close> added has no last account, which reads as \<open>2 ^ 32 - 1\<close>: the next
  number wraps around to 0, and the new account replaces the default account of the scope. The name
  \<open>default\<close> then leads to the account that was added.\<close>

lemma new_scope_overwrites_default:
  fixes E :: "('k, 'sk, 'pk, 'a, 'n, 's) env" and w :: "('k, 'pk, 'a, 'n, 's) world"
  assumes "bolt_contract (env_bolt E)" and "crypto_contract (env_crypto E)" and "short_keys E"
    and "unlocked (mgr w)" and "bolt_Writable (env_bolt E) (db w)" and "48 \<le> length (rng w)"
    and V: "V = view (env_bolt E) (db w)"
    and keys: "scope_keys E (cryptoKeyPriv (mgr w)) V ns scope ct" and none: "V (meta_path ns scope) lastAccountName = None"
    and free: "free_name V ns scope 0 name" and "deriveAccountKey E ct 0 = Ok k" and "hd_Neuter E k = Ok kPub"
    and "name \<noteq> defaultAccountName" and default: "LookupAccount E scope ns defaultAccountName w = (Ok 0, w)"
  shows "\<exists>w' row. NewAccount E scope ns name w = (Ok 0, w')
    \<and> fst (LookupAccount E scope ns defaultAccountName w') = Ok 0
    \<and> fetchAccountInfo (dbw E) ns scope 0 w' = (Ok (DefaultRow row), w') \<and> dar_name row = name"
proof -
  have last: "last_account V ns scope (2 ^ 32 - 1)" "V (meta_path ns scope) lastAccountName \<noteq> Some Sub"
    using none by (simp_all add: last_account_def)
  have ready: "scope_ready V ns scope" using keys by (simp add: scope_keys_def)
  have wrap: "(2 ^ 32 - 1) + 1 = (0 :: u32)" by simp
  obtain w' pub priv where "NewAccount E scope ns name w = (Ok 0, w')"
    and w': "view (env_bolt E) (db w') = added_account ns scope 0 pub priv name V" "length pub \<le> 151" "length priv \<le> 151"
    using NewAccount_adds [OF assms(1-8) last(1), unfolded wrap, OF free assms(11,12)] by metis
  moreover note added_account_reads(4,6) [OF assms(1) V ready last(2) free w']
  ultimately show ?thesis using default assms(13) by (metis fst_conv)
qed

section \<open>Properties\<close>

text \<open>C9: \<^verbatim>\<open>NewAccount\<close> on an unlocked manager gives the new account the number after the last one, for a
  valid name that is not taken. Afterwards that number is the last one, the name leads to it, its row
  has fresh indexes and keys that the crypto keys open to the derived ones; every other account and
  every other name is as before, the manager in memory is untouched, and asking for the same name
  again gives \<^verbatim>\<open>ErrDuplicateAccount\<close>.\<close>

theorem scoped_new_account:
  fixes E :: "('k, 'sk, 'pk, 'a, 'n, 's) env" and w :: "('k, 'pk, 'a, 'n, 's) world"
  assumes "bolt_contract (env_bolt E)" and "crypto_contract (env_crypto E)" and "short_keys E"
    and "unlocked (mgr w)" and "bolt_Writable (env_bolt E) (db w)" and "48 \<le> length (rng w)"
    and "V = view (env_bolt E) (db w)"
    and "scope_keys E (cryptoKeyPriv (mgr w)) V ns scope ct" and "last_account V ns scope n"
    and "free_name V ns scope (n + 1) name" and "deriveAccountKey E ct (n + 1) = Ok k" and "hd_Neuter E k = Ok kPub"
    and "w' = snd (NewAccount E scope ns name w)"
  shows "fst (NewAccount E scope ns name w) = Ok (n + 1)
    \<and> fetchLastAccount (dbw E) ns scope w' = (Ok (n + 1), w') \<and> LookupAccount E scope ns name w' = (Ok (n + 1), w')
    \<and> (\<exists>row. fetchAccountInfo (dbw E) ns scope (n + 1) w' = (Ok (DefaultRow row), w') \<and> dar_name row = name
         \<and> dar_nextExternalIndex row = 0 \<and> dar_nextInternalIndex row = 0
         \<and> decrypt E (cryptoKeyPub (mgr w')) (dar_pubKeyEncrypted row) = Ok (hd_String E kPub)
         \<and> decrypt E (cryptoKeyPriv (mgr w')) (dar_privKeyEncrypted row) = Ok (hd_String E k))
    \<and> (\<forall>acct. acct \<noteq> n + 1 \<longrightarrow> fst (fetchAccountInfo (dbw E) ns scope acct w') = fst (fetchAccountInfo (dbw E) ns scope acct w))
    \<and> (\<forall>name'. name' \<noteq> name \<longrightarrow> fst (LookupAccount E scope ns name' w') = fst (LookupAccount E scope ns name' w))
    \<and> NewAccount E scope ns name w' = (Err (managerError ErrDuplicateAccount None), w') \<and> mgr w' = mgr w"
proof -
  obtain w'' pub priv where run: "NewAccount E scope ns name w = (Ok (n + 1), w'')" and mgr: "mgr w'' = mgr w"
    and added: "view (env_bolt E) (db w'') = added_account ns scope (n + 1) pub priv name V" "length pub \<le> 151" "length priv \<le> 151"
    and dec: "decrypt E (cryptoKeyPub (mgr w)) pub = Ok (hd_String E kPub)" "decrypt E (cryptoKeyPriv (mgr w)) priv = Ok (hd_String E k)"
    by (rule NewAccount_adds [OF assms(1-12)])
  have "w'' = w'" using run assms(13) by simp
  note added = added [unfolded this] and mgr = mgr [unfolded this] and run = run [unfolded this]
  have ready: "scope_ready V ns scope" using assms(8) by (simp add: scope_keys_def)
  have last: "V (meta_path ns scope) lastAccountName \<noteq> Some Sub" using assms(9) by (auto simp: last_account_def)
  note reads = added_account_reads [OF assms(1,7) ready last assms(10) added]
  have "unlocked (mgr w')" "ValidateAccountName name = Ok ()" using assms(4,10) mgr by (simp_all add: free_name_def)
  note again = NewAccount_duplicate [OF this reads(2,3)]
  show ?thesis
    using run mgr dec reads(2-6) again by auto
qed

text \<open>The created namespace with coin type keys, under a manager whose crypto keys are zero.\<close>

definition example_sealed :: bytes where
  "example_sealed = make_bytes 24 @ make_bytes 16 @ [5]"

definition example_unlocked :: "(nat, nat, nat, nat, mem) world" where
  "example_unlocked = example_locked\<lparr>
     db := snd (putCoinTypeKeys (bdb_bucket memB) example_ns example_scope (Some example_sealed) (Some example_sealed) example_created),
     rng := make_bytes 48,
     mgr := (mgr example_locked)\<lparr>locked := False, cryptoKeyPub := make_bytes 32, cryptoKeyPriv := make_bytes 32\<rparr>\<rparr>"

theorem scoped_new_account_witness:
  "fst (NewAccount example_hd example_scope example_ns (go_string ''savings'') example_unlocked) = Ok 1"
proof -
  let ?V = "view memB (db example_unlocked)"
  have rw: "bolt_Writable memB example_created" using example_created(1) by simp
  have "distinct (map fst example_scopes)" by (simp add: example_scopes_def)
  from walletdb_bucket.createManagerNS_new_namespace [OF mem.bdb.walletdb_bucket_axioms _ _ _ this, of example_store example_ns 0]
  have new: "new_namespace example_ns example_scopes (view memB example_created)"
    by (simp add: example_created_def)
  then have slots: "scope_slots (view memB example_created) example_ns example_scope"
    and last: "view memB example_created (meta_path example_ns example_scope) lastAccountName = Some (Val (uint32ToBytes 0))"
    using example_scope_in by (auto simp: new_namespace_def DefaultAccountNum_def simp del: view_memB)
  have "length example_sealed \<le> MaxValueSize" by (simp add: example_sealed_def limits)
  note put = walletdb_bucket.putCoinTypeKeys_effect [OF mem.bdb.walletdb_bucket_axioms rw example_scope_ready this this]
  have V: "?V = vput (vput (view memB example_created) (scope_path example_ns example_scope) coinTypePubKeyName (Val example_sealed))
      (scope_path example_ns example_scope) coinTypePrivKeyName (Val example_sealed)"
    and writable: "bolt_Writable memB (db example_unlocked)"
    using put slots by (simp_all add: example_unlocked_def scope_slots_def del: view_memB)
  have ready: "scope_ready ?V example_ns example_scope"
    using slots by (simp add: V scope_slots_def del: view_memB)
  have dec: "decrypt example_hd (make_bytes 32) example_sealed = Ok [5]" by code_simp
  have keys: "scope_keys example_hd (cryptoKeyPriv (mgr example_unlocked)) ?V example_ns example_scope 5"
  proof -
    have "hd_String example_hd 5 = [5]" "hd_NewKeyFromString example_hd [5] = Ok 5" by (simp_all add: example_hd_def)
    moreover have "cryptoKeyPriv (mgr example_unlocked) = make_bytes 32" by (simp add: example_unlocked_def)
    moreover have "?V (scope_path example_ns example_scope) coinTypePubKeyName = Some (Val example_sealed)"
        "?V (scope_path example_ns example_scope) coinTypePrivKeyName = Some (Val example_sealed)"
      by (simp_all add: V del: view_memB)
    ultimately show ?thesis using ready dec unfolding scope_keys_def by metis
  qed
  have last: "last_account ?V example_ns example_scope 0"
    using last by (simp add: last_account_def V del: view_memB)
  have name: "free_name ?V example_ns example_scope (0 + 1) (go_string ''savings'')"
    by (simp add: free_name_def account_slots_def V example_scope_empty scopeSubBuckets_def limits ValidateAccountName_def
        isReservedAccountName_def ImportedAddrAccountName_def del: view_memB)
  have keyed: "unlocked (mgr example_unlocked)" "48 \<le> length (rng example_unlocked)"
    by (simp_all add: unlocked_def example_unlocked_def)
  have derive: "deriveAccountKey example_hd 5 (0 + 1) = Ok (5 + unat (1 + HardenedKeyStart))"
      "hd_Neuter example_hd (5 + unat (1 + HardenedKeyStart)) = Ok (5 + unat (1 + HardenedKeyStart))"
    by (simp_all add: deriveAccountKey_def example_hd_def key_limits)
  have writable': "bolt_Writable (env_bolt example_hd) (db example_unlocked)" and V': "?V = view (env_bolt example_hd) (db example_unlocked)"
    using writable by simp_all
  from scoped_new_account [OF example_wallet(1-3) keyed(1) writable' keyed(2) V' keys last name derive refl]
  show ?thesis by simp
qed

end
