(* ===== verification/AccountBook.thy ===== *)
theory AccountBook
  imports NewAccounts
begin

text \<open>
  The accounts of a scope of a created wallet, over any sequence of calls of \<^verbatim>\<open>NewAccount\<close> and \<^verbatim>\<open>LookupAccount\<close>
  (\<^verbatim>\<open>waddrmgr/scoped_manager.go\<close>), with the manager opened and unlocked anew from its database in between
  (\<^verbatim>\<open>waddrmgr/manager.go\<close>). The specification is the list of the names of the accounts in the order of their
  numbers.
\<close>

section \<open>A list of names\<close>

datatype account_call = AddAccount gostring | FindAccount gostring | Reopen

text \<open>The name \<open>imported\<close> is taken from the start by the number reserved for imported keys, and is not in the list.\<close>

definition position :: "gostring \<Rightarrow> gostring list \<Rightarrow> nat" where
  "position name names = length (takeWhile (\<lambda>x. x \<noteq> name) names)"

fun account_spec :: "account_call \<Rightarrow> gostring list \<Rightarrow> u32 result \<times> gostring list" where
  "account_spec (AddAccount name) names =
     (if name = [] \<or> name = ImportedAddrAccountName then (Err (managerError ErrInvalidAccount None), names)
      else if name \<in> set names then (Err (managerError ErrDuplicateAccount None), names)
      else if unat MaxAccountNum < length names
      then (Err (managerError ErrKeyChain (Some (managerError ErrAccountNumTooHigh None))), names)
      else (Ok (word_of_nat (length names)), names @ [name]))"
| "account_spec (FindAccount name) names =
     (if name = ImportedAddrAccountName then (Ok ImportedAddrAccount, names)
      else if name \<in> set names then (Ok (word_of_nat (position name names)), names)
      else (Err (managerError ErrAccountNotFound None), names))"
| "account_spec Reopen names = (Ok 0, names)"

fun account_specs :: "account_call list \<Rightarrow> gostring list \<Rightarrow> u32 result list \<times> gostring list" where
  "account_specs [] names = ([], names)"
| "account_specs (c # cs) names =
     (case account_spec c names of (r, names) \<Rightarrow>
      case account_specs cs names of (rs, names) \<Rightarrow> (r # rs, names))"

text \<open>The same calls on the program. \<open>Reopen\<close> drops the manager: a new one is opened on what is stored and unlocked.\<close>

fun account_call_of ::
  "('k, 'sk, 'pk, 'a, 'n, 's) env \<Rightarrow> KeyScope \<Rightarrow> bkt \<Rightarrow> bytes \<Rightarrow> bytes \<Rightarrow> 'n option \<Rightarrow> account_call
   \<Rightarrow> (('k, 'pk, 'a, 'n, 's) world, u32) go" where
  "account_call_of E scope ns pubPass privPass params (AddAccount name) = NewAccount E scope ns name"
| "account_call_of E scope ns pubPass privPass params (FindAccount name) = LookupAccount E scope ns name"
| "account_call_of E scope ns pubPass privPass params Reopen =
     bnd (Open E (Some ns) pubPass params) (\<lambda>m.
     bnd (modify (\<lambda>w. w\<lparr>mgr := m, heap := [], hooks := []\<rparr>)) (\<lambda>_.
     bnd (Unlock E ns privPass) (\<lambda>_.
     ret 0)))"

fun account_calls ::
  "('k, 'sk, 'pk, 'a, 'n, 's) env \<Rightarrow> KeyScope \<Rightarrow> bkt \<Rightarrow> bytes \<Rightarrow> bytes \<Rightarrow> 'n option \<Rightarrow> account_call list
   \<Rightarrow> ('k, 'pk, 'a, 'n, 's) world \<Rightarrow> u32 result list \<times> ('k, 'pk, 'a, 'n, 's) world" where
  "account_calls E scope ns pubPass privPass params [] w = ([], w)"
| "account_calls E scope ns pubPass privPass params (c # cs) w =
     (case account_call_of E scope ns pubPass privPass params c w of (r, w) \<Rightarrow>
      case account_calls E scope ns pubPass privPass params cs w of (rs, w) \<Rightarrow> (r # rs, w))"

lemma position_nth: "distinct names \<Longrightarrow> i < length names \<Longrightarrow> position (names ! i) names = i"
proof (induction names arbitrary: i)
  case (Cons x xs)
  then show ?case by (cases i) (auto simp: position_def)
qed simp

lemma position_less:
  assumes "name \<in> set names"
  shows "position name names < length names" and "names ! position name names = name"
  using assms by (induction names) (auto simp: position_def)

section \<open>The list in the database\<close>

text \<open>The library derives every account a wallet may have, and reads back what it wrote of the coin type key.\<close>

definition account_keys :: "('k, 'sk, 'pk, 'a, 'n, 's) env \<Rightarrow> 'k \<Rightarrow> KeyScope \<Rightarrow> bool" where
  "account_keys E root scope \<longleftrightarrow> (\<forall>ct. deriveCoinTypeKey E root scope = Ok ct \<longrightarrow>
     hd_NewKeyFromString E (hd_String E ct) = Ok ct
   \<and> (\<forall>n \<le> MaxAccountNum. \<exists>k kPub. deriveAccountKey E ct n = Ok k \<and> hd_Neuter E k = Ok kPub))"

text \<open>The row of an account: its name, and its derived keys under the two crypto keys.\<close>

definition account_row ::
  "('k, 'sk, 'pk, 'a, 'n, 's) env \<Rightarrow> bytes \<Rightarrow> bytes \<Rightarrow> 'k \<Rightarrow> u32 \<Rightarrow> gostring \<Rightarrow> entry option \<Rightarrow> bool" where
  "account_row E keyPub keyPriv ct n name e \<longleftrightarrow> (\<exists>k kPub pub priv. deriveAccountKey E ct n = Ok k \<and> hd_Neuter E k = Ok kPub
     \<and> e = Some (Val (accountDefault # field (field pub @ field priv @ le32 0 @ le32 0 @ field name)))
     \<and> length pub \<le> 151 \<and> length priv \<le> 151 \<and> length name + 4 \<le> MaxKeySize
     \<and> decrypt E keyPub pub = Ok (hd_String E kPub) \<and> decrypt E keyPriv priv = Ok (hd_String E k))"

definition book ::
  "('k, 'sk, 'pk, 'a, 'n, 's) env \<Rightarrow> bytes \<Rightarrow> bytes \<Rightarrow> view \<Rightarrow> bkt \<Rightarrow> KeyScope \<Rightarrow> 'k \<Rightarrow> gostring list \<Rightarrow> bool" where
  "book E keyPub keyPriv V ns scope ct names \<longleftrightarrow> scope_keys E keyPriv V ns scope ct
   \<and> names \<noteq> [] \<and> length names \<le> Suc (unat MaxAccountNum) \<and> distinct names \<and> ImportedAddrAccountName \<notin> set names
   \<and> V (meta_path ns scope) lastAccountName = Some (Val (uint32ToBytes (word_of_nat (length names - 1))))
   \<and> (\<forall>name. V (acct_name_path ns scope) (stringToBytes name) =
        (if name = ImportedAddrAccountName then Some (Val (uint32ToBytes ImportedAddrAccount))
         else if name \<in> set names then Some (Val (uint32ToBytes (word_of_nat (position name names)))) else None))
   \<and> (\<forall>i < length names. account_row E keyPub keyPriv ct (word_of_nat i) (names ! i) (V (acct_path ns scope) (uint32ToBytes (word_of_nat i))))
   \<and> (\<forall>k. V (acct_path ns scope) k \<noteq> Some Sub \<and> V (acct_id_path ns scope) k \<noteq> Some Sub)"

lemma account_limits: "unat MaxAccountNum = 2147483646" "unat ImportedAddrAccount = 2147483647"
  by (simp_all add: key_limits)

lemma word_of_nat_less: "n < 2 ^ 32 \<Longrightarrow> unat (word_of_nat n :: u32) = n"
  by (simp add: unat_of_nat take_bit_nat_eq_self)

lemma numbers_differ: "i < 2 ^ 32 \<Longrightarrow> j < 2 ^ 32 \<Longrightarrow> (word_of_nat i :: u32) = word_of_nat j \<longleftrightarrow> i = j"
  by (metis word_of_nat_less)

lemma next_number: "names \<noteq> [] \<Longrightarrow> word_of_nat (length names - 1) + 1 = (word_of_nat (length names) :: u32)"
  by (cases names) (simp_all add: add.commute)

text \<open>One more account.\<close>

lemma book_add:
  assumes book: "book E keyPub keyPriv V ns scope ct names" and name: "name \<notin> set names" "name \<noteq> ImportedAddrAccountName"
    and room: "length names \<le> unat MaxAccountNum" and n: "n = word_of_nat (length names)"
    and row: "account_row E keyPub keyPriv ct n name (added_account ns scope n pub priv name V (acct_path ns scope) (uint32ToBytes n))"
    and ready: "scope_ready (added_account ns scope n pub priv name V) ns scope"
  shows "book E keyPub keyPriv (added_account ns scope n pub priv name V) ns scope ct (names @ [name])"
proof -
  let ?V = "added_account ns scope n pub priv name V"
  have small: "length names < 2 ^ 32" using room by (simp add: account_limits)
  have pos: "position x (names @ [name]) = (if x \<in> set names then position x names else length names)" if "x \<in> set (names @ [name])" for x
    using that by (auto simp: position_def takeWhile_append)
  have other: "?V (acct_path ns scope) (uint32ToBytes (word_of_nat i)) = V (acct_path ns scope) (uint32ToBytes (word_of_nat i))" if "i < length names" for i
    using that small numbers_differ [of i "length names"] by (simp add: added_account_def account_view_def n)
  have "account_row E keyPub keyPriv ct (word_of_nat i) ((names @ [name]) ! i) (?V (acct_path ns scope) (uint32ToBytes (word_of_nat i)))"
    if "i < length (names @ [name])" for i
    using that book other row n by (cases "i = length names") (auto simp: book_def nth_append less_Suc_eq)
  moreover have "scope_keys E keyPriv ?V ns scope ct"
    using book ready by (auto simp: book_def scope_keys_def added_account_def account_view_def)
  ultimately show ?thesis
    using book name room pos n unfolding book_def by (auto simp: added_account_def account_view_def)
qed

section \<open>The calls on the program\<close>

lemma book_ready: "book E keyPub keyPriv V ns scope ct names \<Longrightarrow> scope_ready V ns scope"
  by (simp add: book_def scope_keys_def)

lemma book_Lookup:
  fixes w :: "('k, 'pk, 'a, 'n, 's) world"
  assumes bolt: "bolt_contract (env_bolt E)" and book: "book E keyPub keyPriv (view (env_bolt E) (db w)) ns scope ct names"
  shows "LookupAccount E scope ns name w = (fst (account_spec (FindAccount name) names), w)"
  using walletdb_bucket.fetchAccountByName_effect [OF dbw_contract [OF bolt], of w ns scope name] book_ready [OF book] book
  by (auto simp: LookupAccount_def lookupAccount_def book_def)

lemma book_last:
  fixes w :: "('k, 'pk, 'a, 'n, 's) world"
  assumes bolt: "bolt_contract (env_bolt E)" and book: "book E keyPub keyPriv (view (env_bolt E) (db w)) ns scope ct names"
  shows "fetchLastAccount (dbw E) ns scope w = (Ok (word_of_nat (length names - 1)), w)"
    and "last_account (view (env_bolt E) (db w)) ns scope (word_of_nat (length names - 1))"
proof -
  show "last_account (view (env_bolt E) (db w)) ns scope (word_of_nat (length names - 1))"
    using book by (simp add: book_def last_account_def)
  then show "fetchLastAccount (dbw E) ns scope w = (Ok (word_of_nat (length names - 1)), w)"
    by (rule last_account_eq [OF bolt book_ready [OF book]])
qed

text \<open>\<^verbatim>\<open>NewAccount\<close> refuses a name that is empty, reserved or taken, and a number out of range, before anything is stored.\<close>

lemma book_New_refused:
  fixes w :: "('k, 'pk, 'a, 'n, 's) world"
  assumes bolt: "bolt_contract (env_bolt E)" and m: "unlocked (mgr w)" "cryptoKeyPriv (mgr w) = keyPriv"
    and book: "book E keyPub keyPriv (view (env_bolt E) (db w)) ns scope ct names"
    and refused: "account_spec (AddAccount name) names = (Err e, names')"
  shows "NewAccount E scope ns name w = (Err e, w)" and "names' = names"
proof -
  show "names' = names" using refused by (simp split: if_splits)
  note last = book_last(1) [OF bolt book]
  have lookup: "lookupAccount E scope ns name w = (fst (account_spec (FindAccount name) names), w)"
    using book_Lookup [OF bolt book] by (simp add: LookupAccount_def)
  have next_no: "word_of_nat (length names - 1) + 1 = (word_of_nat (length names) :: u32)" and len: "length names < 2 ^ 32"
    using book next_number [of names] by (auto simp: book_def account_limits)
  obtain cPub cPriv where coin: "fetchCoinTypeKeys (dbw E) ns scope w = (Ok (cPub, cPriv), w)"
      "decrypt E keyPriv cPriv = Ok (hd_String E ct)" "hd_NewKeyFromString E (hd_String E ct) = Ok ct"
    using book fetchCoinTypeKeys_eq [OF bolt, of w ns scope] by (auto simp: book_def scope_keys_def)
  have high: "MaxAccountNum < (word_of_nat (length names) :: u32)" if "unat MaxAccountNum < length names"
    using that len by (simp add: word_less_nat_alt word_of_nat_less)
  show "NewAccount E scope ns name w = (Err e, w)"
    using m refused lookup last next_no coin high
    by (auto simp: NewAccount_def newAccount_def Let_def bnd_def unlocked_def attempt_def go_simps ValidateAccountName_def
        isReservedAccountName_def deriveAccountKey_def as_error_def wrap_err_def split: if_splits)
qed

lemma book_New_added:
  fixes w :: "('k, 'pk, 'a, 'n, 's) world"
  assumes bolt: "bolt_contract (env_bolt E)" and crypto: "crypto_contract (env_crypto E)" and short: "short_keys E"
    and m: "unlocked (mgr w)" "cryptoKeyPub (mgr w) = keyPub" "cryptoKeyPriv (mgr w) = keyPriv"
    and rw: "bolt_Writable (env_bolt E) (db w)" and rng: "48 \<le> length (rng w)"
    and V: "V = view (env_bolt E) (db w)" and book: "book E keyPub keyPriv V ns scope ct names"
    and keys: "\<forall>n \<le> MaxAccountNum. \<exists>k kPub. deriveAccountKey E ct n = Ok k \<and> hd_Neuter E k = Ok kPub"
    and added: "account_spec (AddAccount name) names = (Ok n, names')" and long: "length name + 4 \<le> MaxKeySize"
  obtains w' where "NewAccount E scope ns name w = (Ok n, w')" and "mgr w' = mgr w"
    and "book E keyPub keyPriv (view (env_bolt E) (db w')) ns scope ct names'"
    and "\<And>p k. \<not> in_scope ns scope p \<Longrightarrow> view (env_bolt E) (db w') p k = V p k"
    and "bolt_Writable (env_bolt E) (db w')" and "length (rng w) \<le> length (rng w') + 48"
proof -
  have name: "name \<noteq> []" "name \<noteq> ImportedAddrAccountName" "name \<notin> set names" "length names \<le> unat MaxAccountNum"
    and n: "n = word_of_nat (length names)" "names' = names @ [name]"
    using added by (simp_all split: if_splits)
  have next_no: "word_of_nat (length names - 1) + 1 = n"
    using book next_number [of names] by (auto simp: book_def n)
  have "n \<le> MaxAccountNum"
    using name(4) by (simp add: n word_le_nat_alt word_of_nat_less account_limits)
  then obtain k kPub where k: "deriveAccountKey E ct n = Ok k" "hd_Neuter E k = Ok kPub" using keys by blast
  have last: "last_account V ns scope (word_of_nat (length names - 1))" using book_last(2) [OF bolt] book V by blast
  have keyed: "scope_keys E (cryptoKeyPriv (mgr w)) V ns scope ct" using book m(3) by (simp add: book_def)
  have free: "free_name V ns scope n name"
    using book name long by (auto simp: free_name_def book_def account_slots_def ValidateAccountName_def isReservedAccountName_def)
  obtain w' pub priv where run: "NewAccount E scope ns name w = (Ok n, w')" "mgr w' = mgr w"
    and w': "view (env_bolt E) (db w') = added_account ns scope n pub priv name V" "length pub \<le> 151" "length priv \<le> 151"
    and dec: "decrypt E (cryptoKeyPub (mgr w)) pub = Ok (hd_String E kPub)" "decrypt E (cryptoKeyPriv (mgr w)) priv = Ok (hd_String E k)"
    and after: "bolt_Writable (env_bolt E) (db w')" "length (rng w) \<le> length (rng w') + 48"
    using NewAccount_runs [OF bolt crypto short m(1) rw rng V keyed last, unfolded next_no, OF free k] by metis
  have "V (meta_path ns scope) lastAccountName \<noteq> Some Sub" using last by (auto simp: last_account_def)
  note ready = added_account_reads(1) [OF bolt V book_ready [OF book] this free w']
  have row: "account_row E keyPub keyPriv ct n name (added_account ns scope n pub priv name V (acct_path ns scope) (uint32ToBytes n))"
    using k w'(2,3) dec long m(2,3) by (auto simp: account_row_def added_account_def account_view_def)
  have "book E keyPub keyPriv (view (env_bolt E) (db w')) ns scope ct names'"
    unfolding w'(1) n(2) by (rule book_add [OF book name(3,2,4) n(1) row ready [unfolded w'(1)]])
  moreover have "view (env_bolt E) (db w') p k = V p k" if "\<not> in_scope ns scope p" for p k
    using that by (auto simp: w'(1) added_account_def account_view_frame)
  ultimately show ?thesis using that run after by blast
qed

text \<open>A world whose manager is open and unlocked on a database with the list.\<close>

definition book_world ::
  "('k, 'sk, 'pk, 'a, 'n, 's) env \<Rightarrow> bytes \<Rightarrow> bytes \<Rightarrow> (KeyScope \<times> ScopeAddrSchema) list \<Rightarrow> bytes \<Rightarrow> bytes \<Rightarrow> bkt \<Rightarrow> KeyScope
   \<Rightarrow> 'k \<Rightarrow> gostring list \<Rightarrow> ('k, 'pk, 'a, 'n, 's) world \<Rightarrow> bool" where
  "book_world E pubPass privPass xs keyPub keyPriv ns scope ct names w \<longleftrightarrow> unlocked (mgr w)
   \<and> cryptoKeyPub (mgr w) = keyPub \<and> cryptoKeyPriv (mgr w) = keyPriv \<and> bolt_Writable (env_bolt E) (db w)
   \<and> stored_records E (view (env_bolt E) (db w)) ns pubPass privPass keyPub keyPriv xs
   \<and> book E keyPub keyPriv (view (env_bolt E) (db w)) ns scope ct names"

lemma Unlock_book:
  assumes crypto: "crypto_contract (env_crypto E)" and "privPass \<noteq> []" and opened: "opened E privPass keyPub keyPriv xs (mgr u)"
    and "length keyPub = 32" and "bolt_Writable (env_bolt E) (db u)"
    and "stored_records E (view (env_bolt E) (db u)) ns pubPass privPass keyPub keyPriv xs"
    and "book E keyPub keyPriv (view (env_bolt E) (db u)) ns scope ct names"
  shows "\<exists>u'. Unlock E ns privPass u = (Ok (), u') \<and> rng u' = rng u \<and> db u' = db u
    \<and> book_world E pubPass privPass xs keyPub keyPriv ns scope ct names u'"
proof -
  have m: "\<not> watchingOnly (mgr u)" "cryptoKeyPub (mgr u) = keyPub" "length keyPriv = 32"
    using opened by (simp_all add: opened_def)
  from Unlock_opened_states(1) [OF crypto opened assms(2), of ns] obtain k where
    "Unlock E ns privPass u = (Ok (), u\<lparr>mgr := (mgr u)\<lparr>masterKeyPriv := (masterKeyPriv (mgr u))\<lparr>Key := Some k\<rparr>,
      cryptoKeyPriv := keyPriv, locked := False,
      hashedPrivPassphrase := sha512_Sum512 (env_crypto E) (privPassphraseSalt (mgr u) @ privPass)\<rparr>\<rparr>)" by blast
  with m assms(4-) show ?thesis by (simp add: book_world_def unlocked_def)
qed

lemma Reopen_book:
  fixes params :: "'n option" and w :: "('k, 'pk, 'a, 'n, 's) world"
  assumes bolt: "bolt_contract (env_bolt E)" and crypto: "crypto_contract (env_crypto E)" and "privPass \<noteq> []"
    and xs: "distinct (map fst xs)" and w: "book_world E pubPass privPass xs keyPub keyPriv ns scope ct names w"
    and rng: "32 \<le> length (rng w)"
  shows "\<exists>w'. account_call_of E scope ns pubPass privPass params Reopen w = (Ok 0, w')
    \<and> book_world E pubPass privPass xs keyPub keyPriv ns scope ct names w' \<and> length (rng w) \<le> length (rng w') + 32"
proof -
  let ?V = "view (env_bolt E) (db w)"
  have records: "stored_records E ?V ns pubPass privPass keyPub keyPriv xs" and "length keyPub = 32"
    using w by (auto simp: book_world_def unlocked_def)
  have "sees E ?V (length (rng w) - 32 + 32) w" using w rng by (simp add: sees_def book_world_def)
  from Open_records(1) [OF bolt crypto this records xs, of params] obtain m w1 where
    open': "Open E (Some ns) pubPass params w = (Ok m, w1)" "opened E privPass keyPub keyPriv xs m"
    and sees: "sees E ?V (length (rng w) - 32) w1" by (auto simp: gives_def)
  let ?u = "w1\<lparr>mgr := m, heap := [], hooks := []\<rparr>"
  have "opened E privPass keyPub keyPriv xs (mgr ?u)" "bolt_Writable (env_bolt E) (db ?u)"
      "stored_records E (view (env_bolt E) (db ?u)) ns pubPass privPass keyPub keyPriv xs"
      "book E keyPub keyPriv (view (env_bolt E) (db ?u)) ns scope ct names"
    using open'(2) sees records w by (simp_all add: sees_def book_world_def)
  from Unlock_book [OF crypto assms(3) this(1) \<open>length keyPub = 32\<close> this(2-4)] obtain u' where
    "Unlock E ns privPass ?u = (Ok (), u')" "rng u' = rng ?u" "book_world E pubPass privPass xs keyPub keyPriv ns scope ct names u'"
    by blast
  moreover have "length (rng w) \<le> length (rng ?u) + 32" using sees by (simp add: sees_def le_diff_conv)
  ultimately show ?thesis by (simp add: bnd_def open'(1) go_simps)
qed

text \<open>Every call answers as the specification, and leaves the list the specification has then.\<close>

lemma account_call_refines:
  fixes params :: "'n option" and w :: "('k, 'pk, 'a, 'n, 's) world"
  assumes bolt: "bolt_contract (env_bolt E)" and crypto: "crypto_contract (env_crypto E)" and short: "short_keys E" and "privPass \<noteq> []"
    and xs: "distinct (map fst xs)" and w: "book_world E pubPass privPass xs keyPub keyPriv ns scope ct names w"
    and rng: "48 \<le> length (rng w)"
    and keys: "\<forall>n \<le> MaxAccountNum. \<exists>k kPub. deriveAccountKey E ct n = Ok k \<and> hd_Neuter E k = Ok kPub"
    and long: "\<forall>name. c = AddAccount name \<longrightarrow> length name + 4 \<le> MaxKeySize"
  shows "\<exists>w'. account_call_of E scope ns pubPass privPass params c w = (fst (account_spec c names), w')
    \<and> book_world E pubPass privPass xs keyPub keyPriv ns scope ct (snd (account_spec c names)) w' \<and> length (rng w) \<le> length (rng w') + 48"
proof (cases c)
  case (AddAccount name)
  have m: "unlocked (mgr w)" "cryptoKeyPub (mgr w) = keyPub" "cryptoKeyPriv (mgr w) = keyPriv" "bolt_Writable (env_bolt E) (db w)"
    and records: "stored_records E (view (env_bolt E) (db w)) ns pubPass privPass keyPub keyPriv xs"
    and book: "book E keyPub keyPriv (view (env_bolt E) (db w)) ns scope ct names"
    using w by (simp_all add: book_world_def)
  obtain r names' where spec: "account_spec (AddAccount name) names = (r, names')" by force
  show ?thesis
  proof (cases r)
    case (Ok n)
    obtain w' where w': "NewAccount E scope ns name w = (Ok n, w')" "mgr w' = mgr w" "bolt_Writable (env_bolt E) (db w')"
        "book E keyPub keyPriv (view (env_bolt E) (db w')) ns scope ct names'" "length (rng w) \<le> length (rng w') + 48"
      and same: "\<And>p k. \<not> in_scope ns scope p \<Longrightarrow> view (env_bolt E) (db w') p k = view (env_bolt E) (db w) p k"
      using book_New_added [OF bolt crypto short m rng refl book keys spec [unfolded Ok]] long AddAccount by metis
    have "stored_records E (view (env_bolt E) (db w')) ns pubPass privPass keyPub keyPriv xs"
      by (rule stored_records_cong [OF records]) (rule same, simp)+
    with w' m AddAccount spec Ok show ?thesis by (auto simp: book_world_def simp del: account_spec.simps)
  next
    case (Err e)
    from book_New_refused [OF bolt m(1,3) book spec [unfolded Err]] w AddAccount spec Err show ?thesis
      by (auto simp del: account_spec.simps)
  qed (use spec in \<open>auto split: if_splits\<close>)
next
  case (FindAccount name)
  have "book E keyPub keyPriv (view (env_bolt E) (db w)) ns scope ct names" using w by (simp add: book_world_def)
  from book_Lookup [OF bolt this, of name] w FindAccount show ?thesis by auto
next
  case Reopen
  from Reopen_book [OF bolt crypto assms(4) xs w, of params] rng obtain w' where
    "account_call_of E scope ns pubPass privPass params Reopen w = (Ok 0, w')"
    "book_world E pubPass privPass xs keyPub keyPriv ns scope ct names w'" "length (rng w) \<le> length (rng w') + 32" by auto
  with Reopen show ?thesis by (intro exI [of _ w']) simp
qed

lemma account_calls_refine:
  fixes params :: "'n option" and w :: "('k, 'pk, 'a, 'n, 's) world"
  assumes "bolt_contract (env_bolt E)" and "crypto_contract (env_crypto E)" and "short_keys E" and "privPass \<noteq> []"
    and "distinct (map fst xs)" and "book_world E pubPass privPass xs keyPub keyPriv ns scope ct names w"
    and "48 * length cs \<le> length (rng w)"
    and "\<forall>n \<le> MaxAccountNum. \<exists>k kPub. deriveAccountKey E ct n = Ok k \<and> hd_Neuter E k = Ok kPub"
    and "\<forall>name. AddAccount name \<in> set cs \<longrightarrow> length name + 4 \<le> MaxKeySize"
  shows "\<exists>w'. account_calls E scope ns pubPass privPass params cs w = (fst (account_specs cs names), w')
    \<and> book_world E pubPass privPass xs keyPub keyPriv ns scope ct (snd (account_specs cs names)) w'"
  using assms(6,7,9)
proof (induction cs arbitrary: names w)
  case (Cons c cs)
  obtain r names1 where spec: "account_spec c names = (r, names1)" by force
  obtain w1 where w1: "account_call_of E scope ns pubPass privPass params c w = (r, w1)"
      "book_world E pubPass privPass xs keyPub keyPriv ns scope ct names1 w1" "length (rng w) \<le> length (rng w1) + 48"
    using account_call_refines [OF assms(1-5) Cons.prems(1) _ assms(8), of c params] Cons.prems(2,3) spec by auto
  have "48 * length cs \<le> length (rng w1)" "\<forall>name. AddAccount name \<in> set cs \<longrightarrow> length name + 4 \<le> MaxKeySize"
    using Cons.prems(2,3) w1(3) by auto
  from Cons.IH [OF w1(2) this] w1(1) spec show ?case by (auto split: prod.splits simp del: account_spec.simps)
qed simp

text \<open>A new scope has the list with the default account.\<close>

lemma book_initial:
  assumes stored: "stored_scope E keyPub keyPriv root V ns scope" and keys: "account_keys E root scope"
  obtains ct where "deriveCoinTypeKey E root scope = Ok ct" and "book E keyPub keyPriv V ns scope ct [defaultAccountName]"
proof -
  obtain ct acct acctPub pub priv cPub cPriv where ct: "deriveCoinTypeKey E root scope = Ok ct"
    and acct: "deriveAccountKey E ct 0 = Ok acct" "hd_Neuter E acct = Ok acctPub"
    and row: "V (acct_path ns scope) (uint32ToBytes 0) = Some (Val (accountDefault # field (default_raw pub priv)))"
    and coin: "V (scope_path ns scope) coinTypePubKeyName = Some (Val cPub)" "V (scope_path ns scope) coinTypePrivKeyName = Some (Val cPriv)"
      "decrypt E keyPriv cPriv = Ok (hd_String E ct)"
    and sealed: "length pub \<le> 151" "length priv \<le> 151" "decrypt E keyPub pub = Ok (hd_String E acctPub)" "decrypt E keyPriv priv = Ok (hd_String E acct)"
    using stored by (auto simp: stored_scope_def usable_root_def DefaultAccountNum_def)
  have "account_row E keyPub keyPriv ct 0 defaultAccountName (V (acct_path ns scope) (uint32ToBytes 0))"
    using acct row sealed by (auto simp: account_row_def default_raw_def limits)
  moreover have "scope_keys E keyPriv V ns scope ct"
    using stored coin keys ct by (simp add: stored_scope_def scope_keys_def account_keys_def)
  ultimately have "book E keyPub keyPriv V ns scope ct [defaultAccountName]"
    using stored by (auto simp: book_def stored_scope_def two_accounts_def position_def DefaultAccountNum_def account_limits)
  with that ct show ?thesis by blast
qed

lemma book_row:
  fixes w :: "('k, 'pk, 'a, 'n, 's) world"
  assumes bolt: "bolt_contract (env_bolt E)" and w: "book_world E pubPass privPass xs keyPub keyPriv ns scope ct names w"
    and i: "i < length names"
  shows "\<exists>k kPub row. deriveAccountKey E ct (word_of_nat i) = Ok k \<and> hd_Neuter E k = Ok kPub
    \<and> fst (fetchAccountInfo (dbw E) ns scope (word_of_nat i) w) = Ok (DefaultRow row) \<and> dar_name row = names ! i
    \<and> decrypt E (cryptoKeyPub (mgr w)) (dar_pubKeyEncrypted row) = Ok (hd_String E kPub)
    \<and> decrypt E (cryptoKeyPriv (mgr w)) (dar_privKeyEncrypted row) = Ok (hd_String E k)"
proof -
  have book: "book E keyPub keyPriv (view (env_bolt E) (db w)) ns scope ct names"
    and keys: "cryptoKeyPub (mgr w) = keyPub" "cryptoKeyPriv (mgr w) = keyPriv"
    using w by (simp_all add: book_world_def)
  obtain k kPub pub priv where row: "deriveAccountKey E ct (word_of_nat i) = Ok k" "hd_Neuter E k = Ok kPub"
      "view (env_bolt E) (db w) (acct_path ns scope) (uint32ToBytes (word_of_nat i))
        = Some (Val (accountDefault # field (field pub @ field priv @ le32 0 @ le32 0 @ field (names ! i))))"
      "length pub \<le> 151" "length priv \<le> 151" "length (names ! i) + 4 \<le> MaxKeySize"
      "decrypt E keyPub pub = Ok (hd_String E kPub)" "decrypt E keyPriv priv = Ok (hd_String E k)"
    using book i by (auto simp: book_def account_row_def)
  have "length pub + length priv + length (names ! i) + 25 < 2 ^ 32" using row(4-6) by (simp add: limits)
  from walletdb_bucket.fetchAccountInfo_default [OF dbw_contract [OF bolt] book_ready [OF book] this refl row(3)]
  show ?thesis using row(1,2,7,8) keys by simp
qed

section \<open>Properties\<close>

text \<open>C5: the accounts of a scope are a list of names. After \<^verbatim>\<open>Create\<close>, \<^verbatim>\<open>Open\<close> and \<^verbatim>\<open>Unlock\<close>, any sequence of calls of
  \<^verbatim>\<open>NewAccount\<close> and \<^verbatim>\<open>LookupAccount\<close> gets the answers of the list that starts with \<open>default\<close>: a new name is
  appended and has its place as number, an empty, a reserved or a taken name is refused, as is a number out of
  range, and a name is found at its place. A manager that is opened and unlocked anew from the database at any point
  goes on with the same list. In the end every account of the list is stored with its name, and the crypto keys
  open its two keys to the ones derived for its number.\<close>

theorem accounts_refine_list:
  fixes E :: "('k, 'sk, 'pk, 'a, 'n, 's) env" and w :: "('s, 'z) base_scheme" and u :: "('k, 'pk, 'a, 'n, 's) world"
  assumes "bolt_contract (env_bolt E)" and "crypto_contract (env_crypto E)" and "short_keys E" and "wallet_root E root"
    and "scrypt_works (env_crypto E) (options config) pubPass" and "scrypt_works (env_crypto E) (options config) privPass"
    and "privPass \<noteq> []" and "distinct (map fst xs)" and "fst ` set xs = set DefaultKeyScopes"
    and "bolt_Writable (env_bolt E) (db w)" and "728 \<le> length (rng w)" and "live (view (env_bolt E) (db w)) ns"
    and "\<forall>k \<in> set mgrBuckets. view (env_bolt E) (db w) ns k = None"
    and "w1 = snd (Create E ns (Some root) pubPass privPass config birthday xs now w)"
    and "fst (Open E (Some ns) pubPass params w1) = Ok (mgr u)" and "db u = db w1"
    and "scope \<in> set DefaultKeyScopes" and "account_keys E root scope" and "48 * length cs \<le> length (rng u)"
    and "\<forall>name. AddAccount name \<in> set cs \<longrightarrow> length name + 4 \<le> MaxKeySize"
    and "(rs, u') = account_calls E scope ns pubPass privPass params cs (snd (Unlock E ns privPass u))"
    and "(spec, names) = account_specs cs [defaultAccountName]"
  shows "rs = spec \<and> (\<exists>ct. deriveCoinTypeKey E root scope = Ok ct
    \<and> (\<forall>i < length names. \<exists>k kPub row. deriveAccountKey E ct (word_of_nat i) = Ok k \<and> hd_Neuter E k = Ok kPub
        \<and> fst (fetchAccountInfo (dbw E) ns scope (word_of_nat i) u') = Ok (DefaultRow row) \<and> dar_name row = names ! i
        \<and> decrypt E (cryptoKeyPub (mgr u')) (dar_pubKeyEncrypted row) = Ok (hd_String E kPub)
        \<and> decrypt E (cryptoKeyPriv (mgr u')) (dar_privKeyEncrypted row) = Ok (hd_String E k)))"
proof -
  obtain w1' V keyPub keyPriv where run: "Create E ns (Some root) pubPass privPass config birthday xs now w = (Ok (), w1')"
    and sees: "sees E V (0 + 32) w1'" and stored: "stored_manager E V ns root pubPass privPass keyPub keyPriv xs"
    by (rule Create_stores [OF assms(1-13)])
  have "w1' = w1" using run assms(14) by simp
  then have V: "view (env_bolt E) (db u) = V" "bolt_Writable (env_bolt E) (db u)" using sees assms(16) by (simp_all add: sees_def)
  have opened: "opened E privPass keyPub keyPriv xs (mgr u)"
    using Open_stored(1) [OF assms(1,2) sees stored assms(8), where params = params] assms(15) \<open>w1' = w1\<close> by (auto simp: gives_def)
  have "scope \<in> fst ` set xs" using assms(9,17) by simp
  then have "stored_scope E keyPub keyPriv root V ns scope" using stored by (auto simp: stored_manager_def)
  from book_initial [OF this assms(18)] obtain ct where ct: "deriveCoinTypeKey E root scope = Ok ct"
    and book: "book E keyPub keyPriv V ns scope ct [defaultAccountName]" .
  have "length keyPub = 32" using stored by (simp add: stored_manager_def master_record_def)
  from Unlock_book [OF assms(2,7) opened this V(2), unfolded V(1), OF stored_manager_records [OF stored] book]
  obtain u1 where u1: "Unlock E ns privPass u = (Ok (), u1)" "rng u1 = rng u"
    "book_world E pubPass privPass xs keyPub keyPriv ns scope ct [defaultAccountName] u1" by blast
  have keys: "\<forall>n \<le> MaxAccountNum. \<exists>k kPub. deriveAccountKey E ct n = Ok k \<and> hd_Neuter E k = Ok kPub"
    using assms(18) ct by (simp add: account_keys_def)
  from account_calls_refine [OF assms(1-3,7,8) u1(3) _ keys assms(20), of params] assms(19,21,22) u1(1,2)
  have "rs = spec" "book_world E pubPass privPass xs keyPub keyPriv ns scope ct names u'" by (auto simp: prod_eq_iff)
  with book_row [OF assms(1) this(2)] ct show ?thesis by blast
qed

text \<open>The library of the other examples with numbers that fit into its one-byte strings.\<close>

definition example_small :: "(nat, nat, nat, nat, nat, mem) env" where
  "example_small = example_hd\<lparr>hd_DeriveNonStandard := \<lambda>k i. Ok (k + unat i mod 2 ^ 31)\<rparr>"

lemma example_small_wallet:
  "bolt_contract (env_bolt example_small)" "crypto_contract (env_crypto example_small)" "short_keys example_small"
  "wallet_root example_small 1" "scrypt_works (env_crypto example_small) (options opt) pw"
  "account_keys example_small 1 KeyScopeBIP0084"
proof -
  show "wallet_root example_small 1"
    by (auto simp: wallet_root_def usable_root_def deriveCoinTypeKey_def deriveAccountKey_def checkBranchKeys_def
        example_small_def example_hd_def key_limits DefaultKeyScopes_def bip_scopes)
  show "account_keys example_small 1 KeyScopeBIP0084"
    by (auto simp: account_keys_def deriveCoinTypeKey_def deriveAccountKey_def example_small_def example_hd_def key_limits bip_scopes not_less)
qed (use example_wallet(1-3,5) in \<open>simp_all add: example_small_def short_keys_def scrypt_works_def\<close>)

definition example_calls :: "account_call list" where
  "example_calls = [AddAccount (go_string ''savings''), Reopen, AddAccount (go_string ''savings''), FindAccount (go_string ''savings''),
     FindAccount (go_string ''rent'')]"

theorem accounts_refine_list_witness:
  "\<exists>(u :: (nat, nat, nat, nat, mem) world) u'. account_calls example_small KeyScopeBIP0084 example_ns [1] [2] None example_calls u
     = ([Ok 1, Ok 0, Err (managerError ErrDuplicateAccount None), Ok 1, Err (managerError ErrAccountNotFound None)], u')"
proof -
  let ?create = "Create example_small example_ns (Some 1) [1] [2] None 0 ScopeAddrMap 0 example_base"
  have base: "bolt_Writable (env_bolt example_small) (db example_base)" "live (view (env_bolt example_small) (db example_base)) example_ns"
      "\<forall>k \<in> set mgrBuckets. view (env_bolt example_small) (db example_base) example_ns k = None"
    using example_wallet(10,12,13) by (simp_all add: example_small_def)
  note wallet = example_small_wallet(1-5,5) example_wallet(7-9) base(1) example_wallet(11) base(2,3)
  obtain w1 V keyPub keyPriv where run: "?create = (Ok (), w1)"
    and stored: "sees example_small V (0 + 32) w1" "stored_manager example_small V example_ns 1 [1] [2] keyPub keyPriv ScopeAddrMap"
    by (rule Create_stores [OF wallet])
  from Open_stored(1) [OF example_small_wallet(1,2) stored example_wallet(8), of "None :: nat option"] obtain m
    where m: "fst (Open example_small (Some example_ns) [1] (None :: nat option) w1) = Ok m"
    by (auto simp: gives_def)
  let ?u = "\<lparr>db = db w1, rng = replicate 240 0, mgr = m, heap = [], hooks = []\<rparr> :: (nat, nat, nat, nat, mem) world"
  let ?u1 = "snd (Unlock example_small example_ns [2] ?u)"
  have opens: "fst (Open example_small (Some example_ns) [1] (None :: nat option) (snd ?create)) = Ok (mgr ?u)" "db ?u = db (snd ?create)"
    using run m by simp_all
  obtain rs u' where calls: "account_calls example_small KeyScopeBIP0084 example_ns [1] [2] None example_calls ?u1 = (rs, u')" by force
  have spec: "account_specs example_calls [defaultAccountName]
      = ([Ok 1, Ok 0, Err (managerError ErrDuplicateAccount None), Ok 1, Err (managerError ErrAccountNotFound None)],
         [defaultAccountName, go_string ''savings''])"
    by (simp add: example_calls_def position_def defaultAccountName_def ImportedAddrAccountName_def account_limits)
  have scope: "KeyScopeBIP0084 \<in> set DefaultKeyScopes" by (simp add: DefaultKeyScopes_def)
  have bounds: "48 * length example_calls \<le> length (rng ?u)"
      "\<forall>name. AddAccount name \<in> set example_calls \<longrightarrow> length name + 4 \<le> MaxKeySize"
    by (auto simp: example_calls_def go_string_def limits)
  from accounts_refine_list [OF wallet refl opens scope example_small_wallet(6) bounds calls [symmetric] spec [symmetric]]
  show ?thesis using calls by blast
qed

end
