(* ===== verification/AccountSessions.thy ===== *)
theory AccountSessions
  imports AccountBook
begin

text \<open>
  The accounts of a wallet across transactions: a session is one \<^verbatim>\<open>Update\<close> of the database
  (\<^verbatim>\<open>walletdb/bdb/db.go\<close>) whose closure opens and unlocks the manager and calls \<^verbatim>\<open>NewAccount\<close> and
  \<^verbatim>\<open>LookupAccount\<close> (\<^verbatim>\<open>waddrmgr\<close>). What is on disk afterwards is the list of names of AccountBook, moved on by
  the sessions that were committed.
\<close>

section \<open>Sessions\<close>

text \<open>The calls of a session, the error with which its closure gives up after them, if it does, and the random bytes
  it finds.\<close>

record session =
  s_calls :: "account_call list"
  s_fails :: "go_error option"
  s_random :: bytes

definition session_body ::
  "('k, 'sk, 'pk, 'a, 'n, 's) env \<Rightarrow> KeyScope \<Rightarrow> bkt \<Rightarrow> bytes \<Rightarrow> bytes \<Rightarrow> 'n option \<Rightarrow> session
   \<Rightarrow> (('k, 'pk, 'a, 'n, 's) world, u32 result list) go" where
  "session_body E scope ns pubPass privPass params s =
     bnd (Unlock E ns privPass) (\<lambda>_.
     bnd (\<lambda>w. case account_calls E scope ns pubPass privPass params (s_calls s) w of (rs, w) \<Rightarrow> (Ok rs, w)) (\<lambda>rs.
     case s_fails s of Some err \<Rightarrow> raise err | None \<Rightarrow> ret rs))"

definition session_closure ::
  "('k, 'sk, 'pk, 'a, 'n, 's) env \<Rightarrow> KeyScope \<Rightarrow> bkt \<Rightarrow> bytes \<Rightarrow> bytes \<Rightarrow> 'n option \<Rightarrow> session
   \<Rightarrow> ('s, u32 result list) go" where
  "session_closure E scope ns pubPass privPass params s = (\<lambda>tx.
     case Open E (Some ns) pubPass params \<lparr>db = tx, rng = s_random s\<rparr> of
       (Ok m, b) \<Rightarrow>
         (case session_body E scope ns pubPass privPass params s
                 (\<lparr>db = db b, rng = rng b, mgr = m, heap = [], hooks = []\<rparr> :: ('k, 'pk, 'a, 'n, 's) world) of
            (r, w) \<Rightarrow> (r, db w))
     | (Err e, b) \<Rightarrow> (Err e, db b)
     | (Panic, b) \<Rightarrow> (Panic, db b)
     | (Hang, b) \<Rightarrow> (Hang, db b))"

fun run_sessions ::
  "('d, 's) boltdb \<Rightarrow> ('k, 'sk, 'pk, 'a, 'n, 's) env \<Rightarrow> KeyScope \<Rightarrow> bkt \<Rightarrow> bytes \<Rightarrow> bytes \<Rightarrow> 'n option \<Rightarrow> session list
   \<Rightarrow> 'd \<Rightarrow> u32 result list result list \<times> 'd" where
  "run_sessions T E scope ns pubPass privPass params [] d = ([], d)"
| "run_sessions T E scope ns pubPass privPass params (s # ss) d =
     (case db_Update T (session_closure E scope ns pubPass privPass params s) d of (r, d) \<Rightarrow>
      case run_sessions T E scope ns pubPass privPass params ss d of (rs, d) \<Rightarrow> (r # rs, d))"

text \<open>The closure of the transaction that creates the wallet.\<close>

definition create_closure ::
  "('k, 'sk, 'pk, 'a, 'n, 's) env \<Rightarrow> bkt \<Rightarrow> 'k \<Rightarrow> bytes \<Rightarrow> bytes \<Rightarrow> ScryptOptions option \<Rightarrow> u64
   \<Rightarrow> (KeyScope \<times> ScopeAddrSchema) list \<Rightarrow> u64 \<Rightarrow> bytes \<Rightarrow> ('s, unit) go" where
  "create_closure E ns root pubPass privPass config birthday xs now rnd = (\<lambda>tx.
     case Create E ns (Some root) pubPass privPass config birthday xs now \<lparr>db = tx, rng = rnd\<rparr> of (r, b) \<Rightarrow> (r, db b))"

text \<open>What is on disk by the results of the sessions: a session that succeeded gave the answers of the list as it was then,
  and moved it on; any other left it alone. \<open>None\<close> if a session answered differently.\<close>

fun committed :: "(session \<times> u32 result list result) list \<Rightarrow> gostring list \<Rightarrow> gostring list option" where
  "committed [] names = Some names"
| "committed ((s, r) # srs) names = (case r of
     Ok rs \<Rightarrow> (if rs = fst (account_specs (s_calls s) names) then committed srs (snd (account_specs (s_calls s) names)) else None)
   | _ \<Rightarrow> committed srs names)"

section \<open>One session\<close>

text \<open>A file with the wallet and its list of accounts.\<close>

definition on_disk ::
  "('k, 'sk, 'pk, 'a, 'n, 's) env \<Rightarrow> bytes \<Rightarrow> bytes \<Rightarrow> (KeyScope \<times> ScopeAddrSchema) list \<Rightarrow> bytes \<Rightarrow> bytes \<Rightarrow> bkt \<Rightarrow> KeyScope
   \<Rightarrow> 'k \<Rightarrow> gostring list \<Rightarrow> view \<Rightarrow> bool" where
  "on_disk E pubPass privPass xs keyPub keyPriv ns scope ct names V \<longleftrightarrow> length keyPub = 32
   \<and> stored_records E V ns pubPass privPass keyPub keyPriv xs \<and> book E keyPub keyPriv V ns scope ct names"

text \<open>What a session needs of its input: enough random bytes, and names that fit into a key.\<close>

definition session_ok :: "session \<Rightarrow> bool" where
  "session_ok s \<longleftrightarrow> 32 + 48 * length (s_calls s) \<le> length (s_random s)
   \<and> (\<forall>name. AddAccount name \<in> set (s_calls s) \<longrightarrow> length name + 4 \<le> MaxKeySize)"

lemma session_closure_runs:
  fixes E :: "('k, 'sk, 'pk, 'a, 'n, 's) env" and params :: "'n option"
  assumes bolt: "bolt_contract (env_bolt E)" and crypto: "crypto_contract (env_crypto E)" and short: "short_keys E" and pass: "privPass \<noteq> []"
    and xs: "distinct (map fst xs)" and disk: "on_disk E pubPass privPass xs keyPub keyPriv ns scope ct names (view (env_bolt E) tx)"
    and keys: "\<forall>n \<le> MaxAccountNum. \<exists>k kPub. deriveAccountKey E ct n = Ok k \<and> hd_Neuter E k = Ok kPub"
    and tx: "bolt_Writable (env_bolt E) tx" and s: "session_ok s"
  shows "\<exists>tx'. session_closure E scope ns pubPass privPass params s tx
      = (case s_fails s of None \<Rightarrow> Ok (fst (account_specs (s_calls s) names)) | Some err \<Rightarrow> Err err, tx')
    \<and> on_disk E pubPass privPass xs keyPub keyPriv ns scope ct (snd (account_specs (s_calls s) names)) (view (env_bolt E) tx')"
proof -
  let ?V = "view (env_bolt E) tx"
  let ?b = "\<lparr>db = tx, rng = s_random s\<rparr> :: 's base"
  have records: "stored_records E ?V ns pubPass privPass keyPub keyPriv xs" and book: "book E keyPub keyPriv ?V ns scope ct names"
    and len: "length keyPub = 32" using disk by (simp_all add: on_disk_def)
  have "sees E ?V (48 * length (s_calls s) + 32) ?b" using tx s by (simp add: sees_def session_ok_def add.commute)
  from Open_records(1) [OF bolt crypto this records xs, of params] obtain m b where
    opens: "Open E (Some ns) pubPass params ?b = (Ok m, b)" "opened E privPass keyPub keyPriv xs m"
    and b: "sees E ?V (48 * length (s_calls s)) b" by (auto simp: gives_def)
  let ?u = "\<lparr>db = db b, rng = rng b, mgr = m, heap = [], hooks = []\<rparr> :: ('k, 'pk, 'a, 'n, 's) world"
  have "opened E privPass keyPub keyPriv xs (mgr ?u)" "bolt_Writable (env_bolt E) (db ?u)"
      "stored_records E (view (env_bolt E) (db ?u)) ns pubPass privPass keyPub keyPriv xs"
      "book E keyPub keyPriv (view (env_bolt E) (db ?u)) ns scope ct names"
    using opens(2) b records book by (simp_all add: sees_def)
  from Unlock_book [OF crypto pass this(1) len this(2-4)] obtain u1 where
    u1: "Unlock E ns privPass ?u = (Ok (), u1)" "rng u1 = rng b" "book_world E pubPass privPass xs keyPub keyPriv ns scope ct names u1"
    by auto
  have "48 * length (s_calls s) \<le> length (rng u1)" using b u1(2) by (simp add: sees_def)
  from account_calls_refine [OF bolt crypto short pass xs u1(3) this keys, of params] s obtain u2 where
    u2: "account_calls E scope ns pubPass privPass params (s_calls s) u1 = (fst (account_specs (s_calls s) names), u2)"
    "book_world E pubPass privPass xs keyPub keyPriv ns scope ct (snd (account_specs (s_calls s) names)) u2"
    by (auto simp: session_ok_def)
  have "session_closure E scope ns pubPass privPass params s tx
      = (case s_fails s of None \<Rightarrow> Ok (fst (account_specs (s_calls s) names)) | Some err \<Rightarrow> Err err, db u2)"
    by (simp add: session_closure_def session_body_def opens(1) bnd_def u1(1) u2(1) go_simps split: option.split)
  moreover have "on_disk E pubPass privPass xs keyPub keyPriv ns scope ct (snd (account_specs (s_calls s) names)) (view (env_bolt E) (db u2))"
    using u2(2) len by (simp add: book_world_def on_disk_def)
  ultimately show ?thesis by blast
qed

text \<open>In its transaction it is all or nothing, and it fails only with its own error or one of the database.\<close>

definition session_result :: "session \<Rightarrow> 'a result \<Rightarrow> bool" where
  "session_result s r \<longleftrightarrow> (case r of Ok _ \<Rightarrow> s_fails s = None
     | Err e \<Rightarrow> s_fails s = Some e \<or> (\<exists>b. e = convertErr (BoltError b)) | _ \<Rightarrow> False)"

lemma session_atomic:
  fixes E :: "('k, 'sk, 'pk, 'a, 'n, 's) env" and params :: "'n option"
  assumes db: "boltdb_contract (env_bolt E) T stored"
    and crypto: "crypto_contract (env_crypto E)" and short: "short_keys E" and pass: "privPass \<noteq> []"
    and xs: "distinct (map fst xs)" and disk: "on_disk E pubPass privPass xs keyPub keyPriv ns scope ct names (stored d)"
    and keys: "\<forall>n \<le> MaxAccountNum. \<exists>k kPub. deriveAccountKey E ct n = Ok k \<and> hd_Neuter E k = Ok kPub"
    and s: "session_ok s" and run: "db_Update T (session_closure E scope ns pubPass privPass params s) d = (r, d')"
  shows "\<exists>names'. committed [(s, r)] names = Some names' \<and> on_disk E pubPass privPass xs keyPub keyPriv ns scope ct names' (stored d')
    \<and> session_result s r"
proof (cases "bolt_Begin T True d")
  case (Inl e)
  then show ?thesis using run disk by (auto simp: db_Update_def session_result_def)
next
  case (Inr tx)
  have bolt: "bolt_contract (env_bolt E)" using db by (simp add: boltdb_contract_def)
  have tx: "view (env_bolt E) tx = stored d" "bolt_Writable (env_bolt E) tx"
    using boltdb_contract.begin_view [OF db Inr] by simp_all
  obtain tx' where tx': "session_closure E scope ns pubPass privPass params s tx
      = (case s_fails s of None \<Rightarrow> Ok (fst (account_specs (s_calls s) names)) | Some err \<Rightarrow> Err err, tx')"
    and after: "on_disk E pubPass privPass xs keyPub keyPriv ns scope ct (snd (account_specs (s_calls s) names)) (view (env_bolt E) tx')"
    using session_closure_runs [OF bolt crypto short pass xs _ keys tx(2) s] disk tx(1) by metis
  have "stored d' = stored d" if "\<not> is_Ok r"
    using boltdb_contract.Update_not_Ok [OF db, of "session_closure E scope ns pubPass privPass params s" d] run that by simp
  moreover have "stored d' = view (env_bolt E) tx'" if "r = Ok rs" for rs
    using boltdb_contract.Update_Ok [OF db run [unfolded that]] Inr tx' by auto
  moreover have "(\<exists>b. r = Err (convertErr (BoltError b))) \<or> r = (case s_fails s of None \<Rightarrow> Ok (fst (account_specs (s_calls s) names)) | Some err \<Rightarrow> Err err)"
    using run Inr tx' by (auto simp: db_Update_def split: prod.splits option.splits)
  ultimately show ?thesis using disk after by (cases "s_fails s") (auto simp: session_result_def)
qed

text \<open>One session after the other.\<close>

lemma committed_Cons:
  "committed [(s, r)] names = Some names' \<Longrightarrow> committed ((s, r) # srs) names = committed srs names'"
  by (auto split: res.splits if_splits)

lemma sessions_on_disk:
  fixes E :: "('k, 'sk, 'pk, 'a, 'n, 's) env" and params :: "'n option"
  assumes "boltdb_contract (env_bolt E) T stored" and "crypto_contract (env_crypto E)" and "short_keys E" and "privPass \<noteq> []"
    and "distinct (map fst xs)" and "on_disk E pubPass privPass xs keyPub keyPriv ns scope ct names (stored d)"
    and "\<forall>n \<le> MaxAccountNum. \<exists>k kPub. deriveAccountKey E ct n = Ok k \<and> hd_Neuter E k = Ok kPub"
    and "\<forall>s \<in> set ss. session_ok s" and "run_sessions T E scope ns pubPass privPass params ss d = (rs, d')"
  shows "\<exists>names'. committed (zip ss rs) names = Some names' \<and> on_disk E pubPass privPass xs keyPub keyPriv ns scope ct names' (stored d')
    \<and> list_all2 session_result ss rs"
  using assms(6,8,9)
proof (induction ss arbitrary: names d rs)
  case (Cons s ss)
  obtain r d1 where r: "db_Update T (session_closure E scope ns pubPass privPass params s) d = (r, d1)" by force
  obtain rs1 where rest: "run_sessions T E scope ns pubPass privPass params ss d1 = (rs1, d')" "rs = r # rs1"
    using Cons.prems(3) by (auto simp: r split: prod.splits)
  have s: "session_ok s" "\<forall>s \<in> set ss. session_ok s" using Cons.prems(2) by simp_all
  from session_atomic [OF assms(1-5) Cons.prems(1) assms(7) s(1) r] obtain names1 where
    one: "committed [(s, r)] names = Some names1" "on_disk E pubPass privPass xs keyPub keyPriv ns scope ct names1 (stored d1)"
    "session_result s r" by blast
  from Cons.IH [OF one(2) s(2) rest(1)] show ?case
    unfolding rest(2) zip_Cons_Cons committed_Cons [OF one(1)] using one(3) by auto
qed simp

section \<open>Properties\<close>

text \<open>C6: accounts are durable and transactions on them atomic. Once the transaction that creates the wallet is committed,
  any sequence of updates of the database, each opening and unlocking the manager and calling \<^verbatim>\<open>NewAccount\<close> and
  \<^verbatim>\<open>LookupAccount\<close>, leaves on disk the list of accounts that the committed ones made: an update that succeeded gave the
  answers of the list as the updates before it had left it, one that failed, by itself or in the database, left no trace. No update
  fails in any other way, and whoever looks up a name afterwards is answered from that list.\<close>

theorem accounts_durable:
  fixes E :: "('k, 'sk, 'pk, 'a, 'n, 's) env" and params :: "'n option"
  assumes "boltdb_contract (env_bolt E) T stored" and "crypto_contract (env_crypto E)" and "short_keys E" and "wallet_root E root"
    and "scrypt_works (env_crypto E) (options config) pubPass" and "scrypt_works (env_crypto E) (options config) privPass"
    and "privPass \<noteq> []" and "distinct (map fst xs)" and "fst ` set xs = set DefaultKeyScopes"
    and "728 \<le> length rnd" and "live (stored d) ns" and "\<forall>k \<in> set mgrBuckets. stored d ns k = None"
    and "db_Update T (create_closure E ns root pubPass privPass config birthday xs now rnd) d = (Ok (), d1)"
    and "scope \<in> set DefaultKeyScopes" and "account_keys E root scope" and "\<forall>s \<in> set ss. session_ok s"
    and "run_sessions T E scope ns pubPass privPass params ss d1 = (rs, d2)"
  shows "list_all2 session_result ss rs
    \<and> (\<exists>names. committed (zip ss rs) [defaultAccountName] = Some names
        \<and> (\<forall>rw name. \<forall>u :: ('k, 'pk, 'a, 'n, 's) world. bolt_Begin T rw d2 = Inr (db u) \<longrightarrow>
             fst (LookupAccount E scope ns name u) = fst (account_spec (FindAccount name) names)))"
proof -
  note db = assms(1)
  have bolt: "bolt_contract (env_bolt E)" using db by (simp add: boltdb_contract_def)
  from boltdb_contract.Update_Ok [OF db assms(13)] obtain tx tx' where
    tx: "view (env_bolt E) tx = stored d" "bolt_Writable (env_bolt E) tx"
      "create_closure E ns root pubPass privPass config birthday xs now rnd tx = (Ok (), tx')" "stored d1 = view (env_bolt E) tx'" by blast
  let ?b = "\<lparr>db = tx, rng = rnd\<rparr> :: 's base"
  have b: "bolt_Writable (env_bolt E) (db ?b)" "728 \<le> length (rng ?b)" "live (view (env_bolt E) (db ?b)) ns"
      "\<forall>k \<in> set mgrBuckets. view (env_bolt E) (db ?b) ns k = None"
    using tx(1,2) assms(10-12) by simp_all
  obtain w1 V keyPub keyPriv where run: "Create E ns (Some root) pubPass privPass config birthday xs now ?b = (Ok (), w1)"
    and sees: "sees E V (0 + 32) w1" and stored: "stored_manager E V ns root pubPass privPass keyPub keyPriv xs"
    by (rule Create_stores [OF bolt assms(2-9) b])
  have V: "stored d1 = V" using run tx(3,4) sees by (simp add: create_closure_def sees_def)
  have "scope \<in> fst ` set xs" using assms(9,14) by simp
  then have "stored_scope E keyPub keyPriv root V ns scope" using stored by (auto simp: stored_manager_def)
  from book_initial [OF this assms(15)] obtain ct where ct: "deriveCoinTypeKey E root scope = Ok ct"
    and book: "book E keyPub keyPriv V ns scope ct [defaultAccountName]" .
  have disk: "on_disk E pubPass privPass xs keyPub keyPriv ns scope ct [defaultAccountName] (stored d1)"
    using book V stored_manager_records [OF stored] stored by (simp add: on_disk_def stored_manager_def master_record_def)
  have keys: "\<forall>n \<le> MaxAccountNum. \<exists>k kPub. deriveAccountKey E ct n = Ok k \<and> hd_Neuter E k = Ok kPub"
    using assms(15) ct by (simp add: account_keys_def)
  from sessions_on_disk [OF db assms(2,3,7,8) disk keys assms(16,17)] obtain names where
    names: "committed (zip ss rs) [defaultAccountName] = Some names" "list_all2 session_result ss rs"
      "book E keyPub keyPriv (stored d2) ns scope ct names" by (auto simp: on_disk_def)
  have "fst (LookupAccount E scope ns name u) = fst (account_spec (FindAccount name) names)"
    if "bolt_Begin T rw d2 = Inr (db u)" for rw name and u :: "('k, 'pk, 'a, 'n, 's) world"
    using book_Lookup [OF bolt, of keyPub keyPriv u ns scope ct names name] names(3) boltdb_contract.begin_view [OF db that] by simp
  with names show ?thesis by blast
qed

text \<open>Two sessions: one that makes an account, and one that gives up after it made another.\<close>

definition example_sessions :: "session list" where
  "example_sessions =
     [\<lparr>s_calls = [AddAccount (go_string ''savings''), FindAccount (go_string ''savings'')], s_fails = None, s_random = replicate 128 0\<rparr>,
      \<lparr>s_calls = [AddAccount (go_string ''rent'')], s_fails = Some (Errorf ''no''), s_random = replicate 80 0\<rparr>]"

definition example_file :: "((bkt \<times> bytes) \<times> entry) list option" where
  "example_file = Some (snd example_store)"

theorem accounts_durable_witness:
  "\<exists>d1 rs d2. db_Update memT (create_closure example_small example_ns 1 [1] [2] None 0 ScopeAddrMap 0 (replicate 728 0)) example_file
       = (Ok (), d1)
     \<and> run_sessions memT example_small KeyScopeBIP0084 example_ns [1] [2] (None :: nat option) example_sessions d1 = (rs, d2)
     \<and> list_all2 session_result example_sessions rs"
proof -
  let ?create = "Create example_small example_ns (Some 1) [1] [2] None 0 ScopeAddrMap 0"
  have bolt: "env_bolt example_small = memB" by (simp add: example_small_def)
  have base: "bolt_Writable (env_bolt example_small) (db example_base)" "728 \<le> length (rng example_base)"
      "live (view (env_bolt example_small) (db example_base)) example_ns"
      "\<forall>k \<in> set mgrBuckets. view (env_bolt example_small) (db example_base) example_ns k = None"
    using example_wallet(10-13) by (simp_all add: example_small_def)
  have on_file: "mem_stored example_file = view (env_bolt example_small) (db example_base)"
    by (simp add: example_file_def mem_stored_def bolt example_base_def)
  obtain w1 :: "mem base" and V keyPub keyPriv where run: "?create example_base = (Ok (), w1)"
    and sees: "sees example_small V (0 + 32) w1"
    by (rule Create_stores [OF example_small_wallet(1-5,5) example_wallet(7-9) base])
  have tx: "bolt_Begin memT True example_file = Inr (db example_base)"
    using base(1) by (simp add: memT_def example_file_def example_base_def bolt prod_eq_iff)
  have "fst (db w1)" using sees by (simp add: sees_def bolt)
  then have d1: "db_Update memT (create_closure example_small example_ns 1 [1] [2] None 0 ScopeAddrMap 0 (replicate 728 0)) example_file
       = (Ok (), Some (snd (db w1)))"
    using run by (simp add: db_Update_def tx create_closure_def example_base_def) (simp add: memT_def db_rollback_def)
  obtain rs d2 where sessions: "run_sessions memT example_small KeyScopeBIP0084 example_ns [1] [2] (None :: nat option) example_sessions
      (Some (snd (db w1))) = (rs, d2)" by force
  have contract: "boltdb_contract (env_bolt example_small) memT mem_stored"
    using memdb.boltdb_contract_axioms by (simp add: bolt)
  have scope: "KeyScopeBIP0084 \<in> set DefaultKeyScopes" by (simp add: DefaultKeyScopes_def)
  have ok: "\<forall>s \<in> set example_sessions. session_ok s"
    by (auto simp: example_sessions_def session_ok_def go_string_def limits)
  have rnd: "728 \<le> length (replicate 728 0 :: bytes)" by simp
  from accounts_durable [OF contract example_small_wallet(2-5,5) example_wallet(7-9) rnd base(3,4) [folded on_file] d1 scope
      example_small_wallet(6) ok sessions] d1 sessions
  show ?thesis by blast
qed

end
