(* ===== verification/Original.thy ===== *)
theory Original
  imports Addresses
begin

text \<open>
  The two stand-alone functions of \<^verbatim>\<open>original\<close>: \<^verbatim>\<open>GenerateKeyPair\<close> prints a key and two addresses, \<^verbatim>\<open>CreateWallet\<close> writes a
  key and its address to files. The elliptic curve and the addresses are those of the record \<open>env\<close>; the operating
  system's files are the record \<open>os\<close> with the laws of the locale \<open>os_files\<close>. \<^verbatim>\<open>log.Fatalf\<close> ends the process, as an error
  here; what is printed is the list that a function returns.
\<close>

section \<open>The standard library\<close>

text \<open>\<^verbatim>\<open>encoding/base64\<close> with its standard alphabet and padding.\<close>

definition b64_char :: "byte \<Rightarrow> byte" where
  "b64_char n = (if n < 26 then 65 + n else if n < 52 then 71 + n else if n < 62 then n - 4 else if n = 62 then 43 else 47)"

fun base64 :: "bytes \<Rightarrow> bytes" where
  "base64 [] = []"
| "base64 [a] = [b64_char (drop_bit 2 a), b64_char (push_bit 4 (take_bit 2 a)), 61, 61]"
| "base64 [a, b] = [b64_char (drop_bit 2 a), b64_char (or (push_bit 4 (take_bit 2 a)) (drop_bit 4 b)),
     b64_char (push_bit 2 (take_bit 4 b)), 61]"
| "base64 (a # b # c # bs) = [b64_char (drop_bit 2 a), b64_char (or (push_bit 4 (take_bit 2 a)) (drop_bit 4 b)),
     b64_char (or (push_bit 2 (take_bit 4 b)) (drop_bit 6 c)), b64_char (take_bit 6 c)] @ base64 bs"

text \<open>\<^verbatim>\<open>encoding/pem\<close>: a block without headers, in lines of 64 characters.\<close>

function pem_lines :: "bytes \<Rightarrow> bytes" where
  "pem_lines b = (if b = [] then [] else take 64 b @ [10] @ pem_lines (drop 64 b))"
  by auto
termination by (relation "measure length") auto

declare pem_lines.simps [simp del]

definition pem_block :: "gostring \<Rightarrow> bytes \<Rightarrow> bytes" where
  "pem_block typ b = go_string ''-----BEGIN '' @ typ @ go_string ''-----'' @ [10] @ pem_lines (base64 b)
     @ go_string ''-----END '' @ typ @ go_string ''-----'' @ [10]"

text \<open>Files of the operating system by their names: \<^verbatim>\<open>os.Create\<close> empties a file or makes it, a write appends to it. The
  writes of \<^verbatim>\<open>pem.Encode\<close> are one here.\<close>

record 'f os =
  os_Create :: "gostring \<Rightarrow> 'f \<Rightarrow> io_error option \<times> 'f"
  os_Write :: "gostring \<Rightarrow> bytes \<Rightarrow> 'f \<Rightarrow> io_error option \<times> 'f"

locale os_files =
  fixes Os :: "'f os" and contents :: "'f \<Rightarrow> gostring \<Rightarrow> bytes option"
  assumes create_ok: "os_Create Os p f = (None, f') \<Longrightarrow> contents f' = (contents f)(p \<mapsto> [])"
    and create_fails: "os_Create Os p f = (Some e, f') \<Longrightarrow> contents f' = contents f"
    and write_ok: "os_Write Os p b f = (None, f') \<Longrightarrow> contents f p = Some c \<Longrightarrow> contents f' = (contents f)(p \<mapsto> c @ b)"
    and write_others: "os_Write Os p b f = (x, f') \<Longrightarrow> q \<noteq> p \<Longrightarrow> contents f' q = contents f q"

definition os_call :: "('f \<Rightarrow> io_error option \<times> 'f) \<Rightarrow> ('f, unit) go" where
  "os_call m = (\<lambda>f. case m f of (None, f') \<Rightarrow> (Ok (), f') | (Some e, f') \<Rightarrow> (Err (IoError e), f'))"

text \<open>\<^verbatim>\<open>log.Fatalf\<close> on an error.\<close>

definition fatal :: "string \<Rightarrow> ('s, 'a) go \<Rightarrow> ('s, 'a) go" where
  "fatal msg m = wrap_err (Wrapped msg) m"

section \<open>The functions\<close>

text \<open>What the sources use of \<^verbatim>\<open>btcec\<close>, \<^verbatim>\<open>btcutil\<close> and \<^verbatim>\<open>chaincfg\<close> beyond \<open>env\<close>.\<close>

record ('sk, 'n, 'a) key_lib =
  NewPrivateKey :: "'sk result"
  NewAddressPubKey :: "bytes \<Rightarrow> 'n option \<Rightarrow> 'a result"
  EncodeAddress :: "'a \<Rightarrow> gostring"
  main_net :: 'n

definition GenerateKeyPair ::
  "('k, 'sk, 'pk, 'a, 'n, 's) env \<Rightarrow> ('sk, 'n, 'a) key_lib \<Rightarrow> ('f, (gostring \<times> gostring) list) go" where
  "GenerateKeyPair E L =
     bnd (fatal ''generate private key failed'' (lift (NewPrivateKey L))) (\<lambda>privKey.
     let pubKey = ec_PubKey E privKey;
       pubKeyCompressed = ec_SerializeCompressed E pubKey;
       pubKeyUncompressed = ec_SerializeUncompressed E pubKey
     in
     bnd (fatal ''generate address from compresssed public key failed''
       (lift (NewAddressPubKeyHash E (btcutil_Hash160 E pubKeyCompressed) (Some (main_net L))))) (\<lambda>addrCompressed.
     bnd (fatal ''generate address from uncompresssed public key failed''
       (lift (NewAddressPubKeyHash E (btcutil_Hash160 E pubKeyUncompressed) (Some (main_net L))))) (\<lambda>addrUncompressed.
     ret [(go_string ''Private Key (HEX)'', hex_EncodeToString (ec_Serialize E privKey)),
       (go_string ''Public Key (Compressed, HEX)'', EncodeAddress L addrCompressed),
       (go_string ''Public Key (Uncompressed, HEX)'', EncodeAddress L addrUncompressed)])))"

definition key_path :: gostring where "key_path = go_string ''data/private_key.pem''"
definition address_path :: gostring where "address_path = go_string ''data/wallet_address.txt''"

text \<open>The error of \<^verbatim>\<open>NewAddressPubKey\<close> is overwritten before it is looked at; the address is nil then.\<close>

definition CreateWallet ::
  "('k, 'sk, 'pk, 'a, 'n, 's) env \<Rightarrow> ('sk, 'n, 'a) key_lib \<Rightarrow> 'f os \<Rightarrow> ('f, (gostring \<times> gostring) list) go" where
  "CreateWallet E L Os =
     bnd (fatal ''generate private key failed'' (lift (NewPrivateKey L))) (\<lambda>privKey.
     let pubKey = ec_PubKey E privKey in
     bnd (attempt (lift (NewAddressPubKey L (ec_SerializeCompressed E pubKey) (Some (main_net L))))) (\<lambda>made.
     let addressPubKeyCompressed = (case made of Inl err \<Rightarrow> None | Inr addr \<Rightarrow> Some addr) in
     bnd (fatal ''create private key pem file failed'' (os_call (os_Create Os key_path))) (\<lambda>_.
     bnd (fatal ''write private key to pem file failed''
       (os_call (os_Write Os key_path (pem_block (go_string ''Bitcoin Private Key'') (ec_Serialize E privKey))))) (\<lambda>_.
     bnd (fatal ''create address file failed'' (os_call (os_Create Os address_path))) (\<lambda>_.
     bnd (deref addressPubKeyCompressed) (\<lambda>addr.
     bnd (fatal ''write address to file failed'' (os_call (os_Write Os address_path (EncodeAddress L addr)))) (\<lambda>_.
     ret [(go_string ''Private Key (saved to file)'', hex_EncodeToString (ec_Serialize E privKey)),
       (go_string ''Wallet Address (saved to file):'', EncodeAddress L addr)])))))))"

section \<open>Reading the key file\<close>

definition b64_digit :: "byte \<Rightarrow> byte" where
  "b64_digit c = (if c = 43 then 62 else if c = 47 then 63 else if c < 58 then c + 4 else if c < 91 then c - 65 else c - 71)"

fun unbase64 :: "bytes \<Rightarrow> bytes" where
  "unbase64 (p # q # r # s # cs) =
     or (push_bit 2 (b64_digit p)) (drop_bit 4 (b64_digit q)) #
     (if r = 61 then []
      else or (push_bit 4 (b64_digit q)) (drop_bit 2 (b64_digit r)) #
        (if s = 61 then [] else or (push_bit 6 (b64_digit r)) (b64_digit s) # unbase64 cs))"
| "unbase64 _ = []"

lemma b64_table: "\<forall>n \<in> set (map word_of_nat [0..<64]). b64_digit (b64_char n) = n \<and> b64_char n \<noteq> 61 \<and> b64_char n \<noteq> 10"
  by code_simp

lemma b64_digit_char:
  assumes "n < 64"
  shows "b64_digit (b64_char n) = n" "b64_char n \<noteq> 61" "b64_char n \<noteq> 10"
proof -
  have "n = word_of_nat (unat n)" by simp
  moreover have "unat n < 64" using assms by (simp add: word_less_nat_alt)
  ultimately have "n \<in> set (map word_of_nat [0..<64])" by force
  with b64_table show "b64_digit (b64_char n) = n" "b64_char n \<noteq> 61" "b64_char n \<noteq> 10" by blast+
qed

lemma byte_eqI:
  fixes x y :: byte
  assumes "bit x 0 = bit y 0" "bit x 1 = bit y 1" "bit x 2 = bit y 2" "bit x 3 = bit y 3"
    "bit x 4 = bit y 4" "bit x 5 = bit y 5" "bit x 6 = bit y 6" "bit x 7 = bit y 7"
  shows "x = y"
proof (rule bit_word_eqI)
  fix n
  assume "n < LENGTH(8)"
  then have "n \<in> {0, 1, 2, 3, 4, 5, 6, 7}" by (simp, arith)
  with assms show "bit x n = bit y n" by auto
qed

lemma sextets:
  fixes a b c :: byte
  shows "drop_bit 2 a < 64" "push_bit 4 (take_bit 2 a) < 64" "or (push_bit 4 (take_bit 2 a)) (drop_bit 4 b) < 64"
    "push_bit 2 (take_bit 4 b) < 64" "or (push_bit 2 (take_bit 4 b)) (drop_bit 6 c) < 64" "take_bit 6 c < 64"
proof -
  have small: "x < 64 \<longleftrightarrow> drop_bit 6 x = 0" for x :: byte
    by (simp add: word_less_nat_alt unat_eq_0 [symmetric] unat_drop_bit_eq drop_bit_eq_div unat_div div_eq_0_iff del: unat_eq_0)
  show "drop_bit 2 a < 64" "push_bit 4 (take_bit 2 a) < 64" "or (push_bit 4 (take_bit 2 a)) (drop_bit 4 b) < 64"
    "push_bit 2 (take_bit 4 b) < 64" "or (push_bit 2 (take_bit 4 b)) (drop_bit 6 c) < 64" "take_bit 6 c < 64"
    unfolding small by (rule byte_eqI; simp add: bit_simps)+
qed

lemma base64_roundtrip: "unbase64 (base64 b) = b"
  by (induction b rule: base64.induct) (auto simp: b64_digit_char sextets bit_simps intro!: byte_eqI)

lemma base64_one_line: "10 \<notin> set (base64 b)"
  by (induction b rule: base64.induct) (simp_all add: b64_digit_char(3) [symmetric, THEN not_sym] b64_digit_char sextets)

lemma pem_lines_body: "10 \<notin> set b \<Longrightarrow> filter (\<lambda>c. c \<noteq> 10) (pem_lines b) = b"
proof (induction b rule: pem_lines.induct)
  case (1 b)
  show ?case
  proof (cases "b = []")
    case False
    have "10 \<notin> set (take 64 b)" "10 \<notin> set (drop 64 b)"
      using "1.prems" by (auto dest: in_set_takeD in_set_dropD)
    moreover from this(1) have "filter (\<lambda>c. c \<noteq> 10) (take 64 b) = take 64 b" by (auto simp: filter_id_conv)
    ultimately show ?thesis using "1.IH" [OF False] False by (subst pem_lines.simps) simp
  qed (simp add: pem_lines.simps)
qed

text \<open>What is between the two lines of a block.\<close>

definition pem_holds :: "bytes \<Rightarrow> bytes \<Rightarrow> bool" where
  "pem_holds block key \<longleftrightarrow> (\<exists>typ body. block = go_string ''-----BEGIN '' @ typ @ go_string ''-----'' @ [10] @ body
     @ go_string ''-----END '' @ typ @ go_string ''-----'' @ [10] \<and> unbase64 (filter (\<lambda>c. c \<noteq> 10) body) = key)"

lemma pem_block_holds: "pem_holds (pem_block typ b) b"
  unfolding pem_holds_def pem_block_def
  by (intro exI conjI, rule refl) (simp add: pem_lines_body base64_one_line base64_roundtrip)

lemma os_call_eq_Ok: "os_call m f = (Ok u, f') \<longleftrightarrow> m f = (None, f')"
  by (auto simp: os_call_def split: prod.splits option.splits)

context os_files
begin

text \<open>When \<^verbatim>\<open>CreateWallet\<close> returns, the key can be read from the one file and the address from the other, and no other file
  changed, but what the two files held before is lost.\<close>

lemma CreateWallet_files:
  assumes "CreateWallet E L Os f = (Ok out, f')"
  shows "\<exists>key addr block. NewPrivateKey L = Ok key
    \<and> NewAddressPubKey L (ec_SerializeCompressed E (ec_PubKey E key)) (Some (main_net L)) = Ok addr
    \<and> contents f' key_path = Some block \<and> pem_holds block (ec_Serialize E key)
    \<and> contents f' address_path = Some (EncodeAddress L addr)
    \<and> (\<forall>p. p \<noteq> key_path \<and> p \<noteq> address_path \<longrightarrow> contents f' p = contents f p)"
proof -
  have paths: "key_path \<noteq> address_path" by (simp add: key_path_def address_path_def go_string_def)
  obtain key where key: "NewPrivateKey L = Ok key"
    using assms by (auto simp: CreateWallet_def bnd_eq_Ok fatal_def go_simps)
  let ?made = "NewAddressPubKey L (ec_SerializeCompressed E (ec_PubKey E key)) (Some (main_net L))"
  obtain addr f1 f2 f3 where run: "NewPrivateKey L = Ok key" "?made = Ok addr" "os_Create Os key_path f = (None, f1)"
      "os_Write Os key_path (pem_block (go_string ''Bitcoin Private Key'') (ec_Serialize E key)) f1 = (None, f2)"
      "os_Create Os address_path f2 = (None, f3)" "os_Write Os address_path (EncodeAddress L addr) f3 = (None, f')"
    using assms key
    by (cases ?made) (auto simp: CreateWallet_def Let_def bnd_eq_Ok fatal_def os_call_eq_Ok attempt_def go_simps)
  note create_ok [OF run(3)] and create_ok [OF run(5)]
  moreover from this have "contents f2 = (contents f1)(key_path \<mapsto> [] @ pem_block (go_string ''Bitcoin Private Key'') (ec_Serialize E key))"
    using write_ok [OF run(4), of "[]"] by simp
  moreover from calculation have "contents f' = (contents f3)(address_path \<mapsto> [] @ EncodeAddress L addr)"
    using write_ok [OF run(6), of "[]"] by simp
  ultimately show ?thesis using run(1,2) paths pem_block_holds by auto
qed

text \<open>An address that cannot be made is found out after the key was written.\<close>

lemma CreateWallet_no_address:
  assumes "NewPrivateKey L = Ok key"
    and "NewAddressPubKey L (ec_SerializeCompressed E (ec_PubKey E key)) (Some (main_net L)) = Err e"
    and "\<And>p f. fst (os_Create Os p f) = None" and "\<And>p b f. fst (os_Write Os p b f) = None"
  shows "\<exists>f' block. CreateWallet E L Os f = (Panic, f') \<and> contents f' key_path = Some block \<and> pem_holds block (ec_Serialize E key)
    \<and> contents f' address_path = Some []"
proof -
  have paths: "key_path \<noteq> address_path" by (simp add: key_path_def address_path_def go_string_def)
  let ?block = "pem_block (go_string ''Bitcoin Private Key'') (ec_Serialize E key)"
  obtain f1 where f1: "os_Create Os key_path f = (None, f1)" using assms(3) by (metis prod.collapse)
  obtain f2 where f2: "os_Write Os key_path ?block f1 = (None, f2)" using assms(4) by (metis prod.collapse)
  obtain f3 where f3: "os_Create Os address_path f2 = (None, f3)" using assms(3) by (metis prod.collapse)
  have "CreateWallet E L Os f = (Panic, f3)"
    using assms(1,2) f1 f2 f3 by (simp add: CreateWallet_def Let_def bnd_def fatal_def wrap_err_def attempt_def os_call_def go_simps)
  moreover have "contents f3 = (contents f)(key_path \<mapsto> ?block, address_path \<mapsto> [])"
    using create_ok [OF f1] write_ok [OF f2, of "[]"] create_ok [OF f3] by simp
  ultimately show ?thesis using paths pem_block_holds by auto
qed

end

text \<open>Files in memory.\<close>

definition mem_os :: "(gostring \<Rightarrow> bytes option) os" where
  "mem_os = \<lparr>os_Create = (\<lambda>p f. (None, f(p \<mapsto> []))),
     os_Write = (\<lambda>p b f. case f p of None \<Rightarrow> (Some OsNotExist, f) | Some c \<Rightarrow> (None, f(p \<mapsto> c @ b)))\<rparr>"

interpretation mem_files: os_files mem_os "\<lambda>f. f"
  by unfold_locales (auto simp: mem_os_def split: option.splits)

end
