(* ===== verification/WatchingWallet.thy ===== *)
theory WatchingWallet
  imports MgrCreate
begin

text \<open>
  A manager without private keys: \<^verbatim>\<open>Create\<close> without a root key, \<^verbatim>\<open>Open\<close>, and the calls on the manager it
  returns (\<^verbatim>\<open>waddrmgr/manager.go\<close>). It is created with no scope; \<^verbatim>\<open>NewScopedKeyManager\<close> adds one, which is
  there again when the manager is opened later.
\<close>

section \<open>Creating\<close>

text \<open>The records of the private side.\<close>

definition privateKeys :: "bytes list" where
  "privateKeys = [masterHDPrivName, masterHDPubName, masterPrivKeyName, cryptoPrivKeyName, cryptoScriptKeyName]"

definition stored_watching ::
  "('k, 'sk, 'pk, 'a, 'n, 's) env \<Rightarrow> view \<Rightarrow> bkt \<Rightarrow> bytes \<Rightarrow> bytes \<Rightarrow> (KeyScope \<times> ScopeAddrSchema) list \<Rightarrow> bool" where
  "stored_watching E V ns pubPass keyPub xs \<longleftrightarrow> has_buckets V ns mgrBuckets
   \<and> V (ns @ [mainBucketName]) mgrVersionName = Some (Val (uint32ToBytes latestMgrVersion))
   \<and> V (ns @ [mainBucketName]) watchingOnlyName = Some (Val [1])
   \<and> (\<exists>t. V (ns @ [syncBucketName]) birthdayName = Some (Val (le64 t)))
   \<and> master_record E V ns masterPubKeyName cryptoPubKeyName pubPass keyPub
   \<and> (\<forall>k \<in> set privateKeys. V (ns @ [mainBucketName]) k = None)
   \<and> (\<forall>(scope, sch) \<in> set xs. V (ns @ [scopeSchemaBucketName]) (scopeToBytes scope) = Some (Val (scopeSchemaToBytes sch))
       \<and> V (ns @ [scopeBucketName]) (scopeToBytes scope) = Some Sub)
   \<and> (\<forall>scope. V (ns @ [scopeSchemaBucketName]) (scopeToBytes scope) \<noteq> None \<longleftrightarrow> scope \<in> fst ` set xs)
   \<and> (\<forall>scope. V (ns @ [scopeBucketName]) (scopeToBytes scope) \<noteq> None \<longleftrightarrow> scope \<in> fst ` set xs)"

text \<open>A namespace with no scopes, before the records of the keys are stored.\<close>

definition empty_namespace :: "bkt \<Rightarrow> view \<Rightarrow> bool" where
  "empty_namespace ns V \<longleftrightarrow> new_namespace ns [] V \<and> (\<forall>k \<in> set privateKeys. V (ns @ [mainBucketName]) k = None)
   \<and> (\<forall>k. V (ns @ [scopeSchemaBucketName]) k = None)"

context walletdb_bucket
begin

lemma createManagerNS_empty:
  assumes "rw s" and "live (vw s) ns" and "\<forall>k \<in> set mgrBuckets. vw s ns k = None"
  shows "empty_namespace ns (vw (snd (createManagerNS W ns [] now s)))"
proof -
  let ?V = "vw (snd (createManagerNS W ns [] now s))"
  have "vw s (ns @ [b]) k = None" if "b \<in> set mgrBuckets" for b k
    using that assms(3) by (intro missing_bucket) simp
  then have "?V (ns @ [mainBucketName]) k = None" if "k \<in> set privateKeys" for k
    using that createManagerNS_effect [OF assms, of "[]" now]
    by (auto simp: create_ns_view_def fold_vput_apply privateKeys_def mgrBuckets_def)
  moreover have "?V (ns @ [scopeSchemaBucketName]) k = None" for k
    using \<open>\<And>k b. b \<in> set mgrBuckets \<Longrightarrow> vw s (ns @ [b]) k = None\<close> [of scopeSchemaBucketName k]
      createManagerNS_effect [OF assms, of "[]" now]
    by (simp add: create_ns_view_def fold_vput_apply mgrBuckets_def)
  ultimately show ?thesis
    using createManagerNS_new_namespace [OF assms, of "[]" now] by (simp add: empty_namespace_def)
qed

end

lemma gives_empty_namespace:
  assumes "bolt_contract (env_bolt E)" and "sees E V n w" and "live V ns" and "\<forall>k \<in> set mgrBuckets. V ns k = None"
  shows "gives (createManagerNS (dbw E) ns [] now) (\<lambda>_ w'. \<exists>V'. sees E V' n w' \<and> empty_namespace ns V') w"
proof -
  note eff = walletdb_bucket.createManagerNS_effect [OF dbw_contract [OF assms(1)], of w ns "[]" now]
  note new = walletdb_bucket.createManagerNS_empty [OF dbw_contract [OF assms(1)], of w ns now]
  have "gives (createManagerNS (dbw E) ns [] now) (\<lambda>_. sees E (view (env_bolt E) (db (snd (createManagerNS (dbw E) ns [] now w)))) n) w"
    using assms(2-) eff by (intro gives_db [OF assms(2)] frame_intros) (simp_all add: sees_def)
  moreover have "empty_namespace ns (view (env_bolt E) (db (snd (createManagerNS (dbw E) ns [] now w))))"
    using assms(2-) by (intro new) (simp_all add: sees_def)
  ultimately show ?thesis by (elim gives_mono) blast
qed

text \<open>The records of a manager without private keys.\<close>

lemma gives_public_records:
  assumes "bolt_contract (env_bolt E)" and "sees E V n w" and "main_ready V ns" and "length a \<le> MaxValueSize"
  shows "gives (putMasterKeyParams (dbw E) ns (Some a) None) (\<lambda>_. sees E (main_put ns masterPubKeyName a V) n) w"
    and "gives (putCryptoKeys (dbw E) ns (Some a) None None) (\<lambda>_. sees E (main_put ns cryptoPubKeyName a V) n) w"
    and "gives (putWatchingOnly (dbw E) ns True) (\<lambda>_. sees E (main_put ns watchingOnlyName [1] V) n) w"
  using assms(2-) walletdb_bucket.main_records_effect [OF dbw_contract [OF assms(1)], of w ns]
  by (intro gives_db [OF assms(2)] frame_intros; simp add: sees_def vput_opt_def)+

lemma gives_watching_records:
  assumes bolt: "bolt_contract (env_bolt E)" and sees: "sees E V n w" and new: "empty_namespace ns V"
    and mk: "made_from (env_crypto E) pubPass mkPub k" "decrypt E k pubEnc = Ok keyPub \<and> length pubEnc = 72" "length keyPub = 32"
  shows "gives (bnd (wrap_err h (putMasterKeyParams (dbw E) ns (Some (SecretKey_Marshal mkPub)) None)) (\<lambda>_.
     bnd (wrap_err h (putCryptoKeys (dbw E) ns (Some pubEnc) None None)) (\<lambda>_.
     bnd (wrap_err h (putWatchingOnly (dbw E) ns True)) (\<lambda>_. putBirthday (dbw E) ns t))))
    (\<lambda>_ w'. \<exists>V. sees E V n w' \<and> stored_watching E V ns pubPass keyPub []) w"
proof -
  define V1 where "V1 = main_put ns masterPubKeyName (SecretKey_Marshal mkPub) V"
  define V2 where "V2 = main_put ns cryptoPubKeyName pubEnc V1"
  define V3 where "V3 = main_put ns watchingOnlyName [1] V2"
  define V4 where "V4 = vput V3 (ns @ [syncBucketName]) birthdayName (Val (le64 t))"
  note defs = V1_def V2_def V3_def V4_def
  have ready: "main_ready V ns" using new by (simp add: empty_namespace_def new_namespace_def)
  then have r1: "main_ready V1 ns" "main_ready V2 ns"
    using main_ready_vput by (auto simp: defs main_ready_def mgrKeys_def)
  have sync: "V3 ns syncBucketName = Some Sub" "V3 (ns @ [syncBucketName]) birthdayName \<noteq> Some Sub"
    using new by (simp_all add: defs empty_namespace_def new_namespace_def has_buckets_def mgrBuckets_def)
  have "master_record E V4 ns masterPubKeyName cryptoPubKeyName pubPass keyPub"
    unfolding master_record_def using mk by (intro conjI exI [of _ mkPub] exI [of _ k] exI [of _ pubEnc]) (simp_all add: defs)
  then have stored: "stored_watching E V4 ns pubPass keyPub []"
    using new unfolding stored_watching_def empty_namespace_def new_namespace_def
    by (auto simp: defs has_buckets_def privateKeys_def)
  have s1: "gives (wrap_err h (putMasterKeyParams (dbw E) ns (Some (SecretKey_Marshal mkPub)) None)) (\<lambda>_. sees E V1 n) w"
    unfolding V1_def by (intro gives_wrap(1) gives_public_records(1) [OF bolt sees ready] length_Marshal_fits)
  have s2: "gives (wrap_err h (putCryptoKeys (dbw E) ns (Some pubEnc) None None)) (\<lambda>_. sees E V2 n) u" if "sees E V1 n u" for u
    unfolding V2_def using mk(2) by (intro gives_wrap(1) gives_public_records(2) [OF bolt that r1(1)]) (simp add: limits)
  have s3: "gives (wrap_err h (putWatchingOnly (dbw E) ns True)) (\<lambda>_. sees E V3 n) u" if "sees E V2 n u" for u
    unfolding V3_def by (intro gives_wrap(1) gives_public_records(3) [OF bolt that r1(2), of "[]"]) simp
  have s4: "gives (putBirthday (dbw E) ns t) (\<lambda>_. sees E V4 n) u" if "sees E V3 n u" for u
    unfolding V4_def by (rule gives_putBirthday [OF bolt that sync])
  show ?thesis
    by (rule gives_step [OF s1], rule gives_step [OF s2], assumption, rule gives_step [OF s3], assumption,
        rule gives_mono [OF s4], assumption) (use stored in blast)
qed

lemma gives_Create_watching:
  fixes E :: "('k, 'sk, 'pk, 'a, 'n, 's) env" and w :: "('s, 'z) base_scheme"
  assumes bolt: "bolt_contract (env_bolt E)" and crypto: "crypto_contract (env_crypto E)"
    and scrypt: "scrypt_works (env_crypto E) (options config) pubPass"
    and sees: "sees E V (n + 88) w" and ns: "live V ns" "\<forall>k \<in> set mgrBuckets. V ns k = None"
  shows "gives (Create E ns None pubPass privPass config birthday xs now)
    (\<lambda>_ w'. \<exists>V' keyPub. sees E V' n w' \<and> stored_watching E V' ns pubPass keyPub []) w"
proof -
  have none: "managerExists E (Some ns) w = (Ok False, w)"
    using ns(2) sees by (simp add: managerExists_eq [OF bolt] sees_def mgrBuckets_def)
  let ?body = "bnd (wrap_err maybeConvertDbError (createManagerNS (dbw E) ns [] now)) (\<lambda>_.
      bnd (as_error ErrCrypto (newSecretKey E pubPass (options config))) (\<lambda>mkPub.
      bnd (as_error ErrCrypto newCryptoKey) (\<lambda>keyPub.
      bnd (as_error ErrCrypto (secret_encrypt E mkPub (cryptoKey_Bytes keyPub))) (\<lambda>pubEnc.
       bnd (wrap_err maybeConvertDbError (putMasterKeyParams (dbw E) ns (Some (SecretKey_Marshal mkPub)) None)) (\<lambda>_.
       bnd (wrap_err maybeConvertDbError (putCryptoKeys (dbw E) ns (Some pubEnc) None None)) (\<lambda>_.
       bnd (wrap_err maybeConvertDbError (putWatchingOnly (dbw E) ns True)) (\<lambda>_.
       putBirthday (dbw E) ns (birthday - 48 * 60 * 60))))))))"
  have same: "Create E ns None pubPass privPass config birthday xs now w = ?body w"
    unfolding Create_def Let_def by (subst bnd_Ok [where m = "managerExists E (Some ns)", OF none]) (simp add: options_def bnd_done split_def)
  have "gives ?body (\<lambda>_ w'. \<exists>V' keyPub. sees E V' n w' \<and> stored_watching E V' ns pubPass keyPub []) w"
    unfolding as_error_def cryptoKey_Bytes_def
    by (rule gives_step, rule gives_wrap(1) [OF gives_empty_namespace [OF bolt sees ns]], elim exE conjE,
        rule step_newSecretKey [OF crypto scrypt], assumption, simp, rule step_newCryptoKey, assumption, simp,
        rule step_secret_encrypt [OF crypto], assumption, assumption, simp,
        rule gives_mono, rule gives_watching_records [OF bolt])
      (auto simp: add.commute)
  then show ?thesis
    by (simp only: gives_def same)
qed

section \<open>Opening\<close>

text \<open>\<^verbatim>\<open>loadManager\<close> does not read the private master key of a manager that has none.\<close>

lemma gives_Open_watching:
  fixes E :: "('k, 'sk, 'pk, 'a, 'n, 's) env" and w :: "('s, 'z) base_scheme"
  assumes bolt: "bolt_contract (env_bolt E)" and crypto: "crypto_contract (env_crypto E)"
    and sees: "sees E V (n + 32) w" and stored: "stored_watching E V ns pubPass keyPub xs" and xs: "distinct (map fst xs)"
  shows "gives (Open E (Some ns) pubPass params)
    (\<lambda>m w'. watchingOnly m \<and> locked m \<and> \<not> closed m \<and> loads xs (scopedManagers m) \<and> sees E V n w') w"
proof -
  have V: "view (env_bolt E) (db w) = V" using sees by (simp add: sees_def)
  have buckets: "V ns mainBucketName = Some Sub" "V ns syncBucketName = Some Sub"
    using stored by (simp_all add: stored_watching_def has_buckets_def mgrBuckets_def)
  obtain mkPub k pubEnc where pub: "made_from (env_crypto E) pubPass mkPub k"
      "V (ns @ [mainBucketName]) masterPubKeyName = Some (Val (SecretKey_Marshal mkPub))"
      "V (ns @ [mainBucketName]) cryptoPubKeyName = Some (Val pubEnc)" "decrypt E k pubEnc = Ok keyPub" "length keyPub = 32"
    using stored by (auto simp: stored_watching_def master_record_def)
  obtain t where t: "V (ns @ [syncBucketName]) birthdayName = Some (Val (le64 t))" using stored by (auto simp: stored_watching_def)
  note fetch = walletdb_bucket.main_fetch [OF dbw_contract [OF bolt], of w ns, unfolded V, OF buckets(1)]
  have reads: "fetchManagerVersion (dbw E) ns w = (Ok latestMgrVersion, w)" "fetchWatchingOnly (dbw E) ns w = (Ok True, w)"
      "fetchMasterKeyParams (dbw E) ns w = (Ok (SecretKey_Marshal mkPub, None), w)"
      "fetchCryptoKeys (dbw E) ns w = (Ok (pubEnc, None, None), w)"
      "fetchBirthday (dbw E) ns w = (Ok (le_word (rev (le64 t))), w)"
    using stored pub fetch fetchBirthday_stored [OF bolt, of w ns t] V buckets t
    by (simp_all add: stored_watching_def privateKeys_def)
  have exists: "managerExists E (Some ns) w = (Ok True, w)" using buckets V by (simp add: managerExists_eq [OF bolt])
  have dec: "SecretKey_Decrypt (env_crypto E) ((blank mkPub)\<lparr>Key := Some k\<rparr>) pubEnc = Ok keyPub"
    using pub(4) by (simp add: SecretKey_Decrypt_def decrypt_def)
  let ?rest = "bnd (wrap_err (\<lambda>err. managerError ErrCrypto (Some err)) (random (read_random saltSize))) (\<lambda>salt.
     bnd (load_scopes E ns) (\<lambda>scoped.
     ret (newManager params ((blank mkPub)\<lparr>Key := Some k\<rparr>) zero_SecretKey (cryptoKey_CopyBytes (make_bytes KeySize) keyPub)
       [] [] (le_word (rev (le64 t))) salt scoped True)))"
  have run: "Open E (Some ns) pubPass params w = ?rest w"
    by (simp add: Open_def loadManager_def bnd_def exists reads DeriveKey_blank(1) [OF crypto pub(1)] dec wrap_err_def as_error_def
        lift_def ret_def deref_def unmarshal_Marshal [OF pub(1)] opt_bytes_def Let_def split: res.split prod.split)
  have loaded: "gives (load_scopes E ns) (\<lambda>ls w'. loads xs ls \<and> w' = u) u" if "sees E V n u" for u
    using that stored
    by (intro gives_load_scopes [OF bolt _ _ _ xs, of u V])
      (auto simp: sees_def stored_watching_def has_buckets_def mgrBuckets_def)
  have "gives ?rest (\<lambda>m w'. watchingOnly m \<and> locked m \<and> \<not> closed m \<and> loads xs (scopedManagers m) \<and> sees E V n w') w"
    by (rule step_salt [OF sees], simp, rule gives_step, rule loaded, simp, rule gives_ret) (auto simp: newManager_simps)
  then show ?thesis by (simp add: gives_def run)
qed

section \<open>Adding a scope\<close>

context walletdb_bucket
begin

lemma createScopedManagerNS_exists:
  assumes "rw s" and "live (vw s) p" and "vw s p (scopeToBytes scope) = Some Sub"
  shows "fst (createScopedManagerNS W p scope s) = Err (managerError ErrDatabase (Some (convertErr (BoltError BoltBucketExists))))"
    and "vw (snd (createScopedManagerNS W p scope s)) = vw s"
proof -
  obtain s1 where "CreateBucket W p (scopeToBytes scope) s = (Err (convertErr (BoltError BoltBucketExists)), s1)" "vw s1 = vw s"
    using assms fst_Create [of s p "scopeToBytes scope"] view_Create [of s p "scopeToBytes scope"]
    by (cases "CreateBucket W p (scopeToBytes scope) s") (simp add: create_error_def limits)
  then show "fst (createScopedManagerNS W p scope s) = Err (managerError ErrDatabase (Some (convertErr (BoltError BoltBucketExists))))"
    and "vw (snd (createScopedManagerNS W p scope s)) = vw s"
    by (simp_all add: createScopedManagerNS_def as_db_error_def wrap_err_def bnd_def)
qed

end

text \<open>\<^verbatim>\<open>NewScopedKeyManager\<close> on a manager without private keys: the buckets and the schema of the scope are
  stored, and the map of scoped managers has it. A scope that is there already is refused.\<close>

lemma NewScopedKeyManager_watching:
  assumes bolt: "bolt_contract (env_bolt E)" and m: "watchingOnly (mgr u)"
    and sees: "sees E V n u" and stored: "stored_watching E V ns pubPass keyPub xs" and new: "scope \<notin> fst ` set xs"
  shows "\<exists>u' V'. NewScopedKeyManager E ns scope sch u = (Ok scope, u') \<and> mgr u' = (mgr u)\<lparr>
        scopedManagers := AList.update scope (new_scoped scope sch) (scopedManagers (mgr u)),
        externalAddrSchemas := append_schema (ExternalAddrType sch) scope (externalAddrSchemas (mgr u)),
        internalAddrSchemas := append_schema (InternalAddrType sch) scope (internalAddrSchemas (mgr u))\<rparr>
      \<and> sees E V' n u' \<and> stored_watching E V' ns pubPass keyPub (xs @ [(scope, sch)])"
proof -
  have V: "view (env_bolt E) (db u) = V" and rw: "bolt_Writable (env_bolt E) (db u)" using sees by (simp_all add: sees_def)
  have buckets: "V ns scopeBucketName = Some Sub" "V ns scopeSchemaBucketName = Some Sub"
    and free: "V (ns @ [scopeBucketName]) (scopeToBytes scope) = None" "V (ns @ [scopeSchemaBucketName]) (scopeToBytes scope) = None"
    using stored new by (auto simp: stored_watching_def has_buckets_def mgrBuckets_def)
  have live: "live V (ns @ [scopeBucketName])" using buckets(1) by (simp add: live_def)
  note db = dbw_contract [OF bolt]
  define p where "p = ns @ [scopeBucketName]"
  define V1 where "V1 = create_scope_view V p (scopeToBytes scope)"
  define V2 where "V2 = vput V1 (ns @ [scopeSchemaBucketName]) (scopeToBytes scope) (Val (scopeSchemaToBytes sch))"
  obtain u1 where u1: "createScopedManagerNS (dbw E) p scope u = (Ok (), u1)" "view (env_bolt E) (db u1) = V1"
      "bolt_Writable (env_bolt E) (db u1)"
    using walletdb_bucket.createScopedManagerNS_effect [OF db, of u p scope] rw V live free
    by (cases "createScopedManagerNS (dbw E) p scope u") (auto simp: p_def V1_def)
  have at: "V1 ns scopeSchemaBucketName = Some Sub" "V1 (ns @ [scopeSchemaBucketName]) (scopeToBytes scope) = None"
    using buckets free by (simp_all add: V1_def p_def create_scope_view_apply)
  then have "live V1 (ns @ [scopeSchemaBucketName])" by (simp add: live_def)
  have ok: "put_error V1 (ns @ [scopeSchemaBucketName]) (scopeToBytes scope) (scopeSchemaToBytes sch) = None"
    using at(2) by (simp add: put_error_def limits scopeSchemaToBytes_def)
  note put = walletdb_bucket.fst_Put [OF db] walletdb_bucket.view_Put [OF db] walletdb_bucket.rw_Put [OF db]
  obtain u2 where u2: "Put (dbw E) (ns @ [scopeSchemaBucketName]) (scopeToBytes scope) (scopeSchemaToBytes sch) u1 = (Ok (), u2)"
      "view (env_bolt E) (db u2) = V2" "bolt_Writable (env_bolt E) (db u2)"
    using u1 \<open>live V1 _\<close>
    by (cases "Put (dbw E) (ns @ [scopeSchemaBucketName]) (scopeToBytes scope) (scopeSchemaToBytes sch) u1")
      (use put [where s = u1 and p = "ns @ [scopeSchemaBucketName]" and k = "scopeToBytes scope" and v = "scopeSchemaToBytes sch"] in
        \<open>simp add: V2_def ok\<close>)
  have "only_db (createScopedManagerNS (dbw E) p scope)"
      "only_db (Put (dbw E) (ns @ [scopeSchemaBucketName]) (scopeToBytes scope) (scopeSchemaToBytes sch))"
    by (intro frame_intros)+
  then have same: "mgr u2 = mgr u" "rng u2 = rng u"
    using only_dbD [of _ u] only_dbD [of _ u1] u1(1) u2(1) by (metis snd_conv)+
  define u' where "u' = u2\<lparr>mgr := (mgr u)\<lparr>
        scopedManagers := AList.update scope (new_scoped scope sch) (scopedManagers (mgr u)),
        externalAddrSchemas := append_schema (ExternalAddrType sch) scope (externalAddrSchemas (mgr u)),
        internalAddrSchemas := append_schema (InternalAddrType sch) scope (internalAddrSchemas (mgr u))\<rparr>\<rparr>"
  have run: "NewScopedKeyManager E ns scope sch u = (Ok scope, u')"
    using m buckets V u1(1,2) u2(1) at same
    by (simp add: NewScopedKeyManager_def bnd_def go_simps walletdb_bucket.nested_simps [OF db]
        walletdb_bucket.NestedRW_sem [OF db] p_def u'_def)
  have "sees E V2 n u'" using sees u2 same by (simp add: sees_def u'_def)
  moreover have "stored_watching E V2 ns pubPass keyPub (xs @ [(scope, sch)])"
  proof -
    have look: "V2 ns k = V ns k" "V2 (ns @ [mainBucketName]) k = V (ns @ [mainBucketName]) k"
        "V2 (ns @ [syncBucketName]) k = V (ns @ [syncBucketName]) k"
        "V2 (ns @ [scopeSchemaBucketName]) (scopeToBytes s)
          = (if s = scope then Some (Val (scopeSchemaToBytes sch)) else V (ns @ [scopeSchemaBucketName]) (scopeToBytes s))"
        "V2 (ns @ [scopeBucketName]) (scopeToBytes s) = (if s = scope then Some Sub else V (ns @ [scopeBucketName]) (scopeToBytes s))" for k s
      by (simp_all add: V2_def V1_def p_def create_scope_view_apply)
    have other: "s \<noteq> scope" if "(s, b) \<in> set xs" for s b using that new by force
    have "master_record E V2 ns masterPubKeyName cryptoPubKeyName pubPass keyPub"
      using stored by (simp add: stored_watching_def master_record_def look)
    with stored other show ?thesis
      unfolding stored_watching_def has_buckets_def look by auto
  qed
  ultimately show ?thesis
    using run by (intro exI [of _ u'] exI [of _ V2]) (simp add: u'_def)
qed

lemma NewScopedKeyManager_again:
  assumes bolt: "bolt_contract (env_bolt E)" and m: "watchingOnly (mgr u)"
    and sees: "sees E V n u" and stored: "stored_watching E V ns pubPass keyPub xs" and old: "scope \<in> fst ` set xs"
  shows "fst (NewScopedKeyManager E ns scope sch u)
    = Err (managerError ErrDatabase (Some (convertErr (BoltError BoltBucketExists))))"
proof -
  note db = dbw_contract [OF bolt]
  have V: "view (env_bolt E) (db u) = V" "bolt_Writable (env_bolt E) (db u)" using sees by (simp_all add: sees_def)
  have there: "V ns scopeBucketName = Some Sub" "V (ns @ [scopeBucketName]) (scopeToBytes scope) = Some Sub"
    using stored old by (auto simp: stored_watching_def has_buckets_def mgrBuckets_def)
  then have "live V (ns @ [scopeBucketName])" by (simp add: live_def)
  with walletdb_bucket.createScopedManagerNS_exists(1) [OF db, of u "ns @ [scopeBucketName]" scope] V there
  obtain u1 where "createScopedManagerNS (dbw E) (ns @ [scopeBucketName]) scope u
      = (Err (managerError ErrDatabase (Some (convertErr (BoltError BoltBucketExists)))), u1)"
    by (cases "createScopedManagerNS (dbw E) (ns @ [scopeBucketName]) scope u") simp
  then show ?thesis
    using m V there by (simp add: NewScopedKeyManager_def bnd_def go_simps walletdb_bucket.nested_simps [OF db])
qed

text \<open>A scope is added, cannot be added again, takes no account, and is there when the manager is opened again.\<close>

lemma watching_add_scope:
  fixes E :: "('k, 'sk, 'pk, 'a, 'n, 's) env" and u :: "('k, 'pk, 'a, 'n, 's) world" and params :: "'n option"
  assumes bolt: "bolt_contract (env_bolt E)" and crypto: "crypto_contract (env_crypto E)" and m: "watchingOnly (mgr u)"
    and sees: "sees E V 32 u" and stored: "stored_watching E V ns pubPass keyPub []"
  shows "\<exists>u'. NewScopedKeyManager E ns scope sch u = (Ok scope, u')
    \<and> fst (FetchScopedKeyManager scope u') = Ok scope
    \<and> fst (NewScopedKeyManager E ns scope sch' u') = Err (managerError ErrDatabase (Some (convertErr (BoltError BoltBucketExists))))
    \<and> NewAccount E scope ns name u' = (Err (managerError ErrWatchingOnly None), u')
    \<and> (\<exists>m' u''. Open E (Some ns) pubPass params u' = (Ok m', u'') \<and> watchingOnly m'
        \<and> (\<forall>s. map_of (scopedManagers m') s = (if s = scope then Some (new_scoped scope sch) else None)))"
proof -
  from NewScopedKeyManager_watching [OF bolt m sees stored, of scope sch] obtain u' V' where
    u': "NewScopedKeyManager E ns scope sch u = (Ok scope, u')" "watchingOnly (mgr u')"
      "map_of (scopedManagers (mgr u')) scope = Some (new_scoped scope sch)"
    and sees': "sees E V' 32 u'" and stored': "stored_watching E V' ns pubPass keyPub [(scope, sch)]"
    using m by (auto simp: update_conv')
  have "fst (NewScopedKeyManager E ns scope sch' u') = Err (managerError ErrDatabase (Some (convertErr (BoltError BoltBucketExists))))"
    by (rule NewScopedKeyManager_again [OF bolt u'(2) sees' stored']) simp
  moreover have "\<exists>m' u''. Open E (Some ns) pubPass params u' = (Ok m', u'') \<and> watchingOnly m'
        \<and> (\<forall>s. map_of (scopedManagers m') s = (if s = scope then Some (new_scoped scope sch) else None))"
    using gives_Open_watching [OF bolt crypto _ stored', of 0 u' params] sees'
    by (cases "Open E (Some ns) pubPass params u'") (auto simp: gives_def loads_def)
  ultimately show ?thesis
    using u' by (intro exI [of _ u']) (simp add: FetchScopedKeyManager_def NewAccount_def bnd_def go_simps)
qed

section \<open>Properties\<close>

text \<open>C8: a manager created without a root key. \<^verbatim>\<open>Create\<close> asks for no private passphrase and stores nothing of a private side;
  \<^verbatim>\<open>Open\<close> returns a watching-only manager without scopes, on which \<^verbatim>\<open>Lock\<close> and \<^verbatim>\<open>Unlock\<close> fail whatever
  the passphrase. \<^verbatim>\<open>NewScopedKeyManager\<close> needs no key there: it adds a scope once, and the scope is
  there, with its schema, when the manager is opened again; no account can be added to it.\<close>

theorem watching_only_life:
  fixes E :: "('k, 'sk, 'pk, 'a, 'n, 's) env" and w :: "('s, 'z) base_scheme" and params :: "'n option"
  assumes "bolt_contract (env_bolt E)" and "crypto_contract (env_crypto E)" and "scrypt_works (env_crypto E) (options config) pubPass"
    and "bolt_Writable (env_bolt E) (db w)" and "120 \<le> length (rng w)" and "live (view (env_bolt E) (db w)) ns"
    and "\<forall>k \<in> set mgrBuckets. view (env_bolt E) (db w) ns k = None"
    and "w1 = snd (Create E ns None pubPass privPass config birthday xs now w)"
  shows "fst (Create E ns None pubPass privPass config birthday xs now w) = Ok ()
    \<and> fetchMasterHDKeys (dbw E) ns w1 = (Ok (None, None), w1)
    \<and> (\<exists>params. fetchMasterKeyParams (dbw E) ns w1 = (Ok (params, None), w1))
    \<and> (\<exists>key. fetchCryptoKeys (dbw E) ns w1 = (Ok (key, None, None), w1))
    \<and> (\<exists>m w2. Open E (Some ns) pubPass params w1 = (Ok m, w2) \<and> watchingOnly m \<and> locked m \<and> scopedManagers m = []
       \<and> (\<forall>u :: ('k, 'pk, 'a, 'n, 's) world. mgr u = m \<and> db u = db w2 \<and> 32 \<le> length (rng u) \<longrightarrow>
           Lock u = (Err (managerError ErrWatchingOnly None), u)
         \<and> (\<forall>pw. Unlock E ns pw u = (Err (managerError ErrWatchingOnly None), u))
         \<and> (\<exists>u'. NewScopedKeyManager E ns scope sch u = (Ok scope, u')
             \<and> fst (FetchScopedKeyManager scope u') = Ok scope
             \<and> fst (NewScopedKeyManager E ns scope sch' u')
                = Err (managerError ErrDatabase (Some (convertErr (BoltError BoltBucketExists))))
             \<and> NewAccount E scope ns name u' = (Err (managerError ErrWatchingOnly None), u')
             \<and> (\<exists>m' u''. Open E (Some ns) pubPass params u' = (Ok m', u'') \<and> watchingOnly m'
                 \<and> (\<forall>s. map_of (scopedManagers m') s = (if s = scope then Some (new_scoped scope sch) else None))))))"
proof -
  note bolt = assms(1) and crypto = assms(2)
  have "sees E (view (env_bolt E) (db w)) (32 + 88) w" using assms(4,5) by (simp add: sees_def)
  from gives_Create_watching [OF assms(1-3) this assms(6,7), of privPass birthday xs now] assms(8) obtain V keyPub where
    create: "Create E ns None pubPass privPass config birthday xs now w = (Ok (), w1)"
    and w1: "sees E V 32 w1" and stored: "stored_watching E V ns pubPass keyPub []"
    by (cases "Create E ns None pubPass privPass config birthday xs now w") (auto simp: gives_def)
  have V: "view (env_bolt E) (db w1) = V" using w1 by (simp add: sees_def)
  have main: "V ns mainBucketName = Some Sub" and none: "\<forall>k \<in> set privateKeys. V (ns @ [mainBucketName]) k = None"
    using stored by (simp_all add: stored_watching_def has_buckets_def mgrBuckets_def)
  obtain pk ck where "V (ns @ [mainBucketName]) masterPubKeyName = Some (Val pk)"
      "V (ns @ [mainBucketName]) cryptoPubKeyName = Some (Val ck)"
    using stored by (auto simp: stored_watching_def master_record_def)
  with walletdb_bucket.main_fetch [OF dbw_contract [OF bolt], of w1 ns] V main none
  have records: "fetchMasterHDKeys (dbw E) ns w1 = (Ok (None, None), w1)"
      "\<exists>params. fetchMasterKeyParams (dbw E) ns w1 = (Ok (params, None), w1)"
      "\<exists>key. fetchCryptoKeys (dbw E) ns w1 = (Ok (key, None, None), w1)"
    by (simp_all add: privateKeys_def)
  from gives_Open_watching [OF bolt crypto _ stored, of 0 w1 params] w1 obtain m w2 where
    opened: "Open E (Some ns) pubPass params w1 = (Ok m, w2)" "watchingOnly m" "locked m" "loads [] (scopedManagers m)" "sees E V 0 w2"
    by (cases "Open E (Some ns) pubPass params w1") (auto simp: gives_def)
  have "scopedManagers m = []" using opened(4) by (simp add: loads_def flip: map_of_eq_empty_iff) blast
  moreover have "Lock u = (Err (managerError ErrWatchingOnly None), u)"
      "\<And>pw. Unlock E ns pw u = (Err (managerError ErrWatchingOnly None), u)"
    if "mgr u = m" for u :: "('k, 'pk, 'a, 'n, 's) world"
    using that opened(2) by (simp_all add: Lock_def Unlock_def bnd_def go_simps)
  moreover have "sees E V 32 u" if "db u = db w2" "32 \<le> length (rng u)" for u :: "('k, 'pk, 'a, 'n, 's) world"
    using that opened(5) by (simp add: sees_def)
  ultimately show ?thesis
    using create records opened(1-3) watching_add_scope [OF bolt crypto _ _ stored, of _ scope sch sch' name params]
    by auto
qed

theorem watching_only_life_witness:
  "\<exists>u :: (nat, nat, nat, nat, mem) world. watchingOnly (mgr u) \<and> scopedManagers (mgr u) = []
     \<and> fst (NewScopedKeyManager example_hd example_ns KeyScopeBIP0084 \<lparr>ExternalAddrType = WitnessPubKey, InternalAddrType = WitnessPubKey\<rparr> u)
        = Ok KeyScopeBIP0084"
proof -
  let ?sch = "\<lparr>ExternalAddrType = WitnessPubKey, InternalAddrType = WitnessPubKey\<rparr>"
  have "120 \<le> length (rng example_base)" by (simp add: example_base_def)
  from watching_only_life [OF example_wallet(1,2,5,10) this example_wallet(12,13) refl, where params = "None :: nat option" and config = None
      and pubPass = "[1]" and privPass = "[]" and scope = KeyScopeBIP0084 and sch = ?sch and sch' = ?sch
      and birthday = 0 and xs = ScopeAddrMap and now = 0 and name = "[]"]
  obtain m and w2 :: "mem base" where m: "watchingOnly m" "scopedManagers m = []"
    and run: "\<And>u :: (nat, nat, nat, nat, mem) world. mgr u = m \<Longrightarrow> db u = db w2 \<Longrightarrow> 32 \<le> length (rng u) \<Longrightarrow>
      fst (NewScopedKeyManager example_hd example_ns KeyScopeBIP0084 ?sch u) = Ok KeyScopeBIP0084" by fastforce
  let ?u = "\<lparr>db = db w2, rng = replicate 32 0, mgr = m, heap = [], hooks = []\<rparr> :: (nat, nat, nat, nat, mem) world"
  from run [of ?u] m show ?thesis by (intro exI [of _ ?u]) simp
qed

end
