(* ===== verification/LockCycle.thy ===== *)
theory LockCycle
  imports MgrCreate
begin

text \<open>
  The lock of a created wallet over its whole life: every sequence of calls of \<^verbatim>\<open>Unlock\<close> and \<^verbatim>\<open>Lock\<close>
  (\<^verbatim>\<open>waddrmgr/manager.go\<close>) on the manager that \<^verbatim>\<open>Open\<close> returned, with any passphrases, against a lock with two
  states.
\<close>

section \<open>A lock with two states\<close>

datatype lock_call = CallUnlock bytes | CallLock

text \<open>The specification: open or not, and what each call answers.\<close>

fun lock_spec :: "bytes \<Rightarrow> lock_call \<Rightarrow> bool \<Rightarrow> unit result \<times> bool" where
  "lock_spec pass (CallUnlock pw) unlocked =
     (if pw = pass then (Ok (), True) else (Err (managerError ErrWrongPassphrase None), False))"
| "lock_spec pass CallLock unlocked = (if unlocked then Ok () else Err (managerError ErrLocked None), False)"

fun lock_specs :: "bytes \<Rightarrow> lock_call list \<Rightarrow> bool \<Rightarrow> unit result list \<times> bool" where
  "lock_specs pass [] unlocked = ([], unlocked)"
| "lock_specs pass (c # cs) unlocked =
     (case lock_spec pass c unlocked of (r, unlocked) \<Rightarrow>
      case lock_specs pass cs unlocked of (rs, unlocked) \<Rightarrow> (r # rs, unlocked))"

text \<open>The same calls on a manager; each returns before the next is made.\<close>

fun lock_call_of ::
  "('k, 'sk, 'pk, 'a, 'n, 's) env \<Rightarrow> bkt \<Rightarrow> lock_call \<Rightarrow> (('k, 'pk, 'a, 'n, 's) world, unit) go" where
  "lock_call_of E ns (CallUnlock pw) = Unlock E ns pw"
| "lock_call_of E ns CallLock = Lock"

fun lock_calls ::
  "('k, 'sk, 'pk, 'a, 'n, 's) env \<Rightarrow> bkt \<Rightarrow> lock_call list \<Rightarrow> ('k, 'pk, 'a, 'n, 's) world
   \<Rightarrow> unit result list \<times> ('k, 'pk, 'a, 'n, 's) world" where
  "lock_calls E ns [] w = ([], w)"
| "lock_calls E ns (c # cs) w =
     (case lock_call_of E ns c w of (r, w) \<Rightarrow>
      case lock_calls E ns cs w of (rs, w) \<Rightarrow> (r # rs, w))"

section \<open>The two states of the manager\<close>

text \<open>A passphrase that both checks of the manager tell apart from the right one: the digest of the scrypt key under
  the parameters of its master key, and the hash under its salt. An empty passphrase that is hashed leaves a salt of
  zeros, so that one counts too.\<close>

definition wrong_pass :: "crypto \<Rightarrow> ('k, 'n) Manager \<Rightarrow> bytes \<Rightarrow> bytes \<Rightarrow> bool" where
  "wrong_pass C m pass pw \<longleftrightarrow> (let ps = Params (masterKeyPriv m); salt = privPassphraseSalt m in
     (\<exists>k. scrypt_Key C pw (Salt ps) (N ps) (R ps) (P ps) 32 = Ok k \<and> sha256_Sum256 C k \<noteq> Digest ps)
     \<and> (\<forall>s \<in> {salt, make_bytes (length salt)}. sha512_Sum512 C (s @ pw) \<noteq> sha512_Sum512 C (s @ pass)))"

text \<open>What a call keeps of the manager beside the secrets.\<close>

definition same_lock :: "('k, 'n) Manager \<Rightarrow> ('k, 'n) Manager \<Rightarrow> bool" where
  "same_lock m m' \<longleftrightarrow> Params (masterKeyPriv m') = Params (masterKeyPriv m)
   \<and> privPassphraseSalt m' \<in> {privPassphraseSalt m, make_bytes (length (privPassphraseSalt m))}"

lemma same_lock_refl: "same_lock m m"
  by (simp add: same_lock_def)

lemma same_lock_trans: "same_lock m m' \<Longrightarrow> same_lock m' m'' \<Longrightarrow> same_lock m m''"
  by (auto simp: same_lock_def)

lemma wrong_pass_same: "same_lock m m' \<Longrightarrow> wrong_pass C m pass pw \<Longrightarrow> wrong_pass C m' pass pw"
  by (auto simp: same_lock_def wrong_pass_def Let_def)

definition unlocked_mgr ::
  "('k, 'sk, 'pk, 'a, 'n, 's) env \<Rightarrow> bytes \<Rightarrow> bytes \<Rightarrow> bytes \<Rightarrow> (KeyScope \<times> ScopeAddrSchema) list \<Rightarrow> ('k, 'n) Manager \<Rightarrow> bool" where
  "unlocked_mgr E privPass keyPub keyPriv xs m \<longleftrightarrow> \<not> locked m \<and> cryptoKeyPriv m = keyPriv
   \<and> hashedPrivPassphrase m = sha512_Sum512 (env_crypto E) (privPassphraseSalt m @ privPass)
   \<and> (\<exists>k. Key (masterKeyPriv m) = Some k) \<and> opened E privPass keyPub keyPriv xs (locked_manager m)"

definition lock_state ::
  "('k, 'sk, 'pk, 'a, 'n, 's) env \<Rightarrow> bytes \<Rightarrow> bytes \<Rightarrow> bytes \<Rightarrow> (KeyScope \<times> ScopeAddrSchema) list \<Rightarrow> bool \<Rightarrow> ('k, 'n) Manager \<Rightarrow> bool" where
  "lock_state E privPass keyPub keyPriv xs unlocked m \<longleftrightarrow>
     (if unlocked then unlocked_mgr E privPass keyPub keyPriv xs m else opened E privPass keyPub keyPriv xs m)"

lemma lock_accounts_loads: "loads xs (scopedManagers m) \<Longrightarrow> scopedManagers (lock_accounts m) = scopedManagers m"
  by (force simp: loads_def lock_accounts_def intro: map_idI)

lemma closed_locked [simp]: "closed (locked_manager m) = closed m" "privPassphraseSalt (locked_manager m) = privPassphraseSalt m"
  by (simp_all add: locked_manager_def lock_accounts_def)

text \<open>Locking forgets exactly the secrets: an opened manager is as it was.\<close>

lemma opened_locked: "opened E privPass keyPub keyPriv xs m \<Longrightarrow> opened E privPass keyPub keyPriv xs (locked_manager m)"
  unfolding opened_def by (force simp: lock_accounts_loads blank_def)

lemma locked_master [simp]:
  "locked_manager (m\<lparr>masterKeyPriv := (masterKeyPriv m)\<lparr>Key := k\<rparr>, cryptoKeyPriv := ck, locked := b, hashedPrivPassphrase := h\<rparr>)
     = locked_manager m"
  by (simp add: locked_manager_def lock_accounts_def)

lemma Unlock_locked:
  assumes "crypto_contract (env_crypto E)" and "opened E privPass keyPub keyPriv xs (mgr w)" and "privPass \<noteq> []"
    and "pw = privPass \<or> wrong_pass (env_crypto E) (mgr w) privPass pw"
  shows "\<exists>w'. Unlock E ns pw w = (fst (lock_spec privPass (CallUnlock pw) False), w') \<and> db w' = db w \<and> same_lock (mgr w) (mgr w')
      \<and> lock_state E privPass keyPub keyPriv xs (snd (lock_spec privPass (CallUnlock pw) False)) (mgr w')"
proof (cases "pw = privPass")
  case True
  obtain k where run: "Unlock E ns privPass w = (Ok (), w\<lparr>mgr := (mgr w)\<lparr>masterKeyPriv := (masterKeyPriv (mgr w))\<lparr>Key := Some k\<rparr>,
      cryptoKeyPriv := keyPriv, locked := False,
      hashedPrivPassphrase := sha512_Sum512 (env_crypto E) (privPassphraseSalt (mgr w) @ privPass)\<rparr>\<rparr>)"
    using Unlock_opened_states(1) [OF assms(1-3)] by blast
  show ?thesis
    using True opened_locked [OF assms(2)] by (simp add: run lock_state_def unlocked_mgr_def same_lock_def)
next
  case False
  with assms(4) obtain k where k: "scrypt_Key (env_crypto E) pw (Salt (Params (masterKeyPriv (mgr w)))) (N (Params (masterKeyPriv (mgr w))))
      (R (Params (masterKeyPriv (mgr w)))) (P (Params (masterKeyPriv (mgr w)))) 32 = Ok k"
      "sha256_Sum256 (env_crypto E) k \<noteq> Digest (Params (masterKeyPriv (mgr w)))"
    by (auto simp: wrong_pass_def Let_def)
  have "Key (masterKeyPriv (mgr w)) = Some (make_bytes 32)" using assms(2) by (auto simp: opened_def blank_def)
  from unlock_keys_wrong [OF assms(1) this _ refl k] False opened_locked [OF assms(2)] assms(2) show ?thesis
    by (simp add: Unlock_def bnd_def reads_def lock_state_def same_lock_def) (simp add: opened_def locked_manager_def lock_accounts_def)
qed

lemma Unlock_unlocked:
  assumes "unlocked_mgr E privPass keyPub keyPriv xs (mgr w)" and "privPass \<noteq> []"
    and "pw = privPass \<or> wrong_pass (env_crypto E) (mgr w) privPass pw"
  shows "\<exists>w'. Unlock E ns pw w = (fst (lock_spec privPass (CallUnlock pw) True), w') \<and> db w' = db w \<and> same_lock (mgr w) (mgr w')
      \<and> lock_state E privPass keyPub keyPriv xs (snd (lock_spec privPass (CallUnlock pw) True)) (mgr w')"
proof -
  obtain k where k: "Key (masterKeyPriv (mgr w)) = Some k" using assms(1) by (auto simp: unlocked_mgr_def)
  have m: "\<not> locked (mgr w)" "\<not> watchingOnly (mgr w)"
      "hashedPrivPassphrase (mgr w) = sha512_Sum512 (env_crypto E) (privPassphraseSalt (mgr w) @ privPass)"
      "opened E privPass keyPub keyPriv xs (locked_manager (mgr w))"
    using assms(1) by (simp_all add: unlocked_mgr_def opened_def)
  have opened_salt: "opened E privPass keyPub keyPriv xs (locked_manager ((mgr w)\<lparr>privPassphraseSalt := s\<rparr>))" for s
    using m(4) by (simp add: opened_def locked_manager_def lock_accounts_def)
  show ?thesis
    using m assms(2,3) k opened_salt assms(1)
    by (auto simp: Unlock_def bnd_reads recheck_passphrase_def bnd_def go_simps salted_hash_eq Manager_lock_eq
        lock_state_def wrong_pass_def same_lock_def Let_def split: option.splits)
qed

lemma Lock_states:
  "unlocked_mgr E privPass keyPub keyPriv xs (mgr w) \<Longrightarrow>
     \<exists>w'. Lock w = (Ok (), w') \<and> db w' = db w \<and> same_lock (mgr w) (mgr w') \<and> opened E privPass keyPub keyPriv xs (mgr w')"
  "opened E privPass keyPub keyPriv xs (mgr w) \<Longrightarrow> Lock w = (Err (managerError ErrLocked None), w)"
  by (auto simp: Lock_def bnd_reads Manager_lock_eq unlocked_mgr_def raise_def same_lock_def) (auto simp: opened_def)

lemma lock_call_refines:
  assumes "crypto_contract (env_crypto E)" and "privPass \<noteq> []" and "lock_state E privPass keyPub keyPriv xs b (mgr w)"
    and "\<forall>pw. c = CallUnlock pw \<longrightarrow> pw = privPass \<or> wrong_pass (env_crypto E) (mgr w) privPass pw"
  shows "\<exists>w'. lock_call_of E ns c w = (fst (lock_spec privPass c b), w') \<and> db w' = db w \<and> same_lock (mgr w) (mgr w')
      \<and> lock_state E privPass keyPub keyPriv xs (snd (lock_spec privPass c b)) (mgr w')"
proof (cases c)
  case (CallUnlock pw)
  with assms show ?thesis
    using Unlock_locked [OF assms(1) _ assms(2), of keyPub keyPriv xs w pw ns]
      Unlock_unlocked [OF _ assms(2), of E keyPub keyPriv xs w pw ns]
    by (cases b) (auto simp: lock_state_def simp del: lock_spec.simps(1)) 
next
  case CallLock
  with assms(3) Lock_states [of E privPass keyPub keyPriv xs w] show ?thesis
    by (cases b) (auto simp: lock_state_def same_lock_refl)
qed

lemma lock_calls_refine:
  assumes "crypto_contract (env_crypto E)" and "privPass \<noteq> []" and "lock_state E privPass keyPub keyPriv xs b (mgr w)"
    and "\<forall>pw. CallUnlock pw \<in> set cs \<longrightarrow> pw = privPass \<or> wrong_pass (env_crypto E) (mgr w) privPass pw"
  shows "\<exists>w'. lock_calls E ns cs w = (fst (lock_specs privPass cs b), w') \<and> db w' = db w \<and> same_lock (mgr w) (mgr w')
      \<and> lock_state E privPass keyPub keyPriv xs (snd (lock_specs privPass cs b)) (mgr w')"
  using assms(3,4)
proof (induction cs arbitrary: b w)
  case (Cons c cs)
  obtain r b1 where spec: "lock_spec privPass c b = (r, b1)" by force
  obtain w1 where w1: "lock_call_of E ns c w = (r, w1)" "db w1 = db w" "lock_state E privPass keyPub keyPriv xs b1 (mgr w1)"
      "same_lock (mgr w) (mgr w1)"
    using lock_call_refines [OF assms(1,2) Cons.prems(1), of c ns] Cons.prems(2) spec by auto
  have "\<forall>pw. CallUnlock pw \<in> set cs \<longrightarrow> pw = privPass \<or> wrong_pass (env_crypto E) (mgr w1) privPass pw"
    using Cons.prems(2) wrong_pass_same [OF w1(4)] by auto
  from Cons.IH [OF w1(3) this] w1(1,2,4) spec show ?case by (auto split: prod.splits intro: same_lock_trans)
qed (simp add: same_lock_refl)

section \<open>Properties\<close>

text \<open>C4: the lock of a created wallet is a lock with two states. After \<^verbatim>\<open>Create\<close> and \<^verbatim>\<open>Open\<close>, any sequence of calls of
  \<^verbatim>\<open>Unlock\<close>, with the right passphrase or others, and of \<^verbatim>\<open>Lock\<close> gets the answers of the specification: the right
  passphrase always opens it, every other one, also on an open manager, is refused and leaves it locked,
  and \<^verbatim>\<open>Lock\<close> fails exactly on a locked one. Whatever was called before, an open manager reads back the root
  key, a locked one has zeroed keys and refuses it with \<^verbatim>\<open>ErrLocked\<close>, and the database is untouched.\<close>

theorem lock_refines_spec:
  fixes E :: "('k, 'sk, 'pk, 'a, 'n, 's) env" and w :: "('s, 'z) base_scheme" and u :: "('k, 'pk, 'a, 'n, 's) world"
  assumes "bolt_contract (env_bolt E)" and "crypto_contract (env_crypto E)" and "short_keys E" and "wallet_root E root"
    and "scrypt_works (env_crypto E) (options config) pubPass" and "scrypt_works (env_crypto E) (options config) privPass"
    and "privPass \<noteq> []" and "distinct (map fst xs)" and "fst ` set xs = set DefaultKeyScopes"
    and "bolt_Writable (env_bolt E) (db w)" and "728 \<le> length (rng w)" and "live (view (env_bolt E) (db w)) ns"
    and "\<forall>k \<in> set mgrBuckets. view (env_bolt E) (db w) ns k = None"
    and "w1 = snd (Create E ns (Some root) pubPass privPass config birthday xs now w)"
    and "fst (Open E (Some ns) pubPass params w1) = Ok (mgr u)" and "db u = db w1"
    and "\<forall>pw. CallUnlock pw \<in> set cs \<longrightarrow> pw = privPass \<or> wrong_pass (env_crypto E) (mgr u) privPass pw"
    and "(rs, u') = lock_calls E ns cs u" and "(spec, unlocked) = lock_specs privPass cs False"
  shows "rs = spec \<and> locked (mgr u') = (\<not> unlocked) \<and> db u' = db u
    \<and> fst (root_private_key E ns (mgr u') u')
        = (if unlocked then map_err (\<lambda>err. managerError ErrCrypto (Some err)) (hd_NewKeyFromString E (hd_String E root))
           else Err (managerError ErrLocked None))
    \<and> (\<not> unlocked \<longrightarrow> cryptoKeyPriv (mgr u') = make_bytes 32 \<and> Key (masterKeyPriv (mgr u')) = Some (make_bytes 32))"
proof -
  obtain w1' V keyPub keyPriv where run: "Create E ns (Some root) pubPass privPass config birthday xs now w = (Ok (), w1')"
    and stored: "sees E V (0 + 32) w1'" "stored_manager E V ns root pubPass privPass keyPub keyPriv xs"
    by (rule Create_stores [OF assms(1-13)])
  have "w1' = w1" using run assms(14) by simp
  then have V: "view (env_bolt E) (db u) = V" using stored(1) assms(16) by (simp add: sees_def)
  have "opened E privPass keyPub keyPriv xs (mgr u)"
    using Open_stored(1) [OF assms(1,2) stored assms(8), where params = params] assms(15) \<open>w1' = w1\<close> by (auto simp: gives_def)
  then have "lock_state E privPass keyPub keyPriv xs False (mgr u)" by (simp add: lock_state_def)
  from lock_calls_refine [OF assms(2,7) this assms(17), of ns] assms(18,19)
  have u': "rs = spec" "db u' = db u" "lock_state E privPass keyPub keyPriv xs unlocked (mgr u')"
    by (auto simp: prod_eq_iff)
  have "root_private_key E ns (mgr u') u' = (Err (managerError ErrLocked None), u')" if "locked (mgr u')"
    using that by (simp add: root_private_key_def raise_def)
  moreover have "fst (root_private_key E ns (mgr u') u')
      = map_err (\<lambda>err. managerError ErrCrypto (Some err)) (hd_NewKeyFromString E (hd_String E root))" if unlocked
  proof (rule root_private_key_stored [OF assms(1)])
    show "\<not> locked (mgr u')" using u'(3) that by (simp add: lock_state_def unlocked_mgr_def)
  qed (use u' that stored(2) V in \<open>auto simp: lock_state_def unlocked_mgr_def opened_def\<close>)
  ultimately show ?thesis
    using u' by (cases unlocked) (auto simp: lock_state_def unlocked_mgr_def opened_def blank_def)
qed

text \<open>The reference primitives with a hash that looks at the end of its input, where the passphrase is.\<close>

definition end_crypto :: crypto where
  "end_crypto = ref_crypto\<lparr>sha512_Sum512 := \<lambda>b. take 64 (rev b @ make_bytes 64)\<rparr>"

definition example_end :: "(nat, nat, nat, nat, nat, mem) env" where
  "example_end = example_hd\<lparr>env_crypto := end_crypto\<rparr>"

lemma example_end_wallet:
  "bolt_contract (env_bolt example_end)" "crypto_contract (env_crypto example_end)"
  "short_keys example_end" "wallet_root example_end 1" "scrypt_works (env_crypto example_end) (options opt) pw"
proof -
  show "wallet_root example_end 1"
    by (auto simp: wallet_root_def usable_root_def deriveCoinTypeKey_def deriveAccountKey_def checkBranchKeys_def
        example_end_def example_hd_def key_limits DefaultKeyScopes_def bip_scopes)
  show "crypto_contract (env_crypto example_end)"
    by unfold_locales (auto simp: example_end_def end_crypto_def ref_crypto_def ref_tag_def)
qed (use example_wallet(1,3,5) in \<open>simp_all add: example_end_def end_crypto_def short_keys_def scrypt_works_def\<close>)

lemma end_wrong_pass:
  assumes "opened example_end [2] keyPub keyPriv xs m"
  shows "wrong_pass (env_crypto example_end) m [2] [5]"
  using assms by (auto simp: wrong_pass_def opened_def made_from_def blank_def Let_def example_end_def end_crypto_def ref_crypto_def)

theorem lock_refines_spec_witness:
  "\<exists>(u :: (nat, nat, nat, nat, mem) world) u'. lock_calls example_end example_ns [CallUnlock [5], CallUnlock [2], CallLock, CallLock, CallUnlock [2]] u
     = ([Err (managerError ErrWrongPassphrase None), Ok (), Ok (), Err (managerError ErrLocked None), Ok ()], u') \<and> \<not> locked (mgr u')"
proof -
  let ?create = "Create example_end example_ns (Some 1) [1] [2] None 0 ScopeAddrMap 0 example_base"
  let ?cs = "[CallUnlock [5], CallUnlock [2], CallLock, CallLock, CallUnlock [2 :: byte]]"
  have base: "bolt_Writable (env_bolt example_end) (db example_base)" "live (view (env_bolt example_end) (db example_base)) example_ns"
      "\<forall>k \<in> set mgrBuckets. view (env_bolt example_end) (db example_base) example_ns k = None"
    using example_wallet(10,12,13) by (simp_all add: example_end_def)
  note wallet = example_end_wallet(1-5,5) example_wallet(7-9) base(1) example_wallet(11) base(2,3)
  obtain w1 V keyPub keyPriv where run: "?create = (Ok (), w1)"
    and stored: "sees example_end V (0 + 32) w1" "stored_manager example_end V example_ns 1 [1] [2] keyPub keyPriv ScopeAddrMap"
    by (rule Create_stores [OF wallet])
  from Open_stored(1) [OF example_end_wallet(1,2) stored example_wallet(8), of "None :: nat option"] obtain m
    where m: "fst (Open example_end (Some example_ns) [1] (None :: nat option) w1) = Ok m" "opened example_end [2] keyPub keyPriv ScopeAddrMap m"
    by (auto simp: gives_def)
  let ?u = "\<lparr>db = db w1, rng = [], mgr = m, heap = [], hooks = []\<rparr> :: (nat, nat, nat, nat, mem) world"
  have opens: "fst (Open example_end (Some example_ns) [1] (None :: nat option) (snd ?create)) = Ok (mgr ?u)" "db ?u = db (snd ?create)"
    using run m(1) by simp_all
  obtain rs u' where calls: "lock_calls example_end example_ns ?cs ?u = (rs, u')" by force
  have "\<forall>pw. CallUnlock pw \<in> set ?cs \<longrightarrow> pw = [2] \<or> wrong_pass (env_crypto example_end) (mgr ?u) [2] pw"
    using end_wrong_pass [OF m(2)] by auto
  from lock_refines_spec [OF wallet refl opens this calls [symmetric], of
      "[Err (managerError ErrWrongPassphrase None), Ok (), Ok (), Err (managerError ErrLocked None), Ok ()]" True]
  have "rs = [Err (managerError ErrWrongPassphrase None), Ok (), Ok (), Err (managerError ErrLocked None), Ok ()]" "\<not> locked (mgr u')"
    by simp_all
  with calls show ?thesis by blast
qed

end
