(* ===== verification/NoAddresses.thy ===== *)
theory NoAddresses
  imports MgrCreate
begin

text \<open>
  What follows from \<^verbatim>\<open>newManager\<close> not storing the chain parameters it is given: the constructors of
  \<^verbatim>\<open>btcutil\<close> read their network, which is nil in every opened manager, and nothing ever sets it. The
  theory follows the manager through all its operations.
\<close>

section \<open>Programs that keep an invariant and say something of their result\<close>

text \<open>\<open>yields I m Q\<close>: from a state with \<open>I\<close>, a call of \<open>m\<close> that returns leaves \<open>I\<close>, and \<open>Q\<close> holds of its value.\<close>

definition yields :: "('w \<Rightarrow> bool) \<Rightarrow> ('w, 'x) go \<Rightarrow> ('x \<Rightarrow> bool) \<Rightarrow> bool" where
  "yields I m Q \<longleftrightarrow> (\<forall>w. I w \<longrightarrow> (\<forall>a. fst (m w) = Ok a \<longrightarrow> Q a) \<and> (returned (fst (m w)) \<longrightarrow> I (snd (m w))))"

abbreviation invar :: "('w \<Rightarrow> bool) \<Rightarrow> ('w, 'x) go \<Rightarrow> bool" where
  "invar I m \<equiv> yields I m (\<lambda>_. True)"

named_theorems invar_intros \<open>programs that keep an invariant\<close>

lemma yields_bnd: "yields I m Q \<Longrightarrow> (\<And>a. Q a \<Longrightarrow> yields I (f a) Q') \<Longrightarrow> yields I (bnd m f) Q'"
  by (auto simp: yields_def go_simps returned_def split: res.splits)

lemma yields_mono: "yields I m Q \<Longrightarrow> (\<And>a. Q a \<Longrightarrow> Q' a) \<Longrightarrow> yields I m Q'"
  by (simp add: yields_def)

lemma yields_keeps: "keeps f m \<Longrightarrow> (\<And>w w'. f w' = f w \<Longrightarrow> I w \<Longrightarrow> I w') \<Longrightarrow> invar I m"
  by (simp add: yields_def keeps_def)

lemma yields_reads: "(\<And>w. I w \<Longrightarrow> Q (g w)) \<Longrightarrow> yields I (reads g) Q"
  by (simp add: yields_def go_simps)

lemma yields_lift: "(\<And>a. r = Ok a \<Longrightarrow> Q a) \<Longrightarrow> yields I (lift r) Q"
  by (auto simp: yields_def go_simps split: res.splits)

lemma yields_deref: "(\<And>a. z = Some a \<Longrightarrow> Q a) \<Longrightarrow> yields I (deref z) Q"
  by (auto simp: yields_def go_simps deref_def split: option.splits)

lemma yields_ret: "Q x \<Longrightarrow> yields I (ret x) Q"
  by (simp add: yields_def go_simps)

lemma yields_stop: "yields I (raise e) Q" "yields I panic Q" "yields I hang Q"
  by (simp_all add: yields_def go_simps)

lemma yields_wrap:
  "yields I m Q \<Longrightarrow> yields I (wrap_err h m) Q" "yields I m Q \<Longrightarrow> yields I (as_error c m) Q"
  by (auto simp: yields_def as_error_def go_simps returned_def map_err_eq_Ok split: res.splits)

lemma yields_cases:
  "(c \<Longrightarrow> yields I m Q) \<Longrightarrow> (\<not> c \<Longrightarrow> yields I m' Q) \<Longrightarrow> yields I (if c then m else m') Q"
  "(z = None \<Longrightarrow> yields I m Q) \<Longrightarrow> (\<And>x. z = Some x \<Longrightarrow> yields I (g x) Q) \<Longrightarrow> yields I (case z of None \<Rightarrow> m | Some x \<Rightarrow> g x) Q"
  "(\<And>x y. q = (x, y) \<Longrightarrow> yields I (h x y) Q) \<Longrightarrow> yields I (case q of (x, y) \<Rightarrow> h x y) Q"
  by (cases c, simp, simp) (cases z, simp, simp, cases q, simp)

lemma invar_attempt [invar_intros]: "invar I m \<Longrightarrow> invar I (attempt m)"
  by (auto simp: yields_def go_simps returned_def split: res.splits)

lemma invar_for_each [invar_intros]: "(\<And>x. invar I (g x)) \<Longrightarrow> invar I (for_each g xs)"
  by (induction xs) (auto intro: yields_ret yields_bnd)

lemma invar_modify: "(\<And>w. I w \<Longrightarrow> I (f w)) \<Longrightarrow> invar I (modify f)"
  by (simp add: yields_def go_simps)

lemma invarD: "invar I m \<Longrightarrow> m w = (r, w') \<Longrightarrow> returned r \<Longrightarrow> I w \<Longrightarrow> I w'"
  unfolding yields_def by (metis fst_conv snd_conv)

lemmas invar_steps = yields_bnd [where Q = "\<lambda>_. True"] yields_ret yields_stop yields_wrap yields_cases
  yields_reads yields_lift yields_deref

section \<open>A manager without a network\<close>

text \<open>The constructors of \<^verbatim>\<open>btcutil\<close> read a field of the parameters: with nil they panic.\<close>

definition nil_net :: "('k, 'sk, 'pk, 'a, 'n, 's) env \<Rightarrow> bool" where
  "nil_net E \<longleftrightarrow> (\<forall>b. NewAddressPubKeyHash E b None = Panic \<and> NewAddressWitnessPubKeyHash E b None = Panic
     \<and> NewAddressScriptHash E b None = Panic \<and> NewAddressScriptHashFromHash E b None = Panic
     \<and> NewAddressWitnessScriptHash E b None = Panic \<and> NewAddressTaproot E b None = Panic)"

text \<open>The types \<^verbatim>\<open>newManagedAddressWithoutPrivKey\<close> has a case for.\<close>

definition key_types :: "AddressType set" where
  "key_types = {NestedWitnessPubKey, PubKeyHash, WitnessPubKey, TaprootPubKey}"

definition nil_address :: "('pk, 'a) ManagedAddress \<Rightarrow> bool" where
  "nil_address m \<longleftrightarrow> (\<exists>a. m = PubKeyAddr a \<and> ma_address a = None)"

text \<open>The type of an account's external addresses, given the schema of its scope.\<close>

definition external_type :: "ScopeAddrSchema \<Rightarrow> 'k accountInfo \<Rightarrow> AddressType" where
  "external_type sch ai = ExternalAddrType (case ai_addrSchema ai of Some own \<Rightarrow> own | None \<Rightarrow> sch)"

lemma accountAddrType_external: "accountAddrType s ai False = external_type (sm_addrSchema s) ai"
  by (simp add: accountAddrType_def external_type_def Let_def)

lemma external_type_fields [simp]:
  "external_type sch (ai\<lparr>ai_acctKeyPriv := k\<rparr>) = external_type sch ai"
  "external_type sch (ai\<lparr>ai_acctKeyPub := k'\<rparr>) = external_type sch ai"
  "external_type sch (ai\<lparr>ai_lastExternalAddr := l\<rparr>) = external_type sch ai"
  "external_type sch (ai\<lparr>ai_lastInternalAddr := l\<rparr>) = external_type sch ai"
  "external_type sch (ai\<lparr>ai_nextExternalIndex := i\<rparr>) = external_type sch ai"
  "external_type sch (ai\<lparr>ai_nextInternalIndex := i\<rparr>) = external_type sch ai"
  "external_type sch (ai\<lparr>ai_acctName := n\<rparr>) = external_type sch ai"
  by (simp_all add: external_type_def)

definition nil_scope :: "'k ScopedKeyManager \<Rightarrow> bool" where
  "nil_scope sm \<longleftrightarrow> sm_addrs sm = [] \<and> (\<forall>n ai. map_of (sm_acctInfo sm) n = Some ai \<longrightarrow>
     external_type (sm_addrSchema sm) ai \<notin> key_types)"

definition nil_inv :: "(KeyScope \<Rightarrow> ScopeAddrSchema \<Rightarrow> bool) \<Rightarrow> ('k, 'pk, 'a, 'n, 's) world \<Rightarrow> bool" where
  "nil_inv S w \<longleftrightarrow> chainParams (mgr w) = None \<and> (\<forall>m \<in> set (heap w). nil_address m)
     \<and> (\<forall>scope sm. map_of (scopedManagers (mgr w)) scope = Some sm \<longrightarrow>
         nil_scope sm \<and> S scope (sm_addrSchema sm))"

lemma nil_invD:
  "nil_inv S w \<Longrightarrow> chainParams (mgr w) = None" "nil_inv S w \<Longrightarrow> m \<in> set (heap w) \<Longrightarrow> nil_address m"
  "nil_inv S w \<Longrightarrow> map_of (scopedManagers (mgr w)) scope = Some sm \<Longrightarrow> nil_scope sm \<and> S scope (sm_addrSchema sm)"
  by (auto simp: nil_inv_def)

lemma WithoutPrivKey_nil:
  assumes "nil_net E" and "newManagedAddressWithoutPrivKey E None m path pk c t = Ok a"
  shows "ma_address a = None \<and> t \<notin> key_types"
  using assms
  by (auto simp: newManagedAddressWithoutPrivKey_def nil_net_def key_types_def Let_def split: if_splits)

lemma Validate_nil: "nil_net E \<Longrightarrow> Validate E None a msg k \<noteq> Ok ()"
  by (auto simp: Validate_def Let_def rbind_eq_Ok map_err_eq_Ok address_String_def split: option.splits
      dest: WithoutPrivKey_nil)

lemma Validate_stops:
  "nil_net E \<Longrightarrow> net = None \<Longrightarrow> yields I (bnd (wrap_err h (lift (Validate E net a msg k))) f) Q"
  by (rule yields_bnd [where Q = "\<lambda>_. False"]) (auto intro!: yields_wrap yields_lift simp: Validate_nil)

section \<open>Operations\<close>

lemma invar_keeps_mgr_heap [intro]:
  assumes "keeps mgr m" and "keeps heap m"
  shows "invar (nil_inv S) m"
  by (rule yields_keeps [where f = "\<lambda>w. (mgr w, heap w)"])
    (use assms in \<open>simp_all add: keeps_def nil_inv_def\<close>)

lemma invar_only_db: "only_db m \<Longrightarrow> invar (nil_inv S) m"
  by (intro invar_keeps_mgr_heap keeps_only_db)

lemma invar_random [invar_intros]: "invar (nil_inv S) (random m)" "invar (nil_inv S) (encrypt E key b)"
  by (intro invar_keeps_mgr_heap keeps_intros)+

lemma yields_load: "yields (nil_inv S) (load r) nil_address"
  by (simp add: yields_def go_simps nil_invD)

lemma yields_load_pub: "yields (nil_inv S) (load_pub r) (\<lambda>a. ma_address a = None)"
  unfolding load_pub_def
  by (rule yields_bnd [OF yields_load]) (auto simp: nil_address_def intro: yields_ret)

lemma yields_address_of: "yields (nil_inv S) (address_of r) (\<lambda>_. False)"
  unfolding address_of_def
  by (rule yields_bnd [OF yields_load]) (auto simp: nil_address_def Address_def intro: yields_deref)

lemma yields_mgr: "yields (nil_inv S) (reads mgr) (\<lambda>root. chainParams root = None)"
  by (intro yields_reads nil_invD)

lemma yields_net: "yields (nil_inv S) (reads (\<lambda>w. chainParams (mgr w))) (\<lambda>net. net = None)"
  by (intro yields_reads nil_invD)

lemma yields_sm_lookup: "yields (nil_inv S) (sm_lookup scope) (\<lambda>sm. nil_scope sm \<and> S scope (sm_addrSchema sm))"
  by (auto simp: yields_def go_simps nil_invD split: option.splits)

lemma invar_alloc: "nil_address a \<Longrightarrow> invar (nil_inv S) (alloc a)"
  by (auto simp: yields_def go_simps nil_inv_def)

lemma invar_store: "nil_address a \<Longrightarrow> invar (nil_inv S) (store r a)"
  by (auto simp: yields_def go_simps nil_inv_def dest!: set_update_subset_insert [THEN subsetD])

lemma map_of_modify_all:
  "map_of (map (\<lambda>(sc, sm). (sc, if sc = scope then f sm else sm)) xs) sc
     = (if sc = scope then map_option f (map_of xs sc) else map_of xs sc)"
  by (induction xs) auto

lemma invar_sm_modify:
  assumes "\<And>sm. nil_scope sm \<Longrightarrow> S scope (sm_addrSchema sm) \<Longrightarrow> nil_scope (f sm) \<and> sm_addrSchema (f sm) = sm_addrSchema sm"
  shows "invar (nil_inv S) (sm_modify scope f)"
  unfolding sm_modify_def
  by (rule invar_modify) (auto simp: nil_inv_def map_of_modify_all assms split: if_splits)

lemma invar_sm_ops [invar_intros]:
  "invar (nil_inv S) (delete_addr scope k)" "invar (nil_inv S) (add_deriveOnUnlock scope i)"
  "invar (nil_inv S) (sm_modify scope (\<lambda>sm. sm\<lparr>sm_deriveOnUnlock := g sm\<rparr>))"
  unfolding delete_addr_def add_deriveOnUnlock_def by (intro invar_sm_modify; simp add: nil_scope_def)+

text \<open>What may be cached as an account of a scope, given what is known of the schemas.\<close>

definition nil_account :: "(KeyScope \<Rightarrow> ScopeAddrSchema \<Rightarrow> bool) \<Rightarrow> KeyScope \<Rightarrow> 'k accountInfo \<Rightarrow> bool" where
  "nil_account S scope ai \<longleftrightarrow> (\<exists>sch. S scope sch \<and> external_type sch ai \<notin> key_types)"

definition fixed :: "KeyScope \<Rightarrow> ScopeAddrSchema \<Rightarrow> KeyScope \<Rightarrow> ScopeAddrSchema \<Rightarrow> bool" where
  "fixed scope sch sc x \<longleftrightarrow> (sc = scope \<longrightarrow> x = sch)"

abbreviation any_schema :: "KeyScope \<Rightarrow> ScopeAddrSchema \<Rightarrow> bool" where
  "any_schema \<equiv> \<lambda>_ _. True"

lemma nil_inv_fixed:
  "nil_inv (fixed scope sch) w \<longleftrightarrow> nil_inv any_schema w
     \<and> (\<forall>sm. map_of (scopedManagers (mgr w)) scope = Some sm \<longrightarrow> sm_addrSchema sm = sch)"
  by (auto simp: nil_inv_def fixed_def)

lemma yields_fixed:
  fixes m :: "(('k, 'pk, 'a, 'n, 's) world, 'x) go"
  assumes "\<And>sch. yields (nil_inv (fixed scope sch)) m Q"
  shows "yields (nil_inv any_schema) m Q"
  unfolding yields_def
proof (intro allI impI)
  fix w :: "('k, 'pk, 'a, 'n, 's) world"
  assume inv: "nil_inv any_schema w"
  define sch where "sch = sm_addrSchema (the (map_of (scopedManagers (mgr w)) scope))"
  have "nil_inv (fixed scope sch) w" using inv by (simp add: nil_inv_fixed sch_def)
  then have "(\<forall>a. fst (m w) = Ok a \<longrightarrow> Q a) \<and> (returned (fst (m w)) \<longrightarrow> nil_inv (fixed scope sch) (snd (m w)))"
    using assms [of sch] by (simp add: yields_def)
  then show "(\<forall>a. fst (m w) = Ok a \<longrightarrow> Q a) \<and> (returned (fst (m w)) \<longrightarrow> nil_inv any_schema (snd (m w)))"
    by (simp add: nil_inv_fixed)
qed

lemma invar_put_acctInfo:
  assumes "nil_account (fixed scope sch) scope ai"
  shows "invar (nil_inv (fixed scope sch)) (put_acctInfo scope n ai)"
  unfolding put_acctInfo_def using assms
  by (intro invar_sm_modify) (auto simp: nil_scope_def update_conv' nil_account_def fixed_def)

lemma yields_new_ext_key:
  assumes "nil_net E"
  shows "yields (nil_inv S) (newManagedAddressFromExtKey E s path key t ai) (\<lambda>a. ma_address a = None \<and> t \<notin> key_types)"
proof -
  have never: "yields (nil_inv S) (newManagedAddress E s path k c t ai) (\<lambda>_. False)" for k c
    unfolding newManagedAddress_def Let_def
    by (intro yields_bnd [OF yields_mgr] Validate_stops assms yields_bnd [where Q = "\<lambda>_. True"] yields_wrap
        invar_intros yields_lift TrueI)
  show ?thesis
    unfolding newManagedAddressFromExtKey_def
    by (intro yields_cases yields_bnd [where Q = "\<lambda>_. True"] yields_bnd [OF yields_net] yields_lift TrueI
        yields_mono [OF never])
      (auto dest: WithoutPrivKey_nil [OF assms])
qed

lemma yields_keyToManaged:
  assumes "nil_net E"
  shows "yields (nil_inv S) (keyToManaged E scope key path ai)
    (\<lambda>_. \<exists>s. S scope (sm_addrSchema s) \<and> accountAddrType s ai (dp_Branch path = InternalBranch) \<notin> key_types)"
  unfolding keyToManaged_def Let_def
  by (intro yields_bnd [OF yields_sm_lookup] yields_bnd [OF yields_new_ext_key [OF assms]])
    (auto intro!: yields_bnd [where Q = "\<lambda>_. True"] invar_alloc invar_intros yields_cases yields_ret simp: nil_address_def)

text \<open>An account is loaded only if the type of its external addresses has no constructor.\<close>

lemma yields_loadAccountInfo_fixed:
  assumes "nil_net E"
  shows "yields (nil_inv (fixed scope sch)) (loadAccountInfo E scope ns acct) (nil_account (fixed scope sch) scope)"
proof -
  have new: "yields (nil_inv (fixed scope sch)) (keyToManaged E scope key
       \<lparr>dp_InternalAccount = i, dp_Account = a, dp_Branch = ExternalBranch, dp_Index = idx, dp_MasterKeyFingerprint = f\<rparr> ai)
      (\<lambda>_. nil_account (fixed scope sch) scope ai)" for key i a idx f ai
    by (rule yields_mono [OF yields_keyToManaged [OF assms]])
      (auto simp: nil_account_def accountAddrType_external fixed_def ExternalBranch_def InternalBranch_def)
  have cached: "nil_account (fixed scope sch) scope ai"
    if "nil_scope s \<and> fixed scope sch scope (sm_addrSchema s)" "map_of (sm_acctInfo s) acct = Some ai" for s ai
    using that by (auto simp: nil_scope_def nil_account_def fixed_def)
  show ?thesis
    unfolding loadAccountInfo_def Let_def
    by (rule yields_bnd [OF yields_sm_lookup], rule yields_cases(2),
        rule yields_bnd [where Q = "\<lambda>_. True"], rule yields_wrap, rule invar_only_db, intro frame_intros,
        rule yields_bnd [OF yields_mgr], rule yields_bnd [where Q = "\<lambda>_. True"], rule yields_lift, rule TrueI,
        rule yields_cases(3), rule yields_bnd [where Q = "\<lambda>_. True"], rule yields_deref, rule TrueI,
        rule yields_bnd [where Q = "\<lambda>_. True"], rule yields_lift, rule TrueI, rule yields_bnd [OF new],
        rule yields_bnd [where Q = "\<lambda>_. True"], rule invar_put_acctInfo)
      (simp_all add: nil_account_def yields_ret cached [unfolded nil_account_def])
qed

lemma invar_loadAccountInfo [invar_intros]:
  "nil_net E \<Longrightarrow> invar (nil_inv any_schema) (loadAccountInfo E scope ns acct)"
  by (rule yields_mono [OF yields_fixed]) (rule yields_mono [OF yields_loadAccountInfo_fixed], auto)

text \<open>The programs whose results matter no more.\<close>

lemma invar_plain [invar_intros]:
  "invar I (ret x)" "invar I (lift r)" "invar I (reads g)" "invar I (deref z)" "invar I (raise e)" "invar I panic" "invar I hang"
  "invar I m \<Longrightarrow> (\<And>a. invar I (f a)) \<Longrightarrow> invar I (bnd m f)"
  "invar I m \<Longrightarrow> invar I (wrap_err h m)" "invar I m \<Longrightarrow> invar I (as_error c m)"
  by (simp_all add: yields_ret yields_lift yields_reads yields_deref yields_stop yields_wrap yields_bnd [where Q = "\<lambda>_. True"])

lemma invar_plain_cases [invar_intros]:
  "invar I m \<Longrightarrow> invar I m' \<Longrightarrow> invar I (if c then m else m')"
  "invar I m \<Longrightarrow> (\<And>x. invar I (g x)) \<Longrightarrow> invar I (case z of None \<Rightarrow> m | Some x \<Rightarrow> g x)"
  "(\<And>x y. invar I (h x y)) \<Longrightarrow> invar I (case q of (x, y) \<Rightarrow> h x y)"
  by (auto split: option.split prod.split)

lemma yields_never: "yields I m (\<lambda>_. False) \<Longrightarrow> yields I (bnd m f) Q"
  by (erule yields_bnd) simp

lemma yields_weaken: "yields I m Q \<Longrightarrow> invar I m"
  by (erule yields_mono) simp

abbreviation no_net :: "('k, 'pk, 'a, 'n, 's) world \<Rightarrow> bool" where
  "no_net \<equiv> nil_inv any_schema"

lemma invar_lookups [invar_intros]:
  "invar no_net (sm_lookup scope)" "invar no_net (load r)" "invar no_net (load_pub r)" "invar no_net (address_of r)"
  by (rule yields_weaken, rule yields_sm_lookup yields_load yields_load_pub yields_address_of)+

lemma invar_db_ops [invar_intros]:
  "invar no_net (fetchAccountByName (dbw E) ns scope name)" "invar no_net (fetchCoinTypeKeys (dbw E) ns scope)"
  "invar no_net (putDefaultAccountInfo (dbw E) ns scope n pub priv ext itn name)"
  "invar no_net (putLastAccount (dbw E) ns scope n)" "invar no_net (fetchLastAccount (dbw E) ns scope)"
  "invar no_net (putCoinTypeKeys (dbw E) ns scope cpub cpriv)" "invar no_net (fetchMasterHDKeys (dbw E) ns)"
  "invar no_net (createScopedManagerNS (dbw E) ns scope)" "invar no_net (nested_rw (dbw E) ns k)"
  "invar no_net (NestedReadWriteBucket (dbw E) ns k)" "invar no_net (Put (dbw E) ns k v)"
  "invar no_net (markAddressUsed C (dbw E) ns scope a)" "invar no_net (fetchAddress C (dbw E) ns scope a)"
  "invar no_net (putChainedAddress C (dbw E) ns now scope a acct st br idx t)"
  "invar no_net (putScriptAddress C (dbw E) ns now scope a acct st h sc)"
  by (intro invar_only_db frame_intros)+

lemma invar_keyToManaged [invar_intros]: "nil_net E \<Longrightarrow> invar no_net (keyToManaged E scope key path ai)"
  by (rule yields_weaken) (rule yields_keyToManaged)

lemma invar_deriveKeyFromPath [invar_intros]: "nil_net E \<Longrightarrow> invar no_net (deriveKeyFromPath E scope ns acct br idx p)"
  unfolding deriveKeyFromPath_def by (intro invar_intros)

lemma invar_DeriveFromKeyPath [invar_intros]: "nil_net E \<Longrightarrow> invar no_net (DeriveFromKeyPath E scope ns kp)"
  unfolding DeriveFromKeyPath_def Let_def by (intro invar_intros)

text \<open>A row of the database: only the public key addresses get as far as an address without a value.\<close>

lemma yields_script_rows:
  assumes "nil_net E"
  shows "yields no_net (scriptAddressRowToManaged E scope r) (\<lambda>_. False)"
    and "yields no_net (witnessScriptAddressRowToManaged E scope r') (\<lambda>_. False)"
  unfolding scriptAddressRowToManaged_def witnessScriptAddressRowToManaged_def
  by (intro yields_bnd [OF yields_mgr] yields_bnd [where Q = "\<lambda>_. True"] invar_intros yields_never yields_lift;
      use assms in \<open>auto simp: newScriptAddress_def newWitnessScriptAddress_def nil_net_def split: if_splits\<close>)+

lemma invar_imported_row: "nil_net E \<Longrightarrow> invar no_net (importedAddressRowToManaged E scope r)"
  unfolding importedAddressRowToManaged_def Let_def
  by (intro yields_bnd [OF yields_sm_lookup] yields_bnd [OF yields_mgr] yields_bnd [where Q = "\<lambda>_. True"] yields_wrap
      yields_lift TrueI yields_bnd [where Q = "\<lambda>a. ma_address a = None"] invar_alloc)
    (auto simp: nil_address_def dest: WithoutPrivKey_nil)

lemma invar_rows [invar_intros]:
  assumes "nil_net E"
  shows "invar no_net (rowInterfaceToManaged E scope ns row)"
proof (cases row)
  case (ChainRow r)
  then show ?thesis
    by (auto simp: rowInterfaceToManaged_def chainAddressRowToManaged_def Let_def intro!: invar_intros assms)
qed (simp_all add: rowInterfaceToManaged_def invar_imported_row yields_weaken [OF yields_script_rows(1)]
    yields_weaken [OF yields_script_rows(2)] assms)

lemma yields_loadAndCacheAddress: "nil_net E \<Longrightarrow> yields no_net (loadAndCacheAddress E scope ns a) (\<lambda>_. False)"
  unfolding loadAndCacheAddress_def
  by (intro yields_bnd [where Q = "\<lambda>_. True"] yields_never yields_address_of invar_intros)

lemma invar_derive_addresses [invar_intros]:
  "nil_net E \<Longrightarrow> invar no_net (derive_addresses E scope acct ai acctKey branchKey br t internal n i nextIndex infos)"
proof (induction n arbitrary: i nextIndex infos)
  case (Suc n)
  show ?case
    unfolding derive_addresses.simps
    by (intro yields_bnd [OF yields_net] yields_bnd [OF yields_new_ext_key [OF Suc.prems]] invar_intros Suc invar_alloc)
      (auto simp: nil_address_def split: option.splits)
qed (simp add: invar_intros)

lemma yields_store_address: "yields no_net (store_address E scope ns now acct info) (\<lambda>_. False)"
  unfolding store_address_def
  by (intro yields_bnd [OF yields_load] yields_never yields_deref) (auto simp: nil_address_def Address_def)

lemma invar_store_first: "invar no_net (case infos of [] \<Rightarrow> ret () | info # _ \<Rightarrow> store_address E scope ns now acct info)"
  by (cases infos) (auto intro: invar_intros yields_weaken [OF yields_store_address])

lemma invar_hook: "invar no_net (modify (\<lambda>w. w\<lparr>hooks := g w\<rparr>))"
  by (rule invar_modify) (simp add: nil_inv_def)

lemma invar_nextAddresses [invar_intros]:
  "nil_net E \<Longrightarrow> invar no_net (nextAddresses E scope ns now acct n internal)"
  unfolding nextAddresses_def Let_def by (intro invar_intros invar_store_first invar_hook)

lemma nil_scope_account:
  "nil_scope sm \<and> fixed scope sch scope (sm_addrSchema sm) \<Longrightarrow> map_of (sm_acctInfo sm) n = Some ai \<Longrightarrow>
     nil_account (fixed scope sch) scope ai"
  by (auto simp: nil_scope_def nil_account_def fixed_def)

lemma nil_account_update [simp]:
  "nil_account S scope (ai\<lparr>ai_acctKeyPriv := k\<rparr>) = nil_account S scope ai"
  "nil_account S scope (ai\<lparr>ai_acctKeyPub := k\<rparr>) = nil_account S scope ai"
  by (simp_all add: nil_account_def)

lemma invar_onCommit [invar_intros]: "invar no_net (onCommit E h)"
proof (cases "ch_addressInfo h")
  case Nil
  then show ?thesis by (simp add: onCommit_def bnd_done) (simp add: bnd_def panic_def yields_def returned_def)
next
  case (Cons info infos)
  have "yields no_net (for_each (onCommit_address E h) (ch_addressInfo h)) (\<lambda>_. False)"
    by (simp add: Cons onCommit_address_def yields_never yields_address_of)
  then show ?thesis unfolding onCommit_def by (rule yields_never)
qed

lemma invar_newAccount [invar_intros]: "invar no_net (newAccount E scope ns acct name)"
  unfolding newAccount_def lookupAccount_def
  by (intro invar_intros) (auto intro!: invar_intros split: sum.split)

lemma invar_countImported [invar_intros]: "invar no_net (countImported E scope ns)"
  by (rule yields_keeps [where f = "\<lambda>w. (mgr w, heap w)"]) (auto simp: keeps_def countImported_def nil_inv_def split: prod.split)

lemma invar_accounts [invar_intros]:
  "invar no_net (NewAccount E scope ns name)" "invar no_net (NewRawAccount E scope ns number)"
  "invar no_net (MarkUsed E scope ns a)"
  unfolding NewAccount_def NewRawAccount_def MarkUsed_def Let_def
  by (intro invar_intros)+

lemma invar_next [invar_intros]:
  "nil_net E \<Longrightarrow> invar no_net (NextExternalAddresses E scope ns now acct n)"
  "nil_net E \<Longrightarrow> invar no_net (NextInternalAddresses E scope ns now acct n)"
  "nil_net E \<Longrightarrow> invar no_net (AccountProperties_of E scope ns acct)"
  unfolding NextExternalAddresses_def NextInternalAddresses_def AccountProperties_of_def Let_def
  by (intro invar_intros; assumption)+

text \<open>No script address exists, and a public key address keeps its missing value.\<close>

lemma invar_managedAddress_unlock [invar_intros]: "invar no_net (managedAddress_unlock E r key)"
  unfolding managedAddress_unlock_def
  by (intro yields_bnd [OF yields_load_pub] invar_intros invar_store) (simp add: nil_address_def)

lemma yields_script_unlock: "yields no_net (script_unlock E r key) (\<lambda>_. False)"
  unfolding script_unlock_def
  by (intro yields_bnd [OF yields_load] yields_never yields_deref) (auto simp: nil_address_def base_of_def)

lemma invar_secrets [invar_intros]:
  "invar no_net (PrivKey E r)" "invar no_net (scriptAddress_Script E r)" "invar no_net (witnessScriptAddress_Script E r)"
  unfolding PrivKey_def scriptAddress_Script_def witnessScriptAddress_Script_def
  by (intro invar_intros yields_weaken [OF yields_script_unlock])+

lemma invar_zero_acctKeyPub [invar_intros]: "invar no_net (zero_acctKeyPub scope acct)"
proof (rule yields_fixed)
  fix sch
  show "invar (nil_inv (fixed scope sch)) (zero_acctKeyPub scope acct)"
    unfolding zero_acctKeyPub_def
    by (intro yields_bnd [OF yields_sm_lookup] yields_bnd [where Q = "nil_account (fixed scope sch) scope"] yields_deref
        yields_bnd [where Q = "\<lambda>_. True"] TrueI invar_put_acctInfo)
      (simp_all add: nil_scope_account)
qed

lemma invar_Close [invar_intros]: "invar no_net (ScopedKeyManager_Close scope)"
  unfolding ScopedKeyManager_Close_def zeroSensitivePublicData_def by (intro invar_intros)

lemma invar_createManagerKeyScope [invar_intros]: "invar no_net (createManagerKeyScope E ns scope root keyPub keyPriv)"
  unfolding createManagerKeyScope_def by (intro invar_intros)

lemma invar_new_scope:
  "invar no_net (modify (\<lambda>w. w\<lparr>mgr := (mgr w)\<lparr>
     scopedManagers := AList.update scope (new_scoped scope sch) (scopedManagers (mgr w)),
     externalAddrSchemas := f w, internalAddrSchemas := g w\<rparr>\<rparr>))"
  by (rule invar_modify) (auto simp: nil_inv_def update_conv' nil_scope_def new_scoped_def)

lemma invar_NewScopedKeyManager [invar_intros]: "invar no_net (NewScopedKeyManager E ns scope sch)"
  unfolding NewScopedKeyManager_def root_private_key_def by (intro invar_intros invar_new_scope)

section \<open>Locking and unlocking\<close>

lemma lock_accounts_scopes:
  "map_of (scopedManagers (lock_accounts m)) scope
     = map_option (\<lambda>sm. sm\<lparr>sm_acctInfo := map (\<lambda>(n, ai). (n, lock_account ai)) (sm_acctInfo sm)\<rparr>) (map_of (scopedManagers m) scope)"
  by (simp add: lock_accounts_def map_of_map)

lemma nil_scope_lock: "nil_scope sm \<Longrightarrow> nil_scope (sm\<lparr>sm_acctInfo := map (\<lambda>(n, ai). (n, lock_account ai)) (sm_acctInfo sm)\<rparr>)"
  by (fastforce simp: nil_scope_def map_of_map lock_account_def)

lemma nil_lock_address: "nil_address a \<Longrightarrow> nil_address (lock_address a)"
  by (auto simp: nil_address_def lock_address_def managedAddress_lock_def)

lemma nil_lock_addresses: "\<forall>m \<in> set h. nil_address m \<Longrightarrow> m \<in> set (lock_addresses rs h) \<Longrightarrow> nil_address m"
proof (induction rs arbitrary: h)
  case (Cons r rs)
  have "\<forall>m \<in> set (if r < length h then h[r := lock_address (h ! r)] else h). nil_address m"
    using Cons.prems(1) by (auto dest!: set_update_subset_insert [THEN subsetD] intro: nil_lock_address)
  with Cons.IH Cons.prems(2) show ?case by (auto simp: lock_addresses_def)
qed (simp add: lock_addresses_def)

lemma nil_inv_locked:
  "nil_inv S w \<Longrightarrow> nil_inv S (w\<lparr>heap := lock_addresses (cached_addresses (mgr w)) (heap w), mgr := locked_manager (mgr w)\<rparr>)"
  by (auto simp: nil_inv_def lock_accounts_scopes nil_scope_lock dest: nil_lock_addresses)

lemma invar_Manager_lock [invar_intros]: "invar (nil_inv S) Manager_lock"
  by (auto simp: yields_def Manager_lock_eq returned_def nil_inv_locked split: option.splits)

lemma invar_catch: "invar I m \<Longrightarrow> (\<And>e. invar I (g e)) \<Longrightarrow> invar I (catch_err m g)"
  by (auto simp: yields_def go_simps returned_def split: res.splits)

lemma invar_or_lock [invar_intros]: "invar (nil_inv S) m \<Longrightarrow> invar (nil_inv S) (or_lock h m)"
  unfolding or_lock_def by (intro invar_catch invar_intros)

lemma invar_mgr_update:
  assumes "\<And>m. chainParams (f m) = chainParams m \<and> scopedManagers (f m) = scopedManagers m"
  shows "invar no_net (modify (\<lambda>w. w\<lparr>mgr := f (mgr w)\<rparr>))"
  by (rule invar_modify) (use assms in \<open>simp add: nil_inv_def\<close>)

lemma invar_zoom_key [invar_intros]:
  "invar no_net (zoom (\<lambda>w. masterKeyPriv (mgr w)) (\<lambda>sk w. w\<lparr>mgr := (mgr w)\<lparr>masterKeyPriv := sk\<rparr>\<rparr>) m)"
  by (auto simp: yields_def zoom_def nil_inv_def split: prod.splits)

lemma invar_unlock_account [invar_intros]: "invar no_net (unlock_account E scope acct)"
proof (rule yields_fixed)
  fix sch
  show "invar (nil_inv (fixed scope sch)) (unlock_account E scope acct)"
    unfolding unlock_account_def
    by (rule yields_bnd [OF yields_sm_lookup], rule yields_bnd [where Q = "nil_account (fixed scope sch) scope"],
        rule yields_deref, erule (1) nil_scope_account)
      (intro invar_intros invar_put_acctInfo, simp)
qed

lemma invar_unlock_derived [invar_intros]: "nil_net E \<Longrightarrow> invar no_net (unlock_derived E ns scope info)"
  unfolding unlock_derived_def Let_def
  by (intro yields_bnd [OF yields_load] invar_intros)
    (auto intro!: invar_intros invar_store simp: nil_address_def split: res.split)

lemma invar_salted_hash [invar_intros]: "invar no_net (salted_hash E passphrase)"
  unfolding salted_hash_def Let_def by (intro invar_intros invar_mgr_update) simp

lemma invar_Unlock [invar_intros]: "nil_net E \<Longrightarrow> invar no_net (Unlock E ns passphrase)"
  unfolding Unlock_def recheck_passphrase_def unlock_keys_def unlock_scope_def finish_unlock_def
  by (intro invar_intros invar_mgr_update) simp_all

lemma invar_Lock [invar_intros]: "invar no_net Lock"
  unfolding Lock_def by (intro invar_intros)

lemma mgr_step_no_net: "mgr_step E w w' \<Longrightarrow> nil_net E \<Longrightarrow> no_net w \<Longrightarrow> no_net w'"
  by (induction rule: mgr_step.induct) (erule invarD [rotated], assumption, assumption, intro invar_intros, assumption?)+

section \<open>An opened manager\<close>

definition scopes_new :: "('k, 's) loading \<Rightarrow> bool" where
  "scopes_new l \<longleftrightarrow> (\<forall>scope sm. map_of (loaded l) scope = Some sm \<longrightarrow> nil_scope sm)"

lemma invar_only_db_loading: "only_db m \<Longrightarrow> invar scopes_new m"
proof (rule yields_keeps [where f = loaded])
  assume only: "only_db m"
  have "loaded (snd (m w)) = loaded w" for w
  proof -
    obtain s where "snd (m w) = w\<lparr>db := s\<rparr>" using only by (auto simp: only_db_def)
    then show ?thesis by simp
  qed
  then show "keeps loaded m" by (simp add: keeps_def)
qed (simp add: scopes_new_def)

lemma invar_ForEach: "(\<And>k v. invar I (fn k v)) \<Longrightarrow> invar I (ForEach (dbw E) p fn)"
  unfolding dbw_def by (auto simp: bucket_ForEach_def intro!: invar_intros)

lemma yields_load_scopes:
  "yields (\<lambda>_. True) (load_scopes E ns) (\<lambda>scoped. \<forall>scope sm. map_of scoped scope = Some sm \<longrightarrow> nil_scope sm)"
proof -
  have "invar scopes_new (load_scope E ns scope)" for scope
    unfolding load_scope_def
    by (intro invar_intros invar_only_db_loading invar_modify)
      (auto simp: fetchScopeAddrSchema_def scopes_new_def update_conv' new_scoped_def nil_scope_def intro!: frame_intros)
  then have inv: "invar scopes_new (forEachKeyScope (dbw E) ns (load_scope E ns))"
    unfolding forEachKeyScope_def nested_r_def
    by (intro invar_intros invar_ForEach invar_only_db_loading [OF only_db_dbw(2)])
  show ?thesis
    unfolding yields_def
  proof (intro allI impI conjI TrueI)
    fix w scoped scope sm
    assume "fst (load_scopes E ns w) = Ok scoped" and sm: "map_of scoped scope = Some sm"
    then obtain l where "forEachKeyScope (dbw E) ns (load_scope E ns) \<lparr>db = db w, rng = rng w, loaded = []\<rparr> = (Ok (), l)"
        "scoped = loaded l"
      by (auto simp: load_scopes_def rbind_eq_Ok split: prod.splits)
    with invarD [OF inv this(1)] sm show "nil_scope sm" by (auto simp: scopes_new_def returned_def)
  qed
qed

lemma yields_Open:
  "yields (\<lambda>_. True) (Open E ns pubPass params)
     (\<lambda>m. chainParams m = None \<and> (\<forall>scope sm. map_of (scopedManagers m) scope = Some sm \<longrightarrow> nil_scope sm))"
proof -
  have any: "invar (\<lambda>_. True) m" for m :: "(('s, 'z) base_scheme, 'x) go" by (simp add: yields_def)
  show ?thesis
    unfolding Open_def loadManager_def Let_def
    by (intro yields_cases yields_stop yields_bnd [OF yields_load_scopes] yields_bnd [where Q = "\<lambda>_. True"] any yields_ret)
      (auto simp: newManager_simps)
qed

lemma Open_no_net:
  assumes "Open E ns pubPass params b = (Ok (mgr w), b')" and "heap w = []"
  shows "no_net w"
proof -
  have "fst (Open E ns pubPass params b) = Ok (mgr w)" using assms(1) by simp
  with yields_Open [of E ns pubPass params] have "chainParams (mgr w) = None
      \<and> (\<forall>scope sm. map_of (scopedManagers (mgr w)) scope = Some sm \<longrightarrow> nil_scope sm)"
    unfolding yields_def by blast
  with assms(2) show ?thesis by (simp add: nil_inv_def)
qed

lemma steps_no_net: "rtranclp (mgr_step E) w0 w \<Longrightarrow> nil_net E \<Longrightarrow> no_net w0 \<Longrightarrow> no_net w"
  by (induction rule: rtranclp_induct) (auto intro: mgr_step_no_net)

section \<open>Properties\<close>

text \<open>C16: a manager that was opened never has an address. \<^verbatim>\<open>newManager\<close> does not store the chain parameters,
  whatever they are, so the constructors of addresses get nil and panic. In every state the manager's operations
  can reach, no scope has an address in its cache, every managed address that was made has a nil address, and the
  lookup of an address finds none. An account is loaded, and a key of it derived into an address by
  \<^verbatim>\<open>DeriveFromKeyPath\<close>, only when its external addresses, by the schema of its own or else by that of the scope,
  are of a type without a constructor; the four default scopes have no such type, so \<^verbatim>\<open>testNewRawAccount\<close> in
  \<^verbatim>\<open>manager_test.go\<close>, which expects an address of an opened manager, cannot pass.\<close>

theorem opened_manager_no_addresses:
  assumes "nil_net E" and "Open E ns0 pubPass params b = (Ok (mgr w0), b')" and "heap w0 = []"
    and "rtranclp (mgr_step E) w0 w"
  shows "chainParams (mgr w) = None \<and> (\<forall>m \<in> set (heap w). Address m = None)
    \<and> (\<forall>scope sm. map_of (scopedManagers (mgr w)) scope = Some sm \<longrightarrow> sm_addrs sm = []
        \<and> (\<forall>ns acct ai. fst (loadAccountInfo E scope ns acct w) = Ok ai \<longrightarrow>
             accountAddrType sm ai False \<notin> {PubKeyHash, NestedWitnessPubKey, WitnessPubKey, TaprootPubKey})
        \<and> (\<forall>ns kp r. fst (DeriveFromKeyPath E scope ns kp w) = Ok r \<longrightarrow>
             (\<exists>ai. fst (loadAccountInfo E scope ns (dp_InternalAccount kp) w) = Ok ai
                \<and> accountAddrType sm ai False \<notin> {PubKeyHash, NestedWitnessPubKey, WitnessPubKey, TaprootPubKey})))
    \<and> (\<forall>scope ns a r. fst (loadAndCacheAddress E scope ns a w) \<noteq> Ok r)"
proof (intro conjI allI impI ballI)
  have inv: "no_net w" using steps_no_net [OF assms(4,1) Open_no_net [OF assms(2,3)]] .
  show "chainParams (mgr w) = None" by (rule nil_invD [OF inv])
  show "Address m = None" if "m \<in> set (heap w)" for m
    using nil_invD(2) [OF inv that] by (auto simp: nil_address_def Address_def)
  show "fst (loadAndCacheAddress E scope ns a w) \<noteq> Ok r" for scope ns a r
    using yields_loadAndCacheAddress [OF assms(1), of scope ns a] inv by (auto simp: yields_def)
  fix scope sm
  assume sm: "map_of (scopedManagers (mgr w)) scope = Some sm"
  show "sm_addrs sm = []" using nil_invD(3) [OF inv sm] by (simp add: nil_scope_def)
  have load: "accountAddrType sm ai False \<notin> {PubKeyHash, NestedWitnessPubKey, WitnessPubKey, TaprootPubKey}"
    if "fst (loadAccountInfo E scope ns acct w) = Ok ai" for ns acct ai
  proof -
    have "nil_inv (fixed scope (sm_addrSchema sm)) w" using inv sm by (simp add: nil_inv_fixed)
    with yields_loadAccountInfo_fixed [OF assms(1), of scope "sm_addrSchema sm" ns acct] that
    have "nil_account (fixed scope (sm_addrSchema sm)) scope ai" by (simp add: yields_def)
    then show ?thesis by (auto simp: nil_account_def fixed_def accountAddrType_external key_types_def)
  qed
  then show "accountAddrType sm ai False \<notin> {PubKeyHash, NestedWitnessPubKey, WitnessPubKey, TaprootPubKey}"
    if "fst (loadAccountInfo E scope ns acct w) = Ok ai" for ns acct ai using that .
  fix ns kp r
  assume "fst (DeriveFromKeyPath E scope ns kp w) = Ok r"
  then obtain ai where "fst (loadAccountInfo E scope ns (dp_InternalAccount kp) w) = Ok ai"
    by (auto simp: DeriveFromKeyPath_def deriveKeyFromPath_def bnd_reads fst_bnd Let_def split: res.splits)
  with load show "\<exists>ai. fst (loadAccountInfo E scope ns (dp_InternalAccount kp) w) = Ok ai
      \<and> accountAddrType sm ai False \<notin> {PubKeyHash, NestedWitnessPubKey, WitnessPubKey, TaprootPubKey}" by blast
qed

text \<open>The schemas of the default scopes.\<close>

lemma default_scopes_key_types:
  "\<forall>(scope, sch) \<in> set ScopeAddrMap. ExternalAddrType sch \<in> {PubKeyHash, NestedWitnessPubKey, WitnessPubKey, TaprootPubKey}"
  by (simp add: ScopeAddrMap_def)

text \<open>The reference library with constructors that read their parameters.\<close>

definition with_net :: "'n option \<Rightarrow> nat result" where
  "with_net net = (case net of None \<Rightarrow> Panic | Some _ \<Rightarrow> Ok 1)"

definition example_net :: "(nat, nat, nat, nat, nat, mem) env" where
  "example_net = example_hd\<lparr>NewAddressPubKeyHash := \<lambda>b. with_net, NewAddressWitnessPubKeyHash := \<lambda>b. with_net,
     NewAddressScriptHash := \<lambda>b. with_net, NewAddressScriptHashFromHash := \<lambda>b. with_net,
     NewAddressWitnessScriptHash := \<lambda>b. with_net, NewAddressTaproot := \<lambda>b. with_net\<rparr>"

lemma example_net_wallet:
  "nil_net example_net" "bolt_contract (env_bolt example_net)" "crypto_contract (env_crypto example_net)"
  "short_keys example_net" "wallet_root example_net 1" "scrypt_works (env_crypto example_net) (options opt) pw"
proof -
  show "wallet_root example_net 1"
    by (auto simp: wallet_root_def usable_root_def deriveCoinTypeKey_def deriveAccountKey_def checkBranchKeys_def
        example_net_def example_hd_def key_limits DefaultKeyScopes_def bip_scopes)
qed (use example_wallet(1-3,5) in \<open>simp_all add: nil_net_def with_net_def example_net_def short_keys_def\<close>)

theorem opened_manager_no_addresses_witness:
  "\<exists>u :: (nat, nat, nat, nat, mem) world. locked (mgr u) \<and> chainParams (mgr (snd (Lock u))) = None
     \<and> (\<forall>m \<in> set (heap (snd (Lock u))). Address m = None)
     \<and> (\<forall>scope ns a r. fst (loadAndCacheAddress example_net scope ns a (snd (Lock u))) \<noteq> Ok r)"
proof -
  let ?create = "Create example_net example_ns (Some 1) [1] [2] None 0 ScopeAddrMap 0 example_base"
  have base: "bolt_Writable (env_bolt example_net) (db example_base)" "live (view (env_bolt example_net) (db example_base)) example_ns"
      "\<forall>k \<in> set mgrBuckets. view (env_bolt example_net) (db example_base) example_ns k = None"
    using example_wallet(10,12,13) by (simp_all add: example_net_def)
  obtain w1 V keyPub keyPriv where run: "?create = (Ok (), w1)"
    and stored: "sees example_net V (0 + 32) w1" "stored_manager example_net V example_ns 1 [1] [2] keyPub keyPriv ScopeAddrMap"
    by (rule Create_stores [OF example_net_wallet(2-6,6) example_wallet(7-9) base(1) example_wallet(11) base(2,3)])
  from Open_stored(1) [OF example_net_wallet(2,3) stored example_wallet(8), of "Some 0 :: nat option"] obtain m b
    where m: "Open example_net (Some example_ns) [1] (Some 0 :: nat option) w1 = (Ok m, b)" "locked m" "\<not> watchingOnly m"
    by (auto simp: gives_def opened_def)
  let ?u = "\<lparr>db = db w1, rng = [], mgr = m, heap = [], hooks = []\<rparr> :: (nat, nat, nat, nat, mem) world"
  have "rtranclp (mgr_step example_net) ?u (snd (Lock ?u))"
    using m(2,3) by (intro r_into_rtranclp mgr_step.Lock [of ?u "Err (managerError ErrLocked None)"])
      (simp_all add: Lock_def bnd_reads raise_def returned_def)
  moreover have "Open example_net (Some example_ns) [1] (Some 0) w1 = (Ok (mgr ?u), b)" "heap ?u = []" using m(1) by simp_all
  ultimately have "chainParams (mgr (snd (Lock ?u))) = None"
      "\<forall>m \<in> set (heap (snd (Lock ?u))). Address m = None"
      "\<forall>scope ns a r. fst (loadAndCacheAddress example_net scope ns a (snd (Lock ?u))) \<noteq> Ok r"
    using opened_manager_no_addresses [OF example_net_wallet(1)] by blast+
  with m(2) show ?thesis by (intro exI [of _ ?u]) simp
qed

end
