(* ===== verification/Transactions.thy ===== *)
theory Transactions
  imports Keys
begin

text \<open>
  The rest of the driver \<^verbatim>\<open>walletdb/bdb\<close> and of the interface \<^verbatim>\<open>walletdb/interface.go\<close>: transactions that the
  caller begins and ends, cursors, sequence numbers, and the two methods that are not implemented. The wallet
  itself uses \<^verbatim>\<open>View\<close> and \<^verbatim>\<open>Update\<close> (Walletdb); here is what a caller gets who does not.
\<close>

section \<open>Explicit transactions\<close>

text \<open>\<^verbatim>\<open>walletdb/bdb/db.go\<close>, \<^verbatim>\<open>tx.go\<close>. The file is the state, the value of \<^verbatim>\<open>Begin\<close> is the transaction.\<close>

definition db_beginTx :: "('d, 's) boltdb \<Rightarrow> bool \<Rightarrow> ('d, 's) go" where
  "db_beginTx T rw = (\<lambda>d. case bolt_Begin T rw d of
      Inl e \<Rightarrow> (Err (convertErr (BoltError e)), d)
    | Inr boltTx \<Rightarrow> (Ok boltTx, d))"

definition db_BeginReadTx :: "('d, 's) boltdb \<Rightarrow> ('d, 's) go" where
  "db_BeginReadTx T = db_beginTx T False"

definition db_BeginReadWriteTx :: "('d, 's) boltdb \<Rightarrow> ('d, 's) go" where
  "db_BeginReadWriteTx T = db_beginTx T True"

definition db_Copy :: "('d, unit) go" where
  "db_Copy = panic"

definition db_PrintStats :: "('d, gostring) go" where
  "db_PrintStats = panic"

definition tx_Commit :: "('d, 's) boltdb \<Rightarrow> 's \<Rightarrow> ('d, unit) go" where
  "tx_Commit T tx = bolt_result () (bolt_Commit T tx)"

definition tx_Rollback :: "('d, 's) boltdb \<Rightarrow> 's \<Rightarrow> ('d, unit) go" where
  "tx_Rollback T tx = bolt_result () (bolt_Rollback T tx)"

text \<open>A function given to \<^verbatim>\<open>OnCommit\<close> is kept by bbolt's transaction; \<open>'h\<close> names the functions.\<close>

definition tx_OnCommit :: "('h \<Rightarrow> 's \<Rightarrow> 's) \<Rightarrow> 'h \<Rightarrow> ('s, unit) go" where
  "tx_OnCommit bolt_OnCommit f = modify (bolt_OnCommit f)"

text \<open>The interfaces \<^verbatim>\<open>DB\<close>, \<^verbatim>\<open>ReadTx\<close> and \<^verbatim>\<open>ReadWriteTx\<close>, and the driver's values of them.\<close>

record ('d, 's) DB =
  BeginReadTx :: "('d, 's) go"
  BeginReadWriteTx :: "('d, 's) go"
  Copy :: "('d, unit) go"
  Close :: "('d, unit) go"
  PrintStats :: "('d, gostring) go"
  View :: "('s, unit) go \<Rightarrow> ('d, unit) go"
  Update :: "('s, unit) go \<Rightarrow> ('d, unit) go"

definition bdb_db :: "('d, 's) boltdb \<Rightarrow> ('d, 's) DB" where
  "bdb_db T =
     \<lparr>BeginReadTx = db_BeginReadTx T, BeginReadWriteTx = db_BeginReadWriteTx T, Copy = db_Copy,
      Close = db_Close T, PrintStats = db_PrintStats, View = db_View T, Update = db_Update T\<rparr>"

definition walletdb_View :: "('d, 's) DB \<Rightarrow> ('s, unit) go \<Rightarrow> ('d, unit) go" where
  "walletdb_View D f = View D f"

record ('d, 's) ReadTx =
  ReadBucket :: "bytes \<Rightarrow> ('s, bkt option) go"
  ForEachBucket :: "(bytes \<Rightarrow> ('s, unit) go) \<Rightarrow> ('s, unit) go"
  Rollback :: "'s \<Rightarrow> ('d, unit) go"

record ('d, 's, 'h) ReadWriteTx = "('d, 's) ReadTx" +
  ReadWriteBucket_of :: "bytes \<Rightarrow> ('s, bkt option) go"
  CreateTopLevelBucket :: "bytes \<Rightarrow> ('s, bkt) go"
  DeleteTopLevelBucket :: "bytes \<Rightarrow> ('s, unit) go"
  Commit :: "'s \<Rightarrow> ('d, unit) go"
  OnCommit :: "'h \<Rightarrow> ('s, unit) go"

definition transaction :: "'s bolt \<Rightarrow> ('d, 's) boltdb \<Rightarrow> ('h \<Rightarrow> 's \<Rightarrow> 's) \<Rightarrow> ('d, 's, 'h) ReadWriteTx" where
  "transaction B T bolt_OnCommit =
     \<lparr>ReadBucket = tx_ReadBucket B, ForEachBucket = tx_ForEachBucket B, Rollback = tx_Rollback T,
      ReadWriteBucket_of = tx_ReadWriteBucket B, CreateTopLevelBucket = tx_CreateTopLevelBucket B,
      DeleteTopLevelBucket = tx_DeleteTopLevelBucket B, Commit = tx_Commit T, OnCommit = tx_OnCommit bolt_OnCommit\<rparr>"

section \<open>Cursors and sequence numbers\<close>

text \<open>
  \<^verbatim>\<open>walletdb/bdb/bucket.go\<close>. The driver hands out bbolt's own cursor, so the interface \<^verbatim>\<open>ReadWriteCursor\<close> is bbolt's
  type: a cursor value \<open>'c\<close> and its methods on a transaction. A nil key is \<open>None\<close>.
\<close>

type_synonym item = "(bytes \<times> bytes option) option"

record ('s, 'c) ReadWriteCursor =
  bolt_Cursor :: "'s \<Rightarrow> bkt \<Rightarrow> 'c"
  cur_First :: "'s \<Rightarrow> 'c \<Rightarrow> item \<times> 'c"
  cur_Last :: "'s \<Rightarrow> 'c \<Rightarrow> item \<times> 'c"
  cur_Next :: "'s \<Rightarrow> 'c \<Rightarrow> item \<times> 'c"
  cur_Prev :: "'s \<Rightarrow> 'c \<Rightarrow> item \<times> 'c"
  cur_Seek :: "bytes \<Rightarrow> 's \<Rightarrow> 'c \<Rightarrow> item \<times> 'c"
  cur_Delete :: "'c \<Rightarrow> 's \<Rightarrow> bolt_error option \<times> 's"

record 's bolt_seq =
  bolt_NextSequence :: "bkt \<Rightarrow> 's \<Rightarrow> (bolt_error + u64) \<times> 's"
  bolt_SetSequence :: "bkt \<Rightarrow> u64 \<Rightarrow> 's \<Rightarrow> bolt_error option \<times> 's"
  bolt_Sequence :: "'s \<Rightarrow> bkt \<Rightarrow> u64"

definition bucket_Name :: "bkt \<Rightarrow> bytes" where
  "bucket_Name b = last b"

definition bucket_ReadWriteCursor :: "('s, 'c) ReadWriteCursor \<Rightarrow> bkt \<Rightarrow> ('s, 'c) go" where
  "bucket_ReadWriteCursor K b = reads (\<lambda>s. bolt_Cursor K s b)"

definition bucket_ReadCursor :: "('s, 'c) ReadWriteCursor \<Rightarrow> bkt \<Rightarrow> ('s, 'c) go" where
  "bucket_ReadCursor K b = bucket_ReadWriteCursor K b"

text \<open>The errors of these methods are bbolt's: \<^verbatim>\<open>convertErr\<close> is not called.\<close>

definition cursor_Delete :: "('s, 'c) ReadWriteCursor \<Rightarrow> 'c \<Rightarrow> ('s, unit) go" where
  "cursor_Delete K c = (\<lambda>s. case cur_Delete K c s of
      (None, s') \<Rightarrow> (Ok (), s')
    | (Some e, s') \<Rightarrow> (Err (BoltError e), s'))"

definition bucket_NextSequence :: "'s bolt_seq \<Rightarrow> bkt \<Rightarrow> ('s, u64) go" where
  "bucket_NextSequence Q b = (\<lambda>s. case bolt_NextSequence Q b s of
      (Inr n, s') \<Rightarrow> (Ok n, s')
    | (Inl e, s') \<Rightarrow> (Err (BoltError e), s'))"

definition bucket_SetSequence :: "'s bolt_seq \<Rightarrow> bkt \<Rightarrow> u64 \<Rightarrow> ('s, unit) go" where
  "bucket_SetSequence Q b v = (\<lambda>s. case bolt_SetSequence Q b v s of
      (None, s') \<Rightarrow> (Ok (), s')
    | (Some e, s') \<Rightarrow> (Err (BoltError e), s'))"

definition bucket_Sequence :: "'s bolt_seq \<Rightarrow> bkt \<Rightarrow> ('s, u64) go" where
  "bucket_Sequence Q b = reads (\<lambda>s. bolt_Sequence Q s b)"

section \<open>What bbolt documents of them\<close>

text \<open>The items of a bucket are those of \<^verbatim>\<open>ForEach\<close>; a cursor stands on one of them or past the last.\<close>

definition item_at :: "(bytes \<times> bytes option) list \<Rightarrow> nat \<Rightarrow> item" where
  "item_at kvs i = (if i < length kvs then Some (kvs ! i) else None)"

locale bolt_cursors = bolt_contract B
  for B :: "'s bolt" +
  fixes K :: "('s, 'c) ReadWriteCursor" and over :: "'c \<Rightarrow> bkt" and pos :: "'c \<Rightarrow> nat"
  assumes cursor_of: "over (bolt_Cursor K s b) = b"
    and first_item: "cur_First K s c = (x, c') \<Longrightarrow> x = item_at (bolt_ForEach B s (over c)) 0 \<and> over c' = over c \<and> pos c' = 0"
    and next_item: "cur_Next K s c = (x, c') \<Longrightarrow> pos c < length (bolt_ForEach B s (over c)) \<Longrightarrow>
      x = item_at (bolt_ForEach B s (over c)) (pos c + 1) \<and> over c' = over c \<and> pos c' = pos c + 1"
    and cursor_readonly: "\<not> bolt_Writable B s \<Longrightarrow> cur_Delete K c s = (Some BoltTxNotWritable, s)"

locale bolt_sequences = bolt_contract B
  for B :: "'s bolt" +
  fixes Q :: "'s bolt_seq"
  assumes next_readonly: "\<not> bolt_Writable B s \<Longrightarrow> bolt_NextSequence Q b s = (Inl BoltTxNotWritable, s)"
    and set_readonly: "\<not> bolt_Writable B s \<Longrightarrow> bolt_SetSequence Q b v s = (Some BoltTxNotWritable, s)"
    and next_ok: "bolt_Writable B s \<Longrightarrow> bolt_NextSequence Q b s = (x, s') \<Longrightarrow>
      x = Inr (bolt_Sequence Q s b + 1) \<and> bolt_Sequence Q s' = (bolt_Sequence Q s)(b := bolt_Sequence Q s b + 1)
      \<and> view B s' = view B s \<and> bolt_Writable B s'"
    and set_ok: "bolt_Writable B s \<Longrightarrow> bolt_SetSequence Q b v s = (y, s') \<Longrightarrow>
      y = None \<and> bolt_Sequence Q s' = (bolt_Sequence Q s)(b := v) \<and> view B s' = view B s \<and> bolt_Writable B s'"

text \<open>A loop over a cursor, as a caller writes it: \<^verbatim>\<open>for k, v := c.First(); k != nil; k, v = c.Next()\<close>.\<close>

fun walk :: "('s, 'c) ReadWriteCursor \<Rightarrow> 's \<Rightarrow> nat \<Rightarrow> item \<times> 'c \<Rightarrow> (bytes \<times> bytes option) list option" where
  "walk K s 0 _ = None"
| "walk K s (Suc n) (x, c) = (case x of None \<Rightarrow> Some [] | Some kv \<Rightarrow> map_option ((#) kv) (walk K s n (cur_Next K s c)))"

context bolt_cursors
begin

lemma walk_from:
  assumes "pos c = i" and "over c = b" and "length (bolt_ForEach B s b) - i < n"
  shows "walk K s n (item_at (bolt_ForEach B s b) i, c) = Some (drop i (bolt_ForEach B s b))"
  using assms
proof (induction n arbitrary: i c)
  case (Suc n)
  show ?case
  proof (cases "i < length (bolt_ForEach B s b)")
    case True
    obtain x c' where step: "cur_Next K s c = (x, c')" by force
    with next_item [OF step] Suc.prems True have "x = item_at (bolt_ForEach B s b) (i + 1)" "over c' = b" "pos c' = i + 1"
      by simp_all
    with Suc.IH [of c' "i + 1"] Suc.prems True step show ?thesis by (simp add: item_at_def Cons_nth_drop_Suc)
  qed (simp add: item_at_def)
qed simp

lemma walk_visits_all:
  assumes "length (bolt_ForEach B s b) < n"
  shows "walk K s n (cur_First K s (bolt_Cursor K s b)) = Some (bolt_ForEach B s b)"
proof -
  obtain x c where first: "cur_First K s (bolt_Cursor K s b) = (x, c)" by force
  with first_item [OF first] walk_from [of c 0 b s n] assms show ?thesis by (simp add: cursor_of)
qed

end

section \<open>A reference for both\<close>

record seq_store = "mem base" +
  seqs :: "bkt \<Rightarrow> u64"

definition refQ :: "seq_store bolt_seq" where
  "refQ =
     \<lparr>bolt_NextSequence = (\<lambda>b s. if \<not> fst (db s) then (Inl BoltTxNotWritable, s)
        else (Inr (seqs s b + 1), s\<lparr>seqs := (seqs s)(b := seqs s b + 1)\<rparr>)),
      bolt_SetSequence = (\<lambda>b v s. if \<not> fst (db s) then (Some BoltTxNotWritable, s)
        else (None, s\<lparr>seqs := (seqs s)(b := v)\<rparr>)),
      bolt_Sequence = seqs\<rparr>"

definition index_cursor :: "'s bolt \<Rightarrow> ('s, bkt \<times> nat) ReadWriteCursor" where
  "index_cursor B =
     \<lparr>bolt_Cursor = (\<lambda>s b. (b, 0)),
      cur_First = (\<lambda>s (b, i). (item_at (bolt_ForEach B s b) 0, (b, 0))),
      cur_Last = (\<lambda>s (b, i). let n = length (bolt_ForEach B s b) in (item_at (bolt_ForEach B s b) (n - 1), (b, n - 1))),
      cur_Next = (\<lambda>s (b, i). (item_at (bolt_ForEach B s b) (i + 1), (b, i + 1))),
      cur_Prev = (\<lambda>s (b, i). if i = 0 then (None, (b, 0)) else (item_at (bolt_ForEach B s b) (i - 1), (b, i - 1))),
      cur_Seek = (\<lambda>k s (b, i). let i = length (takeWhile (\<lambda>(j, _). j < k) (bolt_ForEach B s b))
        in (item_at (bolt_ForEach B s b) i, (b, i))),
      cur_Delete = (\<lambda>(b, i) s. if \<not> bolt_Writable B s then (Some BoltTxNotWritable, s)
        else case item_at (bolt_ForEach B s b) i of None \<Rightarrow> (None, s) | Some (k, _) \<Rightarrow> bolt_Delete B b k s)\<rparr>"

lemma index_cursors: "bolt_contract B \<Longrightarrow> bolt_cursors B (index_cursor B) fst snd"
  by (intro bolt_cursors.intro bolt_cursors_axioms.intro) (auto simp: index_cursor_def)

interpretation ref_cursors: bolt_cursors "world_bolt memB :: seq_store bolt" "index_cursor (world_bolt memB)" fst snd
  by (rule index_cursors [OF bolt_contract_world [OF mem.bolt_contract_axioms]])

interpretation ref_sequences: bolt_sequences "world_bolt memB :: seq_store bolt" refQ
  by (intro bolt_sequences.intro bolt_sequences_axioms.intro bolt_contract_world [OF mem.bolt_contract_axioms])
    (auto simp: refQ_def)

section \<open>Transactions by hand\<close>

text \<open>A caller that begins a transaction, commits it when its work succeeded and rolls it back when not.\<close>

definition by_hand :: "('d, 's) DB \<Rightarrow> ('d, 's, 'h) ReadWriteTx \<Rightarrow> ('s, unit) go \<Rightarrow> ('d, unit) go" where
  "by_hand D X f = bnd (BeginReadWriteTx D) (\<lambda>tx. case f tx of
      (Ok _, tx') \<Rightarrow> Commit X tx'
    | (Err e, tx') \<Rightarrow> bnd (attempt (Rollback X tx')) (\<lambda>_. raise e)
    | (Panic, _) \<Rightarrow> panic
    | (Hang, _) \<Rightarrow> hang)"

text \<open>What a database promises of explicit transactions: the value begun sees the file, a commit that succeeds
  stores it, and nothing else changes the file.\<close>

locale walletdb_tx =
  fixes D :: "('d, 's) DB" and X :: "('d, 's, 'h) ReadWriteTx" and vw :: "'s \<Rightarrow> view" and stored :: "'d \<Rightarrow> view"
  assumes begins: "BeginReadWriteTx D d = (r, d') \<Longrightarrow> d' = d \<and> (\<forall>tx. r = Ok tx \<longrightarrow> vw tx = stored d)"
    and commits: "Commit X tx d = (q, d') \<Longrightarrow> stored d' = (if is_Ok q then vw tx else stored d)"
    and rolls_back: "Rollback X tx d = (q, d') \<Longrightarrow> stored d' = stored d"
begin

lemma by_hand_not_Ok:
  assumes "\<not> is_Ok (fst (by_hand D X f d))"
  shows "stored (snd (by_hand D X f d)) = stored d"
proof -
  obtain r d1 where b: "BeginReadWriteTx D d = (r, d1)" by force
  note begun = begins [OF b]
  show ?thesis
  proof (cases r)
    case (Ok tx)
    obtain q tx' where f: "f tx = (q, tx')" by force
    obtain q1 d2 q2 d3 where ends: "Commit X tx' d1 = (q1, d2)" "Rollback X tx' d1 = (q2, d3)" by force
    show ?thesis
      using assms b Ok f ends begun commits [OF ends(1)] rolls_back [OF ends(2)]
      by (cases q) (auto simp: by_hand_def bnd_def attempt_def panic_def hang_def raise_def split: res.splits)
  qed (use b begun in \<open>simp_all add: by_hand_def bnd_def\<close>)
qed

lemma by_hand_Ok:
  assumes "by_hand D X f d = (Ok (), d')"
  shows "\<exists>tx tx'. vw tx = stored d \<and> f tx = (Ok (), tx') \<and> stored d' = vw tx'"
proof -
  obtain r d1 where b: "BeginReadWriteTx D d = (r, d1)" by force
  with assms obtain tx where tx: "r = Ok tx" by (cases r) (auto simp: by_hand_def bnd_def)
  obtain q tx' where f: "f tx = (q, tx')" by force
  from assms b tx f have "q = Ok ()" "Commit X tx' d1 = (Ok (), d')"
    by (cases q; auto simp: by_hand_def bnd_def attempt_def panic_def hang_def raise_def split: prod.splits res.splits)+
  with b tx f begins [OF b] commits show ?thesis by auto
qed

end

lemma bdb_tx:
  fixes B :: "'s bolt" and T :: "('d, 's) boltdb" and oc :: "'h \<Rightarrow> 's \<Rightarrow> 's"
  assumes "boltdb_contract B T stored"
  shows "walletdb_tx (bdb_db T) (transaction B T oc) (view B) stored"
proof
  fix d d' tx and r :: "'s result" and q :: "unit result"
  show "d' = d \<and> (\<forall>tx. r = Ok tx \<longrightarrow> view B tx = stored d)" if "BeginReadWriteTx (bdb_db T) d = (r, d')"
    using that boltdb_contract.begin_view [OF assms]
    by (auto simp: bdb_db_def db_BeginReadWriteTx_def db_beginTx_def split: sum.splits)
  show "stored d' = (if is_Ok q then view B tx else stored d)" if "Commit (transaction B T oc) tx d = (q, d')"
    using that boltdb_contract.commit_ok [OF assms, of tx d] boltdb_contract.commit_fails [OF assms, of tx d]
    by (cases "bolt_Commit T tx d") (auto simp: transaction_def tx_Commit_def bolt_result_def split: option.splits)
  show "stored d' = stored d" if "Rollback (transaction B T oc) tx d = (q, d')"
    using that boltdb_contract.rollback_view [OF assms, of tx d]
    by (cases "bolt_Rollback T tx d") (auto simp: transaction_def tx_Rollback_def bolt_result_def split: option.splits)
qed

interpretation mem_tx: walletdb_tx "bdb_db memT" "transaction memB memT (\<lambda>(h :: nat) s. s)" "view memB" mem_stored
  by (rule bdb_tx [OF memdb.boltdb_contract_axioms])

section \<open>Properties\<close>

text \<open>C35: a transaction that is begun, and then committed when the work succeeded and rolled back when it
  failed, has the result \<^verbatim>\<open>Update\<close> has for the same work and leaves the same contents in the file: the second,
  deferred rollback of \<^verbatim>\<open>Update\<close> makes no difference. Both are all or nothing.\<close>

theorem explicit_tx_is_update:
  assumes "boltdb_contract B T stored"
  shows "fst (by_hand (bdb_db T) (transaction B T oc) f d) = fst (Update (bdb_db T) f d)
    \<and> stored (snd (by_hand (bdb_db T) (transaction B T oc) f d)) = stored (snd (Update (bdb_db T) f d))
    \<and> (\<not> is_Ok (fst (Update (bdb_db T) f d)) \<longrightarrow> stored (snd (by_hand (bdb_db T) (transaction B T oc) f d)) = stored d)"
proof -
  let ?hand = "by_hand (bdb_db T) (transaction B T oc) f d"
  have same: "fst ?hand = fst (Update (bdb_db T) f d)"
    by (auto simp: by_hand_def bdb_db_def transaction_def db_BeginReadWriteTx_def db_beginTx_def db_Update_def bnd_def
        tx_Commit_def tx_Rollback_def bolt_result_def attempt_def raise_def panic_def hang_def
        split: sum.split prod.split res.split option.split)
  have "stored (snd ?hand) = stored (snd (Update (bdb_db T) f d))"
  proof (cases "is_Ok (fst ?hand)")
    case False
    with same walletdb_tx.by_hand_not_Ok [OF bdb_tx [OF assms], of oc f d] boltdb_contract.Update_not_Ok [OF assms, of f d]
    show ?thesis by (simp add: bdb_db_def)
  next
    case True
    then have ok: "?hand = (Ok (), snd ?hand)" "db_Update T f d = (Ok (), snd (db_Update T f d))"
      using same by (auto simp: is_Ok_iff prod_eq_iff bdb_db_def)
    obtain tx where tx: "bolt_Begin T True d = Inr tx"
      using ok(2) by (cases "bolt_Begin T True d") (auto simp: db_Update_def)
    obtain q tx' where f: "f tx = (q, tx')" by force
    obtain c d1 where c: "bolt_Commit T tx' d = (c, d1)" by force
    from ok tx f c have "snd ?hand = d1" "snd (db_Update T f d) = snd (bolt_Rollback T tx' d1)"
      by (cases q; cases c; simp add: by_hand_def bdb_db_def transaction_def db_BeginReadWriteTx_def db_beginTx_def db_Update_def
          bnd_def tx_Commit_def tx_Rollback_def bolt_result_def attempt_def raise_def panic_def hang_def db_rollback_def
          split: prod.splits res.splits option.splits)+
    then have "stored (snd ?hand) = stored (snd (db_Update T f d))"
      using boltdb_contract.rollback_view [OF assms] by simp
    then show ?thesis by (simp add: bdb_db_def)
  qed
  with same walletdb_tx.by_hand_not_Ok [OF bdb_tx [OF assms], of oc f d] show ?thesis by simp
qed

definition example_tx :: "(mem, unit) go" where
  "example_tx = bnd (tx_CreateTopLevelBucket memB [1]) (\<lambda>b. bnd (bucket_CreateBucket memB b [2]) (\<lambda>_. ret ()))"

theorem explicit_tx_is_update_witness:
  "fst (by_hand (bdb_db memT) (transaction memB memT (\<lambda>(h :: nat) s. s)) example_tx (Some [])) = Ok ()
   \<and> mem_stored (snd (by_hand (bdb_db memT) (transaction memB memT (\<lambda>(h :: nat) s. s)) example_tx (Some []))) [[1]] [2] = Some Sub"
proof -
  have "db_Update memT example_tx (Some []) = (Ok (), Some [(([[1]], [2]), Sub), (([], [1]), Sub)])" by code_simp
  then have "fst (db_Update memT example_tx (Some [])) = Ok ()"
      "mem_stored (snd (db_Update memT example_tx (Some []))) [[1]] [2] = Some Sub"
    by (simp_all add: mem_stored_def mem_view_def mem_live_def)
  then show ?thesis
    using explicit_tx_is_update [OF memdb.boltdb_contract_axioms, of "\<lambda>(h :: nat) s. s" example_tx "Some []"]
    by (simp add: bdb_db_def)
qed

text \<open>Writing on a transaction that only reads. The operations of a bucket report it as \<^verbatim>\<open>ErrTxNotWritable\<close> of
  \<^verbatim>\<open>walletdb\<close>; those on sequence numbers and cursors report the error of bbolt, which no caller of the
  interface can compare with. Nothing is changed by any of them.\<close>

lemma readonly_errors:
  assumes "bolt_cursors B K over pos" and "bolt_sequences B Q" and "\<not> bolt_Writable B s"
  shows "bucket_Put B b k v s = (Err (WalletdbError ErrTxNotWritable), s)
    \<and> bucket_CreateBucket B b k s = (Err (WalletdbError ErrTxNotWritable), s)
    \<and> tx_CreateTopLevelBucket B k s = (Err (WalletdbError ErrTxNotWritable), s)
    \<and> bucket_NextSequence Q b s = (Err (BoltError BoltTxNotWritable), s)
    \<and> bucket_SetSequence Q b n s = (Err (BoltError BoltTxNotWritable), s)
    \<and> cursor_Delete K c s = (Err (BoltError BoltTxNotWritable), s)"
proof -
  have B: "bolt_contract B" using assms(2) by (rule bolt_sequences.axioms)
  show ?thesis
    using bolt_contract.put_readonly [OF B assms(3)] bolt_contract.create_readonly [OF B assms(3)] assms(3)
      bolt_contract.create_ine [OF B, of "[]" k s]
      bolt_sequences.next_readonly [OF assms(2,3)] bolt_sequences.set_readonly [OF assms(2,3)]
      bolt_cursors.cursor_readonly [OF assms(1,3)]
    by (simp add: bucket_Put_def bucket_CreateBucket_def tx_CreateTopLevelBucket_def bucket_NextSequence_def
        bucket_SetSequence_def cursor_Delete_def bolt_result_def)
qed

definition example_readonly :: seq_store where
  "example_readonly = \<lparr>db = (False, []), rng = [], seqs = (\<lambda>_. 0)\<rparr>"

lemma readonly_errors_example:
  "bucket_NextSequence refQ [[1]] example_readonly = (Err (BoltError BoltTxNotWritable), example_readonly)"
  using readonly_errors [OF ref_cursors.bolt_cursors_axioms ref_sequences.bolt_sequences_axioms, of example_readonly]
  by (simp add: example_readonly_def)

text \<open>Sequence numbers count up by one from what was set, and after the last \<^verbatim>\<open>uint64\<close> start again at 0.\<close>

lemma sequence_counts:
  assumes "bolt_sequences B Q" and "bolt_Writable B s"
  shows "fst (bnd (bucket_SetSequence Q b n) (\<lambda>_. bucket_NextSequence Q b) s) = Ok (n + 1)
    \<and> fst (bnd (bucket_SetSequence Q b (-1)) (\<lambda>_. bucket_NextSequence Q b) s) = Ok 0"
proof -
  have "fst (bnd (bucket_SetSequence Q b m) (\<lambda>_. bucket_NextSequence Q b) s) = Ok (m + 1)" for m
  proof -
    obtain y s1 where set: "bolt_SetSequence Q b m s = (y, s1)" by force
    obtain x s2 where nx: "bolt_NextSequence Q b s1 = (x, s2)" by force
    note set_ok = bolt_sequences.set_ok [OF assms set]
    with bolt_sequences.next_ok [OF assms(1) _ nx] set nx show ?thesis
      by (auto simp: bnd_def bucket_SetSequence_def bucket_NextSequence_def)
  qed
  from this [of n] this [of "-1"] show ?thesis by simp
qed

end
