(* ===== verification/Accessors.thy ===== *)
theory Accessors
  imports Manager
begin

text \<open>
  The one-line methods of \<^verbatim>\<open>waddrmgr\<close>, one definition per method: the accessors of the script addresses
  (\<^verbatim>\<open>address_script.go\<close>, \<^verbatim>\<open>address_witness.go\<close>), what Go's embedding makes of them, the accessors of the scoped
  manager, the interface of the crypto keys; and the declarations that nothing in the program uses
  (\<^verbatim>\<open>sync.go\<close>, \<^verbatim>\<open>tapscript.go\<close>, \<^verbatim>\<open>walletdb/migration\<close>).
\<close>

section \<open>Script addresses\<close>

text \<open>\<^verbatim>\<open>baseScriptAddress\<close> is embedded in the other types, which get its methods.\<close>

definition baseScript_InternalAccount :: "baseScriptAddress \<Rightarrow> u32" where
  "baseScript_InternalAccount a = bs_account a"

definition baseScript_Imported :: "baseScriptAddress \<Rightarrow> bool" where
  "baseScript_Imported a = True"

definition baseScript_Internal :: "baseScriptAddress \<Rightarrow> bool" where
  "baseScript_Internal a = False"

text \<open>\<^verbatim>\<open>ScopedKeyManager\<close>: the scope identifies the manager.\<close>

definition ScopedKeyManager_AddrSchema :: "'k ScopedKeyManager \<Rightarrow> ScopeAddrSchema" where
  "ScopedKeyManager_AddrSchema s = sm_addrSchema s"

definition ScopedKeyManager_Scope :: "'k ScopedKeyManager \<Rightarrow> KeyScope" where
  "ScopedKeyManager_Scope s = sm_scope s"

definition fetchUsed ::
  "('k, 'sk, 'pk, 'a, 'n, 's) env \<Rightarrow> KeyScope \<Rightarrow> bkt \<Rightarrow> bytes \<Rightarrow> (('s, 'z) base_scheme, bool) go" where
  "fetchUsed E s ns addressID = fetchAddressUsed (env_crypto E) (dbw E) ns s addressID"

text \<open>\<^verbatim>\<open>cachedKey\<close>, the entry of the cache that is never filled.\<close>

definition cachedKey_Size :: "'sk \<Rightarrow> u64 result" where
  "cachedKey_Size c = Ok 1"

definition scriptAddress_AddrType :: "'a scriptAddress \<Rightarrow> AddressType" where
  "scriptAddress_AddrType a = Script"

definition scriptAddress_Address :: "'a scriptAddress \<Rightarrow> 'a btcAddress" where
  "scriptAddress_Address a = AddressScriptHash (sa_address a)"

definition scriptAddress_AddrHash :: "('k, 'sk, 'pk, 'a, 'n, 's) env \<Rightarrow> 'a scriptAddress \<Rightarrow> bytes" where
  "scriptAddress_AddrHash E a = addr_Hash160 E (sa_address a)"

definition scriptAddress_Compressed :: "'a scriptAddress \<Rightarrow> bool" where
  "scriptAddress_Compressed a = False"

definition scriptAddress_Used ::
  "('k, 'sk, 'pk, 'a, 'n, 's) env \<Rightarrow> 'a scriptAddress \<Rightarrow> bkt \<Rightarrow> (('s, 'z) base_scheme, bool) go" where
  "scriptAddress_Used E a ns = fetchUsed E (bs_manager (sa_base a)) ns (scriptAddress_AddrHash E a)"

definition witnessScript_AddrType :: "'a witnessScriptAddress \<Rightarrow> AddressType" where
  "witnessScript_AddrType a = WitnessScript"

definition witnessScript_Address :: "'a witnessScriptAddress \<Rightarrow> 'a btcAddress" where
  "witnessScript_Address a = wa_address a"

definition witnessScript_AddrHash :: "('k, 'sk, 'pk, 'a, 'n, 's) env \<Rightarrow> 'a witnessScriptAddress \<Rightarrow> bytes" where
  "witnessScript_AddrHash E a = addr_ScriptAddress E (wa_address a)"

definition witnessScript_Compressed :: "'a witnessScriptAddress \<Rightarrow> bool" where
  "witnessScript_Compressed a = True"

definition witnessScript_Used ::
  "('k, 'sk, 'pk, 'a, 'n, 's) env \<Rightarrow> 'a witnessScriptAddress \<Rightarrow> bkt \<Rightarrow> (('s, 'z) base_scheme, bool) go" where
  "witnessScript_Used E a ns = fetchUsed E (bs_manager (wa_base a)) ns (witnessScript_AddrHash E a)"

definition taprootScript_AddrType :: "('pk, 'a) taprootScriptAddress \<Rightarrow> AddressType" where
  "taprootScript_AddrType a = TaprootScript"

definition taprootScript_Address :: "('pk, 'a) taprootScriptAddress \<Rightarrow> 'a btcAddress" where
  "taprootScript_Address a = wa_address (ta_witness a)"

definition taprootScript_AddrHash :: "('k, 'sk, 'pk, 'a, 'n, 's) env \<Rightarrow> ('pk, 'a) taprootScriptAddress \<Rightarrow> bytes" where
  "taprootScript_AddrHash E a = schnorr_SerializePubKey E (ta_TweakedPubKey a)"

text \<open>
  A value of the interface \<^verbatim>\<open>ManagedAddress\<close>: its method table. The taproot script address overrides three methods
  of the witness script address embedded in it; the promoted \<^verbatim>\<open>Used\<close> keeps calling the \<^verbatim>\<open>AddrHash\<close> of the latter.
\<close>

record ('s, 'a) method_table =
  mt_InternalAccount :: u32
  mt_Address :: "'a btcAddress option"
  mt_AddrHash :: bytes
  mt_Imported :: bool
  mt_Internal :: bool
  mt_Compressed :: bool
  mt_Used :: "bkt \<Rightarrow> ('s, bool) go"
  mt_AddrType :: AddressType

definition managedAddress_table ::
  "('k, 'sk, 'pk, 'a, 'n, 's) env \<Rightarrow> ('pk, 'a) managedAddress \<Rightarrow> (('s, 'z) base_scheme, 'a) method_table" where
  "managedAddress_table E a =
     \<lparr>mt_InternalAccount = dp_InternalAccount (ma_derivationPath a), mt_Address = ma_address a,
      mt_AddrHash = managedAddress_AddrHash E a, mt_Imported = ma_imported a, mt_Internal = ma_internal a,
      mt_Compressed = ma_compressed a, mt_Used = (\<lambda>ns. fetchUsed E (ma_manager a) ns (managedAddress_AddrHash E a)),
      mt_AddrType = ma_addrType a\<rparr>"

definition scriptAddress_table ::
  "('k, 'sk, 'pk, 'a, 'n, 's) env \<Rightarrow> 'a scriptAddress \<Rightarrow> (('s, 'z) base_scheme, 'a) method_table" where
  "scriptAddress_table E a =
     \<lparr>mt_InternalAccount = baseScript_InternalAccount (sa_base a), mt_Address = Some (scriptAddress_Address a),
      mt_AddrHash = scriptAddress_AddrHash E a, mt_Imported = baseScript_Imported (sa_base a),
      mt_Internal = baseScript_Internal (sa_base a), mt_Compressed = scriptAddress_Compressed a,
      mt_Used = scriptAddress_Used E a, mt_AddrType = scriptAddress_AddrType a\<rparr>"

definition witnessScript_table ::
  "('k, 'sk, 'pk, 'a, 'n, 's) env \<Rightarrow> 'a witnessScriptAddress \<Rightarrow> (('s, 'z) base_scheme, 'a) method_table" where
  "witnessScript_table E a =
     \<lparr>mt_InternalAccount = baseScript_InternalAccount (wa_base a), mt_Address = Some (witnessScript_Address a),
      mt_AddrHash = witnessScript_AddrHash E a, mt_Imported = baseScript_Imported (wa_base a),
      mt_Internal = baseScript_Internal (wa_base a), mt_Compressed = witnessScript_Compressed a,
      mt_Used = witnessScript_Used E a, mt_AddrType = witnessScript_AddrType a\<rparr>"

definition taprootScript_table ::
  "('k, 'sk, 'pk, 'a, 'n, 's) env \<Rightarrow> ('pk, 'a) taprootScriptAddress \<Rightarrow> (('s, 'z) base_scheme, 'a) method_table" where
  "taprootScript_table E a = (witnessScript_table E (ta_witness a))
     \<lparr>mt_Address := Some (taprootScript_Address a), mt_AddrHash := taprootScript_AddrHash E a,
      mt_AddrType := taprootScript_AddrType a\<rparr>"

definition methods ::
  "('k, 'sk, 'pk, 'a, 'n, 's) env \<Rightarrow> ('pk, 'a) ManagedAddress \<Rightarrow> (('s, 'z) base_scheme, 'a) method_table" where
  "methods E m = (case m of
      PubKeyAddr a \<Rightarrow> managedAddress_table E a
    | ScriptAddr a \<Rightarrow> scriptAddress_table E a
    | WitnessAddr a \<Rightarrow> witnessScript_table E a
    | TaprootAddr a \<Rightarrow> taprootScript_table E a)"

lemmas method_defs = methods_def managedAddress_table_def scriptAddress_table_def witnessScript_table_def taprootScript_table_def
  baseScript_InternalAccount_def baseScript_Imported_def baseScript_Internal_def scriptAddress_AddrType_def
  scriptAddress_Address_def scriptAddress_AddrHash_def scriptAddress_Compressed_def scriptAddress_Used_def
  witnessScript_AddrType_def witnessScript_Address_def witnessScript_AddrHash_def witnessScript_Compressed_def
  witnessScript_Used_def taprootScript_AddrType_def taprootScript_Address_def taprootScript_AddrHash_def fetchUsed_def

text \<open>The functions by case of Addresses are the calls through these tables.\<close>

lemma methods_dispatch:
  "mt_InternalAccount (methods E m) = InternalAccount m" "mt_Address (methods E m) = Address m"
  "mt_AddrHash (methods E m) = AddrHash E m" "mt_Imported (methods E m) = Imported m"
  "mt_Internal (methods E m) = Internal m" "mt_Compressed (methods E m) = Compressed m"
  "mt_Used (methods E m) ns = Used E ns m" "mt_AddrType (methods E m) = AddrType m"
  by (cases m; simp add: method_defs InternalAccount_def Address_def AddrHash_def Imported_def Internal_def Compressed_def
      Used_def AddrType_def manager_of_def)+

text \<open>
  The interfaces that add methods to \<^verbatim>\<open>ManagedAddress\<close>. The methods that decrypt keep the clear text in the address, so
  they work on the address behind a reference.
\<close>

record ('s, 'a, 'pk, 'sk) ManagedPubKeyAddress = "('s, 'a) method_table" +
  mt_PubKey :: 'pk
  mt_ExportPubKey :: gostring
  mt_PrivKey :: "('s, 'sk) go"
  mt_ExportPrivKey :: "('s, bytes) go"
  mt_DerivationInfo :: "(KeyScope \<times> DerivationPath) option"

record ('s, 'a, 'pk, 'sk) ValidatableManagedAddress = "('s, 'a, 'pk, 'sk) ManagedPubKeyAddress" +
  mt_Validate :: "bytes \<Rightarrow> 'sk \<Rightarrow> ('s, unit) go"

record ('s, 'a) ManagedScriptAddress = "('s, 'a) method_table" +
  mt_Script :: "('s, bytes) go"

record ('s, 'a) ManagedTaprootScriptAddress = "('s, 'a) ManagedScriptAddress" +
  mt_TaprootScript :: "('s, unit) go"

definition managedAddress_PubKey :: "('pk, 'a) managedAddress \<Rightarrow> 'pk" where
  "managedAddress_PubKey a = ma_pubKey a"

definition managedAddress_methods ::
  "('k, 'sk, 'pk, 'a, 'n, 's) env \<Rightarrow> addr_ref \<Rightarrow> ('pk, 'a) managedAddress
   \<Rightarrow> (('k, 'pk, 'a, 'n, 's) world, 'a, 'pk, 'sk) ManagedPubKeyAddress" where
  "managedAddress_methods E r a = method_table.extend (managedAddress_table E a)
     (ManagedPubKeyAddress.fields (managedAddress_PubKey a) (ExportPubKey E a) (PrivKey E r) (ExportPrivKey E r)
        (DerivationInfo a))"

definition validatable_methods ::
  "('k, 'sk, 'pk, 'a, 'n, 's) env \<Rightarrow> addr_ref \<Rightarrow> ('pk, 'a) managedAddress
   \<Rightarrow> (('k, 'pk, 'a, 'n, 's) world, 'a, 'pk, 'sk) ValidatableManagedAddress" where
  "validatable_methods E r a = ManagedPubKeyAddress.extend (managedAddress_methods E r a)
     (ValidatableManagedAddress.fields (\<lambda>msg priv.
        bnd (load_pub r) (\<lambda>a.
        bnd (reads (\<lambda>w. chainParams (mgr w))) (\<lambda>net.
        lift (Validate E net a msg priv)))))"

definition scriptAddress_methods ::
  "('k, 'sk, 'pk, 'a, 'n, 's) env \<Rightarrow> addr_ref \<Rightarrow> 'a scriptAddress
   \<Rightarrow> (('k, 'pk, 'a, 'n, 's) world, 'a) ManagedScriptAddress" where
  "scriptAddress_methods E r a =
     method_table.extend (scriptAddress_table E a) (ManagedScriptAddress.fields (scriptAddress_Script E r))"

definition witnessScript_methods ::
  "('k, 'sk, 'pk, 'a, 'n, 's) env \<Rightarrow> addr_ref \<Rightarrow> 'a witnessScriptAddress
   \<Rightarrow> (('k, 'pk, 'a, 'n, 's) world, 'a) ManagedScriptAddress" where
  "witnessScript_methods E r a =
     method_table.extend (witnessScript_table E a) (ManagedScriptAddress.fields (witnessScriptAddress_Script E r))"

definition taprootScript_methods ::
  "('k, 'sk, 'pk, 'a, 'n, 's) env \<Rightarrow> addr_ref \<Rightarrow> ('pk, 'a) taprootScriptAddress
   \<Rightarrow> (('k, 'pk, 'a, 'n, 's) world, 'a) ManagedTaprootScriptAddress" where
  "taprootScript_methods E r a =
     ManagedScriptAddress.extend
       (method_table.extend (taprootScript_table E a) (ManagedScriptAddress.fields (witnessScriptAddress_Script E r)))
       (ManagedTaprootScriptAddress.fields (TaprootScript_method E r))"

text \<open>A method that decrypts the key changes nothing that another method of the address reports.\<close>

lemma managedAddress_unlock_reports:
  fixes w :: "('k, 'pk, 'a, 'n, 's) world"
  assumes "managedAddress_unlock E r key w = (x, w')" and "r < length (heap w)" and "heap w ! r = PubKeyAddr a"
  shows "\<exists>a'. heap w' ! r = PubKeyAddr a' \<and> managedAddress_methods E r a' = managedAddress_methods E r a
    \<and> mgr w' = mgr w \<and> length (heap w') = length (heap w)"
proof -
  have "managedAddress_methods E r (a\<lparr>ma_privKeyCT := c\<rparr>) = managedAddress_methods E r a" for c
    by (simp add: managedAddress_methods_def managedAddress_table_def managedAddress_PubKey_def ExportPubKey_def pubKeyBytes_def
        managedAddress_AddrHash_def DerivationInfo_def)
  then show ?thesis
    using assms by (auto simp: managedAddress_unlock_def bnd_def load_pub_simps go_simps as_error_def wrap_err_def
        split: if_splits res.splits)
qed

lemma PrivKey_reports:
  fixes w :: "('k, 'pk, 'a, 'n, 's) world"
  assumes "mt_PrivKey (managedAddress_methods E r a) w = (x, w')" and "r < length (heap w)" and "heap w ! r = PubKeyAddr a"
  shows "\<exists>a'. heap w' ! r = PubKeyAddr a' \<and> managedAddress_methods E r a' = managedAddress_methods E r a"
    and "watchingOnly (mgr w) \<or> locked (mgr w) \<Longrightarrow> w' = w \<and> (x = Err (managerError ErrWatchingOnly None) \<or> x = Err (managerError ErrLocked None))"
proof -
  have run: "PrivKey E r w = (x, w')"
    using assms(1) by (simp add: managedAddress_methods_def method_table.defs ManagedPubKeyAddress.defs)
  obtain y w1 where y: "managedAddress_unlock E r (cryptoKeyPriv (mgr w)) w = (y, w1)" by force
  show "\<exists>a'. heap w' ! r = PubKeyAddr a' \<and> managedAddress_methods E r a' = managedAddress_methods E r a"
    using run managedAddress_unlock_reports [OF y assms(2,3)] assms(3)
    by (auto simp: PrivKey_def bnd_def y go_simps split: if_splits res.splits)
  show "watchingOnly (mgr w) \<or> locked (mgr w) \<Longrightarrow> w' = w \<and> (x = Err (managerError ErrWatchingOnly None) \<or> x = Err (managerError ErrLocked None))"
    using run by (auto simp: PrivKey_def bnd_def go_simps split: if_splits)
qed

section \<open>Crypto keys\<close>

text \<open>The interface \<^verbatim>\<open>EncryptorDecryptor\<close> and its implementation by a key. A method that writes returns the new key.\<close>

record EncryptorDecryptor =
  ed_Encrypt :: "bytes \<Rightarrow> (bytes, bytes) go"
  ed_Decrypt :: "bytes \<Rightarrow> bytes result"
  ed_Bytes :: bytes
  ed_CopyBytes :: "bytes \<Rightarrow> bytes"
  ed_Zero :: bytes

definition cryptoKey :: "crypto \<Rightarrow> bytes \<Rightarrow> EncryptorDecryptor" where
  "cryptoKey C ck =
     \<lparr>ed_Encrypt = CryptoKey_Encrypt C ck, ed_Decrypt = CryptoKey_Decrypt C ck, ed_Bytes = cryptoKey_Bytes ck,
      ed_CopyBytes = cryptoKey_CopyBytes ck, ed_Zero = CryptoKey_Zero ck\<rparr>"

definition defaultNewSecretKey :: "crypto \<Rightarrow> bytes \<Rightarrow> ScryptOptions \<Rightarrow> (bytes, SecretKey) go" where
  "defaultNewSecretKey C passphrase config = NewSecretKey C passphrase (opt_N config) (opt_R config) (opt_P config)"

lemma newSecretKey_default: "newSecretKey E passphrase config = random (defaultNewSecretKey (env_crypto E) passphrase config)"
  by (simp add: newSecretKey_def defaultNewSecretKey_def)

section \<open>Declarations without a caller\<close>

text \<open>\<^verbatim>\<open>waddrmgr/sync.go\<close>; a nil argument is dereferenced. A time is its Unix seconds.\<close>

record BlockStamp =
  Height :: "32 word"
  Hash :: bytes
  Timestamp :: u64

record syncState =
  startBlock :: BlockStamp
  syncedTo :: BlockStamp

definition newSyncState :: "BlockStamp option \<Rightarrow> BlockStamp option \<Rightarrow> syncState result" where
  "newSyncState start synced = (case start of
      None \<Rightarrow> Panic
    | Some start \<Rightarrow> (case synced of
          None \<Rightarrow> Panic
        | Some synced \<Rightarrow> Ok \<lparr>startBlock = start, syncedTo = synced\<rparr>))"

text \<open>\<^verbatim>\<open>waddrmgr/tapscript.go\<close>; \<open>'cb\<close> and \<open>'leaf\<close> are types of \<^verbatim>\<open>txscript\<close>.\<close>

type_synonym TapscriptType = byte

definition TapscriptTypeFullTree :: TapscriptType where "TapscriptTypeFullTree = 0"
definition TapscriptTypePartialReveal :: TapscriptType where "TapscriptTypePartialReveal = 1"
definition TaprootKeySpendRootHash :: TapscriptType where "TaprootKeySpendRootHash = 2"
definition TaprootFullKeyOnly :: TapscriptType where "TaprootFullKeyOnly = 3"

record ('cb, 'leaf, 'pk) Tapscript =
  Tapscript_Type :: TapscriptType
  ControlBlock :: "'cb option"
  Leaves :: "'leaf list"
  RevealedScript :: bytes
  RootHash :: bytes
  FullOutputKey :: "'pk option"

text \<open>\<^verbatim>\<open>walletdb/migration/manager.go\<close>: the entries of the table \<open>versions\<close>.\<close>

record 's Version =
  Number :: u32
  Migration :: "bkt \<Rightarrow> ('s, unit) go"

definition version_entries :: "'s Version list" where
  "version_entries = map (\<lambda>(n, f). \<lparr>Number = n, Migration = f\<rparr>) versions"

lemma latest_is_last_version: "Number (last (version_entries :: 's Version list)) = latestMgrVersion"
  by (simp add: version_entries_def versions_def latestMgrVersion_def getLatestVersion_def)

section \<open>Marking an address as used\<close>

text \<open>In \<^verbatim>\<open>btcutil\<close> the script address of an address is its hash, that of a taproot address its witness program.\<close>

definition hash_addresses :: "('k, 'sk, 'pk, 'a, 'n, 's) env \<Rightarrow> bool" where
  "hash_addresses E \<longleftrightarrow> (\<forall>n. addr_ScriptAddress E (AddressPubKeyHash n) = addr_Hash160 E n
     \<and> addr_ScriptAddress E (AddressScriptHash n) = addr_Hash160 E n
     \<and> addr_ScriptAddress E (AddressWitnessPubKeyHash n) = addr_Hash160 E n
     \<and> addr_ScriptAddress E (AddressTaproot n) = addr_WitnessProgram E n)"

text \<open>Public key addresses have the types their constructor knows.\<close>

definition proper :: "('pk, 'a) ManagedAddress \<Rightarrow> bool" where
  "proper m \<longleftrightarrow> (\<forall>p n. m = PubKeyAddr p \<longrightarrow> ma_address p \<noteq> Some (AddressWitnessScriptHash n))"

lemma Used_eq:
  assumes "hash_addresses E" and "proper m" and "Address m = Some a"
  shows "Used E ns m = fetchAddressUsed (env_crypto E) (dbw E) ns (manager_of m) (addr_ScriptAddress E a)"
  using assms
  by (cases m; cases a)
    (auto simp: Used_def AddrHash_def Address_def managedAddress_AddrHash_def hash_addresses_def proper_def manager_of_def)

lemma delete_addr_view:
  "fst (delete_addr scope k w) = Ok ()" "db (snd (delete_addr scope k w)) = db w"
  "map_of (scopedManagers (mgr w)) scope = Some sm \<Longrightarrow>
     \<exists>sm'. map_of (scopedManagers (mgr (snd (delete_addr scope k w)))) scope = Some sm' \<and> map_of (sm_addrs sm') k = None"
  by (simp_all add: delete_addr_def sm_modify_def go_simps map_of_modify delete_conv')

section \<open>Properties\<close>

text \<open>C32: \<^verbatim>\<open>MarkUsed\<close> is seen by \<^verbatim>\<open>Used\<close>. When an address was marked, every managed address of that scope with this
  address reports that it is used, whichever of the four types it has and although \<^verbatim>\<open>MarkUsed\<close> takes the script
  address and \<^verbatim>\<open>Used\<close> the hash; an address with another hash reports what it did before. The scope no longer
  caches the address.\<close>

theorem mark_used_visible:
  fixes w :: "('k, 'pk, 'a, 'n, 's) world" and m :: "('pk, 'a) ManagedAddress"
  assumes "bolt_contract (env_bolt E)" and "crypto_contract (env_crypto E)" and "hash_addresses E"
    and "bolt_Writable (env_bolt E) (db w)" and "scope_ready (view (env_bolt E) (db w)) ns (manager_of m)"
    and "view (env_bolt E) (db w) (used_path ns (manager_of m)) (sha256_Sum256 (env_crypto E) (addr_ScriptAddress E a)) \<noteq> Some Sub"
    and "map_of (scopedManagers (mgr w)) (manager_of m) = Some sm" and "proper m" and "Address m = Some a"
    and "w' = snd (MarkUsed E (manager_of m) ns a w)"
  shows "fst (MarkUsed E (manager_of m) ns a w) = Ok () \<and> fst (Used E ns m w') = Ok True
    \<and> (\<forall>m' a'. manager_of m' = manager_of m \<and> proper m' \<and> Address (m' :: ('pk, 'a) ManagedAddress) = Some a'
        \<and> sha256_Sum256 (env_crypto E) (addr_ScriptAddress E a') \<noteq> sha256_Sum256 (env_crypto E) (addr_ScriptAddress E a)
        \<longrightarrow> fst (Used E ns m' w') = fst (Used E ns m' w))
    \<and> (\<exists>sm'. map_of (scopedManagers (mgr w')) (manager_of m) = Some sm' \<and> map_of (sm_addrs sm') (addr_ScriptAddress E a) = None)"
proof -
  let ?C = "env_crypto E" and ?id = "addr_ScriptAddress E a" and ?scope = "manager_of m"
  let ?h = "sha256_Sum256 ?C ?id" and ?path = "used_path ns ?scope"
  have len: "length ?h = 32" by (rule crypto_contract.sha256_length [OF assms(2)])
  note marks = walletdb_bucket.markAddressUsed_effect [OF dbw_contract [OF assms(1)] _ _ len]
    and reads = walletdb_bucket.fetchAddressUsed_effect [OF dbw_contract [OF assms(1)]]
  obtain w1 where w1: "markAddressUsed ?C (dbw E) ns ?scope ?id w = (Ok (), w1)"
      "view (env_bolt E) (db w1) = (if view (env_bolt E) (db w) ?path ?h = None
        then vput (view (env_bolt E) (db w)) ?path ?h (Val [0]) else view (env_bolt E) (db w))"
    using marks [OF assms(4,5,6)] by (cases "markAddressUsed ?C (dbw E) ns ?scope ?id w") auto
  have mgr: "mgr w1 = mgr w"
    using only_dbD(1) [OF only_db_ops(10), of ?C E ns ?scope ?id w] w1(1) by simp
  have run: "MarkUsed E ?scope ns a w = delete_addr ?scope ?id w1"
    by (simp add: MarkUsed_def Let_def bnd_def wrap_err_def w1(1))
  have w': "w' = snd (delete_addr ?scope ?id w1)" using run assms(10) by simp
  have view: "view (env_bolt E) (db w') = view (env_bolt E) (db w1)" by (simp add: w' delete_addr_view)
  have ready: "scope_ready (view (env_bolt E) (db w')) ns ?scope" using assms(5) by (simp add: view w1(2))
  have used: "\<exists>v. view (env_bolt E) (db w') ?path ?h = Some (Val v)"
    using assms(6) by (auto simp: view w1(2)) (metis entry.exhaust)
  have "fst (MarkUsed E ?scope ns a w) = Ok ()" by (simp add: run delete_addr_view)
  moreover have "fst (Used E ns m w') = Ok True"
    using used reads [OF ready, of ?C ?id] by (simp add: Used_eq [OF assms(3,8,9)])
  moreover have "fst (Used E ns m' w') = fst (Used E ns m' w)"
    if "manager_of m' = ?scope" "proper m'" "Address m' = Some a'" "sha256_Sum256 ?C (addr_ScriptAddress E a') \<noteq> ?h"
    for m' :: "('pk, 'a) ManagedAddress" and a'
    using that reads [OF ready, of ?C "addr_ScriptAddress E a'"] reads [OF assms(5), of ?C "addr_ScriptAddress E a'"]
    by (simp add: Used_eq [OF assms(3) that(2,3)] view w1(2))
  moreover have "\<exists>sm'. map_of (scopedManagers (mgr w')) ?scope = Some sm' \<and> map_of (sm_addrs sm') ?id = None"
    using delete_addr_view(3) [of w1 ?scope sm ?id] assms(7) by (simp add: w' mgr)
  ultimately show ?thesis by blast
qed

definition example_hash_lib :: "(nat, nat, nat, nat, nat, mem) env" where
  "example_hash_lib = example_hd\<lparr>addr_ScriptAddress := \<lambda>a. case a of AddressPubKeyHash n \<Rightarrow> [word_of_nat n]
     | AddressScriptHash n \<Rightarrow> [word_of_nat n] | AddressWitnessPubKeyHash n \<Rightarrow> [word_of_nat n]
     | AddressTaproot n \<Rightarrow> [word_of_nat n] | AddressWitnessScriptHash n \<Rightarrow> [word_of_nat n]\<rparr>"

definition example_marked :: "(nat, nat, nat, nat, mem) world" where
  "example_marked = example_world\<lparr>mgr := example_mgr\<lparr>scopedManagers :=
     [(example_scope, new_scoped example_scope \<lparr>ExternalAddrType = WitnessPubKey, InternalAddrType = WitnessPubKey\<rparr>)]\<rparr>\<rparr>"

definition example_script_addr :: "(nat, nat) ManagedAddress" where
  "example_script_addr = ScriptAddr \<lparr>sa_base = new_base example_scope 0 [], sa_address = 9\<rparr>"

theorem mark_used_visible_witness:
  "fst (Used example_hash_lib example_ns example_script_addr
     (snd (MarkUsed example_hash_lib example_scope example_ns (AddressScriptHash 9) example_marked))) = Ok True"
proof -
  have lib: "bolt_contract (env_bolt example_hash_lib)" "crypto_contract (env_crypto example_hash_lib)" "hash_addresses example_hash_lib"
    using mem.bolt_contract_axioms ref_crypto.crypto_contract_axioms
    by (simp_all add: example_hash_lib_def hash_addresses_def example_hd_def)
  have addr: "manager_of example_script_addr = example_scope" "proper example_script_addr"
      "Address example_script_addr = Some (AddressScriptHash 9)"
    by (simp_all add: example_script_addr_def manager_of_def new_base_def proper_def Address_def)
  have db: "db example_marked = example_created" "env_bolt example_hash_lib = memB"
    by (simp_all add: example_marked_def example_world_def example_hash_lib_def example_hd_def)
  have "bolt_Writable memB example_created" using example_created(1) by simp
  moreover have "view memB example_created (used_path example_ns example_scope) h \<noteq> Some Sub" for h
    by (simp add: example_scope_empty scopeSubBuckets_def del: view_memB)
  moreover have "map_of (scopedManagers (mgr example_marked)) example_scope
      = Some (new_scoped example_scope \<lparr>ExternalAddrType = WitnessPubKey, InternalAddrType = WitnessPubKey\<rparr>)"
    by (simp add: example_marked_def)
  ultimately show ?thesis
    using mark_used_visible [OF lib, of example_marked example_ns example_script_addr "AddressScriptHash 9"] example_scope_ready addr
    by (simp only: db addr) blast
qed

end
