(* ===== verification/Spec2Isabelle.thy ===== *)
theory Spec2Isabelle
  imports Program AccountSessions Original WatchingWallet LockCycle NoAddresses Transactions Accessors
begin

text \<open>
  A Bitcoin wallet in Go: an address manager with its encrypted keys in a key-value database, a wallet
  with its goroutines on top, a loader that creates, opens and unloads the wallet, and the program around it.

  \<^bold>\<open>How the program is put together.\<close> \<^verbatim>\<open>btc-wallet.go\<close> reads the configuration (\<^verbatim>\<open>config.go\<close>), makes a
  \<^verbatim>\<open>wallet.Loader\<close>, registers callbacks on it, starts the RPC listeners (\<^verbatim>\<open>rpcserver.go\<close>) and opens the wallet;
  an interrupt (\<^verbatim>\<open>signal.go\<close>) unloads it. The loader (\<^verbatim>\<open>wallet/loader.go\<close>) opens the database file through
  \<^verbatim>\<open>walletdb\<close>, whose driver \<^verbatim>\<open>walletdb/bdb\<close> wraps bbolt, and calls \<^verbatim>\<open>wallet.Create\<close> and \<^verbatim>\<open>wallet.Open\<close>
  (\<^verbatim>\<open>wallet/wallet.go\<close>), which run in one transaction each. They call the address manager
  (\<^verbatim>\<open>waddrmgr/manager.go\<close>), which keeps one scoped manager per BIP 43 purpose
  (\<^verbatim>\<open>waddrmgr/scoped_manager.go\<close>), stores everything in nested buckets (\<^verbatim>\<open>waddrmgr/db.go\<close>,
  \<^verbatim>\<open>account_info.go\<close>) and seals keys with \<^verbatim>\<open>snacl\<close>.

  \<^bold>\<open>How the model is laid out.\<close> A stateful Go function is a state-passing program over an outcome: a value, an
  error, a panic, or a call that does not return (\<open>res\<close>, \<open>go\<close> in Prelude and Errors). An error keeps the state it
  was raised in, so a half-finished update stays visible. Fixed-width integers are words, byte arrays and
  slices are byte lists, reads past a slice are panics. The theories, in the order of their imports:

  \<^item> Prelude: Go types, outcomes and the monad, slices, \<^verbatim>\<open>encoding/binary\<close>; the collections
    \<open>go_simps\<close>, \<open>codec_simps\<close> and \<open>db_simps\<close>.
  \<^item> Errors: \<^verbatim>\<open>waddrmgr/error.go\<close>, \<^verbatim>\<open>walletdb/errors.go\<close>.
  \<^item> Snacl: \<^verbatim>\<open>snacl/snacl.go\<close>, \<^verbatim>\<open>internal/zero\<close>, \<^verbatim>\<open>waddrmgr/crypto_key.go\<close>. The primitives (secretbox, scrypt,
    SHA-2) are a record whose documented laws are the locale \<open>crypto_contract\<close>.
  \<^item> Walletdb: \<^verbatim>\<open>walletdb/interface.go\<close> and \<^verbatim>\<open>walletdb/bdb\<close>. The laws of bbolt are the locales
    \<open>bolt_contract\<close> and \<open>boltdb_contract\<close>; the driver's buckets are proved to satisfy the client interface
    \<open>walletdb_bucket\<close>, from which every later lemma on the database is proved. A view maps a bucket path and a
    key to what is stored there.
  \<^item> Codec: the row formats of \<^verbatim>\<open>waddrmgr/db.go\<close> and \<^verbatim>\<open>account_info.go\<close>.
  \<^item> MgrDb, AcctDb: the namespace of the manager, and its accounts and addresses, as effects on views.
  \<^item> Keys: the records of the managers, the key scopes, key derivation. btcutil, hdkeychain, btcec and
    txscript are the fields of the record \<open>env\<close>.
  \<^item> Addresses: \<^verbatim>\<open>address_managed.go\<close>, \<^verbatim>\<open>address_script.go\<close>, \<^verbatim>\<open>address_witness.go\<close>, \<^verbatim>\<open>tlv.go\<close>; the managed addresses are
    on a heap, since the account records, the cache and the list of keys to derive share them.
  \<^item> ScopedManager, Manager: \<^verbatim>\<open>scoped_manager.go\<close> and \<^verbatim>\<open>manager.go\<close>, one definition per method.
  \<^item> MgrLock: the state machine of \<^verbatim>\<open>Lock\<close> and \<^verbatim>\<open>Unlock\<close> over every method of the managers.
  \<^item> MgrCreate: \<^verbatim>\<open>Create\<close>, \<^verbatim>\<open>Open\<close> and \<^verbatim>\<open>Unlock\<close> in sequence, as total correctness (\<open>gives\<close>) over states that are
    described by their view and the random bytes they have left (\<open>sees\<close>).
  \<^item> WatchingWallet: a manager created without a root key, opened, and a key scope added to it.
  \<^item> LockCycle: any sequence of calls of \<^verbatim>\<open>Lock\<close> and \<^verbatim>\<open>Unlock\<close> on a created and opened manager, against a lock with
    two states.
  \<^item> NewAccounts: \<^verbatim>\<open>NewAccount\<close> on an unlocked manager. AccountBook: any sequence of calls of \<^verbatim>\<open>NewAccount\<close> and
    \<^verbatim>\<open>LookupAccount\<close>, with the manager opened anew in between, against a list of names. AccountSessions: the same calls
    grouped into updates of the database, some of which fail.
  \<^item> NoAddresses: what follows from the network an opened manager does not have, as an invariant of its operations.
  \<^item> Accessors: the one-line methods of the addresses and of the scoped manager, the method tables of the interface
    \<^verbatim>\<open>ManagedAddress\<close>, \<^verbatim>\<open>MarkUsed\<close> and \<^verbatim>\<open>Used\<close> together; \<^verbatim>\<open>sync.go\<close>, \<^verbatim>\<open>tapscript.go\<close> and \<^verbatim>\<open>walletdb/migration\<close>.
  \<^item> Transactions: the interfaces \<^verbatim>\<open>DB\<close>, \<^verbatim>\<open>ReadTx\<close>, \<^verbatim>\<open>ReadWriteTx\<close>, \<^verbatim>\<open>ReadWriteCursor\<close> and the driver's explicit
    transactions, cursors and sequence numbers.
  \<^item> WalletSync: the goroutines of \<^verbatim>\<open>wallet/wallet.go\<close> as threads with program counters over channels, a mutex and
    a WaitGroup with its waiters and its two panics, a count below zero and an \<^verbatim>\<open>Add\<close> while a released waiter has not
    returned; \<^verbatim>\<open>Start\<close> releases the mutex, adds to the group and starts its two goroutines in separate steps. A run is any
    list of thread steps and calls.
  \<^item> Loader: \<^verbatim>\<open>wallet.create\<close>, \<^verbatim>\<open>OpenWithRetry\<close>, \<^verbatim>\<open>wallet/loader.go\<close> and \<^verbatim>\<open>wallet/disksync.go\<close> over a process that holds the
    open databases and a file system (locale \<open>wallet_files\<close>).
  \<^item> WalletLife: \<^verbatim>\<open>CreateNewWallet\<close> in one process and \<^verbatim>\<open>OpenExistingWallet\<close> in another, connected by the file alone
    (locales \<open>wallet_disk\<close> and \<open>wallet_process\<close>, on top of \<open>wallet_files\<close>).
  \<^item> Keystore: \<^verbatim>\<open>internal/legacy/keystore\<close>.
  \<^item> App: version, signals, configuration, wallet set-up, RPC listeners, \<^verbatim>\<open>walletMain\<close> with the callback it hands to
    \<^verbatim>\<open>RunAfterLoad\<close>. That a service is registered on a gRPC server before the server serves, or the process ends, is the
    locale \<open>grpc_server\<close>; whether a goroutine of the server runs before the callback is an argument of the program.
  \<^item> Program: a run with \<^verbatim>\<open>--create\<close> and a run that serves the wallet (locale \<open>program_files\<close>, on top of \<open>wallet_process\<close>).
  \<^item> Original: the stand-alone functions of \<^verbatim>\<open>original\<close>, over files with the laws of the locale \<open>os_files\<close>.

  \<^bold>\<open>What the lemmas show.\<close>
  \<^item> Secrets: what is encrypted is decrypted, the password recovers the key that was marshalled, a wrong
    password is refused (Snacl); a locked manager holds no private key in every reachable state, \<^verbatim>\<open>Lock\<close> zeroes
    what \<^verbatim>\<open>Unlock\<close> needs to decrypt again, and \<^verbatim>\<open>Unlock\<close> accepts the right passphrase only (MgrLock), in every sequence of calls (LockCycle).
  \<^item> Storage: an update is all or nothing (Walletdb), and so is the same work in an explicit transaction (Transactions); rows, records and accounts are read back as they were
    stored and leave the others alone (Codec, MgrDb, AcctDb).
  \<^item> The life of a wallet: a manager that was created opens and unlocks with its two passphrases and with no
    others, and gives back its root key and the derived keys of its accounts (MgrCreate), also when another process
    opens the file the first one left (WalletLife); a watching-only
    manager has no private record, cannot be unlocked and keeps the scopes it is given (WatchingWallet); new accounts
    are numbered in order (NewAccounts) and the accounts of a scope are a list of names, across openings (AccountBook) and
    across transactions, each all or nothing (AccountSessions); the loader implements a three-state specification (Loader);
    stopping ends the goroutines of a wallet under every schedule (WalletSync); an interrupt ends
    the program (App), and a program that created a wallet serves it at its next start (Program).
  \<^item> Defects the model found are theorems too: address rows that can never be read, batches of addresses that
    always fail, a manager that can make no address at all (NoAddresses), a derivation loop that does not end, a restart that deadlocks, a wallet that cannot be loaded again
    after it was unloaded, a first account that replaces the default one. They are listed with their source lines
    in the project's manifest.

  \<^bold>\<open>Bounds and fuel.\<close> The random source is a finite byte list: \<^verbatim>\<open>Create\<close> draws 88 bytes for the public side and
    608 for the private one (four scopes of 96), \<^verbatim>\<open>Open\<close> 32, so 728 are assumed for both, and 120
    for a manager without private keys; \<^verbatim>\<open>NewAccount\<close> draws 48. The
    inner loop of \<^verbatim>\<open>nextAddresses\<close> has the outcome \<open>Hang\<close> exactly where the code repeats itself without change. The
    goroutines need no fuel: a step function is iterated over a schedule, and the number of steps to
    the end of a stopped wallet is at most nine times the number of its threads.

  \<^bold>\<open>Not modelled.\<close> Printing and formatting of messages, and time beyond the stamps that are stored. Mutexes of the
  managers: each method holds one for its whole duration, so a method is a single step. The key cache
  \<^verbatim>\<open>privKeyCache\<close>, which is made and never used. Of the driver: \<^verbatim>\<open>bucket.Tx\<close>, which wraps a pointer. Generated RPC
  code, and \<^verbatim>\<open>startChainRPC\<close>, which does not compile. What lies behind a network in the manager, loading the accounts of a
  created wallet into memory and deriving their addresses, has its definitions in ScopedManager and Addresses; the
  code never gets there on an opened manager (NoAddresses).
\<close>

end
